(* ===== verification/Prelude.thy ===== *)
theory Prelude
  imports Main "HOL-Library.Word" "HOL-Library.Finite_Map" "HOL-Library.List_Lexorder"
begin

text \<open>
  Shared vocabulary of the development: machine integers at the widths the Rust code uses,
  results with the \<open>?\<close> operator, checked and saturating arithmetic, fixed-width byte encodings,
  LMDB tables as finite maps with their cursor, and two generic contracts (locales): a step that
  keeps an invariant, and a step that has an inverse. Components interpret the contracts on their
  own operations and get the statements about whole sequences of steps from them.
\<close>

section \<open>Machine integers and results\<close>

type_synonym u8 = "8 word"
type_synonym u16 = "16 word"
type_synonym u32 = "32 word"
type_synonym u64 = "64 word"
type_synonym hash256 = "256 word"
type_synonym bytes = "8 word list"

named_theorems res_simps
  \<comment> \<open>unfolding of the result combinators\<close>

text \<open>Rust's \<open>?\<close>: continue with the value, or return the error.\<close>

definition and_then :: "'e + 'a \<Rightarrow> ('a \<Rightarrow> 'e + 'b) \<Rightarrow> 'e + 'b" where
  "and_then m f = (case m of Inl e \<Rightarrow> Inl e | Inr x \<Rightarrow> f x)"

lemma and_then_Inl [simp]: "and_then (Inl e) f = Inl e"
  by (simp add: and_then_def)

lemma and_then_Inr [simp]: "and_then (Inr x) f = f x"
  by (simp add: and_then_def)

lemma and_then_eq_Inr [res_simps]:
  "and_then m f = Inr y \<longleftrightarrow> (\<exists>x. m = Inr x \<and> f x = Inr y)"
  by (cases m) simp_all

lemma and_then_eq_Inl [res_simps]:
  "and_then m f = Inl e \<longleftrightarrow> m = Inl e \<or> (\<exists>x. m = Inr x \<and> f x = Inl e)"
  by (cases m) auto

lemma and_then_assoc: "and_then (and_then m f) g = and_then m (\<lambda>x. and_then (f x) g)"
  by (cases m) simp_all

lemma and_then_cong [fundef_cong]:
  "m = m' \<Longrightarrow> (\<And>x. m' = Inr x \<Longrightarrow> f x = g x) \<Longrightarrow> and_then m f = and_then m' g"
  by (cases m') auto

text \<open>\<open>ok_or\<close>: an optional value or the given error; \<open>ensure\<close>: an early return on a failed guard.\<close>

definition ok_or :: "'e \<Rightarrow> 'a option \<Rightarrow> 'e + 'a" where
  "ok_or e x = (case x of None \<Rightarrow> Inl e | Some v \<Rightarrow> Inr v)"

lemma ok_or_simps [simp]: "ok_or e None = Inl e" "ok_or e (Some v) = Inr v"
  by (simp_all add: ok_or_def)

lemma ok_or_eq_Inr [res_simps]: "ok_or e x = Inr v \<longleftrightarrow> x = Some v"
  by (cases x) simp_all

definition ensure :: "bool \<Rightarrow> 'e \<Rightarrow> 'e + unit" where
  "ensure b e = (if b then Inr () else Inl e)"

lemma ensure_simps [simp]: "ensure True e = Inr ()" "ensure False e = Inl e"
  by (simp_all add: ensure_def)

lemma ensure_eq_Inr [res_simps]: "ensure b e = Inr u \<longleftrightarrow> b"
  by (simp add: ensure_def)

lemma ensure_eq_Inl [res_simps]: "ensure b e = Inl e' \<longleftrightarrow> \<not> b \<and> e' = e"
  by (auto simp: ensure_def)

text \<open>A \<open>for\<close> loop whose body may return an error: the loop stops at the first one.\<close>

fun try_fold :: "('x \<Rightarrow> 's \<Rightarrow> 'e + 's) \<Rightarrow> 'x list \<Rightarrow> 's \<Rightarrow> 'e + 's" where
  "try_fold f [] s = Inr s"
| "try_fold f (x # xs) s = and_then (f x s) (try_fold f xs)"

lemma try_fold_append:
  "try_fold f (xs @ ys) s = and_then (try_fold f xs s) (try_fold f ys)"
  by (induction xs arbitrary: s) (auto simp: and_then_assoc intro!: and_then_cong)

lemma try_fold_cong [fundef_cong]:
  "xs = ys \<Longrightarrow> s = t \<Longrightarrow> (\<And>x u. x \<in> set ys \<Longrightarrow> f x u = g x u) \<Longrightarrow> try_fold f xs s = try_fold g ys t"
  by (induction ys arbitrary: xs s t) (auto intro!: and_then_cong)

text \<open>A loop of checks passes when every check does.\<close>

lemma try_fold_checks [res_simps]:
  "try_fold (\<lambda>x _. f x) xs () = Inr u \<longleftrightarrow> (\<forall>x \<in> set xs. f x = Inr ())"
  by (induction xs) (auto simp: and_then_eq_Inr)

lemma try_fold_total:
  "(\<And>x s. x \<in> set xs \<Longrightarrow> f x s = Inr (g x s)) \<Longrightarrow> try_fold f xs s = Inr (fold g xs s)"
  by (induction xs arbitrary: s) simp_all

text \<open>A loop that adds up amounts gives the checked sum, or fails.\<close>

lemma try_fold_sum:
  fixes v :: "'x \<Rightarrow> 'n::len word" and a b :: "'n word"
  assumes "\<And>x a b. f x a = Inr b \<longleftrightarrow> ok x \<and> unat b = unat a + unat (v x)"
  shows "try_fold f xs a = Inr b \<longleftrightarrow>
     list_all ok xs \<and> unat b = unat a + (\<Sum>x\<leftarrow>xs. unat (v x))"
proof (induction xs arbitrary: a)
  case Nil
  show ?case by (auto simp: word_unat_eq_iff)
next
  case (Cons x xs)
  have bound: "\<exists>c :: 'n word. unat c = unat a + unat (v x)" if "unat b = unat a + (unat (v x) + m)" for m
  proof -
    have "unat a + unat (v x) \<le> unat b" using that by simp
    also have "unat b < 2 ^ LENGTH('n)" by (rule unsigned_less)
    finally have "unat (a + v x) = unat a + unat (v x)"
      by (simp add: unat_word_ariths)
    then show ?thesis by blast
  qed
  have "try_fold f (x # xs) a = Inr b \<longleftrightarrow>
      (\<exists>c :: 'n word. ok x \<and> unat c = unat a + unat (v x) \<and>
         list_all ok xs \<and> unat b = unat c + (\<Sum>x\<leftarrow>xs. unat (v x)))"
    by (auto simp: and_then_eq_Inr assms Cons.IH)
  then show ?case using bound by (auto simp: add.assoc)
qed

text \<open>\<open>iter().map(f).collect::<Result<Vec<_>, _>>()\<close>.\<close>

fun try_map :: "('x \<Rightarrow> 'e + 'y) \<Rightarrow> 'x list \<Rightarrow> 'e + 'y list" where
  "try_map f [] = Inr []"
| "try_map f (x # xs) = and_then (f x) (\<lambda>y. and_then (try_map f xs) (\<lambda>ys. Inr (y # ys)))"

lemma try_map_length: "try_map f xs = Inr ys \<Longrightarrow> length ys = length xs"
  by (induction xs arbitrary: ys) (auto simp: res_simps)

lemma try_map_nth: "try_map f xs = Inr ys \<Longrightarrow> i < length xs \<Longrightarrow> f (xs ! i) = Inr (ys ! i)"
  by (induction xs arbitrary: ys i) (auto simp: res_simps nth_Cons split: nat.splits)

lemma list_all2_left: "list_all2 P xs ys \<Longrightarrow> x \<in> set xs \<Longrightarrow> \<exists>y \<in> set ys. P x y"
  by (induction rule: list_all2_induct) auto

lemma list_all2_right: "list_all2 P xs ys \<Longrightarrow> y \<in> set ys \<Longrightarrow> \<exists>x \<in> set xs. P x y"
  by (induction rule: list_all2_induct) auto

lemma try_map_iff: "try_map f xs = Inr ys \<longleftrightarrow> list_all2 (\<lambda>x y. f x = Inr y) xs ys"
  by (induction xs arbitrary: ys) (auto simp: res_simps list_all2_Cons1)

lemma try_map_in_set:
  "try_map f xs = Inr ys \<Longrightarrow> y \<in> set ys \<Longrightarrow> \<exists>x \<in> set xs. f x = Inr y"
  by (induction xs arbitrary: ys) (auto simp: res_simps)

text \<open>An operation fails with an error value of its component, or panics (\<open>assert!\<close>, \<open>expect\<close>,
  an overflowing \<open>Amount\<close> operator). Either way the database transaction is not committed.\<close>

datatype 'e fault = Fail 'e | Panic string

definition map_fault :: "('e \<Rightarrow> 'f) \<Rightarrow> 'e fault + 'a \<Rightarrow> 'f fault + 'a" where
  "map_fault f r = (case r of
     Inl (Fail e) \<Rightarrow> Inl (Fail (f e)) | Inl (Panic m) \<Rightarrow> Inl (Panic m) | Inr x \<Rightarrow> Inr x)"

lemma map_fault_Inr [simp]: "map_fault f (Inr x) = Inr x"
  by (simp add: map_fault_def)

lemma map_fault_eq_Inr [res_simps]: "map_fault f r = Inr x \<longleftrightarrow> r = Inr x"
  by (auto simp: map_fault_def split: sum.splits fault.splits)

text \<open>\<open>enumerate()\<close> with the index cast to \<open>u32\<close>.\<close>

definition enumerate_u32 :: "'a list \<Rightarrow> (u32 \<times> 'a) list" where
  "enumerate_u32 xs = map (\<lambda>(i, x). (word_of_nat i, x)) (enumerate 0 xs)"

lemma map_snd_enumerate_u32 [simp]: "map snd (enumerate_u32 xs) = xs"
  by (simp add: enumerate_u32_def enumerate_eq_zip comp_def case_prod_unfold)

lemma length_enumerate_u32 [simp]: "length (enumerate_u32 xs) = length xs"
  by (simp add: enumerate_u32_def)

lemma enumerate_u32_Nil [simp]: "enumerate_u32 [] = []"
  by (simp add: enumerate_u32_def)

text \<open>Up to \<open>2 ^ 32\<close> entries the indices are distinct.\<close>

lemma distinct_enumerate_u32:
  "length xs \<le> 2 ^ 32 \<Longrightarrow> distinct (map fst (enumerate_u32 xs))"
proof -
  assume le: "length xs \<le> 2 ^ 32"
  have "map fst (enumerate_u32 xs) = map (word_of_nat :: nat \<Rightarrow> u32) [0..<length xs]"
    by (rule nth_equalityI) (simp_all add: enumerate_u32_def nth_enumerate_eq)
  moreover have "inj_on (word_of_nat :: nat \<Rightarrow> u32) {0..<length xs}"
  proof (rule inj_onI)
    fix i j assume i: "i \<in> {0..<length xs}" and j: "j \<in> {0..<length xs}"
      and eq: "(word_of_nat i :: u32) = word_of_nat j"
    have "unat (word_of_nat n :: u32) = n" if "n < length xs" for n
      using that le by (simp add: unat_of_nat)
    with i j have "unat (word_of_nat i :: u32) = i" "unat (word_of_nat j :: u32) = j" by auto
    with eq show "i = j" by metis
  qed
  ultimately show ?thesis by (simp add: distinct_map)
qed

lemma sorted_le_last: "sorted xs \<Longrightarrow> x \<in> set xs \<Longrightarrow> x \<le> last xs"
  by (induction xs) auto

section \<open>Checked arithmetic\<close>

text \<open>
  \<open>checked_add\<close>, \<open>checked_sub\<close> and \<open>saturating_add\<close> of an unsigned integer of width \<open>'n\<close>.
  A \<^verbatim>\<open>bitcoin::Amount\<close> is a \<open>u64\<close> number of satoshis with the same checked operations.
\<close>

type_synonym amount = u64

definition checked_add :: "'n::len word \<Rightarrow> 'n word \<Rightarrow> 'n word option" where
  "checked_add a b = (if unat a + unat b < 2 ^ LENGTH('n) then Some (a + b) else None)"

definition checked_sub :: "'n::len word \<Rightarrow> 'n word \<Rightarrow> 'n word option" where
  "checked_sub a b = (if b \<le> a then Some (a - b) else None)"

definition saturating_add :: "'n::len word \<Rightarrow> 'n word \<Rightarrow> 'n word" where
  "saturating_add a b = (if unat a + unat b < 2 ^ LENGTH('n) then a + b else - 1)"

lemma checked_add_Some:
  "checked_add a b = Some c \<longleftrightarrow> unat c = unat a + unat b"
  for a b c :: "'n::len word"
proof
  assume "checked_add a b = Some c"
  then show "unat c = unat a + unat b"
    by (auto simp: checked_add_def unat_word_ariths split: if_splits)
next
  assume c: "unat c = unat a + unat b"
  then have "unat a + unat b < 2 ^ LENGTH('n)"
    by (metis unsigned_less)
  moreover have "c = a + b"
    using c calculation by (simp add: unat_word_ariths word_unat_eq_iff)
  ultimately show "checked_add a b = Some c"
    by (simp add: checked_add_def)
qed

lemma checked_sub_Some:
  "checked_sub a b = Some c \<longleftrightarrow> unat a = unat b + unat c"
  for a b c :: "'n::len word"
proof
  assume "checked_sub a b = Some c"
  then have "b \<le> a" "c = a - b"
    by (auto simp: checked_sub_def split: if_splits)
  then show "unat a = unat b + unat c"
    by (simp add: unat_sub word_le_nat_alt)
next
  assume *: "unat a = unat b + unat c"
  then have "b \<le> a" by (simp add: word_le_nat_alt)
  moreover have "c = a - b"
    using * calculation by (simp add: unat_sub word_unat_eq_iff)
  ultimately show "checked_sub a b = Some c"
    by (simp add: checked_sub_def)
qed

lemma unat_saturating_add:
  "unat (saturating_add a b) = min (unat a + unat b) (2 ^ LENGTH('n) - 1)"
  for a b :: "'n::len word"
  by (auto simp: saturating_add_def unat_word_ariths unsigned_minus_1_eq_mask mask_eq_exp_minus_1 min_def)

text \<open>\<open>try_fold(ZERO, checked_add)\<close>: the sum of the amounts, or \<open>None\<close> on overflow.\<close>

fun checked_sum_from :: "amount \<Rightarrow> amount list \<Rightarrow> amount option" where
  "checked_sum_from acc [] = Some acc"
| "checked_sum_from acc (v # vs) =
     (case checked_add acc v of None \<Rightarrow> None | Some acc' \<Rightarrow> checked_sum_from acc' vs)"

abbreviation checked_sum :: "amount list \<Rightarrow> amount option" where
  "checked_sum \<equiv> checked_sum_from 0"

lemma checked_sum_from_Some:
  "checked_sum_from acc vs = Some t \<longleftrightarrow> unat t = unat acc + (\<Sum>v\<leftarrow>vs. unat v)"
proof (induction vs arbitrary: acc)
  case Nil
  then show ?case by (auto simp: word_unat_eq_iff)
next
  case (Cons v vs)
  show ?case
  proof (cases "checked_add acc v")
    case None
    then have "\<not> unat acc + unat v < 2 ^ 64"
      by (auto simp: checked_add_def split: if_splits)
    moreover have "unat t < 2 ^ 64"
      using unsigned_less [of t] by simp
    ultimately show ?thesis using None by simp
  next
    case (Some a)
    then have "unat a = unat acc + unat v"
      by (simp add: checked_add_Some)
    with Some Cons.IH [of a] show ?thesis by (simp add: add.assoc)
  qed
qed

lemma checked_sum_Some: "checked_sum vs = Some t \<longleftrightarrow> unat t = (\<Sum>v\<leftarrow>vs. unat v)"
  by (simp add: checked_sum_from_Some)

section \<open>Fixed-width byte encodings\<close>

text \<open>\<open>to_le_bytes\<close> over \<open>n\<close> bytes; the big-endian form is its reverse.\<close>

fun le_bytes :: "nat \<Rightarrow> nat \<Rightarrow> bytes" where
  "le_bytes 0 x = []"
| "le_bytes (Suc n) x = word_of_nat x # le_bytes n (x div 256)"

fun of_le_bytes :: "bytes \<Rightarrow> nat" where
  "of_le_bytes [] = 0"
| "of_le_bytes (b # bs) = unat b + 256 * of_le_bytes bs"

definition be_bytes :: "nat \<Rightarrow> nat \<Rightarrow> bytes" where
  "be_bytes n x = rev (le_bytes n x)"

definition of_be_bytes :: "bytes \<Rightarrow> nat" where
  "of_be_bytes bs = of_le_bytes (rev bs)"

lemma length_le_bytes [simp]: "length (le_bytes n x) = n"
  by (induction n arbitrary: x) simp_all

lemma length_be_bytes [simp]: "length (be_bytes n x) = n"
  by (simp add: be_bytes_def)

lemma of_le_bytes_le_bytes: "of_le_bytes (le_bytes n x) = x mod 256 ^ n"
proof (induction n arbitrary: x)
  case 0
  show ?case by simp
next
  case (Suc n)
  have "x mod 256 ^ Suc n = x mod 256 + 256 * (x div 256 mod 256 ^ n)"
    using mod_mult2_eq [of x 256 "256 ^ n"] by simp
  then show ?case by (simp add: Suc.IH unat_of_nat)
qed

lemma le_bytes_of_le_bytes: "length bs = n \<Longrightarrow> le_bytes n (of_le_bytes bs) = bs"
proof (induction bs arbitrary: n)
  case Nil
  then show ?case by simp
next
  case (Cons b bs)
  have b: "unat b < 256" using unsigned_less [of b] by simp
  have "unat (word_of_nat (unat b + 256 * of_le_bytes bs) :: u8) = unat b"
    unfolding unat_of_nat using b by simp
  then have "word_of_nat (unat b + 256 * of_le_bytes bs) = b"
    by (rule word_unat_eq_iff [THEN iffD2])
  moreover have "(unat b + 256 * of_le_bytes bs) div 256 = of_le_bytes bs"
    using b by simp
  ultimately show ?case using Cons by auto
qed

lemma of_le_bytes_bound: "of_le_bytes bs < 256 ^ length bs"
proof (induction bs)
  case Nil
  show ?case by simp
next
  case (Cons b bs)
  have "unat b < 256" using unsigned_less [of b] by simp
  with Cons show ?case by simp
qed

lemma le_bytes_word_inverse:
  "8 * n = LENGTH('n) \<Longrightarrow> word_of_nat (of_le_bytes (le_bytes n (unat w))) = (w :: 'n::len word)"
proof -
  assume n: "8 * n = LENGTH('n)"
  have "(256 :: nat) ^ n = 2 ^ LENGTH('n)"
    by (simp flip: n add: power_mult)
  then show ?thesis
    using unsigned_less [of w] by (simp add: of_le_bytes_le_bytes)
qed

lemma be_bytes_word_inverse:
  "8 * n = LENGTH('n) \<Longrightarrow> word_of_nat (of_be_bytes (be_bytes n (unat w))) = (w :: 'n::len word)"
  by (simp add: of_be_bytes_def be_bytes_def le_bytes_word_inverse)

section \<open>LMDB tables\<close>

text \<open>
  A table (\<^verbatim>\<open>DatabaseUnique\<close>) is a finite map: \<open>try_get\<close> is \<open>fmlookup\<close>, \<open>put\<close> is \<open>fmupd\<close>,
  \<open>delete\<close> is \<open>fmdrop\<close> (its boolean says whether the key was there). A cursor runs over the
  entries in key order: \<open>db_iter\<close>. I/O failures of the database are not modelled.
\<close>

type_synonym ('k, 'v) db = "('k, 'v) fmap"

definition db_iter :: "('k::linorder, 'v) db \<Rightarrow> ('k \<times> 'v) list" where
  "db_iter m = sorted_list_of_fmap m"

definition db_has :: "('k, 'v) db \<Rightarrow> 'k \<Rightarrow> bool" where
  "db_has m k = (fmlookup m k \<noteq> None)"

lemma map_of_db_iter [simp]: "map_of (db_iter m) = fmlookup m"
  by (simp add: db_iter_def)

lemma db_iter_keys: "map fst (db_iter m) = sorted_list_of_fset (fmdom m)"
  by (simp add: db_iter_def sorted_list_of_fmap_def comp_def)

lemma distinct_db_iter [simp]: "distinct (map fst (db_iter m))"
  by (simp add: db_iter_keys sorted_list_of_fset.rep_eq)

lemma set_db_iter: "(k, v) \<in> set (db_iter m) \<longleftrightarrow> fmlookup m k = Some v"
  by (metis distinct_db_iter map_of_db_iter map_of_eq_Some_iff)

lemma db_iter_empty [simp]: "db_iter fmempty = []"
  by (simp add: db_iter_def sorted_list_of_fmap_def sorted_list_of_fset.rep_eq)

lemma sorted_list_of_fset_finsert:
  "sorted_list_of_fset (finsert x A) = insort x (sorted_list_of_fset (A |-| {|x|}))"
  by (simp add: sorted_list_of_fset.rep_eq sorted_list_of_set_insert_remove)

lemma db_drop_put_fresh: "fmlookup m k = None \<Longrightarrow> fmdrop k (fmupd k v m) = m"
  by (rule fmap_ext) simp

lemma db_put_drop: "fmlookup m k = Some v \<Longrightarrow> fmupd k v (fmdrop k m) = m"
  by (rule fmap_ext) auto

lemma db_put_put [simp]: "fmupd k v (fmupd k w m) = fmupd k v m"
  by (rule fmap_ext) simp

lemma db_put_drop_same [simp]: "fmupd k v (fmdrop k m) = fmupd k v m"
  by (rule fmap_ext) simp

lemma db_put_same: "fmlookup m k = Some v \<Longrightarrow> fmupd k v m = m"
  by (rule fmap_ext) auto

lemma db_drop_none: "fmlookup m k = None \<Longrightarrow> fmdrop k m = m"
  by (rule fmap_ext) simp

lemma fcard_fmdrop: "fmlookup m k = Some v \<Longrightarrow> fcard (fmdom (fmdrop k m)) < fcard (fmdom m)"
  by (metis fcard_fminus1_less fmdom_drop fmdomI)

lemma lookup_fold_fmdrop:
  "fmlookup (fold fmdrop ks m) k = (if k \<in> set ks then None else fmlookup m k)"
  by (induction ks arbitrary: m) auto

lemma lookup_fold_fmupd:
  "fmlookup (fold (\<lambda>k. fmupd k v) ks m) k = (if k \<in> set ks then Some v else fmlookup m k)"
  by (induction ks arbitrary: m) auto

lemma set_map_filter: "set (List.map_filter f xs) = {y. \<exists>x \<in> set xs. f x = Some y}"
  by (induction xs) (auto simp: map_filter_def split: option.splits)

section \<open>Contracts of steps\<close>

text \<open>
  A step that keeps an invariant keeps it over a whole loop.
\<close>

locale keeps_invariant =
  fixes step :: "'x \<Rightarrow> 's \<Rightarrow> 'e + 's"
    and inv :: "'s \<Rightarrow> bool"
  assumes step_inv: "inv s \<Longrightarrow> step x s = Inr s' \<Longrightarrow> inv s'"
begin

lemma fold_inv: "inv s \<Longrightarrow> try_fold step xs s = Inr s' \<Longrightarrow> inv s'"
  by (induction xs arbitrary: s) (auto simp: res_simps dest: step_inv)

end

text \<open>
  A step with an inverse: undoing the last step of a run gives the state before it, so undoing
  the whole run, last step first, gives the state it started from. \<open>pre\<close> is what the forward
  step needs to be undone exactly.
\<close>

locale undoable =
  fixes step :: "'x \<Rightarrow> 's \<Rightarrow> 'e + 's"
    and undo :: "'x \<Rightarrow> 's \<Rightarrow> 'e + 's"
    and pre :: "'x \<Rightarrow> 's \<Rightarrow> bool"
  assumes undo_step: "pre x s \<Longrightarrow> step x s = Inr s' \<Longrightarrow> undo x s' = Inr s"
begin

fun pre_run :: "'x list \<Rightarrow> 's \<Rightarrow> bool" where
  "pre_run [] s = True"
| "pre_run (x # xs) s = (pre x s \<and> (\<forall>s'. step x s = Inr s' \<longrightarrow> pre_run xs s'))"

lemma undo_run:
  "pre_run xs s \<Longrightarrow> try_fold step xs s = Inr s' \<Longrightarrow> try_fold undo (rev xs) s' = Inr s"
proof (induction xs arbitrary: s)
  case Nil
  then show ?case by simp
next
  case (Cons x xs)
  then obtain t where t: "step x s = Inr t" and r: "try_fold step xs t = Inr s'"
    by (auto simp: res_simps)
  from Cons.prems t have "pre_run xs t" and p: "pre x s" by auto
  with Cons.IH r have "try_fold undo (rev xs) s' = Inr t" by blast
  moreover from p t have "undo x t = Inr s" by (rule undo_step)
  ultimately show ?case by (simp add: try_fold_append)
qed

end

end
