(* ===== verification/Swap_Types.thy ===== *)
theory Swap_Types
  imports Prelude
begin

text \<open>
  The swap data structures of \<^verbatim>\<open>lib/types/swap.rs\<close>: identifiers, parent chains and their
  parameters, the swap record and its state machine, reservations, and L1 transaction ids with
  their two byte orders. BLAKE3 and the hex codec are parameters.
\<close>

section \<open>Identifiers\<close>

type_synonym Address = "160 word"
type_synonym BlockHash = hash256
type_synonym Txid = hash256
type_synonym MerkleRoot = hash256
type_synonym SwapId = hash256

definition string_bytes :: "string \<Rightarrow> bytes" where
  "string_bytes s = map of_char s"

definition address_bytes :: "Address \<Rightarrow> bytes" where
  "address_bytes a = be_bytes 20 (unat a)"

definition amount_le_bytes :: "amount \<Rightarrow> bytes" where
  "amount_le_bytes a = le_bytes 8 (unat a)"

text \<open>The bytes that \<open>from_l2_to_l1\<close> hashes, and the identifier.\<close>

definition swap_id_data :: "string \<Rightarrow> amount \<Rightarrow> Address \<Rightarrow> Address option \<Rightarrow> bytes" where
  "swap_id_data l1_recipient l1_amt l2_sender l2_recip =
     string_bytes l1_recipient @ amount_le_bytes l1_amt @ address_bytes l2_sender @
     (case l2_recip of
        Some r \<Rightarrow> address_bytes r
      | None \<Rightarrow> string_bytes ''OPEN_SWAP'')"

definition from_l2_to_l1 ::
  "(bytes \<Rightarrow> hash256) \<Rightarrow> string \<Rightarrow> amount \<Rightarrow> Address \<Rightarrow> Address option \<Rightarrow> SwapId" where
  "from_l2_to_l1 blake l1_recipient l1_amt l2_sender l2_recip =
     blake (swap_id_data l1_recipient l1_amt l2_sender l2_recip)"

definition from_l1_to_l2 :: "(bytes \<Rightarrow> hash256) \<Rightarrow> bytes \<Rightarrow> Address \<Rightarrow> SwapId" where
  "from_l1_to_l2 blake txid_bytes l2_recip = blake (txid_bytes @ address_bytes l2_recip)"

section \<open>Parent chains\<close>

datatype SwapDirection = L1ToL2 | L2ToL1

datatype ParentChainType = BTC | BCH | LTC | Signet | Regtest

fun default_confirmations :: "ParentChainType \<Rightarrow> u32" where
  "default_confirmations BTC = 6"
| "default_confirmations _ = 3"

fun default_swap_expiration_blocks :: "ParentChainType \<Rightarrow> u32" where
  "default_swap_expiration_blocks BTC = 1008"
| "default_swap_expiration_blocks Regtest = 50"
| "default_swap_expiration_blocks _ = 432"

fun accept_expiration_blocks :: "ParentChainType \<Rightarrow> u32" where
  "accept_expiration_blocks BTC = 144"
| "accept_expiration_blocks BCH = 72"
| "accept_expiration_blocks LTC = 72"
| "accept_expiration_blocks Signet = 72"
| "accept_expiration_blocks Regtest = 20"

fun max_l1_tx_age_blocks :: "ParentChainType \<Rightarrow> u32" where
  "max_l1_tx_age_blocks BTC = 2016"
| "max_l1_tx_age_blocks BCH = 2016"
| "max_l1_tx_age_blocks LTC = 8064"
| "max_l1_tx_age_blocks Signet = 2016"
| "max_l1_tx_age_blocks Regtest = 500"

datatype BitcoinNetwork = NetBitcoin | NetSignet | NetRegtest

fun to_bitcoin_network :: "ParentChainType \<Rightarrow> BitcoinNetwork" where
  "to_bitcoin_network BTC = NetBitcoin"
| "to_bitcoin_network Signet = NetSignet"
| "to_bitcoin_network Regtest = NetRegtest"
| "to_bitcoin_network BCH = NetBitcoin"
| "to_bitcoin_network LTC = NetBitcoin"

fun default_rpc_port :: "ParentChainType \<Rightarrow> u16" where
  "default_rpc_port BTC = 8332"
| "default_rpc_port BCH = 8332"
| "default_rpc_port LTC = 9332"
| "default_rpc_port Signet = 38332"
| "default_rpc_port Regtest = 18443"

fun coin_name :: "ParentChainType \<Rightarrow> string" where
  "coin_name BTC = ''Bitcoin''"
| "coin_name BCH = ''Bitcoin Cash''"
| "coin_name LTC = ''Litecoin''"
| "coin_name Signet = ''Bitcoin Signet''"
| "coin_name Regtest = ''Bitcoin Regtest''"

definition sats_per_coin :: "ParentChainType \<Rightarrow> u64" where
  "sats_per_coin c = 100000000"

fun ticker :: "ParentChainType \<Rightarrow> string" where
  "ticker BTC = ''BTC''"
| "ticker BCH = ''BCH''"
| "ticker LTC = ''LTC''"
| "ticker Signet = ''sBTC''"
| "ticker Regtest = ''rBTC''"

fun default_rpc_url_hint :: "ParentChainType \<Rightarrow> string" where
  "default_rpc_url_hint BTC = ''http://localhost:8332''"
| "default_rpc_url_hint BCH = ''http://localhost:8332''"
| "default_rpc_url_hint LTC = ''http://localhost:9332''"
| "default_rpc_url_hint Signet = ''http://localhost:38332''"
| "default_rpc_url_hint Regtest = ''http://localhost:18443''"

definition all_chains :: "ParentChainType list" where
  "all_chains = [BTC, BCH, LTC, Signet, Regtest]"

section \<open>Swap states and reservations\<close>

datatype SwapState =
    Pending
  | WaitingConfirmations u32 u32
  | ReadyToClaim
  | Completed
  | Cancelled

fun current_confirmations :: "SwapState \<Rightarrow> u32 option" where
  "current_confirmations (WaitingConfirmations current _) = Some current"
| "current_confirmations _ = None"

fun state_required_confirmations :: "SwapState \<Rightarrow> u32 option" where
  "state_required_confirmations (WaitingConfirmations _ required) = Some required"
| "state_required_confirmations _ = None"

record SwapReservation =
  claimer :: Address
  accepted_at_height :: u32

definition expires_at :: "SwapReservation \<Rightarrow> ParentChainType \<Rightarrow> u32" where
  "expires_at r chain = saturating_add (accepted_at_height r) (accept_expiration_blocks chain)"

definition is_live_at :: "SwapReservation \<Rightarrow> ParentChainType \<Rightarrow> u32 \<Rightarrow> bool" where
  "is_live_at r chain height = (height < expires_at r chain)"

section \<open>L1 transaction ids\<close>

text \<open>
  \<open>Hash32\<close> holds the 32 bytes of a txid in canonical order, \<open>Hash\<close> any other length. Bitcoin's
  RPC interface shows the bytes reversed.
\<close>

datatype SwapTxId = Hash32 bytes | Hash bytes

definition reversed_32 :: "bytes \<Rightarrow> bytes" where
  "reversed_32 bs = rev bs"

definition from_bitcoin_txid :: "bytes \<Rightarrow> SwapTxId" where
  "from_bitcoin_txid txid = Hash32 (reversed_32 txid)"

definition from_bytes :: "bytes \<Rightarrow> SwapTxId" where
  "from_bytes bs = (if length bs = 32 then Hash32 bs else Hash bs)"

fun to_bitcoin_txid :: "SwapTxId \<Rightarrow> bytes option" where
  "to_bitcoin_txid (Hash32 h) = Some (reversed_32 h)"
| "to_bitcoin_txid (Hash _) = None"

text \<open>\<open>str::trim\<close> on ASCII text.\<close>

definition is_ws :: "char \<Rightarrow> bool" where
  "is_ws c = ((of_char c :: nat) = 32 \<or> (9 \<le> (of_char c :: nat) \<and> (of_char c :: nat) \<le> 13))"

definition trim :: "string \<Rightarrow> string" where
  "trim s = rev (dropWhile is_ws (rev (dropWhile is_ws s)))"

datatype HexTxidError =
    NotSixtyFourChars nat
  | InvalidHex
  | NotThirtyTwoBytes nat

text \<open>
  The common part of \<open>from_hex\<close> and \<open>from_hex_rpc\<close>: 64 characters that decode to 32 bytes.
  \<open>decode\<close> is \<^verbatim>\<open>hex::decode\<close>.
\<close>

definition txid_hex_bytes :: "(string \<Rightarrow> bytes option) \<Rightarrow> string \<Rightarrow> HexTxidError + bytes" where
  "txid_hex_bytes decode hex_str =
     (let s = trim hex_str in
      if length s \<noteq> 64 then Inl (NotSixtyFourChars (length s))
      else case decode s of
             None \<Rightarrow> Inl InvalidHex
           | Some bs \<Rightarrow> if length bs \<noteq> 32 then Inl (NotThirtyTwoBytes (length bs)) else Inr bs)"

definition from_hex :: "(string \<Rightarrow> bytes option) \<Rightarrow> string \<Rightarrow> HexTxidError + SwapTxId" where
  "from_hex decode hex_str =
     and_then (txid_hex_bytes decode hex_str) (\<lambda>bs. Inr (from_bytes bs))"

definition from_hex_rpc :: "(string \<Rightarrow> bytes option) \<Rightarrow> string \<Rightarrow> HexTxidError + SwapTxId" where
  "from_hex_rpc decode hex_str =
     and_then (txid_hex_bytes decode hex_str) (\<lambda>bs. Inr (Hash32 (reversed_32 bs)))"

fun to_hex :: "(bytes \<Rightarrow> string) \<Rightarrow> SwapTxId \<Rightarrow> string" where
  "to_hex encode (Hash32 h) = encode h"
| "to_hex encode (Hash bs) = encode bs"

fun to_hex_rpc :: "(bytes \<Rightarrow> string) \<Rightarrow> SwapTxId \<Rightarrow> string" where
  "to_hex_rpc encode (Hash32 h) = encode (reversed_32 h)"
| "to_hex_rpc encode (Hash bs) =
     (if length bs = 32 then encode (reversed_32 bs) else encode bs)"

text \<open>The all-zero txid of a swap that no L1 transaction fills yet (\<open>has_l1_tx\<close>, \<open>is_new\<close>).\<close>

fun is_zero_txid :: "SwapTxId \<Rightarrow> bool" where
  "is_zero_txid (Hash32 h) = (h = replicate 32 0)"
| "is_zero_txid (Hash v) = (v = [] \<or> list_all (\<lambda>b. b = 0) v)"

text \<open>The variants carry what the Rust types carry: exactly 32 bytes in \<open>Hash32\<close>.\<close>

fun txid_wf :: "SwapTxId \<Rightarrow> bool" where
  "txid_wf (Hash32 h) = (length h = 32)"
| "txid_wf (Hash bs) = True"

section \<open>The swap record\<close>

record Swap =
  sw_id :: SwapId
  direction :: SwapDirection
  parent_chain :: ParentChainType
  l1_txid :: SwapTxId
  required_confirmations :: u32
  sw_state :: SwapState
  l2_recipient :: "Address option"
  l2_amount :: amount
  l1_recipient_address :: string
  l1_amount :: amount
  l1_claimer_address :: "string option"
  l2_claimer_address :: "Address option"
  created_at_height :: u32
  expires_at_height :: "u32 option"
  l1_txid_validated_at_block_hash :: "BlockHash option"
  l1_txid_validated_at_height :: "u32 option"
  l2_creator_address :: "Address option"

definition Swap_new ::
  "SwapId \<Rightarrow> SwapDirection \<Rightarrow> ParentChainType \<Rightarrow> SwapTxId \<Rightarrow> u32 option \<Rightarrow> Address option \<Rightarrow> amount \<Rightarrow>
   string \<Rightarrow> amount \<Rightarrow> u32 \<Rightarrow> u32 option \<Rightarrow> Address option \<Rightarrow> Swap" where
  "Swap_new i dir chain txid req recip l2_amt l1_addr l1_amt created expires creator =
     \<lparr>sw_id = i, direction = dir, parent_chain = chain, l1_txid = txid,
      required_confirmations = (case req of Some r \<Rightarrow> r | None \<Rightarrow> default_confirmations chain),
      sw_state = Pending, l2_recipient = recip, l2_amount = l2_amt,
      l1_recipient_address = l1_addr, l1_amount = l1_amt, l1_claimer_address = None,
      l2_claimer_address = None, created_at_height = created, expires_at_height = expires,
      l1_txid_validated_at_block_hash = None, l1_txid_validated_at_height = None,
      l2_creator_address = creator\<rparr>"

definition mark_completed :: "Swap \<Rightarrow> Swap" where
  "mark_completed s = s\<lparr>sw_state := Completed\<rparr>"

definition update_l1_txid :: "SwapTxId \<Rightarrow> Swap \<Rightarrow> Swap" where
  "update_l1_txid txid s = s\<lparr>l1_txid := txid\<rparr>"

definition update_l1_transaction :: "SwapTxId \<Rightarrow> string \<Rightarrow> Swap \<Rightarrow> Swap" where
  "update_l1_transaction txid addr s = s\<lparr>l1_txid := txid, l1_claimer_address := Some addr\<rparr>"

definition set_l2_claimer_address :: "Address \<Rightarrow> Swap \<Rightarrow> Swap" where
  "set_l2_claimer_address a s = s\<lparr>l2_claimer_address := Some a\<rparr>"

definition set_l1_txid_validation_block :: "BlockHash \<Rightarrow> u32 \<Rightarrow> Swap \<Rightarrow> Swap" where
  "set_l1_txid_validation_block h ht s =
     s\<lparr>l1_txid_validated_at_block_hash := Some h, l1_txid_validated_at_height := Some ht\<rparr>"

lemmas swap_update_defs =
  mark_completed_def update_l1_txid_def update_l1_transaction_def
  set_l2_claimer_address_def set_l1_txid_validation_block_def

section \<open>Lemmas\<close>

lemma length_address_bytes [simp]: "length (address_bytes a) = 20"
  by (simp add: address_bytes_def)

lemma length_amount_le_bytes [simp]: "length (amount_le_bytes a) = 8"
  by (simp add: amount_le_bytes_def)

lemma address_bytes_inj [simp]: "address_bytes a = address_bytes b \<longleftrightarrow> a = b"
proof
  assume "address_bytes a = address_bytes b"
  then have "word_of_nat (of_be_bytes (be_bytes 20 (unat a))) =
    (word_of_nat (of_be_bytes (be_bytes 20 (unat b))) :: Address)"
    by (simp only: address_bytes_def)
  then show "a = b"
    by (subst (asm) (1 2) be_bytes_word_inverse) simp_all
qed simp

lemma amount_le_bytes_inj [simp]: "amount_le_bytes a = amount_le_bytes b \<longleftrightarrow> a = b"
proof
  assume "amount_le_bytes a = amount_le_bytes b"
  then have "word_of_nat (of_le_bytes (le_bytes 8 (unat a))) =
    (word_of_nat (of_le_bytes (le_bytes 8 (unat b))) :: amount)"
    by (simp only: amount_le_bytes_def)
  then show "a = b"
    by (subst (asm) (1 2) le_bytes_word_inverse) simp_all
qed simp

lemma unat_of_char_u8: "unat (of_char c :: u8) = of_char c"
  using unat_of_nat [where 'a = 8, of "of_char c"] by (simp add: of_nat_of_char)

lemma string_bytes_inj [simp]: "string_bytes s = string_bytes t \<longleftrightarrow> s = t"
proof -
  have "inj (of_char :: char \<Rightarrow> u8)"
    by (rule injI) (metis unat_of_char_u8 of_char_eq_iff)
  then show ?thesis by (simp only: string_bytes_def inj_map_eq_map)
qed

lemma length_string_bytes [simp]: "length (string_bytes s) = length s"
  by (simp add: string_bytes_def)

text \<open>
  Where both swaps are open, or both have a recipient, the parts after the L1 address have fixed
  widths, so the hashed bytes determine the address, the amount and the parties.
\<close>

lemma swap_id_data_inj_open:
  "swap_id_data a n s None = swap_id_data a' n' s' None \<Longrightarrow> a = a' \<and> n = n' \<and> s = s'"
  by (auto simp: swap_id_data_def append_eq_append_conv)

lemma swap_id_data_inj_recipient:
  "swap_id_data a n s (Some r) = swap_id_data a' n' s' (Some r') \<Longrightarrow>
     a = a' \<and> n = n' \<and> s = s' \<and> r = r'"
  by (auto simp: swap_id_data_def append_eq_append_conv)

lemma is_live_at_iff:
  "is_live_at r chain h \<longleftrightarrow>
     unat h < min (unat (accepted_at_height r) + unat (accept_expiration_blocks chain)) (2 ^ 32 - 1)"
  by (simp add: is_live_at_def expires_at_def word_less_nat_alt unat_saturating_add)

lemma reversed_32_involutive [simp]: "reversed_32 (reversed_32 bs) = bs"
  by (simp add: reversed_32_def)

lemma length_reversed_32 [simp]: "length (reversed_32 bs) = length bs"
  by (simp add: reversed_32_def)

lemma trim_id: "list_all (\<lambda>c. \<not> is_ws c) s \<Longrightarrow> trim s = s"
proof -
  assume *: "list_all (\<lambda>c. \<not> is_ws c) s"
  have drop: "dropWhile is_ws xs = xs" if "list_all (\<lambda>c. \<not> is_ws c) xs" for xs
    using that by (cases xs) simp_all
  show ?thesis using * by (simp add: trim_def drop list_all_rev)
qed

section \<open>The hex codec as an interface\<close>

text \<open>What the txid functions rely on in \<^verbatim>\<open>hex\<close>: decoding inverts encoding, two characters per
  byte, and no white space.\<close>

locale hex_codec =
  fixes encode :: "bytes \<Rightarrow> string"
    and decode :: "string \<Rightarrow> bytes option"
  assumes decode_encode: "decode (encode bs) = Some bs"
    and length_encode: "length (encode bs) = 2 * length bs"
    and encode_no_ws: "list_all (\<lambda>c. \<not> is_ws c) (encode bs)"
begin

lemma txid_hex_bytes_encode: "length h = 32 \<Longrightarrow> txid_hex_bytes decode (encode h) = Inr h"
  by (simp add: txid_hex_bytes_def trim_id encode_no_ws length_encode decode_encode)

lemma from_hex_to_hex:
  "length h = 32 \<Longrightarrow> from_hex decode (to_hex encode (Hash32 h)) = Inr (Hash32 h)"
  by (simp add: from_hex_def txid_hex_bytes_encode from_bytes_def)

lemma from_hex_rpc_to_hex_rpc:
  "length h = 32 \<Longrightarrow> from_hex_rpc decode (to_hex_rpc encode (Hash32 h)) = Inr (Hash32 h)"
  by (simp add: from_hex_rpc_def txid_hex_bytes_encode)

lemma rpc_order_is_reversed:
  "length h = 32 \<Longrightarrow> from_hex_rpc decode (encode h) = from_hex decode (encode (reversed_32 h))"
  by (simp add: from_hex_rpc_def from_hex_def txid_hex_bytes_encode from_bytes_def)

end

text \<open>A lower-case hexadecimal codec that reads both cases, for concrete inputs.\<close>

definition hex_digit :: "nat \<Rightarrow> char" where
  "hex_digit n = ''0123456789abcdef'' ! n"

definition hex_value :: "char \<Rightarrow> nat option" where
  "hex_value c =
     (let n = of_char c in
      if 48 \<le> n \<and> n \<le> 57 then Some (n - 48)
      else if 97 \<le> n \<and> n \<le> 102 then Some (n - 87)
      else if 65 \<le> n \<and> n \<le> 70 then Some (n - 55)
      else None)"

fun hex_encode :: "bytes \<Rightarrow> string" where
  "hex_encode [] = []"
| "hex_encode (b # bs) = hex_digit (unat b div 16) # hex_digit (unat b mod 16) # hex_encode bs"

fun hex_decode :: "string \<Rightarrow> bytes option" where
  "hex_decode [] = Some []"
| "hex_decode [_] = None"
| "hex_decode (c # d # cs) =
     (case (hex_value c, hex_value d, hex_decode cs) of
        (Some x, Some y, Some bs) \<Rightarrow> Some (word_of_nat (16 * x + y) # bs)
      | _ \<Rightarrow> None)"

lemma hex_value_digit: "n < 16 \<Longrightarrow> hex_value (hex_digit n) = Some n \<and> \<not> is_ws (hex_digit n)"
proof -
  have "\<forall>n < 16. hex_value (hex_digit n) = Some n \<and> \<not> is_ws (hex_digit n)"
    by code_simp
  then show "n < 16 \<Longrightarrow> ?thesis" by blast
qed

lemma u8_nibbles: "unat b div 16 < 16" "unat b mod 16 < 16"
    "word_of_nat (16 * (unat b div 16) + unat b mod 16) = b" for b :: u8
proof -
  have "unat b < 256" using unsigned_less [of b] by simp
  then show "unat b div 16 < 16" by simp
  show "unat b mod 16 < 16" by simp
  have *: "16 * (unat b div 16) + unat b mod 16 = unat b" by simp
  show "word_of_nat (16 * (unat b div 16) + unat b mod 16) = b"
    unfolding * by simp
qed

interpretation hex: hex_codec hex_encode hex_decode
proof unfold_locales
  fix bs
  show "hex_decode (hex_encode bs) = Some bs"
    by (induction bs) (simp_all add: hex_value_digit u8_nibbles)
  show "length (hex_encode bs) = 2 * length bs"
    by (induction bs) simp_all
  show "list_all (\<lambda>c. \<not> is_ws c) (hex_encode bs)"
    by (induction bs) (simp_all add: hex_value_digit u8_nibbles)
qed

end
