(* ===== verification/Tx_Types.thy ===== *)
theory Tx_Types
  imports Swap_Types
begin

text \<open>
  Transactions (\<^verbatim>\<open>lib/types/transaction.rs\<close>), block headers and bodies, the accumulator diff
  (\<^verbatim>\<open>lib/types/mod.rs\<close>) and authorizations (\<^verbatim>\<open>lib/authorization.rs\<close>). What comes from other
  crates is the record \<open>ext\<close> of functions that every definition using it takes as an argument.
\<close>

section \<open>Outpoints\<close>

text \<open>A mainchain outpoint is a pair of a txid and an output index.\<close>

type_synonym BitcoinOutPoint = "hash256 \<times> u32"

datatype OutPoint =
    OpRegular Txid u32
  | OpCoinbase MerkleRoot u32
  | OpDeposit BitcoinOutPoint

text \<open>The canonical Borsh encoding: the variant's tag, 32 bytes, and the index in four
  little-endian bytes. It is the key of the UTXO tables, ordered byte by byte.\<close>

definition hash_bytes :: "hash256 \<Rightarrow> bytes" where
  "hash_bytes h = be_bytes 32 (unat h)"

definition u32_le_bytes :: "u32 \<Rightarrow> bytes" where
  "u32_le_bytes n = le_bytes 4 (unat n)"

definition outpoint_key_size :: nat where
  "outpoint_key_size = 37"

fun OutPointKey_from :: "OutPoint \<Rightarrow> bytes" where
  "OutPointKey_from (OpRegular txid vout) = 0 # hash_bytes txid @ u32_le_bytes vout"
| "OutPointKey_from (OpCoinbase mr vout) = 1 # hash_bytes mr @ u32_le_bytes vout"
| "OutPointKey_from (OpDeposit (txid, vout)) = 2 # hash_bytes txid @ u32_le_bytes vout"

text \<open>Reading a key back; \<open>None\<close> is the \<open>expect\<close> that a key never fails to decode, and the error
  of \<open>bytes_decode\<close> on a wrong length or an unknown tag.\<close>

definition OutPoint_decode :: "bytes \<Rightarrow> OutPoint option" where
  "OutPoint_decode bs =
     (if length bs \<noteq> outpoint_key_size then None
      else let tag = hd bs; h = word_of_nat (of_be_bytes (take 32 (tl bs)));
               n = word_of_nat (of_le_bytes (drop 32 (tl bs)))
           in if tag = 0 then Some (OpRegular h n)
              else if tag = 1 then Some (OpCoinbase h n)
              else if tag = 2 then Some (OpDeposit (h, n))
              else None)"

lemma length_hash_bytes [simp]: "length (hash_bytes h) = 32"
  by (simp add: hash_bytes_def)

lemma length_u32_le_bytes [simp]: "length (u32_le_bytes n) = 4"
  by (simp add: u32_le_bytes_def)

lemma hash_bytes_inverse [simp]: "word_of_nat (of_be_bytes (hash_bytes h)) = h"
  unfolding hash_bytes_def by (rule be_bytes_word_inverse) simp

lemma u32_le_bytes_inverse [simp]: "word_of_nat (of_le_bytes (u32_le_bytes n)) = n"
  unfolding u32_le_bytes_def by (rule le_bytes_word_inverse) simp

lemma OutPointKey_length: "length (OutPointKey_from op) = outpoint_key_size"
  by (cases op rule: OutPointKey_from.cases) (simp_all add: outpoint_key_size_def)

lemma OutPoint_decode_key: "OutPoint_decode (OutPointKey_from op) = Some op"
  by (cases op rule: OutPointKey_from.cases)
    (simp_all add: OutPoint_decode_def outpoint_key_size_def Let_def)

lemma OutPointKey_inj: "OutPointKey_from a = OutPointKey_from b \<longleftrightarrow> a = b"
  by (metis OutPoint_decode_key option.inject)

text \<open>Table cursors visit outpoints in the order of their keys.\<close>

definition outpoint_le :: "OutPoint \<Rightarrow> OutPoint \<Rightarrow> bool" where
  "outpoint_le a b \<longleftrightarrow> OutPointKey_from a \<le> OutPointKey_from b"

instantiation OutPoint :: linorder
begin

definition less_eq_OutPoint :: "OutPoint \<Rightarrow> OutPoint \<Rightarrow> bool" where
  "less_eq_OutPoint = outpoint_le"

definition less_OutPoint :: "OutPoint \<Rightarrow> OutPoint \<Rightarrow> bool" where
  "less_OutPoint a b \<longleftrightarrow> outpoint_le a b \<and> \<not> outpoint_le b a"

instance
proof
  fix a b c :: OutPoint
  note defs = less_OutPoint_def less_eq_OutPoint_def outpoint_le_def
  show "(a < b) = (a \<le> b \<and> \<not> b \<le> a)" by (simp add: less_OutPoint_def less_eq_OutPoint_def)
  show "a \<le> a" by (simp add: defs)
  show "a \<le> b \<Longrightarrow> b \<le> c \<Longrightarrow> a \<le> c" by (simp add: defs)
  show "a \<le> b \<Longrightarrow> b \<le> a \<Longrightarrow> a = b"
    unfolding defs by (metis OutPointKey_inj antisym)
  show "a \<le> b \<or> b \<le> a" unfolding defs by (rule linear)
qed

end

section \<open>Outputs and transactions\<close>

type_synonym M6id = hash256

datatype InPoint = InRegular Txid u32 | InWithdrawal M6id

text \<open>A mainchain address (\<^verbatim>\<open>bitcoin::Address\<close>) in an opaque encoding; its script and its
  place in the order of addresses are functions of the record \<open>ext\<close> below.\<close>

type_synonym MainAddress = bytes

datatype Content =
    Value amount
  | Withdrawal amount amount MainAddress
  | SwapPending amount SwapId

fun is_value :: "Content \<Rightarrow> bool" where
  "is_value (Value _) = True"
| "is_value _ = False"

fun is_withdrawal :: "Content \<Rightarrow> bool" where
  "is_withdrawal (Withdrawal _ _ _) = True"
| "is_withdrawal _ = False"

fun is_swap_pending :: "Content \<Rightarrow> bool" where
  "is_swap_pending (SwapPending _ _) = True"
| "is_swap_pending _ = False"

text \<open>\<open>Amount::MAX\<close> stands in where payout and mainchain fee overflow.\<close>

fun content_value :: "Content \<Rightarrow> amount" where
  "content_value (Value v) = v"
| "content_value (Withdrawal v main_fee _) =
     (case checked_add v main_fee of Some t \<Rightarrow> t | None \<Rightarrow> - 1)"
| "content_value (SwapPending v _) = v"

datatype TxData =
    Regular
  | SwapCreate SwapId ParentChainType bytes u32 "Address option" u64 string u64
    \<comment> \<open>\<open>swap_id\<close>, \<open>parent_chain\<close>, \<open>l1_txid_bytes\<close>, \<open>required_confirmations\<close>, \<open>l2_recipient\<close>,
      \<open>l2_amount\<close>, \<open>l1_recipient_address\<close>, \<open>l1_amount\<close>\<close>
  | SwapClaim SwapId "Address option" "bytes option"
    \<comment> \<open>\<open>swap_id\<close>, \<open>l2_claimer_address\<close>, \<open>proof_data\<close>\<close>
  | SwapAccept SwapId Address
    \<comment> \<open>\<open>swap_id\<close>, \<open>l2_claimer_address\<close>\<close>

fun is_swap_claim :: "TxData \<Rightarrow> bool" where
  "is_swap_claim (SwapClaim _ _ _) = True"
| "is_swap_claim _ = False"

record Output =
  address :: Address
  content :: Content

definition get_value :: "Output \<Rightarrow> amount" where
  "get_value o' = content_value (content o')"

text \<open>A Utreexo proof: targets and hashes.\<close>

type_synonym UtreexoProof = "u64 list \<times> hash256 list"

record Transaction =
  inputs :: "(OutPoint \<times> hash256) list"
  utreexo_proof :: UtreexoProof
  outputs :: "Output list"
  data :: TxData

record SpentOutput =
  spent_output :: Output
  inpoint :: InPoint

record FilledTransaction =
  transaction :: Transaction
  spent_utxos :: "Output list"

datatype ComputeFeeError = Underfunded | ValueInOverflow | ValueOutOverflow

definition get_value_in :: "FilledTransaction \<Rightarrow> amount option" where
  "get_value_in ft = checked_sum (map get_value (spent_utxos ft))"

definition get_value_out :: "FilledTransaction \<Rightarrow> amount option" where
  "get_value_out ft = checked_sum (map get_value (outputs (transaction ft)))"

definition get_fee :: "FilledTransaction \<Rightarrow> ComputeFeeError + amount" where
  "get_fee ft =
     and_then (ok_or ValueInOverflow (get_value_in ft)) (\<lambda>value_in.
     and_then (ok_or ValueOutOverflow (get_value_out ft)) (\<lambda>value_out.
     if value_in < value_out then Inl Underfunded else Inr (value_in - value_out)))"

definition filled_inputs :: "FilledTransaction \<Rightarrow> (OutPoint \<times> hash256 \<times> Output) list" where
  "filled_inputs ft =
     map (\<lambda>((op, h), out). (op, h, out)) (zip (inputs (transaction ft)) (spent_utxos ft))"

text \<open>A value in a table: one that decodes, or bytes that do not.\<close>

datatype 'a stored = Decodes 'a | Undecodable

section \<open>Authorizations, headers and bodies\<close>

record Authorization =
  verifying_key :: bytes
  signature :: bytes

record AuthorizedTransaction =
  auth_transaction :: Transaction
  authorizations :: "Authorization list"

record Header =
  merkle_root :: MerkleRoot
  prev_side_hash :: "BlockHash option"
  prev_main_hash :: hash256
  roots :: "hash256 list"

record Body =
  coinbase :: "Output list"
  transactions :: "Transaction list"
  body_authorizations :: "Authorization list"

record CbmtNode =
  commitment :: hash256
  fees :: amount
  canonical_size :: u64
  cbmt_index :: nat

text \<open>
  What the code calls in other crates: BLAKE3 and the Borsh encodings it hashes, the complete
  binary Merkle tree, the Utreexo forest, the address of a key and the batch verification of
  (key, signature, message) triples, the \<open>f64\<close> growth of the block limits, \<^verbatim>\<open>hex::decode\<close>, what
  \<^verbatim>\<open>bincode\<close> reads back from a swap it wrote, the script and the rank of a mainchain address, and the id and weight of a mainchain transaction with the given
  outputs.
\<close>

record 'acc ext =
  blake3 :: "bytes \<Rightarrow> hash256"
  borsh_tx :: "Transaction \<Rightarrow> bytes"
  borsh_pointed_output :: "OutPoint \<times> Output \<Rightarrow> bytes"
  borsh_header :: "Header \<Rightarrow> bytes"
  borsh_coinbase :: "Output list \<Rightarrow> bytes"
  borsh_leaf :: "amount \<times> u64 \<times> Transaction \<Rightarrow> bytes"
  borsh_node :: "hash256 \<times> amount \<times> u64 \<times> hash256 \<Rightarrow> bytes"
  borsh_pair :: "hash256 \<times> hash256 \<Rightarrow> bytes"
  borsh_body_length :: "Body \<Rightarrow> nat"
  build_merkle_root :: "(CbmtNode \<Rightarrow> CbmtNode \<Rightarrow> CbmtNode option) \<Rightarrow> CbmtNode list \<Rightarrow> CbmtNode option"
  key_address :: "bytes \<Rightarrow> Address"
  batch_verify :: "(bytes \<times> bytes \<times> bytes) list \<Rightarrow> bool"
  forest_default :: 'acc
  forest_modify :: "hash256 list \<Rightarrow> hash256 list \<Rightarrow> 'acc \<Rightarrow> 'acc option"
  forest_roots :: "'acc \<Rightarrow> hash256 list"
  forest_prove :: "hash256 list \<Rightarrow> 'acc \<Rightarrow> UtreexoProof option"
  forest_verify :: "UtreexoProof \<Rightarrow> hash256 list \<Rightarrow> 'acc \<Rightarrow> bool option"
  f64_growth :: "nat \<Rightarrow> nat \<Rightarrow> nat"
  borsh_outpoints :: "OutPoint list \<Rightarrow> bytes"
  hex_read :: "string \<Rightarrow> bytes option"
  swap_codec :: "Swap \<Rightarrow> Swap stored"
  script_pubkey :: "MainAddress \<Rightarrow> bytes"
  address_rank :: "MainAddress \<Rightarrow> nat"
  main_txid :: "(amount \<times> bytes) list \<Rightarrow> hash256"
  main_weight :: "(amount \<times> bytes) list \<Rightarrow> nat"

definition txid :: "'acc ext \<Rightarrow> Transaction \<Rightarrow> Txid" where
  "txid X tx = blake3 X (borsh_tx X tx)"

definition canonical_tx_size :: "'acc ext \<Rightarrow> Transaction \<Rightarrow> u64" where
  "canonical_tx_size X tx = word_of_nat (length (borsh_tx X tx) div 8)"

definition header_hash :: "'acc ext \<Rightarrow> Header \<Rightarrow> BlockHash" where
  "header_hash X h = blake3 X (borsh_header X h)"

definition pointed_hash :: "'acc ext \<Rightarrow> OutPoint \<Rightarrow> Output \<Rightarrow> hash256" where
  "pointed_hash X op out = blake3 X (borsh_pointed_output X (op, out))"

definition get_address :: "'acc ext \<Rightarrow> Authorization \<Rightarrow> Address" where
  "get_address X a = key_address X (verifying_key a)"

definition Body_new :: "AuthorizedTransaction list \<Rightarrow> Output list \<Rightarrow> Body" where
  "Body_new ats cb =
     \<lparr>coinbase = cb, transactions = map auth_transaction ats,
      body_authorizations = concat (map authorizations ats)\<rparr>"

text \<open>\<open>None\<close> is the \<open>unwrap\<close> on a body with too few authorizations.\<close>

fun split_authorizations ::
  "Transaction list \<Rightarrow> Authorization list \<Rightarrow> AuthorizedTransaction list option" where
  "split_authorizations [] auths = Some []"
| "split_authorizations (tx # txs) auths =
     (let n = length (inputs tx) in
      if length auths < n then None
      else map_option ((#) \<lparr>auth_transaction = tx, authorizations = take n auths\<rparr>)
             (split_authorizations txs (drop n auths)))"

definition authorized_transactions :: "Body \<Rightarrow> AuthorizedTransaction list option" where
  "authorized_transactions b = split_authorizations (transactions b) (body_authorizations b)"

definition get_inputs :: "Body \<Rightarrow> OutPoint list" where
  "get_inputs b = concat (map (\<lambda>tx. map fst (inputs tx)) (transactions b))"

definition inputs_len :: "Body \<Rightarrow> nat" where
  "inputs_len b = sum_list (map (\<lambda>tx. length (inputs tx)) (transactions b))"

definition get_coinbase_value :: "Body \<Rightarrow> amount option" where
  "get_coinbase_value b = checked_sum (map get_value (coinbase b))"

end
