(* ===== verification/Block_Body.thy ===== *)
theory Block_Body
  imports Tx_Types
begin

text \<open>
  Block bodies (\<^verbatim>\<open>lib/types/mod.rs\<close>): the accumulator diff and its application to the Utreexo
  forest, the annotated Merkle root of a body, its outputs; and the verification of
  authorizations (\<^verbatim>\<open>lib/authorization.rs\<close>).
\<close>

section \<open>Accumulator diffs\<close>

text \<open>The \<open>LinkedHashMap\<close> keeps insertion order: a new key goes to the end.\<close>

record AccumulatorDiff =
  diff :: "(hash256 \<times> bool) list"
  insertions :: nat
  deletions :: nat

definition diff_default :: AccumulatorDiff where
  "diff_default = \<lparr>diff = [], insertions = 0, deletions = 0\<rparr>"

definition diff_remove_key :: "hash256 \<Rightarrow> (hash256 \<times> bool) list \<Rightarrow> (hash256 \<times> bool) list" where
  "diff_remove_key h kvs = filter (\<lambda>(k, _). k \<noteq> h) kvs"

definition diff_insert :: "hash256 \<Rightarrow> AccumulatorDiff \<Rightarrow> AccumulatorDiff" where
  "diff_insert h d =
     (case map_of (diff d) h of
        Some b \<Rightarrow>
          if \<not> b then d\<lparr>diff := diff_remove_key h (diff d), deletions := deletions d - 1\<rparr> else d
      | None \<Rightarrow> d\<lparr>diff := diff d @ [(h, True)], insertions := insertions d + 1\<rparr>)"

definition diff_remove :: "hash256 \<Rightarrow> AccumulatorDiff \<Rightarrow> AccumulatorDiff" where
  "diff_remove h d =
     (case map_of (diff d) h of
        Some b \<Rightarrow>
          if b then d\<lparr>diff := diff_remove_key h (diff d), insertions := insertions d - 1\<rparr> else d
      | None \<Rightarrow> d\<lparr>diff := diff d @ [(h, False)], deletions := deletions d + 1\<rparr>)"

definition diff_counts :: "AccumulatorDiff \<Rightarrow> nat \<times> nat" where
  "diff_counts d = (insertions d, deletions d)"

definition diff_is_empty :: "AccumulatorDiff \<Rightarrow> bool" where
  "diff_is_empty d = (diff d = [])"

datatype UtreexoError = UtreexoError

definition apply_diff :: "'acc ext \<Rightarrow> AccumulatorDiff \<Rightarrow> 'acc \<Rightarrow> UtreexoError + 'acc" where
  "apply_diff X d acc =
     (let ins = map fst (filter snd (diff d));
          del = map fst (filter (\<lambda>kv. \<not> snd kv) (diff d))
      in ok_or UtreexoError (forest_modify X ins del acc))"

definition acc_prove :: "'acc ext \<Rightarrow> 'acc \<Rightarrow> hash256 list \<Rightarrow> UtreexoError + UtreexoProof" where
  "acc_prove X acc targets = ok_or UtreexoError (forest_prove X targets acc)"

definition acc_verify :: "'acc ext \<Rightarrow> 'acc \<Rightarrow> UtreexoProof \<Rightarrow> hash256 list \<Rightarrow> UtreexoError + bool" where
  "acc_verify X acc prf del_hashes = ok_or UtreexoError (forest_verify X prf del_hashes acc)"

section \<open>The Merkle root of a body\<close>

text \<open>
  Merging two nodes: \<open>None\<close> is a panic, of the \<open>Amount\<close> addition on overflow or of the assertion
  on the indices. Sizes wrap at 64 bits; \<open>(index - 1) / 2\<close> is on \<open>usize\<close>.
\<close>

definition merge :: "'acc ext \<Rightarrow> CbmtNode \<Rightarrow> CbmtNode \<Rightarrow> CbmtNode option" where
  "merge X l r =
     (case checked_add (fees l) (fees r) of
        None \<Rightarrow> None
      | Some fs \<Rightarrow>
          let sz = canonical_size l + canonical_size r in
          if cbmt_index l + 1 \<noteq> cbmt_index r then None
          else Some \<lparr>commitment = blake3 X (borsh_node X (commitment l, fs, sz, commitment r)),
                     fees = fs, canonical_size = sz,
                     cbmt_index = unat ((word_of_nat (cbmt_index l) - 1 :: u64) div 2)\<rparr>)"

text \<open>One leaf per transaction; the error names the transaction.\<close>

type_synonym ComputeMerkleRootError = "Txid \<times> ComputeFeeError"

definition cbmt_leaf ::
  "'acc ext \<Rightarrow> nat \<Rightarrow> nat \<times> FilledTransaction \<Rightarrow> ComputeMerkleRootError fault + CbmtNode" where
  "cbmt_leaf X n_txs = (\<lambda>(idx, ft).
     case get_fee ft of
       Inl err \<Rightarrow> Inl (Fail (txid X (transaction ft), err))
     | Inr fee \<Rightarrow>
         let sz = canonical_tx_size X (transaction ft) in
         Inr \<lparr>commitment = blake3 X (borsh_leaf X (fee, sz, transaction ft)),
              fees = fee, canonical_size = sz, cbmt_index = (idx + n_txs) - 1\<rparr>)"

definition compute_merkle_root ::
  "'acc ext \<Rightarrow> Output list \<Rightarrow> FilledTransaction list \<Rightarrow>
   ComputeMerkleRootError fault + MerkleRoot" where
  "compute_merkle_root X cb txs =
     and_then (try_map (cbmt_leaf X (length txs)) (enumerate 0 txs)) (\<lambda>leaves.
     and_then (ok_or (Panic ''merge'') (build_merkle_root X (merge X) leaves)) (\<lambda>root.
     let coinbase_root = blake3 X (borsh_coinbase X cb)
     in Inr (blake3 X (borsh_pair X (coinbase_root, commitment root)))))"

text \<open>The outputs a body creates, as outpoint and output, in the order of the code's loops.\<close>

definition coinbase_outputs :: "MerkleRoot \<Rightarrow> Output list \<Rightarrow> (OutPoint \<times> Output) list" where
  "coinbase_outputs mr cb = map (\<lambda>(vout, out). (OpCoinbase mr vout, out)) (enumerate_u32 cb)"

definition tx_outputs :: "'acc ext \<Rightarrow> Transaction \<Rightarrow> (OutPoint \<times> Output) list" where
  "tx_outputs X tx =
     map (\<lambda>(vout, out). (OpRegular (txid X tx) vout, out)) (enumerate_u32 (outputs tx))"

datatype ModifyMemForestError = MmComputeMerkleRoot ComputeMerkleRootError | MmUtreexo

definition modify_memforest ::
  "'acc ext \<Rightarrow> Output list \<Rightarrow> FilledTransaction list \<Rightarrow> 'acc \<Rightarrow>
   ModifyMemForestError fault + MerkleRoot \<times> 'acc" where
  "modify_memforest X cb txs forest =
     and_then (map_fault MmComputeMerkleRoot (compute_merkle_root X cb txs)) (\<lambda>mr.
     let add = map (\<lambda>(op, out). pointed_hash X op out) (coinbase_outputs mr cb) @
               concat (map (\<lambda>ft. map (\<lambda>(op, out). pointed_hash X op out)
                                   (tx_outputs X (transaction ft))) txs);
         del = concat (map (\<lambda>ft. map snd (inputs (transaction ft))) txs)
     in and_then (ok_or (Fail MmUtreexo) (forest_modify X add del forest)) (\<lambda>forest'.
     Inr (mr, forest')))"

text \<open>\<open>HashMap::insert\<close> overwrites, so the last output of an outpoint stays.\<close>

definition get_outputs ::
  "'acc ext \<Rightarrow> Output list \<Rightarrow> FilledTransaction list \<Rightarrow>
   ComputeMerkleRootError fault + (OutPoint, Output) fmap" where
  "get_outputs X cb txs =
     and_then (compute_merkle_root X cb txs) (\<lambda>mr.
     Inr (fold (\<lambda>(op, out) m. fmupd op out m)
           (coinbase_outputs mr cb @ concat (map (\<lambda>ft. tx_outputs X (transaction ft)) txs))
           fmempty))"

section \<open>Authorizations\<close>

datatype AuthorizationError =
    NotEnoughAuthorizations | TooManyAuthorizations | BatchVerification

definition check_count :: "nat \<Rightarrow> nat \<Rightarrow> AuthorizationError + unit" where
  "check_count have required =
     (if have < required then Inl NotEnoughAuthorizations
      else if have > required then Inl TooManyAuthorizations
      else Inr ())"

definition auth_item :: "Authorization \<Rightarrow> bytes \<Rightarrow> bytes \<times> bytes \<times> bytes" where
  "auth_item a msg = (verifying_key a, signature a, msg)"

definition verify_authorized_transaction ::
  "'acc ext \<Rightarrow> AuthorizedTransaction \<Rightarrow> AuthorizationError + unit" where
  "verify_authorized_transaction X at =
     and_then (check_count (length (authorizations at)) (length (inputs (auth_transaction at)))) (\<lambda>_.
     if authorizations at = [] then Inr ()
     else ensure (batch_verify X
            (map (\<lambda>a. auth_item a (borsh_tx X (auth_transaction at))) (authorizations at)))
          BatchVerification)"

text \<open>\<open>par_chunks\<close>: chunks of \<open>n\<close> elements, the last one may be shorter.\<close>

function chunks :: "nat \<Rightarrow> 'a list \<Rightarrow> 'a list list" where
  "chunks n xs = (if n = 0 \<or> xs = [] then [] else take n xs # chunks n (drop n xs))"
  by auto
termination by (relation "measure (\<lambda>(n, xs). length xs)") auto

declare chunks.simps [simp del]

definition auth_chunk_size :: nat where
  "auth_chunk_size = 2 ^ 14"

definition auth_messages :: "'acc ext \<Rightarrow> Body \<Rightarrow> bytes list" where
  "auth_messages X b =
     concat (map (\<lambda>tx. replicate (length (inputs tx)) (borsh_tx X tx)) (transactions b))"

text \<open>The chunks are verified in parallel, and the result is an error if one of them fails.\<close>

definition verify_authorizations :: "'acc ext \<Rightarrow> Body \<Rightarrow> AuthorizationError + unit" where
  "verify_authorizations X b =
     and_then (check_count (length (body_authorizations b)) (inputs_len b)) (\<lambda>_.
     if inputs_len b = 0 then Inr ()
     else ensure (list_all (batch_verify X)
            (chunks auth_chunk_size
              (map (\<lambda>(a, msg). auth_item a msg) (zip (body_authorizations b) (auth_messages X b)))))
          BatchVerification)"

section \<open>Lemmas on diffs\<close>

text \<open>The invariant of a diff: every hash once, and counters that match the entries.\<close>

definition diff_wf :: "AccumulatorDiff \<Rightarrow> bool" where
  "diff_wf d \<longleftrightarrow>
     distinct (map fst (diff d)) \<and>
     insertions d = length (filter snd (diff d)) \<and>
     deletions d = length (filter (\<lambda>kv. \<not> snd kv) (diff d))"

text \<open>What a diff means: for each hash, inserted, removed or untouched. The two operations on that
  meaning.\<close>

fun net_insert :: "bool option \<Rightarrow> bool option" where
  "net_insert None = Some True"
| "net_insert (Some True) = Some True"
| "net_insert (Some False) = None"

fun net_remove :: "bool option \<Rightarrow> bool option" where
  "net_remove None = Some False"
| "net_remove (Some False) = Some False"
| "net_remove (Some True) = None"

definition diff_step :: "bool \<times> hash256 \<Rightarrow> AccumulatorDiff \<Rightarrow> AccumulatorDiff" where
  "diff_step = (\<lambda>(ins, h). if ins then diff_insert h else diff_remove h)"

lemma map_of_diff_remove_key: "map_of (diff_remove_key h kvs) = (map_of kvs)(h := None)"
proof
  fix k
  show "map_of (diff_remove_key h kvs) k = ((map_of kvs)(h := None)) k"
    by (induction kvs) (auto simp: diff_remove_key_def)
qed

lemma diff_remove_key_fresh: "map_of kvs h = None \<Longrightarrow> diff_remove_key h kvs = kvs"
  by (induction kvs) (auto simp: diff_remove_key_def split: if_splits)

lemma diff_remove_key_split:
  "distinct (map fst kvs) \<Longrightarrow> map_of kvs h = Some b \<Longrightarrow>
   \<exists>us vs. kvs = us @ (h, b) # vs \<and> diff_remove_key h kvs = us @ vs"
proof (induction kvs)
  case Nil
  then show ?case by simp
next
  case (Cons kv kvs)
  obtain k b' where kv: "kv = (k, b')" by (cases kv)
  show ?case
  proof (cases "k = h")
    case True
    with Cons.prems kv have "map_of kvs h = None" by (auto simp: map_of_eq_None_iff)
    then have "diff_remove_key h (kv # kvs) = [] @ kvs"
      using kv True diff_remove_key_fresh [of kvs h] by (simp add: diff_remove_key_def)
    moreover have "kv # kvs = [] @ (h, b) # kvs" using kv True Cons.prems by simp
    ultimately show ?thesis by blast
  next
    case False
    then obtain us vs where "kvs = us @ (h, b) # vs" "diff_remove_key h kvs = us @ vs"
      using Cons kv by auto
    then show ?thesis using kv False
      by (intro exI [of _ "kv # us"] exI [of _ vs]) (simp add: diff_remove_key_def)
  qed
qed

lemma diff_insert_meaning:
  "diff_wf d \<Longrightarrow> map_of (diff (diff_insert h d)) = (map_of (diff d))(h := net_insert (map_of (diff d) h))"
  by (rule ext)
    (auto simp: diff_insert_def diff_wf_def map_of_diff_remove_key map_of_append map_add_def
      split: option.splits)

lemma diff_remove_meaning:
  "diff_wf d \<Longrightarrow> map_of (diff (diff_remove h d)) = (map_of (diff d))(h := net_remove (map_of (diff d) h))"
  by (rule ext)
    (auto simp: diff_remove_def diff_wf_def map_of_diff_remove_key map_of_append map_add_def
      split: option.splits)

lemma diff_insert_wf: "diff_wf d \<Longrightarrow> diff_wf (diff_insert h d)"
proof (cases "map_of (diff d) h")
  case None
  moreover from None have "h \<notin> fst ` set (diff d)" by (simp add: map_of_eq_None_iff)
  ultimately show "diff_wf d \<Longrightarrow> ?thesis" by (simp add: diff_insert_def diff_wf_def)
next
  case (Some b)
  assume wf: "diff_wf d"
  then obtain us vs where "diff d = us @ (h, b) # vs" "diff_remove_key h (diff d) = us @ vs"
    using diff_remove_key_split Some by (metis diff_wf_def)
  then show ?thesis using wf Some by (auto simp: diff_insert_def diff_wf_def)
qed

lemma diff_remove_wf: "diff_wf d \<Longrightarrow> diff_wf (diff_remove h d)"
proof (cases "map_of (diff d) h")
  case None
  moreover from None have "h \<notin> fst ` set (diff d)" by (simp add: map_of_eq_None_iff)
  ultimately show "diff_wf d \<Longrightarrow> ?thesis" by (simp add: diff_remove_def diff_wf_def)
next
  case (Some b)
  assume wf: "diff_wf d"
  then obtain us vs where "diff d = us @ (h, b) # vs" "diff_remove_key h (diff d) = us @ vs"
    using diff_remove_key_split Some by (metis diff_wf_def)
  then show ?thesis using wf Some by (auto simp: diff_remove_def diff_wf_def)
qed

lemma diff_default_wf [simp]: "diff_wf diff_default"
  by (simp add: diff_wf_def diff_default_def)

interpretation diff_run: keeps_invariant "\<lambda>x d. Inr (diff_step x d)" diff_wf
  by unfold_locales (auto simp: diff_step_def diff_insert_wf diff_remove_wf split: if_splits)

lemma diff_remove_insert_fresh:
  "map_of (diff d) h = None \<Longrightarrow> diff_remove h (diff_insert h d) = d"
proof -
  assume h: "map_of (diff d) h = None"
  then have ins: "diff_insert h d = d\<lparr>diff := diff d @ [(h, True)], insertions := insertions d + 1\<rparr>"
    by (simp add: diff_insert_def)
  have "map_of (diff d @ [(h, True)]) h = Some True" using h by (simp add: map_add_def)
  moreover have "diff_remove_key h (diff d @ [(h, True)]) = diff d"
    using diff_remove_key_fresh [OF h] by (simp add: diff_remove_key_def)
  ultimately show ?thesis by (simp add: ins diff_remove_def)
qed

interpretation diff_undo: undoable "\<lambda>h d. Inr (diff_insert h d)" "\<lambda>h d. Inr (diff_remove h d)"
    "\<lambda>h d. map_of (diff d) h = None"
  by unfold_locales (auto simp: diff_remove_insert_fresh)

section \<open>Lemmas on bodies\<close>

lemma concat_chunks: "0 < n \<Longrightarrow> concat (chunks n xs) = xs"
  by (induction n xs rule: chunks.induct) (subst chunks.simps, auto)

lemma chunks_length: "c \<in> set (chunks n xs) \<Longrightarrow> 0 < length c \<and> length c \<le> n"
proof (induction n xs rule: chunks.induct)
  case (1 n xs)
  show ?case
  proof (cases "n = 0 \<or> xs = []")
    case True
    with "1.prems" show ?thesis by (simp add: chunks.simps)
  next
    case False
    with "1.prems" have "c = take n xs \<or> c \<in> set (chunks n (drop n xs))"
      by (simp add: chunks.simps [of n xs])
    with False "1.IH" show ?thesis by auto
  qed
qed

lemma split_authorizations_concat:
  "list_all (\<lambda>at. length (authorizations at) = length (inputs (auth_transaction at))) ats \<Longrightarrow>
   split_authorizations (map auth_transaction ats) (concat (map authorizations ats) @ rest) = Some ats"
  by (induction ats) (simp_all add: Let_def)

lemma length_auth_messages: "length (auth_messages X b) = inputs_len b"
  by (simp add: auth_messages_def inputs_len_def length_concat comp_def)

lemma coinbase_outputs_fst: "(op, out) \<in> set (coinbase_outputs mr cb) \<Longrightarrow> \<exists>v. op = OpCoinbase mr v"
  by (auto simp: coinbase_outputs_def)

lemma tx_outputs_fst: "(op, out) \<in> set (tx_outputs X tx) \<Longrightarrow> \<exists>v. op = OpRegular (txid X tx) v"
  by (auto simp: tx_outputs_def)

lemma distinct_coinbase_outputs:
  "length cb \<le> 2 ^ 32 \<Longrightarrow> distinct (map fst (coinbase_outputs mr cb))"
proof -
  assume "length cb \<le> 2 ^ 32"
  then have "distinct (map fst (enumerate_u32 cb))" by (rule distinct_enumerate_u32)
  moreover have "map fst (coinbase_outputs mr cb) = map (OpCoinbase mr) (map fst (enumerate_u32 cb))"
    by (simp add: coinbase_outputs_def comp_def case_prod_unfold)
  ultimately show ?thesis by (simp add: distinct_map inj_on_def)
qed

lemma distinct_tx_outputs:
  "length (outputs tx) \<le> 2 ^ 32 \<Longrightarrow> distinct (map fst (tx_outputs X tx))"
proof -
  assume "length (outputs tx) \<le> 2 ^ 32"
  then have "distinct (map fst (enumerate_u32 (outputs tx)))" by (rule distinct_enumerate_u32)
  moreover have
    "map fst (tx_outputs X tx) = map (OpRegular (txid X tx)) (map fst (enumerate_u32 (outputs tx)))"
    by (simp add: tx_outputs_def comp_def case_prod_unfold)
  ultimately show ?thesis by (simp add: distinct_map inj_on_def)
qed

end
