(* ===== verification/Withdrawal.thy ===== *)
theory Withdrawal
  imports Block_Body "HOL-Library.Product_Lexorder"
begin

text \<open>
  Withdrawal bundles (\<^verbatim>\<open>lib/types/mod.rs\<close>): the prediction of a bundle's weight, the bundle
  itself, the total order of aggregated withdrawals; and values that can be rolled back
  (\<^verbatim>\<open>lib/state/rollback.rs\<close>).
\<close>

section \<open>Rollback\<close>

record 'a HeightStamped =
  hs_value :: 'a
  hs_height :: u32

text \<open>\<open>NonEmpty\<close>: the head, and the later values in order.\<close>

datatype 'a RollBack = RollBack "'a HeightStamped" "'a HeightStamped list"

definition rb_new :: "'a \<Rightarrow> u32 \<Rightarrow> 'a RollBack" where
  "rb_new v h = RollBack \<lparr>hs_value = v, hs_height = h\<rparr> []"

fun rb_latest :: "'a RollBack \<Rightarrow> 'a HeightStamped" where
  "rb_latest (RollBack x xs) = (if xs = [] then x else last xs)"

fun rb_earliest :: "'a RollBack \<Rightarrow> 'a HeightStamped" where
  "rb_earliest (RollBack x xs) = x"

fun rb_pop :: "'a RollBack \<Rightarrow> 'a RollBack option \<times> 'a HeightStamped" where
  "rb_pop (RollBack x xs) =
     (if xs = [] then (None, x) else (Some (RollBack x (butlast xs)), last xs))"

text \<open>A push with a height below the latest one is refused and gives the value back.\<close>

fun rb_push :: "'a \<Rightarrow> u32 \<Rightarrow> 'a RollBack \<Rightarrow> 'a + 'a RollBack" where
  "rb_push v h (RollBack x xs) =
     (if hs_height (rb_latest (RollBack x xs)) > h then Inl v
      else Inr (RollBack x (xs @ [\<lparr>hs_value = v, hs_height = h\<rparr>])))"

fun rb_list :: "'a RollBack \<Rightarrow> 'a HeightStamped list" where
  "rb_list (RollBack x xs) = x # xs"

text \<open>Heights never decrease towards the latest value.\<close>

definition rb_sorted :: "'a RollBack \<Rightarrow> bool" where
  "rb_sorted r = sorted (map hs_height (rb_list r))"

lemma rb_latest_last: "rb_latest r = last (rb_list r)"
  by (cases r) simp

lemma rb_push_ok:
  "rb_push v h r = Inr r' \<longleftrightarrow>
     hs_height (rb_latest r) \<le> h \<and> rb_list r' = rb_list r @ [\<lparr>hs_value = v, hs_height = h\<rparr>]"
  by (cases r; cases r') (auto simp: not_less)

lemma rb_push_latest: "rb_push v h r = Inr r' \<Longrightarrow> rb_latest r' = \<lparr>hs_value = v, hs_height = h\<rparr>"
  by (cases r) (auto split: if_splits)

lemma rb_push_fails: "rb_push v h r = Inl w \<longleftrightarrow> h < hs_height (rb_latest r) \<and> w = v"
  by (cases r) auto

lemma rb_pop_push: "rb_push v h r = Inr r' \<Longrightarrow> rb_pop r' = (Some r, \<lparr>hs_value = v, hs_height = h\<rparr>)"
  by (cases r) (auto split: if_splits)

lemma rb_pop_new: "rb_pop (rb_new v h) = (None, \<lparr>hs_value = v, hs_height = h\<rparr>)"
  by (simp add: rb_new_def)

lemma rb_pop_snd: "snd (rb_pop r) = rb_latest r"
  by (cases r) simp

lemma rb_pop_list: "rb_pop r = (Some r', x) \<Longrightarrow> rb_list r = rb_list r' @ [x]"
  by (cases r) (auto split: if_splits)

lemma rb_push_sorted: "rb_sorted r \<Longrightarrow> rb_push v h r = Inr r' \<Longrightarrow> rb_sorted r'"
proof -
  assume s: "rb_sorted r" and p: "rb_push v h r = Inr r'"
  have "x \<le> h" if "x \<in> set (map hs_height (rb_list r))" for x
  proof -
    have ne: "map hs_height (rb_list r) \<noteq> []" by (cases r) simp
    have "x \<le> last (map hs_height (rb_list r))"
      using s that unfolding rb_sorted_def by (rule sorted_le_last)
    also have "last (map hs_height (rb_list r)) = hs_height (rb_latest r)"
      using ne by (simp add: rb_latest_last last_map)
    also have "\<dots> \<le> h" using p by (simp add: rb_push_ok)
    finally show ?thesis .
  qed
  then show ?thesis using s p by (auto simp: rb_sorted_def rb_push_ok sorted_append)
qed

text \<open>Pushing is a step with popping as its inverse.\<close>

definition rb_undo :: "'a \<times> u32 \<Rightarrow> 'a RollBack \<Rightarrow> 'a + 'a RollBack" where
  "rb_undo vh r = (case rb_pop r of (Some r', _) \<Rightarrow> Inr r' | (None, x) \<Rightarrow> Inl (hs_value x))"

interpretation rollback: undoable "\<lambda>(v, h). rb_push v h" rb_undo "\<lambda>_ _. True"
  by unfold_locales (auto simp: rb_undo_def rb_pop_push)

interpretation rollback_sorted: keeps_invariant "\<lambda>(v, h). rb_push v h" rb_sorted
  by unfold_locales (auto intro: rb_push_sorted)

section \<open>Weight of a bundle\<close>

text \<open>Size of a Bitcoin compact size integer.\<close>

definition varint_size :: "nat \<Rightarrow> u32" where
  "varint_size n =
     (if n \<le> 0xFC then 1 else if n \<le> 0xFFFF then 3 else if n \<le> 0xFFFFFFFF then 5 else 9)"

definition opt_bind :: "'a option \<Rightarrow> ('a \<Rightarrow> 'b option) \<Rightarrow> 'b option" where
  "opt_bind m f = (case m of None \<Rightarrow> None | Some x \<Rightarrow> f x)"

lemma opt_bind_simps [simp]: "opt_bind None f = None" "opt_bind (Some x) f = f x"
  by (simp_all add: opt_bind_def)

lemma opt_bind_eq_Some: "opt_bind m f = Some y \<longleftrightarrow> (\<exists>x. m = Some x \<and> f x = Some y)"
  by (cases m) simp_all

definition txout_size :: "u32 \<Rightarrow> u32 option" where
  "txout_size spk_size =
     opt_bind (checked_add 8 (varint_size (unat spk_size))) (\<lambda>size. checked_add size spk_size)"

definition txin_base_size :: "u32 \<Rightarrow> u32 option" where
  "txin_base_size script_sig_size =
     opt_bind (checked_add (36 + varint_size (unat script_sig_size)) script_sig_size) (\<lambda>res.
     checked_add res 4)"

definition vec_size :: "u32 \<Rightarrow> u32 \<Rightarrow> u32 option" where
  "vec_size n sum_sizes = checked_add (varint_size (unat n)) sum_sizes"

definition tx_base_size :: "u32 \<Rightarrow> u32 \<Rightarrow> u32 \<Rightarrow> u32 \<Rightarrow> u32 option" where
  "tx_base_size n_inputs sum_txin_base_sizes n_outputs sum_txout_sizes =
     opt_bind (vec_size n_inputs sum_txin_base_sizes) (\<lambda>vin_base_size.
     opt_bind (checked_add 4 vin_base_size) (\<lambda>res.
     opt_bind (vec_size n_outputs sum_txout_sizes) (\<lambda>vout_size.
     opt_bind (checked_add res vout_size) (\<lambda>res'.
     checked_add res' 4))))"

definition max_standard_tx_weight :: nat where
  "max_standard_tx_weight = 400000"

text \<open>The constants \<open>unwrap\<close> at compile time: an empty script signature, a commitment script of 34
  bytes and a fee script of 10 bytes. A \<open>u32\<close> times four fits a \<open>u64\<close>, so the weight never
  overflows.\<close>

definition treasury_txin_base_size :: u32 where
  "treasury_txin_base_size = the (txin_base_size 0)"

definition commitment_txout_sizes :: u32 where
  "commitment_txout_sizes = the (txout_size 34) + the (txout_size 10)"

definition predict_weight :: "u32 \<Rightarrow> u32 \<Rightarrow> nat option" where
  "predict_weight n_outputs sum_txout_sizes =
     opt_bind (checked_add n_outputs 2) (\<lambda>n_outputs'.
     opt_bind (checked_add commitment_txout_sizes sum_txout_sizes) (\<lambda>sum'.
     opt_bind (tx_base_size 1 treasury_txin_base_size n_outputs' sum') (\<lambda>base.
     let wu = unat base * 4 in
     if wu \<le> max_standard_tx_weight then Some wu else None)))"

section \<open>Bundles\<close>

type_synonym TxOut = "amount \<times> bytes"

record WithdrawalBundle =
  spend_utxos :: "(OutPoint, Output) fmap"
  bundle_tx :: "TxOut list"

datatype WithdrawalBundleStatus = Confirmed | Failed | Submitted

text \<open>The derived order of outpoints: variant, hash, index.\<close>

fun outpoint_rank :: "OutPoint \<Rightarrow> nat" where
  "outpoint_rank (OpRegular h n) = unat h * 2 ^ 32 + unat n"
| "outpoint_rank (OpCoinbase h n) = 2 ^ 288 + unat h * 2 ^ 32 + unat n"
| "outpoint_rank (OpDeposit (h, n)) = 2 * 2 ^ 288 + unat h * 2 ^ 32 + unat n"

definition btree_keys :: "(OutPoint, 'v) fmap \<Rightarrow> OutPoint list" where
  "btree_keys m = sort_key outpoint_rank (map fst (db_iter m))"

text \<open>A script of \<open>OP_RETURN\<close> and one push of fewer than 76 bytes.\<close>

definition op_return_script :: "bytes \<Rightarrow> bytes" where
  "op_return_script bs = 0x6a # word_of_nat (length bs) # bs"

definition inputs_commitment :: "'acc ext \<Rightarrow> u32 \<Rightarrow> (OutPoint, Output) fmap \<Rightarrow> hash256" where
  "inputs_commitment X block_height utxos =
     blake3 X (borsh_outpoints X (btree_keys utxos @ [OpRegular 0 block_height]))"

datatype WithdrawalBundleError = BundleTooHeavy nat nat

definition WithdrawalBundle_new ::
  "'acc ext \<Rightarrow> u32 \<Rightarrow> amount \<Rightarrow> (OutPoint, Output) fmap \<Rightarrow> TxOut list \<Rightarrow>
   WithdrawalBundleError + WithdrawalBundle" where
  "WithdrawalBundle_new X block_height fee utxos bundle_outputs =
     (let inputs_commitment_txout =
            (0, op_return_script (hash_bytes (inputs_commitment X block_height utxos)));
          mainchain_fee_txout = (0, op_return_script (be_bytes 8 (unat fee)));
          tx = [mainchain_fee_txout, inputs_commitment_txout] @ bundle_outputs
      in if main_weight X tx > max_standard_tx_weight
         then Inl (BundleTooHeavy (main_weight X tx) max_standard_tx_weight)
         else Inr \<lparr>spend_utxos = utxos, bundle_tx = tx\<rparr>)"

definition compute_m6id :: "'acc ext \<Rightarrow> WithdrawalBundle \<Rightarrow> M6id" where
  "compute_m6id X b = main_txid X (bundle_tx b)"

section \<open>Aggregated withdrawals\<close>

record AggregatedWithdrawal =
  agg_spend_utxos :: "(OutPoint, Output) fmap"
  agg_main_address :: MainAddress
  agg_value :: amount
  agg_main_fee :: amount

text \<open>Ordered by mainchain fee, then value, then address.\<close>

definition agg_key :: "'acc ext \<Rightarrow> AggregatedWithdrawal \<Rightarrow> amount \<times> amount \<times> nat" where
  "agg_key X a = (agg_main_fee a, agg_value a, address_rank X (agg_main_address a))"

definition agg_le :: "'acc ext \<Rightarrow> AggregatedWithdrawal \<Rightarrow> AggregatedWithdrawal \<Rightarrow> bool" where
  "agg_le X a b \<longleftrightarrow> agg_key X a \<le> agg_key X b"

record BlockIndexEvents =
  bi_deposits :: "(OutPoint \<times> Output) list"
  bi_bundle_spends :: "(OutPoint \<times> M6id) list"

definition bi_default :: BlockIndexEvents where
  "bi_default = \<lparr>bi_deposits = [], bi_bundle_spends = []\<rparr>"

definition bi_is_empty :: "BlockIndexEvents \<Rightarrow> bool" where
  "bi_is_empty e = (bi_deposits e = [] \<and> bi_bundle_spends e = [])"

section \<open>Lemmas on bundles\<close>

lemma varint_size_le: "unat (varint_size n) \<in> {1, 3, 5, 9}"
  by (simp add: varint_size_def)

text \<open>The checked sizes are the mathematical ones.\<close>

lemma unat_txout_size:
  "txout_size s = Some t \<Longrightarrow> unat t = 8 + unat (varint_size (unat s)) + unat s"
  by (auto simp: txout_size_def opt_bind_eq_Some checked_add_Some)

lemma unat_tx_base_size:
  "tx_base_size i si n s = Some t \<Longrightarrow>
   unat t = 8 + unat (varint_size (unat i)) + unat si + unat (varint_size (unat n)) + unat s"
  by (auto simp: tx_base_size_def vec_size_def opt_bind_eq_Some checked_add_Some)

lemma treasury_txin_base_size_value: "treasury_txin_base_size = 41"
  by (simp add: treasury_txin_base_size_def txin_base_size_def varint_size_def checked_add_def)

lemma commitment_txout_sizes_value: "commitment_txout_sizes = 62"
  by (simp add: commitment_txout_sizes_def txout_size_def varint_size_def checked_add_def)

lemma predict_weight_value:
  "predict_weight n s = Some w \<Longrightarrow>
   w = 4 * (112 + unat (varint_size (unat n + 2)) + unat s) \<and> w \<le> max_standard_tx_weight"
  by (auto simp: predict_weight_def opt_bind_eq_Some Let_def checked_add_Some
      treasury_txin_base_size_value commitment_txout_sizes_value varint_size_def [of "Suc 0"]
      dest!: unat_tx_base_size split: if_splits)

lemma agg_le_total: "agg_le X a b \<or> agg_le X b a"
  by (auto simp: agg_le_def)

lemma agg_le_trans: "agg_le X a b \<Longrightarrow> agg_le X b c \<Longrightarrow> agg_le X a c"
  by (auto simp: agg_le_def)

lemma agg_le_antisym: "agg_le X a b \<Longrightarrow> agg_le X b a \<Longrightarrow> agg_key X a = agg_key X b"
  by (auto simp: agg_le_def)

text \<open>Two lists of withdrawals with pairwise distinct keys and the same elements are sorted to the
  same list, whatever the order they come in.\<close>

lemma sort_key_canonical:
  fixes k :: "'a \<Rightarrow> 'k::linorder"
  assumes "distinct xs" "distinct ys" "set xs = set ys" "inj_on k (set xs)"
  shows "sort_key k xs = sort_key k ys"
proof -
  have "map k (sort_key k xs) = map k (sort_key k ys)"
    by (rule sorted_distinct_set_unique) (use assms in \<open>auto simp: distinct_map\<close>)
  then show ?thesis
    by (rule map_inj_on) (use assms in auto)
qed

end
