(* ===== verification/State_Store.thy ===== *)
theory State_Store
  imports Withdrawal
begin

text \<open>
  The sidechain state (\<^verbatim>\<open>lib/state/mod.rs\<close>): its tables, its errors (\<^verbatim>\<open>lib/state/error.rs\<close>), the
  persistence of swaps with their indexes, output locks, reservations, and the checks of a
  filled transaction.
\<close>

section \<open>Errors\<close>

datatype InvalidHeader =
    IhBlockHash BlockHash BlockHash
  | IhPrevSideHash "BlockHash option" "BlockHash option"

text \<open>The messages of \<open>Error::InvalidTransaction\<close>, with the values they print.\<close>

datatype TxMsg =
    ExpectedSwapCreate
  | SwapCreateNoInputs
  | SwapIdMismatch SwapId SwapId
  | SwapAlreadyExists SwapId
  | ZeroL2Amount
  | NoOutputs
  | InputLockedToSwap OutPoint SwapId
  | InputLockedOrphan OutPoint SwapId
  | InputValueOverflow
  | InsufficientFunds amount amount
  | SwapPendingOverflow
  | EscrowTooSmall amount SwapId amount
  | ExpectedSwapAccept
  | NotAnOpenSwap SwapId
  | SwapExpired SwapId u32 u32
  | AlreadyReserved SwapId Address u32
  | AcceptNotOwned Address
  | ExpectedSwapClaim
  | NotReadyToClaim SwapId SwapState
  | OpenSwapNotFilled
  | SpendsLockedOutput OutPoint SwapId
  | LockedToDifferentSwap OutPoint SwapId
  | NoLockedInput
  | NoLiveReservation SwapId u32
  | ClaimerMismatch Address SwapId Address
  | ClaimUnderpays amount Address amount
  | ClaimOutputOverflow
  | CreateIdMismatch
  | OpenClaimNeedsClaimer
  | SwapSerialization SwapId
  | CannotCancel SwapId SwapState
  | CannotFill SwapId SwapState
  | ZeroConfirmations SwapId
  | L1TxTooOld SwapId u32 u32
  | NotWaitingConfirmations SwapId SwapState
  | ArchiveError string

datatype Error =
    Authorization
  | AmountOverflow
  | AmountUnderflow
  | BodyTooLarge
  | ComputeMerkleRoot ComputeMerkleRootError
  | InvalidBody MerkleRoot MerkleRoot
  | InvalidHeader InvalidHeader
  | NoDepositBlock
  | NotEnoughFees
  | NoTip
  | NoStxo OutPoint
  | NotEnoughValueIn
  | NoUtxo OutPoint
  | SpendWithdrawalOutput
  | NoWithdrawalBundleEventBlock
  | Utreexo
  | UtreexoProofFailed Txid
  | UtreexoRootsMismatch
  | UtxoDoubleSpent
  | UtxoHashMismatch hash256 OutPoint hash256
  | TooManySigops
  | UnexpectedWithdrawalBundleStatus M6id WithdrawalBundleStatus u32 u32
  | UnknownWithdrawalBundle M6id
  | UnknownWithdrawalBundleConfirmed hash256 M6id
  | WrongPubKeyForAddress
  | WithdrawalBundleErr WithdrawalBundleError
  | SwapNotFound SwapId
  | SwapNotCreator
  | InvalidTransaction TxMsg
  | L1TxidAlreadyUsed SwapId SwapId
  | ParentChainRpc

type_synonym 'a res = "Error fault + 'a"

abbreviation err :: "Error \<Rightarrow> 'a res" where
  "err e \<equiv> Inl (Fail e)"

abbreviation invalid :: "TxMsg \<Rightarrow> 'a res" where
  "invalid m \<equiv> err (InvalidTransaction m)"

section \<open>The state\<close>

datatype WithdrawalBundleInfo =
    Known WithdrawalBundle
  | Unknown
  | UnknownConfirmed "(OutPoint, Output) fmap"

fun is_known :: "WithdrawalBundleInfo \<Rightarrow> bool" where
  "is_known (Known _) = True"
| "is_known _ = False"

type_synonym ExpiredSwapReversal = "SwapId \<times> SwapState \<times> OutPoint list"

text \<open>A table with the unit key is an \<open>option\<close>.\<close>

record 'acc State =
  tip :: "BlockHash option"
  height :: "u32 option"
  utxos :: "(OutPoint, Output) db"
  stxos :: "(OutPoint, SpentOutput) db"
  pending_withdrawal_bundle :: "(WithdrawalBundle \<times> u32) option"
  latest_failed_withdrawal_bundle :: "M6id RollBack option"
  withdrawal_bundles :: "(M6id, WithdrawalBundleInfo \<times> WithdrawalBundleStatus RollBack) db"
  block_index_events :: "(u32, BlockIndexEvents) db"
  deposit_blocks :: "(u32, hash256 \<times> u32) db"
  withdrawal_bundle_event_blocks :: "(u32, hash256 \<times> u32) db"
  utreexo_accumulator :: "'acc option"
  swaps :: "(SwapId, Swap stored) db"
  swaps_by_l1_txid :: "(ParentChainType \<times> SwapTxId, SwapId) db"
  swaps_by_recipient :: "(Address, SwapId list) db"
  locked_swap_outputs :: "(OutPoint, SwapId) db"
  expired_swaps :: "(u32, ExpiredSwapReversal list) db"
  swap_reservations :: "(SwapId, SwapReservation) db"

text \<open>A new environment: every table empty.\<close>

definition State_new :: "'acc State" where
  "State_new =
     \<lparr>tip = None, height = None, utxos = fmempty, stxos = fmempty,
      pending_withdrawal_bundle = None, latest_failed_withdrawal_bundle = None,
      withdrawal_bundles = fmempty, block_index_events = fmempty, deposit_blocks = fmempty,
      withdrawal_bundle_event_blocks = fmempty, utreexo_accumulator = None, swaps = fmempty,
      swaps_by_l1_txid = fmempty, swaps_by_recipient = fmempty, locked_swap_outputs = fmempty,
      expired_swaps = fmempty, swap_reservations = fmempty\<rparr>"

definition try_get_tip :: "'acc State \<Rightarrow> BlockHash option" where
  "try_get_tip s = tip s"

definition try_get_height :: "'acc State \<Rightarrow> u32 option" where
  "try_get_height s = height s"

definition get_block_index_events :: "u32 \<Rightarrow> 'acc State \<Rightarrow> BlockIndexEvents" where
  "get_block_index_events h s =
     (case fmlookup (block_index_events s) h of Some e \<Rightarrow> e | None \<Rightarrow> bi_default)"

definition get_utxos :: "'acc State \<Rightarrow> (OutPoint, Output) fmap" where
  "get_utxos s = utxos s"

definition get_utxos_by_addresses :: "Address set \<Rightarrow> 'acc State \<Rightarrow> (OutPoint, Output) fmap" where
  "get_utxos_by_addresses addrs s =
     fmap_of_list (filter (\<lambda>(_, out). address out \<in> addrs) (db_iter (utxos s)))"

text \<open>The two panics: a failed bundle that is not recorded, or is recorded with another status.\<close>

definition get_latest_failed_withdrawal_bundle :: "'acc State \<Rightarrow> (u32 \<times> M6id) option res" where
  "get_latest_failed_withdrawal_bundle s =
     (case latest_failed_withdrawal_bundle s of
        None \<Rightarrow> Inr None
      | Some rb \<Rightarrow>
          let m6id = hs_value (rb_latest rb) in
          case fmlookup (withdrawal_bundles s) m6id of
            None \<Rightarrow> Inl (Panic ''latest failed m6id should exist in withdrawal_bundles'')
          | Some (_, status) \<Rightarrow>
              if hs_value (rb_latest status) \<noteq> Failed
              then Inl (Panic ''latest failed bundle is not Failed'')
              else Inr (Some (hs_height (rb_latest status), m6id)))"

definition get_accumulator :: "'acc ext \<Rightarrow> 'acc State \<Rightarrow> 'acc" where
  "get_accumulator X s = (case utreexo_accumulator s of Some a \<Rightarrow> a | None \<Rightarrow> forest_default X)"

definition utreexo_res :: "UtreexoError + 'a \<Rightarrow> 'a res" where
  "utreexo_res r = (case r of Inl _ \<Rightarrow> err Utreexo | Inr x \<Rightarrow> Inr x)"

lemma utreexo_res_eq_Inr [res_simps]: "utreexo_res r = Inr x \<longleftrightarrow> r = Inr x"
  by (auto simp: utreexo_res_def split: sum.splits)

definition regenerate_proof :: "'acc ext \<Rightarrow> 'acc State \<Rightarrow> Transaction \<Rightarrow> Transaction res" where
  "regenerate_proof X s tx =
     and_then (utreexo_res (acc_prove X (get_accumulator X s) (map snd (inputs tx)))) (\<lambda>p.
     Inr (tx\<lparr>utreexo_proof := p\<rparr>))"

definition get_utreexo_proof ::
  "'acc ext \<Rightarrow> 'acc State \<Rightarrow> (OutPoint \<times> Output) list \<Rightarrow> UtreexoProof res" where
  "get_utreexo_proof X s pts =
     utreexo_res (acc_prove X (get_accumulator X s) (map (\<lambda>(op, out). pointed_hash X op out) pts))"

definition fill_transaction :: "'acc State \<Rightarrow> Transaction \<Rightarrow> FilledTransaction res" where
  "fill_transaction s tx =
     and_then (try_map (\<lambda>(op, _). ok_or (Fail (NoUtxo op)) (fmlookup (utxos s) op)) (inputs tx)) (\<lambda>spent.
     Inr \<lparr>transaction = tx, spent_utxos = spent\<rparr>)"

definition fill_authorized_transaction ::
  "'acc State \<Rightarrow> AuthorizedTransaction \<Rightarrow> (FilledTransaction \<times> Authorization list) res" where
  "fill_authorized_transaction s at =
     and_then (fill_transaction s (auth_transaction at)) (\<lambda>ft. Inr (ft, authorizations at))"

definition get_pending_withdrawal_bundle :: "'acc State \<Rightarrow> (WithdrawalBundle \<times> u32) option" where
  "get_pending_withdrawal_bundle s = pending_withdrawal_bundle s"

section \<open>Checks of a filled transaction\<close>

definition validate_utxo_hashes :: "'acc ext \<Rightarrow> FilledTransaction \<Rightarrow> unit res" where
  "validate_utxo_hashes X ft =
     try_fold (\<lambda>inp _. case inp of (op, h, out) \<Rightarrow>
       let computed = pointed_hash X op out in
       if h \<noteq> computed then err (UtxoHashMismatch computed op h) else Inr ())
     (filled_inputs ft) ()"

definition add_value_in :: "Output \<Rightarrow> amount \<Rightarrow> amount res" where
  "add_value_in utxo value_in =
     (if is_withdrawal (content utxo) then err SpendWithdrawalOutput
      else ok_or (Fail AmountOverflow) (checked_add value_in (get_value utxo)))"

definition add_value_out :: "Output \<Rightarrow> amount \<Rightarrow> amount res" where
  "add_value_out out value_out = ok_or (Fail AmountOverflow) (checked_add value_out (get_value out))"

definition validate_filled_transaction :: "'acc ext \<Rightarrow> FilledTransaction \<Rightarrow> amount res" where
  "validate_filled_transaction X ft =
     and_then (validate_utxo_hashes X ft) (\<lambda>_.
     and_then (try_fold add_value_in (spent_utxos ft) 0) (\<lambda>value_in.
     and_then (try_fold add_value_out (outputs (transaction ft)) 0) (\<lambda>value_out.
     if value_out > value_in then err NotEnoughValueIn
     else ok_or (Fail AmountUnderflow) (checked_sub value_in value_out))))"

text \<open>Limits of a body: they grow with the months of blocks (six an hour) for ten years.\<close>

definition body_limit :: "'acc ext \<Rightarrow> nat \<Rightarrow> u32 \<Rightarrow> nat" where
  "body_limit X start h =
     (let month = unat h div (6 * 24 * 30) in
      if month < 120 then f64_growth X start month else start * 111)"

definition body_sigops_limit :: "'acc ext \<Rightarrow> u32 \<Rightarrow> nat" where
  "body_sigops_limit X h = body_limit X 42800 h"

definition body_size_limit :: "'acc ext \<Rightarrow> u32 \<Rightarrow> nat" where
  "body_size_limit X h = body_limit X (8 * 1024 * 1024) h"

text \<open>
  \<open>last\<close> of a table keyed by a bincode \<open>u32\<close>: LMDB compares the four little-endian bytes of the
  keys, so the last entry is the one with the greatest little-endian encoding.
\<close>

definition seq_last :: "(u32, 'v) db \<Rightarrow> (u32 \<times> 'v) option" where
  "seq_last m =
     (case sort_key (\<lambda>(k, _). le_bytes 4 (unat k)) (db_iter m) of
        [] \<Rightarrow> None | e # es \<Rightarrow> Some (last (e # es)))"

definition get_last_deposit_block_hash :: "'acc State \<Rightarrow> hash256 option" where
  "get_last_deposit_block_hash s = map_option (\<lambda>(_, h, _). h) (seq_last (deposit_blocks s))"

definition get_last_withdrawal_bundle_event_block_hash :: "'acc State \<Rightarrow> hash256 option" where
  "get_last_withdrawal_bundle_event_block_hash s =
     map_option (\<lambda>(_, h, _). h) (seq_last (withdrawal_bundle_event_blocks s))"

fun is_deposit :: "OutPoint \<Rightarrow> bool" where
  "is_deposit (OpDeposit _) = True"
| "is_deposit _ = False"

fun is_withdrawal_inpoint :: "InPoint \<Rightarrow> bool" where
  "is_withdrawal_inpoint (InWithdrawal _) = True"
| "is_withdrawal_inpoint _ = False"

definition wealth_utxo :: "OutPoint \<times> Output \<Rightarrow> amount \<Rightarrow> amount res" where
  "wealth_utxo = (\<lambda>(op, out) acc.
     if is_deposit op then ok_or (Fail AmountOverflow) (checked_add acc (get_value out)) else Inr acc)"

definition wealth_stxo :: "OutPoint \<times> SpentOutput \<Rightarrow> amount \<times> amount \<Rightarrow> (amount \<times> amount) res" where
  "wealth_stxo = (\<lambda>(op, so) (dep, wd).
     and_then (if is_deposit op
               then ok_or (Fail AmountOverflow) (checked_add dep (get_value (spent_output so)))
               else Inr dep) (\<lambda>dep'.
     and_then (if is_withdrawal_inpoint (inpoint so)
               then ok_or (Fail AmountOverflow) (checked_add wd (get_value (spent_output so)))
               else Inr wd) (\<lambda>wd'.
     Inr (dep', wd'))))"

definition sidechain_wealth :: "'acc State \<Rightarrow> amount res" where
  "sidechain_wealth s =
     and_then (try_fold wealth_utxo (db_iter (utxos s)) 0) (\<lambda>dep_utxo.
     and_then (try_fold wealth_stxo (db_iter (stxos s)) (0, 0)) (\<lambda>(dep_stxo, wd_stxo).
     and_then (ok_or (Fail AmountOverflow) (checked_add dep_utxo dep_stxo)) (\<lambda>total.
     ok_or (Fail AmountOverflow) (checked_sub total wd_stxo))))"

section \<open>Lemmas\<close>

abbreviation value_sum :: "Output list \<Rightarrow> nat" where
  "value_sum outs \<equiv> (\<Sum>out\<leftarrow>outs. unat (get_value out))"

lemma ex_word_iff: "(\<exists>w :: u64. unat w = n) \<longleftrightarrow> n < 2 ^ 64"
proof
  assume "\<exists>w :: u64. unat w = n"
  then show "n < 2 ^ 64" using unsigned_less [where 'b = 64] by auto
next
  assume "n < 2 ^ 64"
  then have "unat (word_of_nat n :: u64) = n" by (simp add: unat_of_nat)
  then show "\<exists>w :: u64. unat w = n" by blast
qed

lemma add_value_in_iff:
  "add_value_in u a = Inr b \<longleftrightarrow> \<not> is_withdrawal (content u) \<and> unat b = unat a + unat (get_value u)"
  by (auto simp: add_value_in_def res_simps checked_add_Some)

lemma add_value_out_iff:
  "add_value_out u a = Inr b \<longleftrightarrow> True \<and> unat b = unat a + unat (get_value u)"
  by (auto simp: add_value_out_def res_simps checked_add_Some)

lemma validate_utxo_hashes_iff:
  "validate_utxo_hashes X ft = Inr u \<longleftrightarrow>
     (\<forall>(op, h, out) \<in> set (filled_inputs ft). h = pointed_hash X op out)"
  by (auto simp: validate_utxo_hashes_def res_simps Let_def split: prod.splits)

lemma validate_filled_iff:
  "validate_filled_transaction X ft = Inr fee \<longleftrightarrow>
     (\<forall>(op, h, out) \<in> set (filled_inputs ft). h = pointed_hash X op out) \<and>
     list_all (\<lambda>u. \<not> is_withdrawal (content u)) (spent_utxos ft) \<and>
     value_sum (spent_utxos ft) < 2 ^ 64 \<and>
     value_sum (spent_utxos ft) = value_sum (outputs (transaction ft)) + unat fee"
proof -
  note sum_in = try_fold_sum [of add_value_in, OF add_value_in_iff, of _ 0]
  note sum_out = try_fold_sum [of add_value_out, OF add_value_out_iff, of _ 0]
  have sub: "(if vi < vo then err NotEnoughValueIn else ok_or (Fail AmountUnderflow) (checked_sub vi vo))
      = Inr fee \<longleftrightarrow> unat vi = unat vo + unat fee" for vi vo :: u64
    by (auto simp: res_simps checked_sub_Some word_less_nat_alt)
  have "validate_filled_transaction X ft = Inr fee \<longleftrightarrow>
      (\<forall>(op, h, out) \<in> set (filled_inputs ft). h = pointed_hash X op out) \<and>
      list_all (\<lambda>u. \<not> is_withdrawal (content u)) (spent_utxos ft) \<and>
      (\<exists>(vi :: u64) (vo :: u64). unat vi = value_sum (spent_utxos ft) \<and>
         unat vo = value_sum (outputs (transaction ft)) \<and> unat vi = unat vo + unat fee)"
    by (auto simp: validate_filled_transaction_def res_simps validate_utxo_hashes_iff sum_in sum_out
        sub list_all_iff)
  also have "(\<exists>(vi :: u64) (vo :: u64). unat vi = value_sum (spent_utxos ft) \<and>
         unat vo = value_sum (outputs (transaction ft)) \<and> unat vi = unat vo + unat fee) \<longleftrightarrow>
      value_sum (spent_utxos ft) < 2 ^ 64 \<and>
      value_sum (spent_utxos ft) = value_sum (outputs (transaction ft)) + unat fee" (is "?l \<longleftrightarrow> ?r")
  proof
    assume ?l
    then obtain vi vo :: u64 where "unat vi = value_sum (spent_utxos ft)"
        "unat vo = value_sum (outputs (transaction ft))" "unat vi = unat vo + unat fee"
      by blast
    then show ?r using ex_word_iff by (metis (no_types, lifting))
  next
    assume r: ?r
    then have "value_sum (outputs (transaction ft)) < 2 ^ 64" by linarith
    with r obtain vi vo :: u64 where "unat vi = value_sum (spent_utxos ft)"
        "unat vo = value_sum (outputs (transaction ft))"
      unfolding ex_word_iff [symmetric] by blast
    with r show ?l by (intro exI [of _ vi] exI [of _ vo]) simp
  qed
  finally show ?thesis .
qed

lemma get_fee_iff:
  "get_fee ft = Inr fee \<longleftrightarrow>
     value_sum (spent_utxos ft) < 2 ^ 64 \<and>
     value_sum (spent_utxos ft) = value_sum (outputs (transaction ft)) + unat fee"
  (is "?l \<longleftrightarrow> ?r")
proof
  assume ?l
  then obtain vi vo where v: "unat vi = value_sum (spent_utxos ft)"
      "unat vo = value_sum (outputs (transaction ft))" "\<not> vi < vo" "fee = vi - vo"
    by (auto simp: get_fee_def get_value_in_def get_value_out_def res_simps checked_sum_Some comp_def
        split: if_splits)
  then have "unat vi = unat vo + unat fee"
    by (simp add: unat_sub word_le_nat_alt not_less)
  moreover have "value_sum (spent_utxos ft) < 2 ^ 64" using v(1) ex_word_iff by blast
  ultimately show ?r using v by simp
next
  assume r: ?r
  then have "value_sum (outputs (transaction ft)) < 2 ^ 64" by linarith
  with r obtain vi vo :: u64 where v: "unat vi = value_sum (spent_utxos ft)"
      "unat vo = value_sum (outputs (transaction ft))"
    unfolding ex_word_iff [symmetric] by auto
  then have "unat vi = unat vo + unat fee" using r by simp
  then have "\<not> vi < vo" "fee = vi - vo"
    by (auto simp: word_less_nat_alt unat_sub word_le_nat_alt word_unat_eq_iff)
  with v show ?l
    by (auto simp: get_fee_def get_value_in_def get_value_out_def res_simps checked_sum_Some comp_def)
qed

lemma fill_transaction_iff:
  "fill_transaction s tx = Inr ft \<longleftrightarrow>
     transaction ft = tx \<and>
     list_all2 (\<lambda>(op, _) out. fmlookup (utxos s) op = Some out) (inputs tx) (spent_utxos ft)"
proof -
  have "try_map (\<lambda>(op, _). ok_or (Fail (NoUtxo op)) (fmlookup m op)) ins = Inr outs \<longleftrightarrow>
      list_all2 (\<lambda>(op, _) out. fmlookup m op = Some out) ins outs"
    for m :: "(OutPoint, Output) db" and ins :: "(OutPoint \<times> hash256) list" and outs
    by (induction ins arbitrary: outs)
      (auto simp: res_simps list_all2_Cons1 split: prod.splits)
  then show ?thesis
    by (cases ft) (auto simp: fill_transaction_def res_simps)
qed

text \<open>Deposited and withdrawn value.\<close>

definition deposit_value :: "OutPoint \<Rightarrow> Output \<Rightarrow> nat" where
  "deposit_value op out = (if is_deposit op then unat (get_value out) else 0)"

definition withdrawn_value :: "SpentOutput \<Rightarrow> nat" where
  "withdrawn_value so =
     (if is_withdrawal_inpoint (inpoint so) then unat (get_value (spent_output so)) else 0)"

lemma wealth_utxos:
  "try_fold wealth_utxo es a = Inr b \<Longrightarrow>
   unat b = unat a + (\<Sum>(op, out)\<leftarrow>es. deposit_value op out)"
  by (induction es arbitrary: a)
    (auto simp: res_simps wealth_utxo_def checked_add_Some deposit_value_def split: if_splits)

lemma wealth_stxos:
  "try_fold wealth_stxo es (a, c) = Inr (b, d) \<Longrightarrow>
   unat b = unat a + (\<Sum>(op, so)\<leftarrow>es. deposit_value op (spent_output so)) \<and>
   unat d = unat c + (\<Sum>(op, so)\<leftarrow>es. withdrawn_value so)"
proof (induction es arbitrary: a c)
  case Nil
  then show ?case by simp
next
  case (Cons e es)
  obtain op so where e: "e = (op, so)" by (cases e)
  from Cons.prems obtain a' c' where
      st: "wealth_stxo e (a, c) = Inr (a', c')" and r: "try_fold wealth_stxo es (a', c') = Inr (b, d)"
    by (auto simp: res_simps)
  from st have "unat a' = unat a + deposit_value op (spent_output so)"
      "unat c' = unat c + withdrawn_value so"
    by (auto simp: e wealth_stxo_def res_simps checked_add_Some deposit_value_def withdrawn_value_def
        split: if_splits)
  with Cons.IH [OF r] show ?case by (simp add: e)
qed

end
