(* ===== verification/Swap_Store.thy ===== *)
theory Swap_Store
  imports State_Store
begin

text \<open>
  Persistence of swaps (\<^verbatim>\<open>lib/state/mod.rs\<close>): saving with the two indexes, cancelling, deleting,
  loading, diagnosing; output locks and reservations; and the two updates that L1 observation
  makes to a swap.
\<close>

section \<open>Locks and reservations\<close>

definition lock_output_to_swap :: "OutPoint \<Rightarrow> SwapId \<Rightarrow> 'acc State \<Rightarrow> 'acc State" where
  "lock_output_to_swap op i s =
     s\<lparr>locked_swap_outputs := fmupd op i (locked_swap_outputs s)\<rparr>"

definition unlock_output_from_swap :: "OutPoint \<Rightarrow> 'acc State \<Rightarrow> 'acc State" where
  "unlock_output_from_swap op s =
     s\<lparr>locked_swap_outputs := fmdrop op (locked_swap_outputs s)\<rparr>"

definition is_output_locked_to_swap :: "OutPoint \<Rightarrow> 'acc State \<Rightarrow> SwapId option" where
  "is_output_locked_to_swap op s = fmlookup (locked_swap_outputs s) op"

definition get_swap_reservation :: "SwapId \<Rightarrow> 'acc State \<Rightarrow> SwapReservation option" where
  "get_swap_reservation i s = fmlookup (swap_reservations s) i"

definition reserve_swap :: "SwapId \<Rightarrow> Address \<Rightarrow> u32 \<Rightarrow> 'acc State \<Rightarrow> 'acc State" where
  "reserve_swap i who h s =
     s\<lparr>swap_reservations :=
         fmupd i \<lparr>claimer = who, accepted_at_height = h\<rparr> (swap_reservations s)\<rparr>"

definition clear_swap_reservation :: "SwapId \<Rightarrow> 'acc State \<Rightarrow> 'acc State" where
  "clear_swap_reservation i s = s\<lparr>swap_reservations := fmdrop i (swap_reservations s)\<rparr>"

definition entitled_claimer_at :: "Swap \<Rightarrow> u32 \<Rightarrow> 'acc State \<Rightarrow> Address option" where
  "entitled_claimer_at sw h s =
     (case l2_recipient sw of
        Some r \<Rightarrow> Some r
      | None \<Rightarrow>
          (case get_swap_reservation (sw_id sw) s of
             None \<Rightarrow> None
           | Some r \<Rightarrow> if is_live_at r (parent_chain sw) h then Some (claimer r) else None))"

section \<open>Reading swaps\<close>

text \<open>A record that does not decode is treated as missing.\<close>

definition get_swap :: "SwapId \<Rightarrow> 'acc State \<Rightarrow> Swap option" where
  "get_swap i s =
     (case fmlookup (swaps s) i of Some (Decodes sw) \<Rightarrow> Some sw | _ \<Rightarrow> None)"

definition get_swap_by_l1_txid :: "ParentChainType \<Rightarrow> SwapTxId \<Rightarrow> 'acc State \<Rightarrow> Swap option" where
  "get_swap_by_l1_txid chain t s =
     (case fmlookup (swaps_by_l1_txid s) (chain, t) of None \<Rightarrow> None | Some i \<Rightarrow> get_swap i s)"

definition get_swaps_by_recipient :: "Address \<Rightarrow> 'acc State \<Rightarrow> Swap list" where
  "get_swaps_by_recipient r s =
     (case fmlookup (swaps_by_recipient s) r of
        Some ids \<Rightarrow> List.map_filter (\<lambda>i. get_swap i s) ids
      | None \<Rightarrow> [])"

text \<open>
  The first loop of \<open>load_all_swaps\<close>: it gives the swaps read, the number of records that do not
  decode, and the length of the run of such records it ended in. Ten in a row end the loop.
\<close>

definition max_consecutive_errors :: nat where
  "max_consecutive_errors = 10"

fun load_scan :: "nat \<Rightarrow> (SwapId \<times> Swap stored) list \<Rightarrow> Swap list \<times> nat \<times> nat" where
  "load_scan c [] = ([], 0, c)"
| "load_scan c ((i, Decodes sw) # es) =
     (let (sws, k, c') = load_scan 0 es in (sw # sws, k, c'))"
| "load_scan c ((i, Undecodable) # es) =
     (if c + 1 \<ge> max_consecutive_errors then ([], 1, c + 1)
      else let (sws, k, c') = load_scan (c + 1) es in (sws, k + 1, c'))"

text \<open>The second loop: each record read again by its key, until one does not decode.\<close>

fun load_individually :: "'acc State \<Rightarrow> (SwapId \<times> Swap stored) list \<Rightarrow> Swap list \<Rightarrow> Swap list" where
  "load_individually s [] sws = sws"
| "load_individually s ((i, Decodes _) # es) sws =
     load_individually s es
       (case get_swap i s of
          Some sw \<Rightarrow> if list_ex (\<lambda>x. sw_id x = i) sws then sws else sws @ [sw]
        | None \<Rightarrow> sws)"
| "load_individually s ((i, Undecodable) # es) sws = sws"

definition load_all_swaps :: "'acc State \<Rightarrow> Swap list" where
  "load_all_swaps s =
     (let (sws, corrupted, consecutive) = load_scan 0 (db_iter (swaps s)) in
      if corrupted > 0 \<or> consecutive > 0 then load_individually s (db_iter (swaps s)) sws else sws)"

definition check_swap_corrupted :: "SwapId \<Rightarrow> 'acc State \<Rightarrow> bool" where
  "check_swap_corrupted i s = (fmlookup (swaps s) i = Some Undecodable)"

text \<open>The detailed scan of \<open>find_corrupted_swaps\<close>; the first loop only counts.\<close>

fun corrupted_scan :: "'acc State \<Rightarrow> (SwapId \<times> Swap stored) list \<Rightarrow> SwapId list" where
  "corrupted_scan s [] = []"
| "corrupted_scan s ((i, Decodes _) # es) =
     (if check_swap_corrupted i s then i # corrupted_scan s es else corrupted_scan s es)"
| "corrupted_scan s ((i, Undecodable) # es) = corrupted_scan s es"

definition find_corrupted_swaps :: "'acc State \<Rightarrow> SwapId list" where
  "find_corrupted_swaps s = corrupted_scan s (db_iter (swaps s))"

definition cleanup_corrupted_swaps :: "'acc State \<Rightarrow> u32 \<times> 'acc State" where
  "cleanup_corrupted_swaps s =
     fold (\<lambda>i (n, s). (n + 1, s\<lparr>swaps := fmdrop i (swaps s)\<rparr>)) (find_corrupted_swaps s) (0, s)"

datatype DecodeError = DecodeError

record SwapDiagnostic =
  diag_swap_id :: SwapId
  diag_exists :: bool
  diag_corrupted :: bool
  diag_can_deserialize :: bool
  diag_swap :: "Swap option"
  diag_error :: "DecodeError option"

definition diagnose_swap :: "SwapId \<Rightarrow> 'acc State \<Rightarrow> SwapDiagnostic" where
  "diagnose_swap i s =
     (case fmlookup (swaps s) i of
        Some (Decodes sw) \<Rightarrow>
          \<lparr>diag_swap_id = i, diag_exists = True, diag_corrupted = False,
           diag_can_deserialize = True, diag_swap = Some sw, diag_error = None\<rparr>
      | None \<Rightarrow>
          \<lparr>diag_swap_id = i, diag_exists = False, diag_corrupted = False,
           diag_can_deserialize = False, diag_swap = None, diag_error = None\<rparr>
      | Some Undecodable \<Rightarrow>
          \<lparr>diag_swap_id = i, diag_exists = True, diag_corrupted = True,
           diag_can_deserialize = False, diag_swap = None, diag_error = Some DecodeError\<rparr>)"

section \<open>Saving, cancelling and deleting\<close>

text \<open>
  \<open>save_swap\<close> writes nothing that \<^verbatim>\<open>bincode\<close> cannot read back. The table uses the same encoding,
  so the value it checks by reading the table is the one it checked before.
\<close>

definition index_l1_txid :: "Swap \<Rightarrow> 'acc State \<Rightarrow> 'acc State" where
  "index_l1_txid sw s =
     s\<lparr>swaps_by_l1_txid := fmupd (parent_chain sw, l1_txid sw) (sw_id sw) (swaps_by_l1_txid s)\<rparr>"

definition index_recipient :: "Swap \<Rightarrow> 'acc State \<Rightarrow> 'acc State" where
  "index_recipient sw s =
     (case l2_recipient sw of
        None \<Rightarrow> s
      | Some r \<Rightarrow>
          let ids = (case fmlookup (swaps_by_recipient s) r of Some ids \<Rightarrow> ids | None \<Rightarrow> []) in
          if sw_id sw \<in> set ids then s
          else s\<lparr>swaps_by_recipient := fmupd r (ids @ [sw_id sw]) (swaps_by_recipient s)\<rparr>)"

definition save_swap :: "'acc ext \<Rightarrow> Swap \<Rightarrow> 'acc State \<Rightarrow> 'acc State res" where
  "save_swap X sw s =
     (let s1 = s\<lparr>swaps := fmdrop (sw_id sw) (swaps s)\<rparr> in
      case swap_codec X sw of
        Undecodable \<Rightarrow> invalid (SwapSerialization (sw_id sw))
      | Decodes sw' \<Rightarrow>
          Inr (index_recipient sw (index_l1_txid sw
                (s1\<lparr>swaps := fmupd (sw_id sw) (Decodes sw') (swaps s1)\<rparr>))))"

text \<open>The loop over a snapshot of the locks, with the number of outputs unlocked.\<close>

definition unlock_loop ::
  "SwapId \<Rightarrow> (OutPoint \<times> SwapId) list \<Rightarrow> u32 \<times> 'acc State \<Rightarrow> u32 \<times> 'acc State" where
  "unlock_loop i =
     fold (\<lambda>(op, locked) (n, s). if locked = i then (n + 1, unlock_output_from_swap op s) else (n, s))"

definition unlock_all_outputs_for_swap :: "SwapId \<Rightarrow> 'acc State \<Rightarrow> u32 \<times> 'acc State" where
  "unlock_all_outputs_for_swap i s = unlock_loop i (db_iter (locked_swap_outputs s)) (0, s)"

definition cancel_swap ::
  "'acc ext \<Rightarrow> SwapId \<Rightarrow> Address option \<Rightarrow> 'acc State \<Rightarrow> 'acc State res" where
  "cancel_swap X i creator s =
     and_then (ok_or (Fail (SwapNotFound i)) (get_swap i s)) (\<lambda>sw.
     and_then (case l2_creator_address sw of
                 Some c \<Rightarrow> ensure (creator = Some c) (Fail SwapNotCreator)
               | None \<Rightarrow> err SwapNotCreator) (\<lambda>_.
     if sw_state sw \<noteq> Pending then invalid (CannotCancel i (sw_state sw))
     else save_swap X (sw\<lparr>sw_state := Cancelled\<rparr>) (snd (unlock_all_outputs_for_swap i s))))"

definition unindex_recipient :: "Swap \<Rightarrow> 'acc State \<Rightarrow> 'acc State" where
  "unindex_recipient sw s =
     (case l2_recipient sw of
        None \<Rightarrow> s
      | Some r \<Rightarrow>
          (case fmlookup (swaps_by_recipient s) r of
             None \<Rightarrow> s
           | Some ids \<Rightarrow>
               let ids' = filter (\<lambda>i. i \<noteq> sw_id sw) ids in
               if ids' = [] then s\<lparr>swaps_by_recipient := fmdrop r (swaps_by_recipient s)\<rparr>
               else s\<lparr>swaps_by_recipient := fmupd r ids' (swaps_by_recipient s)\<rparr>))"

definition delete_swap_unchecked :: "SwapId \<Rightarrow> 'acc State \<Rightarrow> 'acc State" where
  "delete_swap_unchecked i s =
     (let s1 = (case get_swap i s of
                  Some sw \<Rightarrow>
                    unindex_recipient sw
                      (s\<lparr>swaps_by_l1_txid :=
                           fmdrop (parent_chain sw, l1_txid sw) (swaps_by_l1_txid s)\<rparr>)
                | None \<Rightarrow> snd (unlock_all_outputs_for_swap i s))
      in s1\<lparr>swaps := fmdrop i (swaps s1)\<rparr>)"

text \<open>Locks of swaps that \<open>get_swap\<close> does not find; the swaps table does not change in the loop.\<close>

definition cleanup_orphaned_locks :: "'acc State \<Rightarrow> u32 \<times> 'acc State" where
  "cleanup_orphaned_locks s =
     fold (\<lambda>(op, i) (n, s).
             case get_swap i s of
               Some _ \<Rightarrow> (n, s)
             | None \<Rightarrow> (n + 1, unlock_output_from_swap op s))
       (db_iter (locked_swap_outputs s)) (0, s)"

section \<open>L1 observation\<close>

definition confirmed_state :: "u32 \<Rightarrow> u32 \<Rightarrow> SwapState" where
  "confirmed_state confirmations required =
     (if confirmations \<ge> required then ReadyToClaim
      else WaitingConfirmations confirmations required)"

definition update_swap_l1_txid ::
  "'acc ext \<Rightarrow> SwapId \<Rightarrow> SwapTxId \<Rightarrow> u32 \<Rightarrow> string option \<Rightarrow> Address option \<Rightarrow> BlockHash \<Rightarrow> u32 \<Rightarrow>
   'acc State \<Rightarrow> 'acc State res" where
  "update_swap_l1_txid X i new_txid confirmations l1_claimer l2_claimer bh ht s =
     and_then (ok_or (Fail (SwapNotFound i)) (get_swap i s)) (\<lambda>sw.
     if sw_state sw \<noteq> Pending then invalid (CannotFill i (sw_state sw))
     else if confirmations = 0 then invalid (ZeroConfirmations i)
     else
       let max_age = max_l1_tx_age_blocks (parent_chain sw) in
       if confirmations > max_age then invalid (L1TxTooOld i confirmations max_age)
       else
         and_then (case get_swap_by_l1_txid (parent_chain sw) new_txid s of
                     Some ex \<Rightarrow> ensure (sw_id ex = i) (Fail (L1TxidAlreadyUsed i (sw_id ex)))
                   | None \<Rightarrow> Inr ()) (\<lambda>_.
         let old = l1_txid sw;
             sw1 = (case l1_claimer of
                      Some a \<Rightarrow> update_l1_transaction new_txid a sw
                    | None \<Rightarrow> update_l1_txid new_txid sw);
             sw2 = (case l2_claimer of Some a \<Rightarrow> set_l2_claimer_address a sw1 | None \<Rightarrow> sw1);
             sw3 = set_l1_txid_validation_block bh ht sw2;
             sw4 = sw3\<lparr>sw_state := confirmed_state confirmations (required_confirmations sw3)\<rparr>;
             s1 = s\<lparr>swaps_by_l1_txid := fmdrop (parent_chain sw4, old) (swaps_by_l1_txid s)\<rparr>;
             s2 = s1\<lparr>swaps_by_l1_txid := fmupd (parent_chain sw4, new_txid) i (swaps_by_l1_txid s1)\<rparr>
         in save_swap X sw4 s2))"

definition update_swap_confirmations ::
  "'acc ext \<Rightarrow> SwapId \<Rightarrow> u32 \<Rightarrow> BlockHash \<Rightarrow> u32 \<Rightarrow> 'acc State \<Rightarrow> 'acc State res" where
  "update_swap_confirmations X i new bh ht s =
     and_then (ok_or (Fail (SwapNotFound i)) (get_swap i s)) (\<lambda>sw.
     case sw_state sw of
       WaitingConfirmations current required \<Rightarrow>
         if new \<le> current then Inr s
         else save_swap X ((set_l1_txid_validation_block bh ht sw)
                            \<lparr>sw_state := confirmed_state new required\<rparr>) s
     | st \<Rightarrow> invalid (NotWaitingConfirmations i st))"

section \<open>The lock table as an interface\<close>

text \<open>
  What the validation and connection of blocks rely on: a lock is seen exactly at its outpoint,
  until it is removed.
\<close>

locale lock_table =
  fixes lock :: "'o \<Rightarrow> 'i \<Rightarrow> 's \<Rightarrow> 's"
    and unlock :: "'o \<Rightarrow> 's \<Rightarrow> 's"
    and locked :: "'o \<Rightarrow> 's \<Rightarrow> 'i option"
  assumes locked_lock: "locked op' (lock op i s) = (if op' = op then Some i else locked op' s)"
    and locked_unlock: "locked op' (unlock op s) = (if op' = op then None else locked op' s)"
begin

lemma locked_lock_all:
  "locked op (fold (\<lambda>op. lock op i) ops s) = (if op \<in> set ops then Some i else locked op s)"
  by (induction ops arbitrary: s) (auto simp: locked_lock)

lemma locked_unlock_all:
  "locked op (fold unlock ops s) = (if op \<in> set ops then None else locked op s)"
  by (induction ops arbitrary: s) (auto simp: locked_unlock)

text \<open>Unlocking the outputs of one swap among some outpoints, as a claim does.\<close>

lemma locked_unlock_own:
  "locked op (fold (\<lambda>op s. if locked op s = Some i then unlock op s else s) ops s) =
     (if op \<in> set ops \<and> locked op s = Some i then None else locked op s)"
  by (induction ops arbitrary: s) (auto simp: locked_unlock)

text \<open>Locking the outpoints that are free, as the reversal of a claim does.\<close>

lemma locked_lock_free:
  "locked op (fold (\<lambda>op s. if locked op s = None then lock op i s else s) ops s) =
     (if op \<in> set ops \<and> locked op s = None then Some i else locked op s)"
  by (induction ops arbitrary: s) (auto simp: locked_lock)

text \<open>Where every outpoint was locked to the swap, the two loops cancel out.\<close>

lemma locked_relock:
  assumes "\<forall>op \<in> set ops. locked op s = Some i"
  shows "locked op (fold (\<lambda>op s. if locked op s = None then lock op i s else s) (rev ops)
                     (fold (\<lambda>op s. if locked op s = Some i then unlock op s else s) ops s)) =
         locked op s"
  using assms by (simp add: locked_lock_free locked_unlock_own)

end

lemmas lock_defs =
  lock_output_to_swap_def unlock_output_from_swap_def is_output_locked_to_swap_def

interpretation locks: lock_table lock_output_to_swap unlock_output_from_swap is_output_locked_to_swap
  by unfold_locales (simp_all add: lock_defs)

section \<open>Lemmas on reading and saving\<close>

text \<open>The recipient index after a save.\<close>

definition recipient_put :: "Swap \<Rightarrow> (Address, SwapId list) db \<Rightarrow> (Address, SwapId list) db" where
  "recipient_put sw m =
     (case l2_recipient sw of
        None \<Rightarrow> m
      | Some r \<Rightarrow>
          let ids = (case fmlookup m r of Some ids \<Rightarrow> ids | None \<Rightarrow> []) in
          if sw_id sw \<in> set ids then m else fmupd r (ids @ [sw_id sw]) m)"

lemma save_swap_eq:
  "save_swap X sw s = Inr s' \<longleftrightarrow>
     (\<exists>sw'. swap_codec X sw = Decodes sw' \<and>
       s' = s\<lparr>swaps := fmupd (sw_id sw) (Decodes sw') (swaps s),
              swaps_by_l1_txid := fmupd (parent_chain sw, l1_txid sw) (sw_id sw) (swaps_by_l1_txid s),
              swaps_by_recipient := recipient_put sw (swaps_by_recipient s)\<rparr>)"
  by (cases s)
    (auto simp: save_swap_def Let_def index_recipient_def index_l1_txid_def recipient_put_def
      split: stored.splits option.splits)

lemma save_swap_total:
  "swap_codec X sw = Decodes sw' \<Longrightarrow> \<exists>s'. save_swap X sw s = Inr s'"
  by (simp add: save_swap_eq)

text \<open>The assumption on \<^verbatim>\<open>bincode\<close>: it reads back what it wrote.\<close>

definition codec_ok :: "'acc ext \<Rightarrow> bool" where
  "codec_ok X \<longleftrightarrow> (\<forall>sw. swap_codec X sw = Decodes sw)"

lemma save_swap_ok:
  "codec_ok X \<Longrightarrow> save_swap X sw s =
     Inr (s\<lparr>swaps := fmupd (sw_id sw) (Decodes sw) (swaps s),
            swaps_by_l1_txid := fmupd (parent_chain sw, l1_txid sw) (sw_id sw) (swaps_by_l1_txid s),
            swaps_by_recipient := recipient_put sw (swaps_by_recipient s)\<rparr>)"
  unfolding save_swap_eq by (simp add: codec_ok_def)

lemma get_swap_save:
  "codec_ok X \<Longrightarrow> save_swap X sw s = Inr s' \<Longrightarrow>
   get_swap i s' = (if i = sw_id sw then Some sw else get_swap i s)"
  by (auto simp: save_swap_ok get_swap_def)

lemma get_swap_eq: "get_swap i s = Some sw \<longleftrightarrow> fmlookup (swaps s) i = Some (Decodes sw)"
  by (auto simp: get_swap_def split: option.splits stored.splits)

lemma get_swap_lock [simp]:
  "get_swap i (lock_output_to_swap op j s) = get_swap i s"
  "get_swap i (unlock_output_from_swap op s) = get_swap i s"
  by (simp_all add: get_swap_def lock_defs)

lemma get_swap_reserve [simp]:
  "get_swap i (reserve_swap j who h s) = get_swap i s"
  "get_swap i (clear_swap_reservation j s) = get_swap i s"
  by (simp_all add: get_swap_def reserve_swap_def clear_swap_reservation_def)

lemma get_reservation_reserve:
  "get_swap_reservation i (reserve_swap j who h s) =
     (if i = j then Some \<lparr>claimer = who, accepted_at_height = h\<rparr> else get_swap_reservation i s)"
  "get_swap_reservation i (clear_swap_reservation j s) =
     (if i = j then None else get_swap_reservation i s)"
  by (simp_all add: get_swap_reservation_def reserve_swap_def clear_swap_reservation_def)

section \<open>Unlocking every output of a swap\<close>

definition locks_without :: "SwapId \<Rightarrow> (OutPoint, SwapId) db \<Rightarrow> (OutPoint, SwapId) db" where
  "locks_without i m = fmfilter (\<lambda>op. fmlookup m op \<noteq> Some i) m"

lemma lookup_locks_without:
  "fmlookup (locks_without i m) op = (if fmlookup m op = Some i then None else fmlookup m op)"
  by (simp add: locks_without_def)

lemma unlock_loop_eq:
  "unlock_loop i es (n, s) =
     (n + word_of_nat (length (filter (\<lambda>(_, j). j = i) es)),
      s\<lparr>locked_swap_outputs := fmfilter (\<lambda>op. (op, i) \<notin> set es) (locked_swap_outputs s)\<rparr>)"
proof (induction es arbitrary: n s)
  case Nil
  then show ?case by (simp add: unlock_loop_def)
next
  case (Cons e es)
  obtain op j where e: "e = (op, j)" by (cases e)
  have step: "unlock_loop i (e # es) (n, s) =
      unlock_loop i es (if j = i then (n + 1, unlock_output_from_swap op s) else (n, s))"
    by (simp add: unlock_loop_def e)
  have filt: "fmfilter (\<lambda>o'. (o', i) \<notin> set es) (locked_swap_outputs (unlock_output_from_swap op s)) =
      fmfilter (\<lambda>o'. (o', i) \<notin> set ((op, i) # es)) (locked_swap_outputs s)"
    by (rule fmap_ext) (auto simp: unlock_output_from_swap_def)
  show ?case
  proof (cases "j = i")
    case True
    then show ?thesis
      using step Cons.IH [of "n + 1" "unlock_output_from_swap op s", unfolded filt]
      by (simp add: e unlock_output_from_swap_def add.assoc del: list.set)
  next
    case False
    then show ?thesis using step Cons.IH [of n s] by (simp add: e)
  qed
qed

lemma unlock_all_outputs_eq:
  "snd (unlock_all_outputs_for_swap i s) =
     s\<lparr>locked_swap_outputs := locks_without i (locked_swap_outputs s)\<rparr>"
proof -
  have "fmfilter (\<lambda>op. (op, i) \<notin> set (db_iter m)) m = locks_without i m" for m
    by (rule fmap_ext) (simp add: locks_without_def set_db_iter)
  then show ?thesis by (simp add: unlock_all_outputs_for_swap_def unlock_loop_eq)
qed

section \<open>Deleting\<close>

definition recipient_del :: "Swap \<Rightarrow> (Address, SwapId list) db \<Rightarrow> (Address, SwapId list) db" where
  "recipient_del sw m =
     (case l2_recipient sw of
        None \<Rightarrow> m
      | Some r \<Rightarrow>
          (case fmlookup m r of
             None \<Rightarrow> m
           | Some ids \<Rightarrow>
               let ids' = filter (\<lambda>i. i \<noteq> sw_id sw) ids in
               if ids' = [] then fmdrop r m else fmupd r ids' m))"

lemma unindex_recipient_eq:
  "unindex_recipient sw s = s\<lparr>swaps_by_recipient := recipient_del sw (swaps_by_recipient s)\<rparr>"
  by (auto simp: unindex_recipient_def recipient_del_def Let_def split: option.splits)

lemma delete_swap_eq:
  "get_swap i s = Some sw \<Longrightarrow> delete_swap_unchecked i s =
     s\<lparr>swaps := fmdrop i (swaps s),
       swaps_by_l1_txid := fmdrop (parent_chain sw, l1_txid sw) (swaps_by_l1_txid s),
       swaps_by_recipient := recipient_del sw (swaps_by_recipient s)\<rparr>"
  by (simp add: delete_swap_unchecked_def unindex_recipient_eq)

text \<open>Every swap is stored under its own id.\<close>

definition swaps_keyed :: "'acc State \<Rightarrow> bool" where
  "swaps_keyed s \<longleftrightarrow> (\<forall>i sw. get_swap i s = Some sw \<longrightarrow> sw_id sw = i)"

section \<open>Loading and cleaning up\<close>

definition decodable :: "(SwapId \<times> Swap stored) list \<Rightarrow> Swap list" where
  "decodable es = List.map_filter (\<lambda>e. case snd e of Decodes sw \<Rightarrow> Some sw | Undecodable \<Rightarrow> None) es"

lemma decodable_simps [simp]:
  "decodable [] = []"
  "decodable ((i, Decodes sw) # es) = sw # decodable es"
  "decodable ((i, Undecodable) # es) = decodable es"
  by (simp_all add: decodable_def map_filter_def)

lemma load_scan_all:
  "c + length (filter (\<lambda>e. snd e = Undecodable) es) < max_consecutive_errors \<Longrightarrow>
   fst (load_scan c es) = decodable es"
proof (induction c es rule: load_scan.induct)
  case (1 c)
  show ?case by simp
next
  case (2 c i sw es)
  then show ?case by (auto simp: case_prod_unfold Let_def)
next
  case (3 c i es)
  then show ?case by (auto simp: case_prod_unfold Let_def)
qed

text \<open>The records before the first one that does not decode are all found by the first loop.\<close>

lemma load_scan_prefix:
  "(i, Decodes sw) \<in> set (takeWhile (\<lambda>e. snd e \<noteq> Undecodable) es) \<Longrightarrow> sw \<in> set (fst (load_scan c es))"
  by (induction c es rule: load_scan.induct) (auto simp: case_prod_unfold Let_def)

lemma load_individually_same:
  assumes "\<And>i sw. (i, Decodes sw) \<in> set (takeWhile (\<lambda>e. snd e \<noteq> Undecodable) es) \<Longrightarrow>
    \<exists>x \<in> set sws. sw_id x = i"
  shows "load_individually s es sws = sws"
  using assms
proof (induction s es sws rule: load_individually.induct)
  case (2 s i sw es sws)
  have "\<exists>x \<in> set sws. sw_id x = i" by (rule "2.prems" [of i sw]) simp
  then have acc: "(case get_swap i s of
      Some sw \<Rightarrow> if list_ex (\<lambda>x. sw_id x = i) sws then sws else sws @ [sw] | None \<Rightarrow> sws) = sws"
    by (auto simp: list_ex_iff split: option.splits)
  have "load_individually s es sws = sws"
  proof (rule "2.IH" [unfolded acc])
    fix j sw' assume "(j, Decodes sw') \<in> set (takeWhile (\<lambda>e. snd e \<noteq> Undecodable) es)"
    then show "\<exists>x \<in> set sws. sw_id x = j" by (intro "2.prems" [of j sw']) simp
  qed
  then show ?case by (simp only: load_individually.simps acc)
qed simp_all

lemma load_all_swaps_scan:
  assumes "swaps_keyed s"
  shows "load_all_swaps s = fst (load_scan 0 (db_iter (swaps s)))"
proof -
  let ?es = "db_iter (swaps s)"
  have "load_individually s ?es (fst (load_scan 0 ?es)) = fst (load_scan 0 ?es)"
  proof (rule load_individually_same)
    fix i sw assume e: "(i, Decodes sw) \<in> set (takeWhile (\<lambda>e. snd e \<noteq> Undecodable) ?es)"
    then have "get_swap i s = Some sw"
      using set_takeWhileD [OF e] by (simp add: get_swap_eq set_db_iter)
    with assms have "sw_id sw = i" by (simp add: swaps_keyed_def)
    with load_scan_prefix [OF e] show "\<exists>x \<in> set (fst (load_scan 0 ?es)). sw_id x = i" by blast
  qed
  then show ?thesis by (simp add: load_all_swaps_def case_prod_unfold Let_def)
qed

lemma corrupted_scan_empty:
  "(\<And>i sw. (i, Decodes sw) \<in> set es \<Longrightarrow> fmlookup (swaps s) i = Some (Decodes sw)) \<Longrightarrow>
   corrupted_scan s es = []"
proof (induction s es rule: corrupted_scan.induct)
  case (2 s i sw es)
  have "fmlookup (swaps s) i = Some (Decodes sw)" by (rule "2.prems") simp
  moreover have "corrupted_scan s es = []" using 2 by (auto simp: check_swap_corrupted_def)
  ultimately show ?case by (simp add: check_swap_corrupted_def)
qed simp_all

lemma find_corrupted_empty: "find_corrupted_swaps s = []"
  unfolding find_corrupted_swaps_def by (rule corrupted_scan_empty) (simp add: set_db_iter)

lemma cleanup_orphaned_fold:
  "is_output_locked_to_swap op (snd (fold (\<lambda>(op, i) (n, s).
      case get_swap i s of Some _ \<Rightarrow> (n, s) | None \<Rightarrow> (n + 1, unlock_output_from_swap op s)) es (n, s))) =
   (if \<exists>i. (op, i) \<in> set es \<and> get_swap i s = None then None else is_output_locked_to_swap op s)"
proof (induction es arbitrary: n s)
  case Nil
  show ?case by simp
next
  case (Cons e es)
  obtain o' i where e: "e = (o', i)" by (cases e)
  show ?case
    by (cases "get_swap i s") (auto simp: e Cons.IH locks.locked_unlock)
qed

section \<open>The recipient index\<close>

text \<open>The index lists exactly the swaps with a fixed recipient.\<close>

definition recipient_index_ok :: "'acc State \<Rightarrow> bool" where
  "recipient_index_ok s \<longleftrightarrow> swaps_keyed s \<and>
     (\<forall>r i. (\<exists>ids. fmlookup (swaps_by_recipient s) r = Some ids \<and> i \<in> set ids) \<longleftrightarrow>
            (\<exists>sw. get_swap i s = Some sw \<and> l2_recipient sw = Some r))"

lemma lookup_recipient_put:
  "(\<exists>ids. fmlookup (recipient_put sw m) r = Some ids \<and> i \<in> set ids) \<longleftrightarrow>
     (\<exists>ids. fmlookup m r = Some ids \<and> i \<in> set ids) \<or> l2_recipient sw = Some r \<and> i = sw_id sw"
  by (cases "fmlookup m r"; cases "l2_recipient sw = Some r")
    (auto simp: recipient_put_def Let_def split: option.splits)

lemma lookup_recipient_del:
  "(\<exists>ids. fmlookup (recipient_del sw m) r = Some ids \<and> i \<in> set ids) \<longleftrightarrow>
     (\<exists>ids. fmlookup m r = Some ids \<and> i \<in> set ids) \<and> \<not> (l2_recipient sw = Some r \<and> i = sw_id sw)"
proof (cases "l2_recipient sw")
  case None
  then show ?thesis by (simp add: recipient_del_def)
next
  case (Some a)
  show ?thesis
  proof (cases "r = a")
    case True
    then show ?thesis using Some
      by (auto simp: recipient_del_def Let_def filter_empty_conv split: option.splits)
  next
    case False
    then show ?thesis using Some
      by (auto simp: recipient_del_def Let_def split: option.splits)
  qed
qed

lemma recipient_index_save:
  assumes ok: "recipient_index_ok s" and X: "codec_ok X" and sv: "save_swap X sw s = Inr s'"
    and same: "\<And>old. get_swap (sw_id sw) s = Some old \<Longrightarrow> l2_recipient old = l2_recipient sw"
  shows "recipient_index_ok s'"
proof -
  note g = get_swap_save [OF X sv]
  have "swaps_by_recipient s' = recipient_put sw (swaps_by_recipient s)"
    using sv by (auto simp: save_swap_eq)
  then have idx: "(\<exists>ids. fmlookup (swaps_by_recipient s') r = Some ids \<and> i \<in> set ids) \<longleftrightarrow>
      (\<exists>sw'. get_swap i s = Some sw' \<and> l2_recipient sw' = Some r) \<or>
      l2_recipient sw = Some r \<and> i = sw_id sw" for r i
    using ok by (simp add: lookup_recipient_put recipient_index_ok_def)
  show ?thesis
    unfolding recipient_index_ok_def
  proof (intro conjI allI)
    show "swaps_keyed s'" using ok by (auto simp: swaps_keyed_def recipient_index_ok_def g)
    fix r i
    show "(\<exists>ids. fmlookup (swaps_by_recipient s') r = Some ids \<and> i \<in> set ids) \<longleftrightarrow>
        (\<exists>sw. get_swap i s' = Some sw \<and> l2_recipient sw = Some r)"
      unfolding idx g using same by auto
  qed
qed

lemma recipient_index_delete:
  assumes ok: "recipient_index_ok s" and sw: "get_swap i s = Some sw"
  shows "recipient_index_ok (delete_swap_unchecked i s)"
proof -
  let ?s' = "delete_swap_unchecked i s"
  have i: "sw_id sw = i" using ok sw by (simp add: recipient_index_ok_def swaps_keyed_def)
  have g: "get_swap j ?s' = (if j = i then None else get_swap j s)" for j
    by (simp add: delete_swap_eq [OF sw] get_swap_def)
  have idx: "(\<exists>ids. fmlookup (swaps_by_recipient ?s') r = Some ids \<and> j \<in> set ids) \<longleftrightarrow>
      (\<exists>sw'. get_swap j s = Some sw' \<and> l2_recipient sw' = Some r) \<and>
      \<not> (l2_recipient sw = Some r \<and> j = i)" for r j
    using ok i by (simp add: delete_swap_eq [OF sw] lookup_recipient_del recipient_index_ok_def)
  show ?thesis
    unfolding recipient_index_ok_def
  proof (intro conjI allI)
    show "swaps_keyed ?s'" using ok by (auto simp: swaps_keyed_def recipient_index_ok_def g)
    fix r j
    show "(\<exists>ids. fmlookup (swaps_by_recipient ?s') r = Some ids \<and> j \<in> set ids) \<longleftrightarrow>
        (\<exists>sw. get_swap j ?s' = Some sw \<and> l2_recipient sw = Some r)"
      unfolding idx g using sw by auto
  qed
qed

lemma get_swaps_by_recipient_set:
  assumes "recipient_index_ok s"
  shows "set (get_swaps_by_recipient r s) = {sw. get_swap (sw_id sw) s = Some sw \<and> l2_recipient sw = Some r}"
proof -
  have "set (get_swaps_by_recipient r s) =
      {sw. \<exists>i ids. fmlookup (swaps_by_recipient s) r = Some ids \<and> i \<in> set ids \<and> get_swap i s = Some sw}"
    by (cases "fmlookup (swaps_by_recipient s) r")
      (auto simp: get_swaps_by_recipient_def set_map_filter)
  also have "\<dots> = {sw. \<exists>i. get_swap i s = Some sw \<and> l2_recipient sw = Some r}"
    using assms unfolding recipient_index_ok_def by (metis (no_types, lifting) option.inject)
  also have "\<dots> = {sw. get_swap (sw_id sw) s = Some sw \<and> l2_recipient sw = Some r}"
    using assms by (auto simp: recipient_index_ok_def swaps_keyed_def)
  finally show ?thesis .
qed

section \<open>Cancelling and updating\<close>

lemma cancel_swap_iff:
  "cancel_swap X i creator s = Inr s' \<longleftrightarrow>
     (\<exists>sw c. get_swap i s = Some sw \<and> l2_creator_address sw = Some c \<and> creator = Some c \<and>
        sw_state sw = Pending \<and>
        save_swap X (sw\<lparr>sw_state := Cancelled\<rparr>)
          (s\<lparr>locked_swap_outputs := locks_without i (locked_swap_outputs s)\<rparr>) = Inr s')"
  by (auto simp: cancel_swap_def res_simps unlock_all_outputs_eq split: option.splits if_splits)

text \<open>The swap that an L1 transaction fills.\<close>

definition filled_swap ::
  "SwapTxId \<Rightarrow> u32 \<Rightarrow> string option \<Rightarrow> Address option \<Rightarrow> BlockHash \<Rightarrow> u32 \<Rightarrow> Swap \<Rightarrow> Swap" where
  "filled_swap t c l1_claimer l2_claimer bh ht sw =
     sw\<lparr>l1_txid := t,
        l1_claimer_address := (if l1_claimer = None then l1_claimer_address sw else l1_claimer),
        l2_claimer_address := (if l2_claimer = None then l2_claimer_address sw else l2_claimer),
        l1_txid_validated_at_block_hash := Some bh, l1_txid_validated_at_height := Some ht,
        sw_state := confirmed_state c (required_confirmations sw)\<rparr>"

lemma update_l1_txid_iff:
  assumes X: "codec_ok X"
  shows "(\<exists>s'. update_swap_l1_txid X i t c l1c l2c bh ht s = Inr s' \<and> P s') \<longleftrightarrow>
     (\<exists>sw. get_swap i s = Some sw \<and> sw_state sw = Pending \<and>
        0 < c \<and> c \<le> max_l1_tx_age_blocks (parent_chain sw) \<and>
        (\<forall>ex. get_swap_by_l1_txid (parent_chain sw) t s = Some ex \<longrightarrow> sw_id ex = i) \<and>
        (\<exists>s'. save_swap X (filled_swap t c l1c l2c bh ht sw)
           (s\<lparr>swaps_by_l1_txid := fmupd (parent_chain sw, t) i
              (fmdrop (parent_chain sw, l1_txid sw) (swaps_by_l1_txid s))\<rparr>) = Inr s' \<and> P s'))"
proof -
  have uniq: "(case x of Some ex \<Rightarrow> ensure (sw_id ex = i) (e ex) | None \<Rightarrow> Inr ()) = Inr u \<longleftrightarrow>
      (\<forall>ex. x = Some ex \<longrightarrow> sw_id ex = i)" for x :: "Swap option" and e and u
    by (auto simp: ensure_eq_Inr split: option.splits)
  have pos: "(if c = 0 then invalid m else r) = Inr y \<longleftrightarrow> 0 < c \<and> r = Inr y" for m y and r :: "'b res"
    by (simp add: word_greater_zero_iff)
  have fill: "(let sw1 = (case l1c of Some a \<Rightarrow> update_l1_transaction t a sw | None \<Rightarrow> update_l1_txid t sw);
       sw2 = (case l2c of Some a \<Rightarrow> set_l2_claimer_address a sw1 | None \<Rightarrow> sw1);
       sw3 = set_l1_txid_validation_block bh ht sw2;
       sw4 = sw3\<lparr>sw_state := confirmed_state c (required_confirmations sw3)\<rparr>;
       s1 = s\<lparr>swaps_by_l1_txid := fmdrop (parent_chain sw4, l1_txid sw) (swaps_by_l1_txid s)\<rparr>;
       s2 = s1\<lparr>swaps_by_l1_txid := fmupd (parent_chain sw4, t) i (swaps_by_l1_txid s1)\<rparr>
     in save_swap X sw4 s2) =
     save_swap X (filled_swap t c l1c l2c bh ht sw)
       (s\<lparr>swaps_by_l1_txid := fmupd (parent_chain sw, t) i
          (fmdrop (parent_chain sw, l1_txid sw) (swaps_by_l1_txid s))\<rparr>)" for sw
    by (cases sw; cases l1c; cases l2c)
      (simp_all add: Let_def filled_swap_def swap_update_defs)
  show ?thesis
    unfolding update_swap_l1_txid_def and_then_eq_Inr
    using fill by (auto simp: and_then_eq_Inr ok_or_eq_Inr uniq pos Let_def not_less split: if_splits)
qed

lemma update_confirmations_iff:
  "update_swap_confirmations X i new bh ht s = Inr s' \<longleftrightarrow>
     (\<exists>sw c r. get_swap i s = Some sw \<and> sw_state sw = WaitingConfirmations c r \<and>
        (if new \<le> c then s' = s
         else save_swap X ((set_l1_txid_validation_block bh ht sw)
                            \<lparr>sw_state := confirmed_state new r\<rparr>) s = Inr s'))"
proof (cases "get_swap i s")
  case None
  then show ?thesis by (simp add: update_swap_confirmations_def)
next
  case (Some sw)
  then show ?thesis
    by (cases "sw_state sw") (auto simp: update_swap_confirmations_def)
qed

end
