(* ===== verification/Swap_Validation.thy ===== *)
theory Swap_Validation
  imports Swap_Store
begin

text \<open>
  The rules of swap transactions (\<^verbatim>\<open>lib/state/swap.rs\<close>), and the validation of a transaction for
  the mempool (\<open>validate_transaction\<close> of \<^verbatim>\<open>lib/state/mod.rs\<close>) which uses them.
\<close>

section \<open>Rules\<close>

definition amount_paid_to :: "Transaction \<Rightarrow> Address \<Rightarrow> amount res" where
  "amount_paid_to tx recipient =
     ok_or (Fail (InvalidTransaction ClaimOutputOverflow))
       (checked_sum (map get_value (filter (\<lambda>out. address out = recipient) (outputs tx))))"

definition validate_no_locked_outputs :: "'acc State \<Rightarrow> Transaction \<Rightarrow> unit res" where
  "validate_no_locked_outputs s tx =
     (if is_swap_claim (data tx) then Inr ()
      else try_fold (\<lambda>inp _.
             case is_output_locked_to_swap (fst inp) s of
               Some i \<Rightarrow> invalid (SpendsLockedOutput (fst inp) i)
             | None \<Rightarrow> Inr ()) (inputs tx) ())"

text \<open>Inputs of a \<open>SwapCreate\<close>: none is locked to another swap, whether that swap exists or not.\<close>

definition check_create_input :: "'acc State \<Rightarrow> SwapId \<Rightarrow> OutPoint \<Rightarrow> unit res" where
  "check_create_input s i op =
     (case is_output_locked_to_swap op s of
        None \<Rightarrow> Inr ()
      | Some j \<Rightarrow>
          if j = i then Inr ()
          else case get_swap j s of
                 Some _ \<Rightarrow> invalid (InputLockedToSwap op j)
               | None \<Rightarrow> invalid (InputLockedOrphan op j))"

definition escrow_values :: "SwapId \<Rightarrow> Output list \<Rightarrow> amount list" where
  "escrow_values i outs =
     List.map_filter (\<lambda>out. case content out of
         SwapPending v j \<Rightarrow> if j = i then Some v else None
       | _ \<Rightarrow> None) outs"

definition validate_swap_create ::
  "'acc ext \<Rightarrow> 'acc State \<Rightarrow> Transaction \<Rightarrow> FilledTransaction \<Rightarrow> unit res" where
  "validate_swap_create X s tx ft =
     (case data tx of
        SwapCreate i _ _ _ l2_recip l2_amt l1_addr l1_amt \<Rightarrow>
          and_then (case spent_utxos ft of
                      [] \<Rightarrow> invalid SwapCreateNoInputs
                    | u # _ \<Rightarrow> Inr (address u)) (\<lambda>sender.
          let computed = from_l2_to_l1 (blake3 X) l1_addr l1_amt sender l2_recip in
          if computed \<noteq> i then invalid (SwapIdMismatch i computed)
          else if get_swap computed s \<noteq> None then invalid (SwapAlreadyExists computed)
          else if l2_amt = 0 then invalid ZeroL2Amount
          else if outputs tx = [] then invalid NoOutputs
          else
            and_then (try_fold (\<lambda>inp _. check_create_input s i (fst inp)) (inputs tx) ()) (\<lambda>_.
            and_then (ok_or (Fail (InvalidTransaction InputValueOverflow))
                       (checked_sum (map get_value (spent_utxos ft)))) (\<lambda>total_in.
            if total_in < l2_amt then invalid (InsufficientFunds l2_amt total_in)
            else
              and_then (ok_or (Fail (InvalidTransaction SwapPendingOverflow))
                         (checked_sum (escrow_values i (outputs tx)))) (\<lambda>escrowed.
              if escrowed < l2_amt then invalid (EscrowTooSmall l2_amt computed escrowed)
              else Inr ()))))
      | _ \<Rightarrow> invalid ExpectedSwapCreate)"

text \<open>The height of the block under validation; it wraps at the end of \<open>u32\<close>.\<close>

definition validating_height :: "'acc State \<Rightarrow> u32" where
  "validating_height s = (case try_get_height s of None \<Rightarrow> 0 | Some h \<Rightarrow> h + 1)"

definition validate_swap_accept ::
  "'acc State \<Rightarrow> Transaction \<Rightarrow> FilledTransaction \<Rightarrow> unit res" where
  "validate_swap_accept s tx ft =
     (case data tx of
        SwapAccept i who \<Rightarrow>
          and_then (validate_no_locked_outputs s tx) (\<lambda>_.
          and_then (ok_or (Fail (SwapNotFound i)) (get_swap i s)) (\<lambda>sw.
          if l2_recipient sw \<noteq> None then invalid (NotAnOpenSwap i)
          else
            let h = validating_height s in
            and_then (case expires_at_height sw of
                        Some e \<Rightarrow> if h \<ge> e then invalid (SwapExpired i e h) else Inr ()
                      | None \<Rightarrow> Inr ()) (\<lambda>_.
            and_then (case get_swap_reservation i s of
                        Some r \<Rightarrow>
                          if is_live_at r (parent_chain sw) h
                          then invalid (AlreadyReserved i (claimer r) (expires_at r (parent_chain sw)))
                          else Inr ()
                      | None \<Rightarrow> Inr ()) (\<lambda>_.
            ensure (list_ex (\<lambda>u. address u = who) (spent_utxos ft))
              (Fail (InvalidTransaction (AcceptNotOwned who)))))))
      | _ \<Rightarrow> invalid ExpectedSwapAccept)"

text \<open>The loop of a claim over its inputs: whether it found one locked to the swap.\<close>

definition check_claim_input :: "'acc State \<Rightarrow> SwapId \<Rightarrow> OutPoint \<times> hash256 \<Rightarrow> bool \<Rightarrow> bool res" where
  "check_claim_input s i = (\<lambda>(op, _) found.
     case is_output_locked_to_swap op s of
       None \<Rightarrow> Inr found
     | Some j \<Rightarrow> if j \<noteq> i then invalid (LockedToDifferentSwap op j) else Inr True)"

definition validate_swap_claim_consensus :: "'acc State \<Rightarrow> Transaction \<Rightarrow> unit res" where
  "validate_swap_claim_consensus s tx =
     (case data tx of
        SwapClaim i declared _ \<Rightarrow>
          and_then (try_fold (check_claim_input s i) (inputs tx) False) (\<lambda>found.
          if \<not> found then invalid NoLockedInput
          else
            let h = validating_height s in
            and_then (ok_or (Fail (SwapNotFound i)) (get_swap i s)) (\<lambda>sw.
            and_then (ok_or (Fail (InvalidTransaction (NoLiveReservation i h)))
                       (entitled_claimer_at sw h s)) (\<lambda>expected.
            and_then (case declared of
                        Some d \<Rightarrow>
                          if d \<noteq> expected then invalid (ClaimerMismatch d i expected) else Inr ()
                      | None \<Rightarrow> Inr ()) (\<lambda>_.
            and_then (amount_paid_to tx expected) (\<lambda>paid.
            if paid < l2_amount sw then invalid (ClaimUnderpays (l2_amount sw) expected paid)
            else Inr ())))))
      | _ \<Rightarrow> invalid ExpectedSwapClaim)"

definition validate_swap_claim :: "'acc State \<Rightarrow> Transaction \<Rightarrow> unit res" where
  "validate_swap_claim s tx =
     (case data tx of
        SwapClaim i _ _ \<Rightarrow>
          and_then (ok_or (Fail (SwapNotFound i)) (get_swap i s)) (\<lambda>sw.
          if sw_state sw \<noteq> ReadyToClaim then invalid (NotReadyToClaim i (sw_state sw))
          else if l2_recipient sw = None \<and> is_zero_txid (l1_txid sw) then invalid OpenSwapNotFilled
          else validate_swap_claim_consensus s tx)
      | _ \<Rightarrow> invalid ExpectedSwapClaim)"

definition validate_block_transaction ::
  "'acc ext \<Rightarrow> 'acc State \<Rightarrow> Transaction \<Rightarrow> FilledTransaction \<Rightarrow> unit res" where
  "validate_block_transaction X s tx ft =
     (case data tx of
        SwapCreate _ _ _ _ _ _ _ _ \<Rightarrow> validate_swap_create X s tx ft
      | SwapClaim _ _ _ \<Rightarrow> validate_swap_claim_consensus s tx
      | SwapAccept _ _ \<Rightarrow> validate_swap_accept s tx ft
      | Regular \<Rightarrow> validate_no_locked_outputs s tx)"

section \<open>Mempool validation\<close>

definition validate_swap_data ::
  "'acc ext \<Rightarrow> 'acc State \<Rightarrow> Transaction \<Rightarrow> FilledTransaction \<Rightarrow> unit res" where
  "validate_swap_data X s tx ft =
     (case data tx of
        SwapCreate _ _ _ _ _ _ _ _ \<Rightarrow> validate_swap_create X s tx ft
      | SwapClaim _ _ _ \<Rightarrow> validate_swap_claim s tx
      | SwapAccept _ _ \<Rightarrow> validate_swap_accept s tx ft
      | Regular \<Rightarrow> validate_no_locked_outputs s tx)"

text \<open>The owner check of one input; a claim does not need the owner of a \<open>SwapPending\<close> output.\<close>

definition check_owner :: "'acc ext \<Rightarrow> bool \<Rightarrow> Authorization \<times> Output \<Rightarrow> unit res" where
  "check_owner X claim = (\<lambda>(a, utxo).
     if claim \<and> is_swap_pending (content utxo) then Inr ()
     else if get_address X a \<noteq> address utxo then err WrongPubKeyForAddress
     else Inr ())"

definition validate_transaction ::
  "'acc ext \<Rightarrow> 'acc State \<Rightarrow> AuthorizedTransaction \<Rightarrow> amount res" where
  "validate_transaction X s at =
     (let tx = auth_transaction at in
      and_then (fill_transaction s tx) (\<lambda>ft.
      and_then (validate_swap_data X s tx ft) (\<lambda>_.
      and_then (try_fold (\<lambda>p _. check_owner X (is_swap_claim (data tx)) p)
                 (zip (authorizations at) (spent_utxos ft)) ()) (\<lambda>_.
      and_then (case verify_authorized_transaction X at of
                  Inl _ \<Rightarrow> err Authorization | Inr _ \<Rightarrow> Inr ()) (\<lambda>_.
      validate_filled_transaction X ft)))))"

section \<open>What the rules promise\<close>

text \<open>
  The same rules stated without loops, early returns and machine arithmetic, over the outpoints a
  transaction spends and the sums it pays.
\<close>

definition spends :: "Transaction \<Rightarrow> OutPoint set" where
  "spends tx = fst ` set (inputs tx)"

definition paid_to :: "Transaction \<Rightarrow> Address \<Rightarrow> nat" where
  "paid_to tx a = value_sum (filter (\<lambda>out. address out = a) (outputs tx))"

definition escrowed :: "Transaction \<Rightarrow> SwapId \<Rightarrow> nat" where
  "escrowed tx i = (\<Sum>v\<leftarrow>escrow_values i (outputs tx). unat v)"

definition claim_rule :: "'acc State \<Rightarrow> Transaction \<Rightarrow> SwapId \<Rightarrow> Address option \<Rightarrow> bool" where
  "claim_rule s tx i declared \<longleftrightarrow>
     (\<forall>op \<in> spends tx. is_output_locked_to_swap op s \<in> {None, Some i}) \<and>
     (\<exists>op \<in> spends tx. is_output_locked_to_swap op s = Some i) \<and>
     (\<exists>sw a. get_swap i s = Some sw \<and>
        entitled_claimer_at sw (validating_height s) s = Some a \<and>
        declared \<in> {None, Some a} \<and>
        unat (l2_amount sw) \<le> paid_to tx a \<and> paid_to tx a < 2 ^ 64)"

definition accept_rule :: "'acc State \<Rightarrow> Transaction \<Rightarrow> FilledTransaction \<Rightarrow> SwapId \<Rightarrow> Address \<Rightarrow> bool" where
  "accept_rule s tx ft i who \<longleftrightarrow>
     (\<forall>op \<in> spends tx. is_output_locked_to_swap op s = None) \<and>
     (\<exists>u \<in> set (spent_utxos ft). address u = who) \<and>
     (\<exists>sw. get_swap i s = Some sw \<and> l2_recipient sw = None \<and>
        (\<forall>e. expires_at_height sw = Some e \<longrightarrow> validating_height s < e) \<and>
        (\<forall>r. get_swap_reservation i s = Some r \<longrightarrow>
              \<not> is_live_at r (parent_chain sw) (validating_height s)))"

definition create_rule ::
  "'acc ext \<Rightarrow> 'acc State \<Rightarrow> Transaction \<Rightarrow> FilledTransaction \<Rightarrow> SwapId \<Rightarrow> Address option \<Rightarrow> u64 \<Rightarrow>
   string \<Rightarrow> u64 \<Rightarrow> bool" where
  "create_rule X s tx ft i l2_recip l2_amt l1_addr l1_amt \<longleftrightarrow>
     (\<exists>u us. spent_utxos ft = u # us \<and>
        i = from_l2_to_l1 (blake3 X) l1_addr l1_amt (address u) l2_recip) \<and>
     get_swap i s = None \<and> 0 < unat l2_amt \<and> outputs tx \<noteq> [] \<and>
     (\<forall>op \<in> spends tx. is_output_locked_to_swap op s \<in> {None, Some i}) \<and>
     unat l2_amt \<le> value_sum (spent_utxos ft) \<and> value_sum (spent_utxos ft) < 2 ^ 64 \<and>
     unat l2_amt \<le> escrowed tx i \<and> escrowed tx i < 2 ^ 64"

lemma no_locked_outputs_iff:
  "validate_no_locked_outputs s tx = Inr u \<longleftrightarrow>
     is_swap_claim (data tx) \<or> (\<forall>op \<in> spends tx. is_output_locked_to_swap op s = None)"
  by (auto simp: validate_no_locked_outputs_def res_simps spends_def split: option.splits)

lemma check_create_input_iff:
  "check_create_input s i op = Inr u \<longleftrightarrow> is_output_locked_to_swap op s \<in> {None, Some i}"
  by (auto simp: check_create_input_def split: option.splits)

lemma claim_inputs_iff:
  "try_fold (check_claim_input s i) ins b = Inr f \<longleftrightarrow>
     (\<forall>op \<in> fst ` set ins. is_output_locked_to_swap op s \<in> {None, Some i}) \<and>
     (f \<longleftrightarrow> b \<or> (\<exists>op \<in> fst ` set ins. is_output_locked_to_swap op s = Some i))"
proof (induction ins arbitrary: b)
  case Nil
  show ?case by auto
next
  case (Cons p ins)
  obtain op h where p: "p = (op, h)" by (cases p)
  show ?case
  proof (cases "is_output_locked_to_swap op s")
    case None
    then have "check_claim_input s i p b = Inr b" by (simp add: check_claim_input_def p)
    then show ?thesis using None Cons.IH [of b] by (auto simp: p)
  next
    case (Some j)
    then have "check_claim_input s i p b =
        (if j \<noteq> i then invalid (LockedToDifferentSwap op j) else Inr True)"
      by (simp add: check_claim_input_def p)
    then show ?thesis using Some Cons.IH [of True] by (auto simp: p)
  qed
qed

lemma checked_sum_iff:
  "(\<exists>t. checked_sum vs = Some t \<and> n \<le> t) \<longleftrightarrow>
     unat n \<le> (\<Sum>v\<leftarrow>vs. unat v) \<and> (\<Sum>v\<leftarrow>vs. unat v) < 2 ^ 64"
proof -
  have "(\<exists>t :: u64. unat t = m \<and> unat n \<le> unat t) \<longleftrightarrow> unat n \<le> m \<and> m < 2 ^ 64" for m
    using ex_word_iff [of m] by auto
  then show ?thesis by (simp add: checked_sum_Some word_le_nat_alt)
qed

lemma amount_paid_iff:
  "(\<exists>t. amount_paid_to tx a = Inr t \<and> n \<le> t) \<longleftrightarrow> unat n \<le> paid_to tx a \<and> paid_to tx a < 2 ^ 64"
  using checked_sum_iff [of "map get_value (filter (\<lambda>out. address out = a) (outputs tx))" n]
  by (simp add: amount_paid_to_def res_simps paid_to_def comp_def)

lemma claim_consensus_iff:
  "data tx = SwapClaim i declared pd \<Longrightarrow>
   validate_swap_claim_consensus s tx = Inr () \<longleftrightarrow> claim_rule s tx i declared"
proof -
  assume d: "data tx = SwapClaim i declared pd"
  have dec: "(case declared of Some d \<Rightarrow> if d \<noteq> a then invalid (m d) else Inr () | None \<Rightarrow> Inr ()) = Inr u
      \<longleftrightarrow> declared \<in> {None, Some a}" for a m u
    by (auto split: option.splits)
  have pay: "(\<exists>paid. amount_paid_to tx a = Inr paid \<and> (if paid < n then invalid (m paid) else Inr ()) = Inr ())
      \<longleftrightarrow> unat n \<le> paid_to tx a \<and> paid_to tx a < 2 ^ 64" for a n m
    unfolding amount_paid_iff [symmetric] by (auto simp: not_less)
  have "validate_swap_claim_consensus s tx = Inr () \<longleftrightarrow>
      try_fold (check_claim_input s i) (inputs tx) False = Inr True \<and>
      (\<exists>sw a. get_swap i s = Some sw \<and> entitled_claimer_at sw (validating_height s) s = Some a \<and>
        declared \<in> {None, Some a} \<and> unat (l2_amount sw) \<le> paid_to tx a \<and> paid_to tx a < 2 ^ 64)"
    by (simp add: validate_swap_claim_consensus_def d Let_def and_then_eq_Inr ok_or_eq_Inr dec pay)
      (auto split: if_splits)
  then show ?thesis by (simp add: claim_inputs_iff spends_def claim_rule_def)
qed

lemma claim_iff:
  "data tx = SwapClaim i declared pd \<Longrightarrow>
   validate_swap_claim s tx = Inr () \<longleftrightarrow>
     claim_rule s tx i declared \<and>
     (\<exists>sw. get_swap i s = Some sw \<and> sw_state sw = ReadyToClaim \<and>
           (l2_recipient sw = None \<longrightarrow> \<not> is_zero_txid (l1_txid sw)))"
  by (auto simp: validate_swap_claim_def res_simps claim_consensus_iff split: if_splits)

lemma accept_iff:
  "data tx = SwapAccept i who \<Longrightarrow>
   validate_swap_accept s tx ft = Inr () \<longleftrightarrow> accept_rule s tx ft i who"
proof -
  assume d: "data tx = SwapAccept i who"
  have e: "(case x of Some e \<Rightarrow> if h \<ge> e then invalid (m e) else Inr () | None \<Rightarrow> Inr ()) = Inr u
      \<longleftrightarrow> (\<forall>e. x = Some e \<longrightarrow> h < e)" for x :: "u32 option" and h m u
    by (auto split: option.splits)
  have r: "(case x of Some r \<Rightarrow> if P r then invalid (m r) else Inr () | None \<Rightarrow> Inr ()) = Inr u
      \<longleftrightarrow> (\<forall>r. x = Some r \<longrightarrow> \<not> P r)" for x :: "SwapReservation option" and P m u
    by (auto split: option.splits)
  have "validate_swap_accept s tx ft = Inr () \<longleftrightarrow>
      (\<forall>op \<in> spends tx. is_output_locked_to_swap op s = None) \<and>
      (\<exists>sw. get_swap i s = Some sw \<and> l2_recipient sw = None \<and>
        (\<forall>e. expires_at_height sw = Some e \<longrightarrow> validating_height s < e) \<and>
        (\<forall>r. get_swap_reservation i s = Some r \<longrightarrow>
              \<not> is_live_at r (parent_chain sw) (validating_height s)) \<and>
        list_ex (\<lambda>u. address u = who) (spent_utxos ft))"
    by (simp add: validate_swap_accept_def d Let_def and_then_eq_Inr ok_or_eq_Inr ensure_eq_Inr e r
        no_locked_outputs_iff)
      (auto split: if_splits)
  then show ?thesis by (auto simp: list_ex_iff accept_rule_def)
qed

lemma create_iff:
  "data tx = SwapCreate i chain l1tx req l2_recip l2_amt l1_addr l1_amt \<Longrightarrow>
   validate_swap_create X s tx ft = Inr () \<longleftrightarrow>
     create_rule X s tx ft i l2_recip l2_amt l1_addr l1_amt"
proof -
  assume d: "data tx = SwapCreate i chain l1tx req l2_recip l2_amt l1_addr l1_amt"
  have hd: "(case spent_utxos ft of [] \<Rightarrow> invalid SwapCreateNoInputs | u # _ \<Rightarrow> Inr (address u)) = Inr a
      \<longleftrightarrow> (\<exists>u us. spent_utxos ft = u # us \<and> a = address u)" for a
    by (auto split: list.splits)
  have total: "(\<exists>t. checked_sum vs = Some t \<and> (if t < l2_amt then invalid (m t) else r) = Inr ()) \<longleftrightarrow>
      unat l2_amt \<le> (\<Sum>v\<leftarrow>vs. unat v) \<and> (\<Sum>v\<leftarrow>vs. unat v) < 2 ^ 64 \<and> r = Inr ()"
    for vs m and r :: "unit res"
    using checked_sum_iff [of vs l2_amt] by (auto simp: not_less)
  have zero: "l2_amt = 0 \<longleftrightarrow> \<not> 0 < unat l2_amt"
    by (simp add: unat_gt_0)
  show ?thesis
    unfolding validate_swap_create_def d "TxData.case" and_then_eq_Inr hd Let_def create_rule_def
      escrowed_def
    by (auto simp: and_then_eq_Inr ok_or_eq_Inr total try_fold_checks check_create_input_iff zero
        spends_def comp_def split: if_splits)
qed

text \<open>An output locked to a swap that can be read is spent by no transaction but a claim of it.\<close>

lemma block_rule_locked:
  assumes ok: "validate_block_transaction X s tx ft = Inr ()"
    and op: "op \<in> spends tx" "is_output_locked_to_swap op s = Some i" "get_swap i s = Some sw"
  shows "\<exists>declared pd. data tx = SwapClaim i declared pd"
proof (cases "data tx")
  case Regular
  with ok op show ?thesis by (auto simp: validate_block_transaction_def no_locked_outputs_iff)
next
  case (SwapCreate j chain l1tx req r a l1 b)
  with ok have "create_rule X s tx ft j r a l1 b"
    by (simp add: validate_block_transaction_def create_iff [OF SwapCreate])
  with op show ?thesis by (auto simp: create_rule_def)
next
  case (SwapClaim j declared pd)
  with ok have "claim_rule s tx j declared"
    by (simp add: validate_block_transaction_def claim_consensus_iff [OF SwapClaim])
  with op SwapClaim show ?thesis by (auto simp: claim_rule_def)
next
  case (SwapAccept j who)
  with ok have "accept_rule s tx ft j who"
    by (simp add: validate_block_transaction_def accept_iff [OF SwapAccept])
  with op show ?thesis by (auto simp: accept_rule_def)
qed

end
