(* ===== verification/Block.thy ===== *)
theory Block
  imports Swap_Validation
begin

text \<open>
  Validation, connection and disconnection of blocks (\<^verbatim>\<open>lib/state/block.rs\<close>).
\<close>

section \<open>Prevalidation\<close>

record PrevalidatedBlock =
  filled_transactions :: "FilledTransaction list"
  computed_merkle_root :: MerkleRoot
  total_fees :: amount
  coinbase_value :: amount
  next_height :: u32
  accumulator_diff :: AccumulatorDiff

text \<open>The checks on header and size that \<open>prevalidate\<close> and \<open>validate\<close> start with.\<close>

definition check_prev_side_hash :: "'acc State \<Rightarrow> Header \<Rightarrow> unit res" where
  "check_prev_side_hash s hdr =
     ensure (prev_side_hash hdr = try_get_tip s)
       (Fail (InvalidHeader (IhPrevSideHash (try_get_tip s) (prev_side_hash hdr))))"

definition check_limits :: "'acc ext \<Rightarrow> u32 \<Rightarrow> Body \<Rightarrow> unit res" where
  "check_limits X h b =
     (if length (body_authorizations b) > body_sigops_limit X h then err TooManySigops
      else if borsh_body_length X b > body_size_limit X h then err BodyTooLarge
      else Inr ())"

text \<open>The loop over the transactions of a body; \<open>True\<close> marks an insertion into the accumulator.\<close>

record PreLoop =
  pl_keys :: "OutPoint list"
  pl_diff :: "(bool \<times> hash256) list"
  pl_filled :: "FilledTransaction list"
  pl_fees :: amount

definition output_hashes :: "'acc ext \<Rightarrow> (OutPoint \<times> Output) list \<Rightarrow> hash256 list" where
  "output_hashes X outs = map (\<lambda>(op, out). pointed_hash X op out) outs"

definition check_utreexo_proof :: "'acc ext \<Rightarrow> 'acc \<Rightarrow> Transaction \<Rightarrow> unit res" where
  "check_utreexo_proof X acc tx =
     and_then (utreexo_res (acc_verify X acc (utreexo_proof tx) (map snd (inputs tx)))) (\<lambda>ok.
     ensure ok (Fail (UtreexoProofFailed (txid X tx))))"

definition prevalidate_tx ::
  "'acc ext \<Rightarrow> 'acc State \<Rightarrow> 'acc \<Rightarrow> Transaction \<Rightarrow> PreLoop \<Rightarrow> PreLoop res" where
  "prevalidate_tx X s acc tx pl =
     and_then (fill_transaction s tx) (\<lambda>ft.
     and_then (check_utreexo_proof X acc tx) (\<lambda>_.
     and_then (validate_block_transaction X s tx ft) (\<lambda>_.
     and_then (validate_filled_transaction X ft) (\<lambda>fee.
     and_then (ok_or (Fail AmountOverflow) (checked_add (pl_fees pl) fee)) (\<lambda>fees'.
     Inr \<lparr>pl_keys = pl_keys pl @ map fst (inputs tx),
          pl_diff = pl_diff pl @ map (\<lambda>(_, h). (False, h)) (inputs tx) @
                    map (Pair True) (output_hashes X (tx_outputs X tx)),
          pl_filled = pl_filled pl @ [ft], pl_fees = fees'\<rparr>)))))"

text \<open>\<open>par_sort_unstable\<close> and a scan of neighbours.\<close>

fun windows_eq :: "'a list \<Rightarrow> bool" where
  "windows_eq (x # y # zs) = (x = y \<or> windows_eq (y # zs))"
| "windows_eq _ = False"

definition check_double_spend :: "OutPoint list \<Rightarrow> unit res" where
  "check_double_spend keys = ensure (\<not> windows_eq (sort keys)) (Fail UtxoDoubleSpent)"

text \<open>The positions, over all inputs of the body, of \<open>SwapPending\<close> outputs that a claim spends.\<close>

fun swap_claim_pending :: "nat \<Rightarrow> FilledTransaction list \<Rightarrow> nat list" where
  "swap_claim_pending off [] = []"
| "swap_claim_pending off (ft # fts) =
     (if is_swap_claim (data (transaction ft))
      then map fst (filter (\<lambda>(_, u). is_swap_pending (content u)) (enumerate off (spent_utxos ft)))
      else []) @
     swap_claim_pending (off + length (spent_utxos ft)) fts"

definition check_body_owners :: "'acc ext \<Rightarrow> Body \<Rightarrow> FilledTransaction list \<Rightarrow> unit res" where
  "check_body_owners X b fts =
     try_fold (\<lambda>e _. case e of (idx, a, u) \<Rightarrow>
         if idx \<in> set (swap_claim_pending 0 fts) then Inr ()
         else if get_address X a \<noteq> address u then err WrongPubKeyForAddress
         else Inr ())
       (enumerate 0 (zip (body_authorizations b) (concat (map spent_utxos fts)))) ()"

definition check_body_authorizations :: "'acc ext \<Rightarrow> Body \<Rightarrow> unit res" where
  "check_body_authorizations X b =
     (case verify_authorizations X b of Inl _ \<Rightarrow> err Authorization | Inr _ \<Rightarrow> Inr ())"

definition check_roots :: "'acc ext \<Rightarrow> AccumulatorDiff \<Rightarrow> 'acc \<Rightarrow> Header \<Rightarrow> unit res" where
  "check_roots X d acc hdr =
     and_then (utreexo_res (apply_diff X d acc)) (\<lambda>acc'.
     ensure (forest_roots X acc' = roots hdr) (Fail UtreexoRootsMismatch))"

definition body_merkle_root ::
  "'acc ext \<Rightarrow> Header \<Rightarrow> Body \<Rightarrow> FilledTransaction list \<Rightarrow> MerkleRoot res" where
  "body_merkle_root X hdr b fts =
     and_then (map_fault ComputeMerkleRoot (compute_merkle_root X (coinbase b) fts)) (\<lambda>mr.
     if mr \<noteq> merkle_root hdr then err (InvalidBody (merkle_root hdr) mr) else Inr mr)"

definition coinbase_total :: "Body \<Rightarrow> amount res" where
  "coinbase_total b = try_fold add_value_out (coinbase b) 0"

definition prevalidate ::
  "'acc ext \<Rightarrow> 'acc State \<Rightarrow> Header \<Rightarrow> Body \<Rightarrow> PrevalidatedBlock res" where
  "prevalidate X s hdr b =
     and_then (check_prev_side_hash s hdr) (\<lambda>_.
     let h = validating_height s; acc = get_accumulator X s in
     and_then (check_limits X h b) (\<lambda>_.
     and_then (try_fold (prevalidate_tx X s acc) (transactions b)
                \<lparr>pl_keys = [], pl_diff = [], pl_filled = [], pl_fees = 0\<rparr>) (\<lambda>pl.
     and_then (body_merkle_root X hdr b (pl_filled pl)) (\<lambda>mr.
     and_then (check_double_spend (pl_keys pl)) (\<lambda>_.
     and_then (coinbase_total b) (\<lambda>cb_value.
     let d = fold diff_step
               (map (Pair True) (output_hashes X (coinbase_outputs mr (coinbase b))) @ pl_diff pl)
               diff_default in
     if cb_value > pl_fees pl then err NotEnoughFees
     else
       and_then (check_body_owners X b (pl_filled pl)) (\<lambda>_.
       and_then (check_body_authorizations X b) (\<lambda>_.
       and_then (check_roots X d acc hdr) (\<lambda>_.
       Inr \<lparr>filled_transactions = pl_filled pl, computed_merkle_root = mr,
            total_fees = pl_fees pl, coinbase_value = cb_value, next_height = h,
            accumulator_diff = d\<rparr>)))))))))"

section \<open>Validation without precomputed data\<close>

record ValLoop =
  vl_keys :: "OutPoint list"
  vl_diff :: AccumulatorDiff
  vl_fees :: amount

definition validate_tx ::
  "'acc ext \<Rightarrow> 'acc State \<Rightarrow> 'acc \<Rightarrow> FilledTransaction \<Rightarrow> ValLoop \<Rightarrow> ValLoop res" where
  "validate_tx X s acc ft vl =
     (let tx = transaction ft in
      and_then (validate_block_transaction X s tx ft) (\<lambda>_.
      let d = fold diff_insert (output_hashes X (tx_outputs X tx))
                (fold diff_remove (map snd (inputs tx)) (vl_diff vl)) in
      and_then (validate_filled_transaction X ft) (\<lambda>fee.
      and_then (ok_or (Fail AmountOverflow) (checked_add (vl_fees vl) fee)) (\<lambda>fees'.
      and_then (check_utreexo_proof X acc tx) (\<lambda>_.
      Inr \<lparr>vl_keys = vl_keys vl @ map fst (inputs tx), vl_diff = d, vl_fees = fees'\<rparr>)))))"

definition validate ::
  "'acc ext \<Rightarrow> 'acc State \<Rightarrow> Header \<Rightarrow> Body \<Rightarrow> (amount \<times> MerkleRoot) res" where
  "validate X s hdr b =
     and_then (check_prev_side_hash s hdr) (\<lambda>_.
     let h = validating_height s; acc = get_accumulator X s in
     and_then (check_limits X h b) (\<lambda>_.
     and_then (try_map (fill_transaction s) (transactions b)) (\<lambda>fts.
     and_then (body_merkle_root X hdr b fts) (\<lambda>mr.
     and_then (coinbase_total b) (\<lambda>cb_value.
     let d0 = fold diff_insert (output_hashes X (coinbase_outputs mr (coinbase b))) diff_default in
     and_then (try_fold (validate_tx X s acc) fts
                \<lparr>vl_keys = [], vl_diff = d0, vl_fees = 0\<rparr>) (\<lambda>vl.
     and_then (check_double_spend (vl_keys vl)) (\<lambda>_.
     if cb_value > vl_fees vl then err NotEnoughFees
     else
       and_then (check_body_owners X b fts) (\<lambda>_.
       and_then (check_body_authorizations X b) (\<lambda>_.
       and_then (check_roots X (vl_diff vl) acc hdr) (\<lambda>_.
       Inr (vl_fees vl, mr)))))))))))"

section \<open>Connection\<close>

text \<open>Spending one input: the output moves from the unspent to the spent table.\<close>

definition spend_input :: "Txid \<Rightarrow> u32 \<times> OutPoint \<times> hash256 \<Rightarrow> 'acc State \<Rightarrow> 'acc State res" where
  "spend_input t = (\<lambda>(vin, op, _) s.
     and_then (ok_or (Fail (NoUtxo op)) (fmlookup (utxos s) op)) (\<lambda>out.
     Inr (s\<lparr>utxos := fmdrop op (utxos s),
            stxos := fmupd op \<lparr>spent_output = out, inpoint = InRegular t vin\<rparr> (stxos s)\<rparr>)))"

definition put_output :: "OutPoint \<times> Output \<Rightarrow> 'acc State \<Rightarrow> 'acc State" where
  "put_output = (\<lambda>(op, out) s. s\<lparr>utxos := fmupd op out (utxos s)\<rparr>)"

definition connect_tx_utxos :: "'acc ext \<Rightarrow> Transaction \<Rightarrow> 'acc State \<Rightarrow> 'acc State res" where
  "connect_tx_utxos X tx s =
     and_then (try_fold (spend_input (txid X tx)) (enumerate_u32 (inputs tx)) s) (\<lambda>s'.
     Inr (fold put_output (tx_outputs X tx) s'))"

text \<open>The outpoints that a creation locks: its outputs that escrow value for the swap.\<close>

definition is_escrow_of :: "SwapId \<Rightarrow> Output \<Rightarrow> bool" where
  "is_escrow_of i out = (case content out of SwapPending _ j \<Rightarrow> j = i | _ \<Rightarrow> False)"

definition escrow_outpoints :: "'acc ext \<Rightarrow> SwapId \<Rightarrow> Transaction \<Rightarrow> OutPoint list" where
  "escrow_outpoints X i tx = map fst (filter (\<lambda>(_, out). is_escrow_of i out) (tx_outputs X tx))"

definition created_swap ::
  "SwapId \<Rightarrow> ParentChainType \<Rightarrow> bytes \<Rightarrow> u32 \<Rightarrow> Address option \<Rightarrow> u64 \<Rightarrow> string \<Rightarrow> u64 \<Rightarrow>
   u32 \<Rightarrow> u32 option \<Rightarrow> FilledTransaction \<Rightarrow> Swap" where
  "created_swap i chain l1tx req l2_recip l2_amt l1_addr l1_amt h expires ft =
     Swap_new i L2ToL1 chain (from_bytes l1tx) (Some req) l2_recip l2_amt l1_addr l1_amt h expires
       (case spent_utxos ft of [] \<Rightarrow> None | u # _ \<Rightarrow> Some (address u))"

definition connect_swap_claim ::
  "'acc ext \<Rightarrow> SwapId \<Rightarrow> Address option \<Rightarrow> Transaction \<Rightarrow> 'acc State \<Rightarrow> 'acc State res" where
  "connect_swap_claim X i declared tx s =
     and_then (ok_or (Fail (SwapNotFound i)) (get_swap i s)) (\<lambda>sw.
     and_then (if sw_state sw \<noteq> ReadyToClaim
               then let sw' = sw\<lparr>sw_state := ReadyToClaim\<rparr> in
                    and_then (save_swap X sw' s) (\<lambda>s'. Inr (sw', s'))
               else Inr (sw, s)) (\<lambda>(sw1, s1).
     if l2_recipient sw1 = None \<and> declared = None then invalid OpenClaimNeedsClaimer
     else
       let s2 = fold (\<lambda>op s. if is_output_locked_to_swap op s = Some i
                             then unlock_output_from_swap op s else s) (map fst (inputs tx)) s1
       in save_swap X (mark_completed sw1) s2))"

text \<open>The match on the kind of transaction, for a block of height \<open>h\<close>.\<close>

definition connect_swap_data ::
  "'acc ext \<Rightarrow> u32 \<Rightarrow> FilledTransaction \<Rightarrow> 'acc State \<Rightarrow> 'acc State res" where
  "connect_swap_data X h ft s =
     (let tx = transaction ft in
      case data tx of
        SwapCreate i chain l1tx req l2_recip l2_amt l1_addr l1_amt \<Rightarrow>
          let sw = created_swap i chain l1tx req l2_recip l2_amt l1_addr l1_amt h
                     (Some (h + default_swap_expiration_blocks chain)) ft in
          if sw_id sw \<noteq> i then invalid CreateIdMismatch
          else save_swap X sw (fold (\<lambda>op. lock_output_to_swap op i) (escrow_outpoints X i tx) s)
      | SwapClaim i declared _ \<Rightarrow> connect_swap_claim X i declared tx s
      | SwapAccept i who \<Rightarrow> Inr (reserve_swap i who h s)
      | Regular \<Rightarrow> Inr s)"

definition connect_tx :: "'acc ext \<Rightarrow> u32 \<Rightarrow> FilledTransaction \<Rightarrow> 'acc State \<Rightarrow> 'acc State res" where
  "connect_tx X h ft s =
     and_then (connect_tx_utxos X (transaction ft) s) (connect_swap_data X h ft)"

definition connect_coinbase :: "MerkleRoot \<Rightarrow> Body \<Rightarrow> 'acc State \<Rightarrow> 'acc State" where
  "connect_coinbase mr b s = fold put_output (coinbase_outputs mr (coinbase b)) s"

definition set_tip :: "BlockHash \<Rightarrow> u32 \<Rightarrow> 'acc State \<Rightarrow> 'acc State" where
  "set_tip bh h s = s\<lparr>tip := Some bh, height := Some h\<rparr>"

definition apply_accumulator_diff ::
  "'acc ext \<Rightarrow> AccumulatorDiff \<Rightarrow> 'acc \<Rightarrow> 'acc State \<Rightarrow> 'acc State res" where
  "apply_accumulator_diff X d acc s =
     and_then (utreexo_res (apply_diff X d acc)) (\<lambda>acc'.
     Inr (s\<lparr>utreexo_accumulator := Some acc'\<rparr>))"

definition connect_prevalidated ::
  "'acc ext \<Rightarrow> Header \<Rightarrow> Body \<Rightarrow> PrevalidatedBlock \<Rightarrow> 'acc State \<Rightarrow> (MerkleRoot \<times> 'acc State) res" where
  "connect_prevalidated X hdr b pre s =
     and_then (check_prev_side_hash s hdr) (\<lambda>_.
     if computed_merkle_root pre \<noteq> merkle_root hdr
     then err (InvalidBody (computed_merkle_root pre) (merkle_root hdr))
     else
       and_then (try_fold (connect_tx X (next_height pre)) (filled_transactions pre)
                  (connect_coinbase (computed_merkle_root pre) b s)) (\<lambda>s1.
       let s2 = set_tip (header_hash X hdr) (next_height pre) s1 in
       and_then (apply_accumulator_diff X (accumulator_diff pre) (get_accumulator X s2) s2) (\<lambda>s3.
       Inr (computed_merkle_root pre, s3))))"

definition apply_block :: "'acc ext \<Rightarrow> Header \<Rightarrow> Body \<Rightarrow> 'acc State \<Rightarrow> 'acc State res" where
  "apply_block X hdr b s =
     and_then (prevalidate X s hdr b) (\<lambda>pre.
     and_then (connect_prevalidated X hdr b pre s) (\<lambda>(_, s'). Inr s'))"

text \<open>\<open>connect\<close> applies a body without prevalidated data, and without its swaps.\<close>

definition connect_plain_tx ::
  "'acc ext \<Rightarrow> Transaction \<Rightarrow> FilledTransaction list \<times> AccumulatorDiff \<times> 'acc State \<Rightarrow>
   (FilledTransaction list \<times> AccumulatorDiff \<times> 'acc State) res" where
  "connect_plain_tx X tx = (\<lambda>(fts, d, s).
     and_then (try_fold (\<lambda>(vin, op, h) (spent, d, s).
         and_then (ok_or (Fail (NoUtxo op)) (fmlookup (utxos s) op)) (\<lambda>out.
         and_then (spend_input (txid X tx) (vin, op, h) s) (\<lambda>s'.
         Inr (spent @ [out], diff_remove h d, s'))))
       (enumerate_u32 (inputs tx)) ([], d, s)) (\<lambda>(spent, d1, s1).
     Inr (fts @ [\<lparr>transaction = tx, spent_utxos = spent\<rparr>],
          fold diff_insert (output_hashes X (tx_outputs X tx)) d1,
          fold put_output (tx_outputs X tx) s1)))"

definition connect :: "'acc ext \<Rightarrow> Header \<Rightarrow> Body \<Rightarrow> 'acc State \<Rightarrow> (MerkleRoot \<times> 'acc State) res" where
  "connect X hdr b s =
     and_then (check_prev_side_hash s hdr) (\<lambda>_.
     let acc = get_accumulator X s;
         cb = coinbase_outputs (merkle_root hdr) (coinbase b);
         d0 = fold diff_insert (output_hashes X cb) diff_default in
     and_then (try_fold (connect_plain_tx X) (transactions b)
                ([], d0, connect_coinbase (merkle_root hdr) b s)) (\<lambda>(fts, d, s1).
     and_then (body_merkle_root X hdr b fts) (\<lambda>mr.
     let s2 = set_tip (header_hash X hdr) (validating_height s1) s1 in
     and_then (apply_accumulator_diff X d acc s2) (\<lambda>s3.
     Inr (mr, s3)))))"

section \<open>Disconnection\<close>

definition disconnect_swap_claim :: "'acc ext \<Rightarrow> SwapId \<Rightarrow> Transaction \<Rightarrow> 'acc State \<Rightarrow> 'acc State res" where
  "disconnect_swap_claim X i tx s =
     and_then (ok_or (Fail (SwapNotFound i)) (get_swap i s)) (\<lambda>sw.
     let s1 = fold (\<lambda>op s. if is_output_locked_to_swap op s = None
                           then lock_output_to_swap op i s else s) (rev (map fst (inputs tx))) s
     in if sw_state sw = Completed then save_swap X (sw\<lparr>sw_state := ReadyToClaim\<rparr>) s1
        else Inr s1)"

definition disconnect_swap_data :: "'acc ext \<Rightarrow> Transaction \<Rightarrow> 'acc State \<Rightarrow> 'acc State res" where
  "disconnect_swap_data X tx s =
     (case data tx of
        SwapCreate i _ _ _ _ _ _ _ \<Rightarrow>
          let ops = map fst (filter (\<lambda>(_, out). is_swap_pending (content out)) (tx_outputs X tx));
              s1 = fold (\<lambda>op s. if is_output_locked_to_swap op s = Some i
                                then unlock_output_from_swap op s else s) (rev ops) s
          in Inr (delete_swap_unchecked i (clear_swap_reservation i s1))
      | SwapClaim i _ _ \<Rightarrow> disconnect_swap_claim X i tx s
      | SwapAccept i _ \<Rightarrow> Inr (clear_swap_reservation i s)
      | Regular \<Rightarrow> Inr s)"

definition delete_output ::
  "'acc ext \<Rightarrow> OutPoint \<times> Output \<Rightarrow> AccumulatorDiff \<times> 'acc State \<Rightarrow>
   (AccumulatorDiff \<times> 'acc State) res" where
  "delete_output X = (\<lambda>(op, out) (d, s).
     if fmlookup (utxos s) op = None then err (NoUtxo op)
     else Inr (diff_remove (pointed_hash X op out) d, s\<lparr>utxos := fmdrop op (utxos s)\<rparr>))"

definition unspend_input ::
  "OutPoint \<times> hash256 \<Rightarrow> AccumulatorDiff \<times> 'acc State \<Rightarrow> (AccumulatorDiff \<times> 'acc State) res" where
  "unspend_input = (\<lambda>(op, h) (d, s).
     case fmlookup (stxos s) op of
       Some so \<Rightarrow> Inr (diff_insert h d,
                       s\<lparr>stxos := fmdrop op (stxos s),
                         utxos := fmupd op (spent_output so) (utxos s)\<rparr>)
     | None \<Rightarrow> err (NoStxo op))"

definition disconnect_tx ::
  "'acc ext \<Rightarrow> Transaction \<Rightarrow> AccumulatorDiff \<times> 'acc State \<Rightarrow> (AccumulatorDiff \<times> 'acc State) res" where
  "disconnect_tx X tx = (\<lambda>(d, s).
     and_then (disconnect_swap_data X tx s) (\<lambda>s1.
     and_then (try_fold (delete_output X) (rev (tx_outputs X tx)) (d, s1)) (\<lambda>ds.
     try_fold unspend_input (rev (inputs tx)) ds)))"

definition rewind_tip :: "Header \<Rightarrow> 'acc State \<Rightarrow> 'acc State res" where
  "rewind_tip hdr s =
     (case try_get_height s of
        None \<Rightarrow> Inl (Panic ''Height should not be None'')
      | Some h \<Rightarrow>
          (case prev_side_hash hdr of
             None \<Rightarrow> if h = 0 then Inr (s\<lparr>tip := None, height := None\<rparr>) else err NoTip
           | Some prev \<Rightarrow> if h = 0 then err NoTip else Inr (set_tip prev (h - 1) s)))"

definition disconnect_tip :: "'acc ext \<Rightarrow> Header \<Rightarrow> Body \<Rightarrow> 'acc State \<Rightarrow> 'acc State res" where
  "disconnect_tip X hdr b s =
     and_then (ok_or (Fail NoTip) (tip s)) (\<lambda>tip_hash.
     and_then (ensure (tip_hash = header_hash X hdr)
                (Fail (InvalidHeader (IhBlockHash tip_hash (header_hash X hdr))))) (\<lambda>_.
     let acc = get_accumulator X s in
     and_then (try_fold (disconnect_tx X) (rev (transactions b)) (diff_default, s)) (\<lambda>ds.
     and_then (try_fold (delete_output X)
                (rev (coinbase_outputs (merkle_root hdr) (coinbase b))) ds) (\<lambda>(d, s1).
     and_then (rewind_tip hdr s1) (\<lambda>s2.
     apply_accumulator_diff X d acc s2)))))"

end
