(* ===== verification/Block_Facts.thy ===== *)
theory Block_Facts
  imports Block
begin

text \<open>
  Facts about blocks: what an accepted body satisfies, that the two validation functions accept
  the same blocks, that a prevalidated block connects, and that disconnecting undoes connecting.
\<close>

section \<open>The loops over a body\<close>

text \<open>The fee of a transaction that passes the value check.\<close>

definition fee_of :: "FilledTransaction \<Rightarrow> nat" where
  "fee_of ft = value_sum (spent_utxos ft) - value_sum (outputs (transaction ft))"

lemma validate_filled_fee: "validate_filled_transaction X ft = Inr fee \<Longrightarrow> unat fee = fee_of ft"
  by (simp add: validate_filled_iff fee_of_def)

text \<open>What both loops check of one transaction.\<close>

definition tx_ok :: "'acc ext \<Rightarrow> 'acc State \<Rightarrow> 'acc \<Rightarrow> FilledTransaction \<Rightarrow> bool" where
  "tx_ok X s acc ft \<longleftrightarrow>
     check_utreexo_proof X acc (transaction ft) = Inr () \<and>
     validate_block_transaction X s (transaction ft) ft = Inr () \<and>
     (\<exists>fee. validate_filled_transaction X ft = Inr fee)"

definition tx_diff :: "'acc ext \<Rightarrow> Transaction \<Rightarrow> (bool \<times> hash256) list" where
  "tx_diff X tx = map (\<lambda>(_, h). (False, h)) (inputs tx) @
     map (Pair True) (output_hashes X (tx_outputs X tx))"

lemma ok_or_checked_add: "ok_or e (checked_add a b) = Inr c \<longleftrightarrow> unat c = unat a + unat b"
  by (simp add: ok_or_eq_Inr checked_add_Some)

lemma fill_transaction_tx: "fill_transaction s tx = Inr ft \<Longrightarrow> transaction ft = tx"
  by (simp add: fill_transaction_iff)

lemma ex_u64_between:
  "unat (c :: u64) = a + (b + n) \<Longrightarrow> \<exists>x :: u64. unat x = a + b"
proof -
  assume c: "unat c = a + (b + n)"
  then have "a + (b + n) < 2 ^ 64" using ex_word_iff by blast
  then show ?thesis unfolding ex_word_iff by simp
qed

lemma prevalidate_tx_iff:
  "prevalidate_tx X s acc tx pl = Inr pl' \<longleftrightarrow>
     (\<exists>ft. fill_transaction s tx = Inr ft \<and> tx_ok X s acc ft \<and>
        unat (pl_fees pl') = unat (pl_fees pl) + fee_of ft \<and>
        pl_keys pl' = pl_keys pl @ map fst (inputs tx) \<and>
        pl_diff pl' = pl_diff pl @ tx_diff X tx \<and>
        pl_filled pl' = pl_filled pl @ [ft])"
proof (cases "fill_transaction s tx")
  case (Inl e)
  then show ?thesis by (simp add: prevalidate_tx_def)
next
  case (Inr ft)
  then have t: "transaction ft = tx" by (rule fill_transaction_tx)
  show ?thesis
  proof (cases "validate_filled_transaction X ft")
    case (Inl e)
    then show ?thesis using Inr by (auto simp: prevalidate_tx_def res_simps tx_ok_def)
  next
    case (Inr fee)
    then show ?thesis
      using \<open>fill_transaction s tx = Inr ft\<close> validate_filled_fee [OF Inr]
      by (cases pl')
        (auto simp: prevalidate_tx_def and_then_eq_Inr ok_or_checked_add tx_ok_def tx_diff_def t)
  qed
qed

lemma prevalidate_loop_iff:
  "try_fold (prevalidate_tx X s acc) txs pl = Inr pl' \<longleftrightarrow>
     (\<exists>fts. list_all2 (\<lambda>tx ft. fill_transaction s tx = Inr ft) txs fts \<and>
        list_all (tx_ok X s acc) fts \<and>
        unat (pl_fees pl') = unat (pl_fees pl) + sum_list (map fee_of fts) \<and>
        pl_keys pl' = pl_keys pl @ concat (map (\<lambda>tx. map fst (inputs tx)) txs) \<and>
        pl_diff pl' = pl_diff pl @ concat (map (tx_diff X) txs) \<and>
        pl_filled pl' = pl_filled pl @ fts)"
proof (induction txs arbitrary: pl)
  case Nil
  show ?case by (cases pl; cases pl') (auto simp: word_unat_eq_iff)
next
  case (Cons tx txs)
  show ?case (is "?l \<longleftrightarrow> ?r")
  proof
    assume ?l
    then obtain pl1 where "prevalidate_tx X s acc tx pl = Inr pl1"
        "try_fold (prevalidate_tx X s acc) txs pl1 = Inr pl'"
      by (auto simp: res_simps)
    then show ?r
      by (auto simp: prevalidate_tx_iff Cons.IH list_all2_Cons1)
  next
    assume ?r
    then obtain ft fts where f: "fill_transaction s tx = Inr ft" "tx_ok X s acc ft"
        "list_all2 (\<lambda>tx ft. fill_transaction s tx = Inr ft) txs fts" "list_all (tx_ok X s acc) fts"
        and fees: "unat (pl_fees pl') = unat (pl_fees pl) + (fee_of ft + sum_list (map fee_of fts))"
        and rest: "pl_keys pl' = pl_keys pl @ map fst (inputs tx) @ concat (map (\<lambda>tx. map fst (inputs tx)) txs)"
        "pl_diff pl' = pl_diff pl @ tx_diff X tx @ concat (map (tx_diff X) txs)"
        "pl_filled pl' = pl_filled pl @ ft # fts"
      by (auto simp: list_all2_Cons1)
    from ex_u64_between [OF fees] obtain x :: u64 where x: "unat x = unat (pl_fees pl) + fee_of ft"
      by blast
    define pl1 where "pl1 = \<lparr>pl_keys = pl_keys pl @ map fst (inputs tx),
      pl_diff = pl_diff pl @ tx_diff X tx, pl_filled = pl_filled pl @ [ft], pl_fees = x\<rparr>"
    have "prevalidate_tx X s acc tx pl = Inr pl1"
      using f x by (auto simp: prevalidate_tx_iff pl1_def)
    moreover have "try_fold (prevalidate_tx X s acc) txs pl1 = Inr pl'"
      unfolding Cons.IH using f fees rest x by (auto simp: pl1_def)
    ultimately show ?l by simp
  qed
qed

lemma fold_diff_inserts: "fold diff_step (map (Pair True) hs) d = fold diff_insert hs d"
  by (induction hs arbitrary: d) (simp_all add: diff_step_def)

lemma fold_tx_diff:
  "fold diff_step (tx_diff X tx) d =
     fold diff_insert (output_hashes X (tx_outputs X tx)) (fold diff_remove (map snd (inputs tx)) d)"
proof -
  have "fold diff_step (map (\<lambda>(_, h). (False, h)) ins) d = fold diff_remove (map snd ins) d"
    for ins :: "(OutPoint \<times> hash256) list" and d
    by (induction ins arbitrary: d) (auto simp: diff_step_def)
  then show ?thesis by (simp add: tx_diff_def fold_diff_inserts)
qed

lemma validate_tx_iff:
  "validate_tx X s acc ft vl = Inr vl' \<longleftrightarrow>
     tx_ok X s acc ft \<and> unat (vl_fees vl') = unat (vl_fees vl) + fee_of ft \<and>
     vl_keys vl' = vl_keys vl @ map fst (inputs (transaction ft)) \<and>
     vl_diff vl' = fold diff_step (tx_diff X (transaction ft)) (vl_diff vl)"
proof (cases "validate_filled_transaction X ft")
  case (Inl e)
  then show ?thesis by (auto simp: validate_tx_def Let_def res_simps tx_ok_def)
next
  case (Inr fee)
  then show ?thesis
    using validate_filled_fee [OF Inr]
    by (cases vl')
      (auto simp: validate_tx_def Let_def and_then_eq_Inr ok_or_checked_add tx_ok_def fold_tx_diff)
qed

lemma validate_loop_iff:
  "try_fold (validate_tx X s acc) fts vl = Inr vl' \<longleftrightarrow>
     list_all (tx_ok X s acc) fts \<and>
     unat (vl_fees vl') = unat (vl_fees vl) + sum_list (map fee_of fts) \<and>
     vl_keys vl' = vl_keys vl @ concat (map (\<lambda>ft. map fst (inputs (transaction ft))) fts) \<and>
     vl_diff vl' = fold diff_step (concat (map (\<lambda>ft. tx_diff X (transaction ft)) fts)) (vl_diff vl)"
proof (induction fts arbitrary: vl)
  case Nil
  show ?case by (cases vl; cases vl') (auto simp: word_unat_eq_iff)
next
  case (Cons ft fts)
  show ?case (is "?l \<longleftrightarrow> ?r")
  proof
    assume ?l
    then obtain vl1 where "validate_tx X s acc ft vl = Inr vl1"
        "try_fold (validate_tx X s acc) fts vl1 = Inr vl'"
      by (auto simp: res_simps)
    then show ?r by (auto simp: validate_tx_iff Cons.IH)
  next
    assume r: ?r
    then have "unat (vl_fees vl') = unat (vl_fees vl) + (fee_of ft + sum_list (map fee_of fts))"
      by simp
    from ex_u64_between [OF this] obtain x :: u64 where x: "unat x = unat (vl_fees vl) + fee_of ft"
      by blast
    define vl1 where "vl1 = \<lparr>vl_keys = vl_keys vl @ map fst (inputs (transaction ft)),
      vl_diff = fold diff_step (tx_diff X (transaction ft)) (vl_diff vl), vl_fees = x\<rparr>"
    have "validate_tx X s acc ft vl = Inr vl1"
      using r x by (simp add: validate_tx_iff vl1_def)
    moreover have "try_fold (validate_tx X s acc) fts vl1 = Inr vl'"
      unfolding Cons.IH using r x by (simp add: vl1_def)
    ultimately show ?l by simp
  qed
qed

lemma windows_eq_sorted: "sorted xs \<Longrightarrow> windows_eq xs \<longleftrightarrow> \<not> distinct xs"
  by (induction xs rule: windows_eq.induct) auto

lemma check_double_spend_iff: "check_double_spend keys = Inr u \<longleftrightarrow> distinct keys"
  by (simp add: check_double_spend_def res_simps windows_eq_sorted)

section \<open>What an accepted body satisfies\<close>

definition body_diff :: "'acc ext \<Rightarrow> MerkleRoot \<Rightarrow> Body \<Rightarrow> AccumulatorDiff" where
  "body_diff X mr b =
     fold diff_step (map (Pair True) (output_hashes X (coinbase_outputs mr (coinbase b))) @
                     concat (map (tx_diff X) (transactions b))) diff_default"

definition accepted ::
  "'acc ext \<Rightarrow> 'acc State \<Rightarrow> Header \<Rightarrow> Body \<Rightarrow> FilledTransaction list \<Rightarrow> MerkleRoot \<Rightarrow> amount \<Rightarrow> amount \<Rightarrow>
   bool" where
  "accepted X s hdr b fts mr fs cb \<longleftrightarrow>
     check_prev_side_hash s hdr = Inr () \<and> check_limits X (validating_height s) b = Inr () \<and>
     list_all2 (\<lambda>tx ft. fill_transaction s tx = Inr ft) (transactions b) fts \<and>
     list_all (tx_ok X s (get_accumulator X s)) fts \<and>
     body_merkle_root X hdr b fts = Inr mr \<and> distinct (get_inputs b) \<and>
     unat fs = sum_list (map fee_of fts) \<and> unat cb = value_sum (coinbase b) \<and> cb \<le> fs \<and>
     check_body_owners X b fts = Inr () \<and> check_body_authorizations X b = Inr () \<and>
     check_roots X (body_diff X mr b) (get_accumulator X s) hdr = Inr ()"

lemma coinbase_total_iff: "coinbase_total b = Inr cb \<longleftrightarrow> unat cb = value_sum (coinbase b)"
  using try_fold_sum [of add_value_out, OF add_value_out_iff, of "coinbase b" 0 cb]
  by (simp add: coinbase_total_def list_all_iff)

lemma prevalidate_iff:
  "prevalidate X s hdr b = Inr pre \<longleftrightarrow>
     accepted X s hdr b (filled_transactions pre) (computed_merkle_root pre) (total_fees pre)
       (coinbase_value pre) \<and>
     next_height pre = validating_height s \<and>
     accumulator_diff pre = body_diff X (computed_merkle_root pre) b"
  (is "?l \<longleftrightarrow> ?r")
proof
  assume ?l
  then show ?r
    by (auto simp: prevalidate_def Let_def and_then_eq_Inr prevalidate_loop_iff check_double_spend_iff
        coinbase_total_iff accepted_def get_inputs_def body_diff_def not_less split: if_splits)
next
  assume r: ?r
  define pl where "pl = \<lparr>pl_keys = get_inputs b, pl_diff = concat (map (tx_diff X) (transactions b)),
    pl_filled = filled_transactions pre, pl_fees = total_fees pre\<rparr>"
  have "try_fold (prevalidate_tx X s (get_accumulator X s)) (transactions b)
      \<lparr>pl_keys = [], pl_diff = [], pl_filled = [], pl_fees = 0\<rparr> = Inr pl"
    using r by (simp add: prevalidate_loop_iff pl_def accepted_def get_inputs_def)
  moreover have "check_double_spend (pl_keys pl) = Inr ()"
      "coinbase_total b = Inr (coinbase_value pre)" "\<not> pl_fees pl < coinbase_value pre"
    using r by (simp_all add: pl_def check_double_spend_iff coinbase_total_iff accepted_def not_less)
  ultimately show ?l
    using r by (cases pre) (simp add: prevalidate_def Let_def accepted_def pl_def body_diff_def)
qed

lemma fills_transactions:
  "list_all2 (\<lambda>tx ft. fill_transaction s tx = Inr ft) txs fts \<Longrightarrow> map transaction fts = txs"
  by (induction rule: list_all2_induct) (auto dest: fill_transaction_tx)

lemma validate_iff:
  "validate X s hdr b = Inr (fs, mr) \<longleftrightarrow> (\<exists>fts cb. accepted X s hdr b fts mr fs cb)"
proof -
  have keys: "concat (map (\<lambda>ft. map fst (inputs (transaction ft))) fts) = get_inputs b"
    and diffs: "concat (map (\<lambda>ft. tx_diff X (transaction ft)) fts) =
      concat (map (tx_diff X) (transactions b))"
    if "list_all2 (\<lambda>tx ft. fill_transaction s tx = Inr ft) (transactions b) fts" for fts
    by (simp_all add: get_inputs_def comp_def flip: fills_transactions [OF that])
  show ?thesis (is "?l \<longleftrightarrow> ?r")
  proof
    assume ?l
    then show ?r
      by (auto simp: validate_def Let_def and_then_eq_Inr validate_loop_iff check_double_spend_iff
          coinbase_total_iff accepted_def try_map_iff keys diffs body_diff_def fold_diff_inserts
          not_less split: if_splits) blast
  next
    assume ?r
    then obtain fts cb where acc: "accepted X s hdr b fts mr fs cb" by blast
    then have fill: "list_all2 (\<lambda>tx ft. fill_transaction s tx = Inr ft) (transactions b) fts"
      by (simp add: accepted_def)
    define vl where "vl = \<lparr>vl_keys = get_inputs b, vl_diff = body_diff X mr b, vl_fees = fs\<rparr>"
    define d0 where "d0 = fold diff_insert (output_hashes X (coinbase_outputs mr (coinbase b))) diff_default"
    have "try_fold (validate_tx X s (get_accumulator X s)) fts
        \<lparr>vl_keys = [], vl_diff = d0, vl_fees = 0\<rparr> = Inr vl"
      using acc by (simp add: validate_loop_iff vl_def d0_def accepted_def keys [OF fill]
          diffs [OF fill] body_diff_def fold_diff_inserts)
    moreover have "check_double_spend (vl_keys vl) = Inr ()" "coinbase_total b = Inr cb"
        "\<not> vl_fees vl < cb"
      using acc by (simp_all add: vl_def check_double_spend_iff coinbase_total_iff accepted_def not_less)
    moreover have "try_map (fill_transaction s) (transactions b) = Inr fts"
      using fill by (simp add: try_map_iff)
    ultimately show ?l
      using acc by (simp add: validate_def Let_def accepted_def d0_def vl_def)
  qed
qed

end
