(* ===== verification/Block_Connect.thy ===== *)
theory Block_Connect
  imports Block_Facts
begin

text \<open>
  Connecting a block: the tables each step changes, that a prevalidated block connects, and that
  disconnecting it restores the state.
\<close>

section \<open>Steps on the UTXO tables\<close>

lemma spend_input_eq:
  "spend_input t (vin, op, h) s = Inr s' \<longleftrightarrow>
     (\<exists>out. fmlookup (utxos s) op = Some out \<and>
        s' = s\<lparr>utxos := fmdrop op (utxos s),
               stxos := fmupd op \<lparr>spent_output = out, inpoint = InRegular t vin\<rparr> (stxos s)\<rparr>)"
  by (auto simp: spend_input_def res_simps)

lemma put_output_eq: "put_output (op, out) s = s\<lparr>utxos := fmupd op out (utxos s)\<rparr>"
  by (simp add: put_output_def)

text \<open>The state with its UTXO tables replaced; every other table is as before.\<close>

definition with_utxos :: "(OutPoint, Output) db \<Rightarrow> (OutPoint, SpentOutput) db \<Rightarrow> 'acc State \<Rightarrow> 'acc State" where
  "with_utxos u v s = s\<lparr>utxos := u, stxos := v\<rparr>"

lemma with_utxos_simps [simp]:
  "utxos (with_utxos u v s) = u" "stxos (with_utxos u v s) = v"
  "with_utxos u v (with_utxos u' v' s) = with_utxos u v s"
  "with_utxos (utxos s) (stxos s) s = s"
  "swaps (with_utxos u v s) = swaps s" "locked_swap_outputs (with_utxos u v s) = locked_swap_outputs s"
  "swap_reservations (with_utxos u v s) = swap_reservations s"
  "utreexo_accumulator (with_utxos u v s) = utreexo_accumulator s"
  "get_swap i (with_utxos u v s) = get_swap i s"
  "tip (with_utxos u v s) = tip s" "height (with_utxos u v s) = height s"
  by (simp_all add: with_utxos_def get_swap_def)

lemma spend_inputs_frame:
  "try_fold (spend_input t) ins s = Inr s' \<Longrightarrow> s' = with_utxos (utxos s') (stxos s') s"
proof (induction ins arbitrary: s)
  case Nil
  then show ?case by simp
next
  case (Cons x ins)
  then obtain s1 where s1: "spend_input t x s = Inr s1" "try_fold (spend_input t) ins s1 = Inr s'"
    by (auto simp: res_simps)
  from s1(1) have "s1 = with_utxos (utxos s1) (stxos s1) s"
    by (cases x) (auto simp: spend_input_eq with_utxos_def)
  with Cons.IH [OF s1(2)] show ?case by (metis with_utxos_simps(3))
qed

lemma spend_inputs_utxos:
  "try_fold (spend_input t) ins s = Inr s' \<Longrightarrow>
   fmlookup (utxos s') op = (if op \<in> (\<lambda>x. fst (snd x)) ` set ins then None else fmlookup (utxos s) op)"
proof (induction ins arbitrary: s)
  case Nil
  then show ?case by simp
next
  case (Cons x ins)
  obtain vin op' h where x: "x = (vin, op', h)" by (cases x)
  from Cons.prems obtain s1 where
      "spend_input t x s = Inr s1" "try_fold (spend_input t) ins s1 = Inr s'"
    by (auto simp: res_simps)
  then show ?case using Cons.IH by (auto simp: x spend_input_eq)
qed

lemma spend_inputs_total:
  "distinct (map (\<lambda>x. fst (snd x)) ins) \<Longrightarrow>
   \<forall>op \<in> (\<lambda>x. fst (snd x)) ` set ins. fmlookup (utxos s) op \<noteq> None \<Longrightarrow>
   \<exists>s'. try_fold (spend_input t) ins s = Inr s'"
proof (induction ins arbitrary: s)
  case Nil
  then show ?case by simp
next
  case (Cons x ins)
  obtain vin op h where x: "x = (vin, op, h)" by (cases x)
  from Cons.prems x obtain out where "fmlookup (utxos s) op = Some out" by auto
  then obtain s1 where s1: "spend_input t x s = Inr s1"
      and u: "utxos s1 = fmdrop op (utxos s)"
    by (auto simp: x spend_input_eq)
  have "\<forall>op \<in> (\<lambda>x. fst (snd x)) ` set ins. fmlookup (utxos s1) op \<noteq> None"
  proof
    fix o' assume o': "o' \<in> (\<lambda>x. fst (snd x)) ` set ins"
    with Cons.prems x have "o' \<noteq> op" by auto
    with o' Cons.prems u show "fmlookup (utxos s1) o' \<noteq> None" by auto
  qed
  with Cons s1 show ?case by auto
qed

lemma put_outputs_frame:
  "fold put_output outs s = with_utxos (utxos (fold put_output outs s)) (stxos s) s"
proof (induction outs arbitrary: s)
  case Nil
  then show ?case by simp
next
  case (Cons x outs)
  obtain op out where x: "x = (op, out)" by (cases x)
  have "put_output x s = with_utxos (fmupd op out (utxos s)) (stxos s) s"
    by (simp add: x put_output_eq with_utxos_def)
  with Cons.IH [of "put_output x s"] show ?case by (metis fold_simps(2) with_utxos_simps(2,3))
qed

lemma put_outputs_utxos:
  "fmlookup (utxos (fold put_output outs s)) op =
     (case map_of (rev outs) op of Some out \<Rightarrow> Some out | None \<Rightarrow> fmlookup (utxos s) op)"
  by (induction outs arbitrary: s)
    (auto simp: put_output_def map_add_def split: option.splits)

lemma map_ops_enumerate: "map (\<lambda>x. fst (snd x)) (enumerate_u32 ins) = map fst ins"
proof -
  have "map fst ins = map fst (map snd (enumerate_u32 ins))"
    by (simp only: map_snd_enumerate_u32)
  then show ?thesis by (simp only: map_map comp_def)
qed

lemma set_ops_enumerate: "(\<lambda>x. fst (snd x)) ` set (enumerate_u32 (inputs tx)) = spends tx"
  using arg_cong [OF map_ops_enumerate [of "inputs tx"], of set] by (simp add: spends_def)

lemma connect_tx_utxos_frame:
  "connect_tx_utxos X tx s = Inr s' \<Longrightarrow> s' = with_utxos (utxos s') (stxos s') s"
  by (auto simp: connect_tx_utxos_def res_simps)
    (metis spend_inputs_frame put_outputs_frame with_utxos_simps(2,3))

lemma connect_tx_utxos_lookup:
  "connect_tx_utxos X tx s = Inr s' \<Longrightarrow>
   fmlookup (utxos s') op =
     (case map_of (rev (tx_outputs X tx)) op of
        Some out \<Rightarrow> Some out
      | None \<Rightarrow> if op \<in> spends tx then None else fmlookup (utxos s) op)"
  using spend_inputs_utxos [of "txid X tx" "enumerate_u32 (inputs tx)" s _ op]
  by (auto simp: connect_tx_utxos_def res_simps put_outputs_utxos set_ops_enumerate
      split: option.splits)

lemma connect_tx_utxos_total:
  "distinct (map fst (inputs tx)) \<Longrightarrow> \<forall>op \<in> spends tx. fmlookup (utxos s) op \<noteq> None \<Longrightarrow>
   \<exists>s'. connect_tx_utxos X tx s = Inr s'"
  using spend_inputs_total [of "enumerate_u32 (inputs tx)" s "txid X tx"]
  by (auto simp: connect_tx_utxos_def map_ops_enumerate set_ops_enumerate res_simps)

section \<open>Steps on the swap tables\<close>

lemma fold_frame:
  assumes "\<And>op s. f op s = s\<lparr>locked_swap_outputs := locked_swap_outputs (f op s)\<rparr>"
  shows "fold f ops s = s\<lparr>locked_swap_outputs := locked_swap_outputs (fold f ops s)\<rparr>"
proof (induction ops arbitrary: s)
  case Nil
  show ?case by simp
next
  case (Cons op ops)
  have "fold f (op # ops) s = (f op s)\<lparr>locked_swap_outputs := locked_swap_outputs (fold f (op # ops) s)\<rparr>"
    using Cons.IH [of "f op s"] by simp
  also have "\<dots> = s\<lparr>locked_swap_outputs := locked_swap_outputs (fold f (op # ops) s)\<rparr>"
    by (subst assms) simp
  finally show ?case .
qed

lemma lock_fold_frame:
  "fold (\<lambda>op s. if P op s then unlock_output_from_swap op s else s) ops s =
     s\<lparr>locked_swap_outputs :=
        locked_swap_outputs (fold (\<lambda>op s. if P op s then unlock_output_from_swap op s else s) ops s)\<rparr>"
  "fold (\<lambda>op s. if P op s then lock_output_to_swap op i s else s) ops s =
     s\<lparr>locked_swap_outputs :=
        locked_swap_outputs (fold (\<lambda>op s. if P op s then lock_output_to_swap op i s else s) ops s)\<rparr>"
  "fold (\<lambda>op. lock_output_to_swap op i) ops s =
     s\<lparr>locked_swap_outputs := locked_swap_outputs (fold (\<lambda>op. lock_output_to_swap op i) ops s)\<rparr>"
  by (rule fold_frame, simp add: lock_defs)+

lemma get_swap_fold_locks [simp]:
  "get_swap j (fold (\<lambda>op s. if P op s then unlock_output_from_swap op s else s) ops s) = get_swap j s"
  "get_swap j (fold (\<lambda>op s. if P op s then lock_output_to_swap op i s else s) ops s) = get_swap j s"
  "get_swap j (fold (\<lambda>op. lock_output_to_swap op i) ops s) = get_swap j s"
  by (induction ops arbitrary: s) auto

text \<open>Every table outside the swap tables is the same.\<close>

definition swap_frame :: "'acc State \<Rightarrow> 'acc State \<Rightarrow> bool" where
  "swap_frame s s' \<longleftrightarrow>
     tip s' = tip s \<and> height s' = height s \<and> utxos s' = utxos s \<and> stxos s' = stxos s \<and>
     pending_withdrawal_bundle s' = pending_withdrawal_bundle s \<and>
     latest_failed_withdrawal_bundle s' = latest_failed_withdrawal_bundle s \<and>
     withdrawal_bundles s' = withdrawal_bundles s \<and> block_index_events s' = block_index_events s \<and>
     deposit_blocks s' = deposit_blocks s \<and>
     withdrawal_bundle_event_blocks s' = withdrawal_bundle_event_blocks s \<and>
     utreexo_accumulator s' = utreexo_accumulator s \<and> expired_swaps s' = expired_swaps s"

lemma swap_frame_trans: "swap_frame s t \<Longrightarrow> swap_frame t u \<Longrightarrow> swap_frame s u"
  by (simp add: swap_frame_def)

lemma swap_frame_locked: "swap_frame s (s\<lparr>locked_swap_outputs := l\<rparr>)"
  by (simp add: swap_frame_def)

lemma swap_frame_save: "save_swap X sw s = Inr s' \<Longrightarrow> swap_frame s s'"
  by (auto simp: save_swap_eq swap_frame_def)

lemma swap_frame_reserve:
  "swap_frame s (reserve_swap i who h s)" "swap_frame s (clear_swap_reservation i s)"
  by (simp_all add: swap_frame_def reserve_swap_def clear_swap_reservation_def)

lemma swap_frame_fold:
  "swap_frame s (fold (\<lambda>op s. if P op s then unlock_output_from_swap op s else s) ops s)"
  "swap_frame s (fold (\<lambda>op. lock_output_to_swap op i) ops s)"
  by (subst lock_fold_frame, rule swap_frame_locked)+

lemma connect_swap_claim_frame:
  assumes "connect_swap_claim X i declared tx s = Inr s'"
  shows "swap_frame s s'"
proof -
  let ?unlock = "fold (\<lambda>op s. if is_output_locked_to_swap op s = Some i
    then unlock_output_from_swap op s else s) (map fst (inputs tx))"
  from assms obtain sw sw1 s1 where s1: "s1 = s \<or> save_swap X sw s = Inr s1"
      and s': "save_swap X (mark_completed sw1) (?unlock s1) = Inr s'"
    by (auto simp: connect_swap_claim_def res_simps Let_def split: if_splits)
  have "swap_frame s s1" using s1 by (auto simp: swap_frame_def dest: swap_frame_save)
  moreover have "swap_frame s1 (?unlock s1)" by (rule swap_frame_fold)
  moreover have "swap_frame (?unlock s1) s'" using s' by (rule swap_frame_save)
  ultimately show ?thesis by (blast intro: swap_frame_trans)
qed

lemma connect_swap_data_frame:
  assumes "connect_swap_data X h ft s = Inr s'"
  shows "swap_frame s s'"
proof (cases "data (transaction ft)")
  case (SwapCreate i chain l1tx req r a l1 b)
  with assms obtain sw where
    "save_swap X sw (fold (\<lambda>op. lock_output_to_swap op i) (escrow_outpoints X i (transaction ft)) s) = Inr s'"
    by (auto simp: connect_swap_data_def Let_def split: if_splits)
  then show ?thesis by (blast intro: swap_frame_trans swap_frame_fold swap_frame_save)
next
  case (SwapClaim i declared pd)
  with assms show ?thesis
    by (auto simp: connect_swap_data_def Let_def intro: connect_swap_claim_frame)
qed (use assms in \<open>auto simp: connect_swap_data_def Let_def swap_frame_reserve\<close>,
    simp add: swap_frame_def)

lemma created_swap_simps [simp]:
  "sw_id (created_swap i chain l1tx req r a l1 b h e ft) = i"
  "l2_recipient (created_swap i chain l1tx req r a l1 b h e ft) = r"
  "l2_amount (created_swap i chain l1tx req r a l1 b h e ft) = a"
  "parent_chain (created_swap i chain l1tx req r a l1 b h e ft) = chain"
  "l1_txid (created_swap i chain l1tx req r a l1 b h e ft) = from_bytes l1tx"
  "sw_state (created_swap i chain l1tx req r a l1 b h e ft) = Pending"
  by (simp_all add: created_swap_def Swap_new_def)

text \<open>Swaps that exist stay, with their recipient and amount, unless a creation replaces them.\<close>

definition swaps_kept :: "'acc State \<Rightarrow> 'acc State \<Rightarrow> bool" where
  "swaps_kept s t \<longleftrightarrow> (\<forall>i sw. get_swap i s = Some sw \<longrightarrow>
     (\<exists>sw'. get_swap i t = Some sw' \<and> sw_id sw' = sw_id sw \<and> l2_recipient sw' = l2_recipient sw))"

text \<open>The one check on claims that connection makes and prevalidation does not.\<close>

definition claim_named :: "'acc State \<Rightarrow> FilledTransaction \<Rightarrow> bool" where
  "claim_named s ft = (case data (transaction ft) of
     SwapClaim i declared _ \<Rightarrow>
       declared \<noteq> None \<or> (\<exists>sw. get_swap i s = Some sw \<and> l2_recipient sw \<noteq> None)
   | _ \<Rightarrow> True)"

lemma connect_swap_claim_total:
  assumes "codec_ok X" "get_swap i s = Some sw" "sw_id sw = i" "l2_recipient sw \<noteq> None \<or> declared \<noteq> None"
  shows "\<exists>s'. connect_swap_claim X i declared tx s = Inr s' \<and>
    (\<forall>j. get_swap j s' = (if j = i then Some (sw\<lparr>sw_state := Completed\<rparr>) else get_swap j s))"
proof -
  obtain sw1 s1 where
      first: "(if sw_state sw \<noteq> ReadyToClaim
               then let sw' = sw\<lparr>sw_state := ReadyToClaim\<rparr> in
                    and_then (save_swap X sw' s) (\<lambda>s'. Inr (sw', s'))
               else Inr (sw, s)) = Inr (sw1, s1)"
      and sw1: "sw1\<lparr>sw_state := Completed\<rparr> = sw\<lparr>sw_state := Completed\<rparr>" "sw_id sw1 = i"
        "l2_recipient sw1 = l2_recipient sw"
      and g: "\<And>j. j \<noteq> i \<Longrightarrow> get_swap j s1 = get_swap j s"
    using assms by (cases "sw_state sw = ReadyToClaim") (auto simp: save_swap_ok Let_def get_swap_def)
  define s2 where "s2 = fold (\<lambda>op s. if is_output_locked_to_swap op s = Some i
    then unlock_output_from_swap op s else s) (map fst (inputs tx)) s1"
  obtain s' where s': "save_swap X (mark_completed sw1) s2 = Inr s'"
    using assms(1) by (simp add: save_swap_ok)
  have "connect_swap_claim X i declared tx s = Inr s'"
    unfolding connect_swap_claim_def using assms sw1 s'
    by (simp add: first s2_def [symmetric] Let_def)
  moreover have "get_swap j s' = (if j = i then Some (sw\<lparr>sw_state := Completed\<rparr>) else get_swap j s)" for j
    using get_swap_save [OF assms(1) s'] sw1 g assms(3) by (simp add: mark_completed_def s2_def)
  ultimately show ?thesis by blast
qed

lemma connect_swap_data_total:
  assumes X: "codec_ok X" and k: "swaps_keyed t" "swaps_kept s t"
    and v: "validate_block_transaction X s (transaction ft) ft = Inr ()" "claim_named s ft"
  shows "\<exists>t'. connect_swap_data X h ft t = Inr t' \<and> swaps_keyed t' \<and> swaps_kept s t'"
proof (cases "data (transaction ft)")
  case Regular
  then show ?thesis using k by (simp add: connect_swap_data_def)
next
  case (SwapAccept i who)
  then show ?thesis using k
    by (simp add: connect_swap_data_def swaps_keyed_def swaps_kept_def)
next
  case (SwapCreate i chain l1tx req r a l1 b)
  then have new: "get_swap i s = None"
    using v by (auto simp: validate_block_transaction_def create_iff [OF SwapCreate] create_rule_def)
  define sw where "sw = created_swap i chain l1tx req r a l1 b h
    (Some (h + default_swap_expiration_blocks chain)) ft"
  have sw: "sw_id sw = i" by (simp add: sw_def)
  have c: "connect_swap_data X h ft t =
      save_swap X sw (fold (\<lambda>op. lock_output_to_swap op i) (escrow_outpoints X i (transaction ft)) t)"
    by (simp add: connect_swap_data_def Let_def SwapCreate sw_def)
  obtain t' where t': "connect_swap_data X h ft t = Inr t'"
    unfolding c using X by (simp add: save_swap_ok)
  have "get_swap j t' = (if j = i then Some sw else get_swap j t)" for j
    using get_swap_save [OF X t' [unfolded c]] sw by simp
  then show ?thesis using t' sw new k by (auto simp: swaps_keyed_def swaps_kept_def)
next
  case (SwapClaim i declared pd)
  then obtain sw where sw: "get_swap i s = Some sw"
    using v by (auto simp: validate_block_transaction_def claim_consensus_iff [OF SwapClaim] claim_rule_def)
  then obtain sw' where sw': "get_swap i t = Some sw'" "sw_id sw' = i" "l2_recipient sw' = l2_recipient sw"
    using k by (fastforce simp: swaps_keyed_def swaps_kept_def)
  then have "l2_recipient sw' \<noteq> None \<or> declared \<noteq> None"
    using v(2) sw SwapClaim by (auto simp: claim_named_def)
  from connect_swap_claim_total [OF X sw'(1,2) this, of "transaction ft"] obtain t' where
      t': "connect_swap_data X h ft t = Inr t'"
      and g: "\<And>j. get_swap j t' = (if j = i then Some (sw'\<lparr>sw_state := Completed\<rparr>) else get_swap j t)"
    using SwapClaim by (auto simp: connect_swap_data_def)
  have "swaps_kept s t'"
    unfolding swaps_kept_def
  proof (intro allI impI)
    fix j v assume "get_swap j s = Some v"
    then obtain v' where "get_swap j t = Some v'" "sw_id v' = sw_id v" "l2_recipient v' = l2_recipient v"
      using k(2) by (auto simp: swaps_kept_def)
    then show "\<exists>sw'. get_swap j t' = Some sw' \<and> sw_id sw' = sw_id v \<and> l2_recipient sw' = l2_recipient v"
      using g [of j] sw'(1) by auto
  qed
  moreover have "swaps_keyed t'" using g sw'(2) k(1) by (simp add: swaps_keyed_def)
  ultimately show ?thesis using t' by blast
qed

lemma connect_tx_total:
  assumes "codec_ok X" "swaps_keyed t" "swaps_kept s t"
    and "validate_block_transaction X s (transaction ft) ft = Inr ()" "claim_named s ft"
    and d: "distinct (map fst (inputs (transaction ft)))"
    and u: "\<forall>op \<in> spends (transaction ft). fmlookup (utxos t) op \<noteq> None"
  shows "\<exists>t'. connect_tx X h ft t = Inr t' \<and> swaps_keyed t' \<and> swaps_kept s t' \<and>
    (\<forall>op. op \<notin> spends (transaction ft) \<longrightarrow> fmlookup (utxos t) op \<noteq> None \<longrightarrow>
      fmlookup (utxos t') op \<noteq> None) \<and>
    utreexo_accumulator t' = utreexo_accumulator t"
proof -
  obtain t1 where t1: "connect_tx_utxos X (transaction ft) t = Inr t1"
    using connect_tx_utxos_total [OF d u] by blast
  then have f: "t1 = with_utxos (utxos t1) (stxos t1) t" by (rule connect_tx_utxos_frame)
  then have g: "get_swap i t1 = get_swap i t" for i by (metis with_utxos_simps(9))
  then have "swaps_keyed t1" "swaps_kept s t1"
    using assms by (simp_all add: swaps_keyed_def swaps_kept_def)
  with connect_swap_data_total assms obtain t' where
      t': "connect_swap_data X h ft t1 = Inr t'" "swaps_keyed t'" "swaps_kept s t'"
    by meson
  then have "utxos t' = utxos t1" "utreexo_accumulator t' = utreexo_accumulator t1"
    using connect_swap_data_frame [OF t'(1)] by (simp_all add: swap_frame_def)
  moreover have "utreexo_accumulator t1 = utreexo_accumulator t" using f by (metis with_utxos_simps(8))
  moreover have "connect_tx X h ft t = Inr t'" using t1 t' by (simp add: connect_tx_def)
  ultimately show ?thesis
    using t' connect_tx_utxos_lookup [OF t1] by (auto split: option.splits)
qed

lemma connect_txs_total:
  assumes "codec_ok X" "swaps_keyed t" "swaps_kept s t"
    and "\<forall>ft \<in> set fts. validate_block_transaction X s (transaction ft) ft = Inr () \<and> claim_named s ft"
    and "distinct (concat (map (\<lambda>ft. map fst (inputs (transaction ft))) fts))"
    and "\<forall>ft \<in> set fts. \<forall>op \<in> spends (transaction ft). fmlookup (utxos t) op \<noteq> None"
  shows "\<exists>t'. try_fold (connect_tx X h) fts t = Inr t' \<and>
    utreexo_accumulator t' = utreexo_accumulator t"
  using assms(2-)
proof (induction fts arbitrary: t)
  case Nil
  then show ?case by simp
next
  case (Cons ft fts)
  have "distinct (map fst (inputs (transaction ft)))" using Cons.prems by simp
  with connect_tx_total [OF assms(1) Cons.prems(1,2)] Cons.prems obtain t1 where
      t1: "connect_tx X h ft t = Inr t1" "swaps_keyed t1" "swaps_kept s t1"
      and keep: "\<And>op. op \<notin> spends (transaction ft) \<Longrightarrow> fmlookup (utxos t) op \<noteq> None \<Longrightarrow>
        fmlookup (utxos t1) op \<noteq> None"
      and acc: "utreexo_accumulator t1 = utreexo_accumulator t"
    by (metis list.set_intros(1))
  have "fmlookup (utxos t1) op \<noteq> None" if "g \<in> set fts" "op \<in> spends (transaction g)" for g op
  proof -
    have "op \<notin> spends (transaction ft)" using Cons.prems(4) that by (auto simp: spends_def)
    with keep that Cons.prems(5) show ?thesis by auto
  qed
  with Cons.IH [OF t1(2,3)] Cons.prems obtain t' where
    "try_fold (connect_tx X h) fts t1 = Inr t'" "utreexo_accumulator t' = utreexo_accumulator t1"
    by auto
  with t1 acc show ?case by simp
qed

text \<open>
  The exception: a claim of an open swap that names no claimer. No earlier transaction of the block
  helps, since swaps keep their recipient.
\<close>

lemma connect_unnamed_claim:
  assumes "codec_ok X" "swaps_kept s t" "validate_block_transaction X s (transaction ft) ft = Inr ()"
    and un: "\<not> claim_named s ft" and d: "distinct (map fst (inputs (transaction ft)))"
    and u: "\<forall>op \<in> spends (transaction ft). fmlookup (utxos t) op \<noteq> None"
  shows "connect_tx X h ft t = Inl (Fail (InvalidTransaction OpenClaimNeedsClaimer))"
proof -
  from un obtain i pd where c: "data (transaction ft) = SwapClaim i None pd"
      and r: "\<And>sw. get_swap i s = Some sw \<Longrightarrow> l2_recipient sw = None"
    by (auto simp: claim_named_def split: TxData.splits)
  obtain t1 where t1: "connect_tx_utxos X (transaction ft) t = Inr t1"
    using connect_tx_utxos_total [OF d u] by blast
  then have "get_swap i t1 = get_swap i t" using connect_tx_utxos_frame with_utxos_simps(9) by metis
  moreover obtain sw where "get_swap i s = Some sw"
    using assms(3) by (auto simp: c validate_block_transaction_def claim_consensus_iff [OF c] claim_rule_def)
  ultimately obtain sw' where "get_swap i t1 = Some sw'" "l2_recipient sw' = None"
    using assms(2) r by (fastforce simp: swaps_kept_def)
  then have "connect_swap_data X h ft t1 = Inl (Fail (InvalidTransaction OpenClaimNeedsClaimer))"
    using assms(1) by (simp add: connect_swap_data_def Let_def c connect_swap_claim_def save_swap_ok)
  with t1 show ?thesis by (simp add: connect_tx_def)
qed

lemma connect_txs_unnamed:
  assumes "codec_ok X" "swaps_keyed t" "swaps_kept s t"
    and "\<forall>ft \<in> set fts. validate_block_transaction X s (transaction ft) ft = Inr ()"
    and "distinct (concat (map (\<lambda>ft. map fst (inputs (transaction ft))) fts))"
    and "\<forall>ft \<in> set fts. \<forall>op \<in> spends (transaction ft). fmlookup (utxos t) op \<noteq> None"
    and "\<exists>ft \<in> set fts. \<not> claim_named s ft"
  shows "try_fold (connect_tx X h) fts t = Inl (Fail (InvalidTransaction OpenClaimNeedsClaimer))"
  using assms(2-)
proof (induction fts arbitrary: t)
  case (Cons ft fts)
  have d: "distinct (map fst (inputs (transaction ft)))" using Cons.prems by simp
  have v: "validate_block_transaction X s (transaction ft) ft = Inr ()"
      and u: "\<forall>op \<in> spends (transaction ft). fmlookup (utxos t) op \<noteq> None"
    using Cons.prems by simp_all
  show ?case
  proof (cases "claim_named s ft")
    case False
    with connect_unnamed_claim [OF assms(1) Cons.prems(2) v _ d u] show ?thesis by simp
  next
    case True
    from connect_tx_total [OF assms(1) Cons.prems(1,2) v True d u, of h] obtain t1 where
        t1: "connect_tx X h ft t = Inr t1" "swaps_keyed t1" "swaps_kept s t1"
        and keep: "\<And>op. op \<notin> spends (transaction ft) \<Longrightarrow> fmlookup (utxos t) op \<noteq> None \<Longrightarrow>
          fmlookup (utxos t1) op \<noteq> None"
      by blast
    have "fmlookup (utxos t1) op \<noteq> None" if "g \<in> set fts" "op \<in> spends (transaction g)" for g op
    proof -
      have "op \<notin> spends (transaction ft)" using Cons.prems(4) that by (auto simp: spends_def)
      with keep that Cons.prems(5) show ?thesis by auto
    qed
    with Cons.IH [OF t1(2,3)] Cons.prems True t1(1) show ?thesis by simp
  qed
qed simp

lemma swaps_kept_refl: "swaps_kept s s"
  by (simp add: swaps_kept_def)

lemma fill_spends:
  "fill_transaction s tx = Inr ft \<Longrightarrow> op \<in> spends tx \<Longrightarrow> fmlookup (utxos s) op \<noteq> None"
  by (auto simp: fill_transaction_iff spends_def dest: list_all2_left)

text \<open>What prevalidation establishes for the loop over the transactions.\<close>

lemma prevalidated_start:
  assumes k: "swaps_keyed s" and pre: "prevalidate X s hdr b = Inr pre"
  defines "s0 \<equiv> connect_coinbase (computed_merkle_root pre) b s"
  shows "swaps_keyed s0 \<and> swaps_kept s s0 \<and>
    (\<forall>ft \<in> set (filled_transactions pre). validate_block_transaction X s (transaction ft) ft = Inr ()) \<and>
    distinct (concat (map (\<lambda>ft. map fst (inputs (transaction ft))) (filled_transactions pre))) \<and>
    (\<forall>ft \<in> set (filled_transactions pre). \<forall>op \<in> spends (transaction ft). fmlookup (utxos s0) op \<noteq> None) \<and>
    utreexo_accumulator s0 = utreexo_accumulator s"
proof (intro conjI)
  let ?fts = "filled_transactions pre"
  from pre have acc: "accepted X s hdr b ?fts (computed_merkle_root pre) (total_fees pre) (coinbase_value pre)"
    by (simp add: prevalidate_iff)
  then have fills: "list_all2 (\<lambda>tx ft. fill_transaction s tx = Inr ft) (transactions b) ?fts"
    by (simp add: accepted_def)
  have s0: "s0 = with_utxos (utxos s0) (stxos s) s"
    unfolding s0_def connect_coinbase_def by (rule put_outputs_frame)
  show "swaps_keyed s0" "swaps_kept s s0"
    using k by (subst s0, simp add: swaps_keyed_def swaps_kept_def)+
  show "utreexo_accumulator s0 = utreexo_accumulator s" by (subst s0) simp
  show "\<forall>ft \<in> set ?fts. validate_block_transaction X s (transaction ft) ft = Inr ()"
    using acc by (auto simp: accepted_def tx_ok_def list_all_iff)
  have "concat (map (\<lambda>ft. map fst (inputs (transaction ft))) ?fts) = get_inputs b"
    by (simp add: get_inputs_def comp_def flip: fills_transactions [OF fills])
  with acc show "distinct (concat (map (\<lambda>ft. map fst (inputs (transaction ft))) ?fts))"
    by (simp add: accepted_def)
  show "\<forall>ft \<in> set ?fts. \<forall>op \<in> spends (transaction ft). fmlookup (utxos s0) op \<noteq> None"
  proof (intro ballI)
    fix ft op assume ft: "ft \<in> set ?fts" and op: "op \<in> spends (transaction ft)"
    then obtain tx where "fill_transaction s tx = Inr ft"
      using list_all2_right [OF fills] by blast
    with op have "fmlookup (utxos s) op \<noteq> None"
      using fill_spends fill_transaction_tx by metis
    then show "fmlookup (utxos s0) op \<noteq> None"
      by (auto simp: s0_def connect_coinbase_def put_outputs_utxos split: option.splits)
  qed
qed

lemma prevalidated_unnamed:
  assumes "codec_ok X" "swaps_keyed s" "prevalidate X s hdr b = Inr pre"
    and "\<exists>ft \<in> set (filled_transactions pre). \<not> claim_named s ft"
  shows "connect_prevalidated X hdr b pre s = Inl (Fail (InvalidTransaction OpenClaimNeedsClaimer))"
proof -
  have "try_fold (connect_tx X (next_height pre)) (filled_transactions pre)
      (connect_coinbase (computed_merkle_root pre) b s) = Inl (Fail (InvalidTransaction OpenClaimNeedsClaimer))"
    using prevalidated_start [OF assms(2,3)] by (intro connect_txs_unnamed [OF assms(1) _ _ _ _ _ assms(4)]) auto
  moreover have "computed_merkle_root pre = merkle_root hdr" "check_prev_side_hash s hdr = Inr ()"
    using assms(3) by (auto simp: prevalidate_iff accepted_def body_merkle_root_def and_then_eq_Inr split: if_splits)
  ultimately show ?thesis by (simp add: connect_prevalidated_def Let_def)
qed

text \<open>A block that passes prevalidation connects.\<close>

lemma prevalidated_connects:
  assumes X: "codec_ok X" and k: "swaps_keyed s" and pre: "prevalidate X s hdr b = Inr pre"
    and named: "\<forall>ft \<in> set (filled_transactions pre). claim_named s ft"
  shows "\<exists>s'. connect_prevalidated X hdr b pre s = Inr (computed_merkle_root pre, s') \<and>
    tip s' = Some (header_hash X hdr) \<and> height s' = Some (validating_height s) \<and>
    forest_roots X (get_accumulator X s') = roots hdr"
proof -
  let ?fts = "filled_transactions pre"
  from pre have acc: "accepted X s hdr b ?fts (computed_merkle_root pre) (total_fees pre) (coinbase_value pre)"
      and h: "next_height pre = validating_height s"
      and d: "accumulator_diff pre = body_diff X (computed_merkle_root pre) b"
    by (simp_all add: prevalidate_iff)
  let ?s0 = "connect_coinbase (computed_merkle_root pre) b s"
  note start = prevalidated_start [OF k pre]
  from start named have "\<exists>t'. try_fold (connect_tx X (next_height pre)) ?fts ?s0 = Inr t' \<and>
      utreexo_accumulator t' = utreexo_accumulator ?s0"
    by (intro connect_txs_total [OF X]) auto
  then obtain s1 where
      s1: "try_fold (connect_tx X (next_height pre)) ?fts ?s0 = Inr s1"
      and a1: "utreexo_accumulator s1 = utreexo_accumulator ?s0" by blast
  from start have a0: "utreexo_accumulator ?s0 = utreexo_accumulator s" by blast
  let ?s2 = "set_tip (header_hash X hdr) (next_height pre) s1"
  have acc2: "get_accumulator X ?s2 = get_accumulator X s"
    using a1 a0 by (simp add: get_accumulator_def set_tip_def)
  from acc obtain forest where
      f: "utreexo_res (apply_diff X (accumulator_diff pre) (get_accumulator X s)) = Inr forest"
        "forest_roots X forest = roots hdr"
    by (auto simp: accepted_def check_roots_def d and_then_eq_Inr ensure_eq_Inr)
  have mr: "computed_merkle_root pre = merkle_root hdr" "check_prev_side_hash s hdr = Inr ()"
    using acc by (auto simp: accepted_def body_merkle_root_def and_then_eq_Inr split: if_splits)
  have "connect_prevalidated X hdr b pre s =
      Inr (computed_merkle_root pre, ?s2\<lparr>utreexo_accumulator := Some forest\<rparr>)"
    using s1 f mr acc2 by (simp add: connect_prevalidated_def apply_accumulator_diff_def Let_def)
  then show ?thesis
    using f h by (simp add: set_tip_def get_accumulator_def)
qed

end
