(* ===== verification/Block_Undo.thy ===== *)
theory Block_Undo
  imports Block_Connect
begin

text \<open>
  Disconnecting a block: the step of \<open>disconnect_tip\<close> for each step of connection is its inverse,
  where the step can be inverted at all; the conditions are stated per kind of transaction.
\<close>

section \<open>UTXO tables\<close>

text \<open>The state part of the two loops of \<open>disconnect_tx\<close>; the other part is the accumulator diff.\<close>

definition unspend_utxo :: "OutPoint \<Rightarrow> 'acc State \<Rightarrow> 'acc State res" where
  "unspend_utxo op s =
     (case fmlookup (stxos s) op of
        Some so \<Rightarrow> Inr (s\<lparr>stxos := fmdrop op (stxos s), utxos := fmupd op (spent_output so) (utxos s)\<rparr>)
      | None \<Rightarrow> err (NoStxo op))"

definition delete_utxo :: "OutPoint \<Rightarrow> 'acc State \<Rightarrow> 'acc State res" where
  "delete_utxo op s =
     (if fmlookup (utxos s) op = None then err (NoUtxo op) else Inr (s\<lparr>utxos := fmdrop op (utxos s)\<rparr>))"

lemma unspend_input_split:
  "unspend_input x (d, s) =
     and_then (unspend_utxo (fst x) s) (\<lambda>s'. Inr (diff_insert (snd x) d, s'))"
  by (cases x) (simp add: unspend_input_def unspend_utxo_def split: option.splits)

lemma delete_output_split:
  "delete_output X x (d, s) =
     and_then (delete_utxo (fst x) s) (\<lambda>s'. Inr (diff_remove (pointed_hash X (fst x) (snd x)) d, s'))"
  by (cases x) (simp add: delete_output_def delete_utxo_def)

lemma unspend_inputs_split:
  "try_fold unspend_input ins (d, s) =
     and_then (try_fold (\<lambda>x. unspend_utxo (fst x)) ins s) (\<lambda>s'.
     Inr (fold diff_insert (map snd ins) d, s'))"
  by (induction ins arbitrary: d s) (simp_all add: unspend_input_split and_then_assoc)

lemma delete_outputs_split:
  "try_fold (delete_output X) outs (d, s) =
     and_then (try_fold (\<lambda>x. delete_utxo (fst x)) outs s) (\<lambda>s'.
     Inr (fold diff_remove (output_hashes X outs) d, s'))"
  by (induction outs arbitrary: d s)
    (simp_all add: delete_output_split and_then_assoc output_hashes_def case_prod_unfold)

interpretation spending: undoable "spend_input t" "\<lambda>x. unspend_utxo (fst (snd x))"
    "\<lambda>x s. fmlookup (stxos s) (fst (snd x)) = None" for t
  by unfold_locales
    (auto simp: spend_input_eq unspend_utxo_def db_put_same db_drop_put_fresh)

interpretation creating: undoable "\<lambda>x s. Inr (put_output x s)" "\<lambda>x. delete_utxo (fst x)"
    "\<lambda>x s. fmlookup (utxos s) (fst x) = None"
  by unfold_locales (auto simp: put_output_def delete_utxo_def db_drop_put_fresh)

lemma spending_pre_run:
  "distinct (map (\<lambda>x. fst (snd x)) ins) \<Longrightarrow>
   \<forall>x \<in> set ins. fmlookup (stxos s) (fst (snd x)) = None \<Longrightarrow> spending.pre_run t ins s"
proof (induction ins arbitrary: s)
  case Nil
  show ?case by simp
next
  case (Cons x ins)
  have "spending.pre_run t ins s'" if sp: "spend_input t x s = Inr s'" for s'
  proof (rule Cons.IH)
    show "distinct (map (\<lambda>x. fst (snd x)) ins)" using Cons.prems by simp
    obtain out where s': "stxos s' = fmupd (fst (snd x)) out (stxos s)"
      using sp by (cases x) (auto simp: spend_input_eq)
    show "\<forall>y \<in> set ins. fmlookup (stxos s') (fst (snd y)) = None"
    proof
      fix y assume y: "y \<in> set ins"
      then have "fst (snd y) \<noteq> fst (snd x)" using Cons.prems(1) by (simp add: image_iff) metis
      then show "fmlookup (stxos s') (fst (snd y)) = None" using y Cons.prems(2) by (simp add: s')
    qed
  qed
  then show ?case using Cons.prems by simp
qed

lemma creating_pre_run:
  "distinct (map fst outs) \<Longrightarrow> \<forall>x \<in> set outs. fmlookup (utxos s) (fst x) = None \<Longrightarrow>
   creating.pre_run outs s"
proof (induction outs arbitrary: s)
  case Nil
  show ?case by simp
next
  case (Cons x outs)
  then have "creating.pre_run outs (put_output x s)"
    by (cases x) (auto simp: put_output_def image_iff)
  then show ?case using Cons.prems by simp
qed

text \<open>
  What keeps a transaction's steps apart: it spends nothing twice and nothing already spent, and
  its outpoints are new.
\<close>

definition tx_fresh :: "'acc ext \<Rightarrow> Transaction \<Rightarrow> 'acc State \<Rightarrow> bool" where
  "tx_fresh X tx s \<longleftrightarrow>
     distinct (map fst (inputs tx)) \<and> (\<forall>op \<in> spends tx. fmlookup (stxos s) op = None) \<and>
     distinct (map fst (tx_outputs X tx)) \<and>
     (\<forall>op \<in> fst ` set (tx_outputs X tx). fmlookup (utxos s) op = None)"

lemma undo_tx_utxos:
  assumes c: "connect_tx_utxos X tx s = Inr s'" and f: "tx_fresh X tx s"
  shows "\<exists>s1. try_fold (\<lambda>x. delete_utxo (fst x)) (rev (tx_outputs X tx)) s' = Inr s1 \<and>
    try_fold (\<lambda>x. unspend_utxo (fst x)) (rev (inputs tx)) s1 = Inr s"
proof -
  let ?ins = "enumerate_u32 (inputs tx)"
  from c obtain s1 where s1: "try_fold (spend_input (txid X tx)) ?ins s = Inr s1"
      and s': "s' = fold put_output (tx_outputs X tx) s1"
    by (auto simp: connect_tx_utxos_def and_then_eq_Inr)
  have "try_fold (\<lambda>x s. Inr (put_output x s)) (tx_outputs X tx) s1 = (Inr s' :: 'a State res)"
    unfolding s' by (rule try_fold_total) simp
  moreover have "creating.pre_run (tx_outputs X tx) s1"
    by (rule creating_pre_run) (use f spend_inputs_utxos [OF s1] in \<open>auto simp: tx_fresh_def\<close>)
  ultimately have del: "try_fold (\<lambda>x. delete_utxo (fst x)) (rev (tx_outputs X tx)) s' = Inr s1"
    by (intro creating.undo_run)
  have "spending.pre_run (txid X tx) ?ins s"
  proof (rule spending_pre_run)
    show "distinct (map (\<lambda>x. fst (snd x)) ?ins)" using f by (simp add: map_ops_enumerate tx_fresh_def)
    show "\<forall>x \<in> set ?ins. fmlookup (stxos s) (fst (snd x)) = None"
      using f set_ops_enumerate [of tx] by (auto simp: tx_fresh_def)
  qed
  with s1 have "try_fold (\<lambda>x. unspend_utxo (fst (snd x))) (rev ?ins) s1 = Inr s"
    by (intro spending.undo_run)
  moreover have "try_fold (\<lambda>x. unspend_utxo (fst (snd x))) xs t = try_fold (\<lambda>x. unspend_utxo (fst x)) (map snd xs) t"
    for xs :: "(u32 \<times> OutPoint \<times> hash256) list" and t :: "'a State"
    by (induction xs arbitrary: t) (auto intro: and_then_cong)
  moreover have "map snd (rev ?ins) = rev (inputs tx)" by (simp flip: rev_map)
  ultimately show ?thesis using del by metis
qed

section \<open>Swap tables\<close>

text \<open>The recipient's list does not hold the swap yet, and is not an empty one.\<close>

definition recipient_fresh :: "Swap \<Rightarrow> (Address, SwapId list) db \<Rightarrow> bool" where
  "recipient_fresh sw m \<longleftrightarrow>
     (\<forall>r ids. l2_recipient sw = Some r \<longrightarrow> fmlookup m r = Some ids \<longrightarrow> ids \<noteq> [] \<and> sw_id sw \<notin> set ids)"

lemma recipient_del_put: "recipient_fresh sw m \<Longrightarrow> recipient_del sw (recipient_put sw m) = m"
proof (cases "l2_recipient sw")
  case None
  then show ?thesis by (simp add: recipient_del_def recipient_put_def)
next
  case (Some r)
  assume fresh: "recipient_fresh sw m"
  show ?thesis
  proof (cases "fmlookup m r")
    case None
    then show ?thesis using Some
      by (simp add: recipient_del_def recipient_put_def db_drop_put_fresh)
  next
    case ids: (Some ids)
    then have i: "ids \<noteq> []" "sw_id sw \<notin> set ids" using fresh Some by (auto simp: recipient_fresh_def)
    then have "filter (\<lambda>i. i \<noteq> sw_id sw) ids = ids" by (metis (mono_tags, lifting) filter_True)
    then show ?thesis using Some ids i
      by (simp add: recipient_del_def recipient_put_def db_put_same)
  qed
qed

text \<open>
  When the reversal of a transaction's swap step is exact. A creation needs its swap, its index
  entries, its reservation and its locks to be new. An acceptance needs a swap without
  reservation. A claim needs a swap that was \<open>ReadyToClaim\<close> and only inputs locked to it.
\<close>

definition swap_revertible :: "'acc ext \<Rightarrow> FilledTransaction \<Rightarrow> 'acc State \<Rightarrow> bool" where
  "swap_revertible X ft s = (case data (transaction ft) of
     Regular \<Rightarrow> True
   | SwapAccept i _ \<Rightarrow> fmlookup (swap_reservations s) i = None
   | SwapCreate i chain l1tx req r a l1 b \<Rightarrow>
       fmlookup (swaps s) i = None \<and> fmlookup (swap_reservations s) i = None \<and>
       fmlookup (swaps_by_l1_txid s) (chain, from_bytes l1tx) = None \<and>
       (\<forall>op \<in> fst ` set (tx_outputs X (transaction ft)). is_output_locked_to_swap op s = None) \<and>
       (\<forall>a ids. r = Some a \<longrightarrow> fmlookup (swaps_by_recipient s) a = Some ids \<longrightarrow> ids \<noteq> [] \<and> i \<notin> set ids)
   | SwapClaim i _ _ \<Rightarrow>
       (\<exists>sw. get_swap i s = Some sw \<and> sw_id sw = i \<and> sw_state sw = ReadyToClaim \<and>
          fmlookup (swaps_by_l1_txid s) (parent_chain sw, l1_txid sw) = Some i \<and>
          recipient_put sw (swaps_by_recipient s) = swaps_by_recipient s) \<and>
       (\<forall>op \<in> spends (transaction ft). is_output_locked_to_swap op s = Some i))"

abbreviation unlock_own :: "SwapId \<Rightarrow> OutPoint list \<Rightarrow> 'acc State \<Rightarrow> 'acc State" where
  "unlock_own i \<equiv> fold (\<lambda>op s. if is_output_locked_to_swap op s = Some i
     then unlock_output_from_swap op s else s)"

abbreviation lock_free :: "SwapId \<Rightarrow> OutPoint list \<Rightarrow> 'acc State \<Rightarrow> 'acc State" where
  "lock_free i \<equiv> fold (\<lambda>op s. if is_output_locked_to_swap op s = None
     then lock_output_to_swap op i s else s)"

lemma unlock_own_frame: "\<exists>L. unlock_own i ops s = s\<lparr>locked_swap_outputs := L\<rparr>"
  by (rule exI, rule lock_fold_frame)

lemma lock_free_frame: "\<exists>L. lock_free i ops s = s\<lparr>locked_swap_outputs := L\<rparr>"
  by (rule exI, rule lock_fold_frame)

lemma locks_eqI:
  assumes "\<And>op. is_output_locked_to_swap op s = is_output_locked_to_swap op t"
  shows "locked_swap_outputs s = locked_swap_outputs t"
  by (rule fmap_ext) (use assms in \<open>simp add: is_output_locked_to_swap_def\<close>)

lemma escrow_is_pending: "is_escrow_of i out \<Longrightarrow> is_swap_pending (content out)"
  by (cases "content out") (simp_all add: is_escrow_of_def)

lemma recipient_put_state [simp]: "recipient_put (sw\<lparr>sw_state := st\<rparr>) m = recipient_put sw m"
  by (auto simp: recipient_put_def split: option.splits)

lemma undo_create:
  assumes X: "codec_ok X" and c: "connect_swap_data X h ft s = Inr s'"
    and d: "data (transaction ft) = SwapCreate i chain l1tx req r a l1 b"
    and rev: "swap_revertible X ft s"
  shows "disconnect_swap_data X (transaction ft) s' = Inr s"
proof -
  let ?tx = "transaction ft"
  define sw where "sw = created_swap i chain l1tx req r a l1 b h
    (Some (h + default_swap_expiration_blocks chain)) ft"
  have sw: "sw_id sw = i" "parent_chain sw = chain" "l1_txid sw = from_bytes l1tx" "l2_recipient sw = r"
    by (simp_all add: sw_def)
  define t where "t = fold (\<lambda>op. lock_output_to_swap op i) (escrow_outpoints X i ?tx) s"
  obtain L where t: "t = s\<lparr>locked_swap_outputs := L\<rparr>"
    unfolding t_def using lock_fold_frame(3) by blast
  from c have "save_swap X sw t = Inr s'"
    by (simp add: connect_swap_data_def d Let_def sw_def t_def)
  then have s': "s' = s\<lparr>locked_swap_outputs := L, swaps := fmupd i (Decodes sw) (swaps s),
      swaps_by_l1_txid := fmupd (chain, from_bytes l1tx) i (swaps_by_l1_txid s),
      swaps_by_recipient := recipient_put sw (swaps_by_recipient s)\<rparr>"
    by (simp add: save_swap_ok [OF X] sw t)
  define ops where "ops = map fst (filter (\<lambda>(_, out). is_swap_pending (content out)) (tx_outputs X ?tx))"
  define u where "u = unlock_own i (rev ops) s'"
  obtain L' where u: "u = s'\<lparr>locked_swap_outputs := L'\<rparr>"
    unfolding u_def using unlock_own_frame by blast
  have free: "is_output_locked_to_swap op s = None" if "op \<in> fst ` set (tx_outputs X ?tx)" for op
    using rev that by (auto simp: swap_revertible_def d)
  have sub: "set (escrow_outpoints X i ?tx) \<subseteq> set ops" "set ops \<subseteq> fst ` set (tx_outputs X ?tx)"
    using escrow_is_pending by (fastforce simp: escrow_outpoints_def ops_def)+
  have "is_output_locked_to_swap op s' = is_output_locked_to_swap op t" for op
    by (simp add: s' t is_output_locked_to_swap_def)
  then have ls: "is_output_locked_to_swap op u =
      (if op \<in> set ops \<and> is_output_locked_to_swap op t = Some i then None
       else is_output_locked_to_swap op t)" for op
    by (simp add: u_def locks.locked_unlock_own)
  have lt: "is_output_locked_to_swap op t =
      (if op \<in> set (escrow_outpoints X i ?tx) then Some i else is_output_locked_to_swap op s)" for op
    by (simp add: t_def locks.locked_lock_all)
  have "is_output_locked_to_swap op u = is_output_locked_to_swap op s" for op
  proof (cases "op \<in> set ops")
    case True
    with sub have "is_output_locked_to_swap op s = None" by (intro free) blast
    with True show ?thesis by (simp add: ls lt)
  next
    case False
    with sub have "op \<notin> set (escrow_outpoints X i ?tx)" by blast
    with False show ?thesis by (simp add: ls lt)
  qed
  then have "locked_swap_outputs u = locked_swap_outputs s" by (rule locks_eqI)
  then have u': "u = s\<lparr>swaps := fmupd i (Decodes sw) (swaps s),
      swaps_by_l1_txid := fmupd (chain, from_bytes l1tx) i (swaps_by_l1_txid s),
      swaps_by_recipient := recipient_put sw (swaps_by_recipient s)\<rparr>"
    by (intro State.equality) (simp_all add: u s')
  have "get_swap i (clear_swap_reservation i u) = Some sw" by (simp add: get_swap_eq u')
  note del = delete_swap_eq [OF this]
  have "recipient_fresh sw (swaps_by_recipient s)"
    using rev by (simp add: recipient_fresh_def swap_revertible_def d sw)
  then have "delete_swap_unchecked i (clear_swap_reservation i u) = s"
    unfolding del
    by (intro State.equality)
      (use rev in \<open>simp_all add: u' clear_swap_reservation_def sw swap_revertible_def d
        db_drop_put_fresh db_drop_none recipient_del_put\<close>)
  then show ?thesis
    by (simp add: disconnect_swap_data_def d Let_def ops_def [symmetric] u_def [symmetric])
qed

lemma undo_claim:
  assumes X: "codec_ok X" and c: "connect_swap_data X h ft s = Inr s'"
    and d: "data (transaction ft) = SwapClaim i declared pd"
    and rev: "swap_revertible X ft s"
  shows "disconnect_swap_data X (transaction ft) s' = Inr s"
proof -
  let ?ops = "map fst (inputs (transaction ft))"
  from rev obtain sw where sw: "get_swap i s = Some sw" "sw_id sw = i" "sw_state sw = ReadyToClaim"
      and idx: "fmlookup (swaps_by_l1_txid s) (parent_chain sw, l1_txid sw) = Some i"
        "recipient_put sw (swaps_by_recipient s) = swaps_by_recipient s"
      and locked: "\<forall>op \<in> set ?ops. is_output_locked_to_swap op s = Some i"
    by (auto simp: swap_revertible_def d spends_def)
  define t where "t = unlock_own i ?ops s"
  obtain L where t: "t = s\<lparr>locked_swap_outputs := L\<rparr>"
    unfolding t_def using unlock_own_frame by blast
  from c have "save_swap X (mark_completed sw) t = Inr s'"
    by (auto simp: connect_swap_data_def d Let_def connect_swap_claim_def sw t_def split: if_splits)
  then have s': "s' = s\<lparr>locked_swap_outputs := L, swaps := fmupd i (Decodes (mark_completed sw)) (swaps s)\<rparr>"
    using idx by (intro State.equality)
      (auto simp: save_swap_ok [OF X] t mark_completed_def sw db_put_same)
  define u where "u = lock_free i (rev ?ops) s'"
  obtain L' where u: "u = s'\<lparr>locked_swap_outputs := L'\<rparr>"
    unfolding u_def using lock_free_frame by blast
  have "is_output_locked_to_swap op s' = is_output_locked_to_swap op t" for op
    by (simp add: s' t is_output_locked_to_swap_def)
  then have "is_output_locked_to_swap op u = is_output_locked_to_swap op s" for op
    using locked by (cases "op \<in> set ?ops")
      (auto simp: u_def locks.locked_lock_free t_def locks.locked_unlock_own)
  then have "locked_swap_outputs u = locked_swap_outputs s" by (rule locks_eqI)
  then have u': "u = s\<lparr>swaps := fmupd i (Decodes (mark_completed sw)) (swaps s)\<rparr>"
    by (intro State.equality) (simp_all add: u s')
  have "sw\<lparr>sw_state := Completed, sw_state := ReadyToClaim\<rparr> = sw"
    using sw(3) by (intro Swap.equality) simp_all
  then have "save_swap X ((mark_completed sw)\<lparr>sw_state := ReadyToClaim\<rparr>) u = Inr s"
    using idx sw by (simp add: save_swap_ok [OF X] u' mark_completed_def)
      (intro State.equality, auto simp: db_put_same get_swap_eq)
  moreover have "get_swap i s' = Some (mark_completed sw)" by (simp add: s' get_swap_eq)
  ultimately show ?thesis
    by (simp add: disconnect_swap_data_def d disconnect_swap_claim_def Let_def u_def [symmetric]
        mark_completed_def)
qed

lemma undo_swap_data:
  assumes "codec_ok X" "connect_swap_data X h ft s = Inr s'" "swap_revertible X ft s"
  shows "disconnect_swap_data X (transaction ft) s' = Inr s"
proof (cases "data (transaction ft)")
  case Regular
  then show ?thesis using assms by (simp add: connect_swap_data_def disconnect_swap_data_def)
next
  case (SwapAccept i who)
  then have "s' = reserve_swap i who h s" "fmlookup (swap_reservations s) i = None"
    using assms by (auto simp: connect_swap_data_def swap_revertible_def)
  then have "clear_swap_reservation i s' = s"
    by (simp add: reserve_swap_def clear_swap_reservation_def db_drop_put_fresh)
  then show ?thesis using SwapAccept by (simp add: disconnect_swap_data_def)
next
  case (SwapCreate i chain l1tx req r a l1 b)
  then show ?thesis using assms by (intro undo_create)
next
  case (SwapClaim i declared pd)
  then show ?thesis using assms by (intro undo_claim)
qed

section \<open>Transactions and blocks\<close>

definition tx_revertible :: "'acc ext \<Rightarrow> FilledTransaction \<Rightarrow> 'acc State \<Rightarrow> bool" where
  "tx_revertible X ft s \<longleftrightarrow> codec_ok X \<and> tx_fresh X (transaction ft) s \<and> swap_revertible X ft s"

text \<open>The state part of \<open>disconnect_tx\<close>.\<close>

definition undo_tx :: "'acc ext \<Rightarrow> FilledTransaction \<Rightarrow> 'acc State \<Rightarrow> 'acc State res" where
  "undo_tx X ft s =
     and_then (disconnect_tx X (transaction ft) (diff_default, s)) (\<lambda>(_, s'). Inr s')"

text \<open>
  The changes of the accumulator that a block makes, in their order: \<open>(True, h)\<close> inserts \<open>h\<close> and
  \<open>(False, h)\<close> removes it. The reversal takes them backwards, each replaced by its opposite.
\<close>

definition body_ops :: "'acc ext \<Rightarrow> MerkleRoot \<Rightarrow> Body \<Rightarrow> (bool \<times> hash256) list" where
  "body_ops X mr b = map (Pair True) (output_hashes X (coinbase_outputs mr (coinbase b))) @
     concat (map (tx_diff X) (transactions b))"

definition opposite_ops :: "(bool \<times> hash256) list \<Rightarrow> (bool \<times> hash256) list" where
  "opposite_ops ops = map (\<lambda>(ins, h). (\<not> ins, h)) (rev ops)"

lemma body_diff_ops: "body_diff X mr b = fold diff_step (body_ops X mr b) diff_default"
  by (simp add: body_diff_def body_ops_def)

lemma opposite_ops_append: "opposite_ops (xs @ ys) = opposite_ops ys @ opposite_ops xs"
  by (simp add: opposite_ops_def)

lemma opposite_inserts:
  "fold diff_step (opposite_ops (map (Pair True) (output_hashes X outs))) d =
     fold diff_remove (output_hashes X (rev outs)) d"
  by (induction outs arbitrary: d rule: rev_induct)
    (simp_all add: opposite_ops_def output_hashes_def diff_step_def case_prod_unfold)

lemma opposite_tx_diff:
  "fold diff_step (opposite_ops (tx_diff X tx)) d =
     fold diff_insert (map snd (rev (inputs tx))) (fold diff_remove (output_hashes X (rev (tx_outputs X tx))) d)"
proof -
  have "fold diff_step (opposite_ops (map (\<lambda>(_, h). (False, h)) ins)) d = fold diff_insert (map snd (rev ins)) d"
    for ins :: "(OutPoint \<times> hash256) list" and d
    by (induction ins arbitrary: d rule: rev_induct)
      (simp_all add: opposite_ops_def diff_step_def case_prod_unfold)
  then show ?thesis by (simp add: tx_diff_def opposite_ops_append opposite_inserts)
qed

lemma disconnect_tx_split:
  "disconnect_tx X (transaction ft) (d, s) =
     and_then (undo_tx X ft s) (\<lambda>s'. Inr (fold diff_step (opposite_ops (tx_diff X (transaction ft))) d, s'))"
  by (simp add: undo_tx_def disconnect_tx_def delete_outputs_split unspend_inputs_split and_then_assoc
      opposite_tx_diff)

lemma swap_revertible_with_utxos:
  "swap_revertible X ft (with_utxos u v s) = swap_revertible X ft s"
  by (simp add: swap_revertible_def is_output_locked_to_swap_def with_utxos_def get_swap_def
      split: TxData.splits)

lemma undo_tx_step:
  assumes "tx_revertible X ft s" "connect_tx X h ft s = Inr s'"
  shows "undo_tx X ft s' = Inr s"
proof -
  let ?tx = "transaction ft"
  from assms obtain t where t: "connect_tx_utxos X ?tx s = Inr t" "connect_swap_data X h ft t = Inr s'"
    by (auto simp: connect_tx_def and_then_eq_Inr)
  from t(1) have "t = with_utxos (utxos t) (stxos t) s" by (rule connect_tx_utxos_frame)
  then have "swap_revertible X ft t"
    using assms(1) swap_revertible_with_utxos by (metis tx_revertible_def)
  with t assms have "disconnect_swap_data X ?tx s' = Inr t"
    by (intro undo_swap_data) (auto simp: tx_revertible_def)
  moreover obtain s1 where
      "try_fold (\<lambda>x. delete_utxo (fst x)) (rev (tx_outputs X ?tx)) t = Inr s1"
      "try_fold (\<lambda>x. unspend_utxo (fst x)) (rev (inputs ?tx)) s1 = Inr s"
    using undo_tx_utxos [OF t(1)] assms(1) by (auto simp: tx_revertible_def)
  ultimately show ?thesis
    by (simp add: undo_tx_def disconnect_tx_def delete_outputs_split unspend_inputs_split)
qed

interpretation blk: undoable "connect_tx X h" "undo_tx X" "tx_revertible X" for X h
  by unfold_locales (rule undo_tx_step)

text \<open>
  The steps do not read the tip, the height or the accumulator, which connection sets last: they
  commute with setting them.
\<close>

definition with_meta ::
  "BlockHash option \<Rightarrow> u32 option \<Rightarrow> 'acc option \<Rightarrow> 'acc State \<Rightarrow> 'acc State" where
  "with_meta t h a s = s\<lparr>tip := t, height := h, utreexo_accumulator := a\<rparr>"

lemma with_meta_fields [simp]:
  "utxos (with_meta t h a s) = utxos s" "stxos (with_meta t h a s) = stxos s"
  "get_swap i (with_meta t h a s) = get_swap i s"
  "is_output_locked_to_swap op (with_meta t h a s) = is_output_locked_to_swap op s"
  by (simp_all add: with_meta_def get_swap_def is_output_locked_to_swap_def)

lemma fold_commute:
  "(\<And>x s. f x (g s) = g (f x s)) \<Longrightarrow> fold f xs (g s) = g (fold f xs s)"
  by (induction xs arbitrary: s) simp_all

lemma try_fold_commute:
  assumes "\<And>x s. f x (g s) = and_then (f x s) (\<lambda>s'. Inr (g s'))"
  shows "try_fold f xs (g s) = and_then (try_fold f xs s) (\<lambda>s'. Inr (g s'))"
  by (induction xs arbitrary: s) (simp_all add: assms and_then_assoc)

lemma lock_with_meta:
  "unlock_output_from_swap op (with_meta t h a s) = with_meta t h a (unlock_output_from_swap op s)"
  "lock_output_to_swap op i (with_meta t h a s) = with_meta t h a (lock_output_to_swap op i s)"
  by (simp_all add: with_meta_def lock_defs)

lemma locks_with_meta:
  "unlock_own i ops (with_meta t h a s) = with_meta t h a (unlock_own i ops s)"
  "lock_free i ops (with_meta t h a s) = with_meta t h a (lock_free i ops s)"
  by (rule fold_commute, simp add: lock_with_meta)+

lemma save_swap_with_meta:
  "save_swap X sw (with_meta t h a s) = and_then (save_swap X sw s) (\<lambda>s'. Inr (with_meta t h a s'))"
  by (auto simp: save_swap_def Let_def index_recipient_def index_l1_txid_def with_meta_def
      split: stored.splits option.splits)

lemma delete_swap_with_meta:
  "delete_swap_unchecked i (with_meta t h a s) = with_meta t h a (delete_swap_unchecked i s)"
proof (cases "get_swap i s")
  case None
  then show ?thesis
    by (simp add: delete_swap_unchecked_def unlock_all_outputs_eq) (simp add: with_meta_def)
next
  case (Some sw)
  moreover from Some have "get_swap i (with_meta t h a s) = Some sw" by simp
  ultimately show ?thesis
    by (simp only: delete_swap_eq) (simp add: with_meta_def)
qed

lemma disconnect_swap_data_with_meta:
  "disconnect_swap_data X tx (with_meta t h a s) =
     and_then (disconnect_swap_data X tx s) (\<lambda>s'. Inr (with_meta t h a s'))"
proof -
  have "clear_swap_reservation i (with_meta t h a u) = with_meta t h a (clear_swap_reservation i u)"
    for i and u :: "'a State"
    by (simp add: clear_swap_reservation_def with_meta_def)
  moreover have "disconnect_swap_claim X i tx (with_meta t h a s) =
      and_then (disconnect_swap_claim X i tx s) (\<lambda>s'. Inr (with_meta t h a s'))" for i
    by (cases "get_swap i s")
      (simp_all add: disconnect_swap_claim_def Let_def locks_with_meta save_swap_with_meta)
  ultimately show ?thesis
    by (simp add: disconnect_swap_data_def Let_def locks_with_meta delete_swap_with_meta
        split: TxData.splits)
qed

lemma utxo_steps_with_meta:
  "delete_utxo op (with_meta t h a s) = and_then (delete_utxo op s) (\<lambda>s'. Inr (with_meta t h a s'))"
  "unspend_utxo op (with_meta t h a s) = and_then (unspend_utxo op s) (\<lambda>s'. Inr (with_meta t h a s'))"
  by (auto simp: delete_utxo_def unspend_utxo_def split: option.splits) (simp_all add: with_meta_def)

lemma undo_tx_with_meta:
  "undo_tx X ft (with_meta t h a s) = and_then (undo_tx X ft s) (\<lambda>s'. Inr (with_meta t h a s'))"
proof -
  note del = try_fold_commute [of "\<lambda>x :: OutPoint \<times> Output. delete_utxo (fst x)" "with_meta t h a", OF utxo_steps_with_meta(1)]
  note uns = try_fold_commute [of "\<lambda>x :: OutPoint \<times> hash256. unspend_utxo (fst x)" "with_meta t h a", OF utxo_steps_with_meta(2)]
  show ?thesis
    by (simp add: undo_tx_def disconnect_tx_def disconnect_swap_data_with_meta delete_outputs_split
        unspend_inputs_split and_then_assoc del uns)
qed

text \<open>Every transaction can be reverted in the state it is connected to.\<close>

fun revertible_run :: "'acc ext \<Rightarrow> u32 \<Rightarrow> FilledTransaction list \<Rightarrow> 'acc State \<Rightarrow> bool" where
  "revertible_run X h [] s = True"
| "revertible_run X h (ft # fts) s =
     (tx_revertible X ft s \<and>
      (case connect_tx X h ft s of Inr s' \<Rightarrow> revertible_run X h fts s' | Inl _ \<Rightarrow> True))"

lemma revertible_pre_run: "revertible_run X h fts s \<Longrightarrow> blk.pre_run X h fts s"
  by (induction fts arbitrary: s) (auto split: sum.splits)

lemma disconnect_txs:
  "try_fold (disconnect_tx X) (map transaction fts) (d, s) =
     and_then (try_fold (undo_tx X) fts s) (\<lambda>s'.
     Inr (fold diff_step (concat (map (\<lambda>ft. opposite_ops (tx_diff X (transaction ft))) fts)) d, s'))"
  by (induction fts arbitrary: d s) (simp_all add: disconnect_tx_split and_then_assoc)

lemma opposite_concat:
  "opposite_ops (concat (map (tx_diff X) txs)) =
     concat (map (\<lambda>tx. opposite_ops (tx_diff X tx)) (rev txs))"
  by (induction txs) (simp_all add: opposite_ops_append, simp add: opposite_ops_def)

definition coinbase_fresh :: "MerkleRoot \<Rightarrow> Body \<Rightarrow> 'acc State \<Rightarrow> bool" where
  "coinbase_fresh mr b s \<longleftrightarrow>
     distinct (map fst (coinbase_outputs mr (coinbase b))) \<and>
     (\<forall>op \<in> fst ` set (coinbase_outputs mr (coinbase b)). fmlookup (utxos s) op = None)"

text \<open>Tip and height are set together, and the height can be increased.\<close>

definition tip_ok :: "'acc State \<Rightarrow> bool" where
  "tip_ok s \<longleftrightarrow> (tip s = None \<longleftrightarrow> height s = None) \<and> height s \<noteq> Some (- 1)"

lemma rewind_tip_back:
  assumes "tip_ok s" "prev_side_hash hdr = tip s"
  shows "rewind_tip hdr (with_meta (Some bh) (Some (validating_height s)) a s) =
    Inr (with_meta (tip s) (height s) a s)"
proof (cases "height s")
  case None
  then show ?thesis using assms
    by (simp add: rewind_tip_def with_meta_def validating_height_def try_get_height_def tip_ok_def)
next
  case (Some n)
  then obtain p where p: "tip s = Some p" using assms(1) by (auto simp: tip_ok_def)
  have "n + 1 \<noteq> 0"
  proof
    assume "n + 1 = 0"
    then have "n = - 1" by (simp add: add_eq_0_iff2)
    with Some assms(1) show False by (simp add: tip_ok_def)
  qed
  with Some p assms show ?thesis
    by (simp add: rewind_tip_def with_meta_def validating_height_def try_get_height_def set_tip_def)
qed

lemma disconnect_connect:
  assumes c: "connect_prevalidated X hdr b pre s = Inr (mr, s')"
    and txs: "map transaction (filled_transactions pre) = transactions b"
    and h: "next_height pre = validating_height s" and t: "tip_ok s"
    and cb: "coinbase_fresh (computed_merkle_root pre) b s"
    and r: "revertible_run X (next_height pre) (filled_transactions pre)
      (connect_coinbase (computed_merkle_root pre) b s)"
  shows "disconnect_tip X hdr b s' =
    and_then (utreexo_res (apply_diff X
        (fold diff_step (opposite_ops (body_ops X (computed_merkle_root pre) b)) diff_default)
        (get_accumulator X s'))) (\<lambda>a.
    Inr (s\<lparr>utreexo_accumulator := Some a\<rparr>))"
proof -
  define d1 where "d1 = fold diff_step (opposite_ops (concat (map (tx_diff X) (transactions b)))) diff_default"
  define d2 where "d2 = fold diff_step (opposite_ops (body_ops X (computed_merkle_root pre) b)) diff_default"
  let ?fts = "filled_transactions pre" and ?cb = "coinbase_outputs (merkle_root hdr) (coinbase b)"
  let ?s0 = "connect_coinbase (computed_merkle_root pre) b s"
  from c obtain s1 a where
      ph: "prev_side_hash hdr = tip s" and mr: "computed_merkle_root pre = merkle_root hdr"
      and s1: "try_fold (connect_tx X (next_height pre)) ?fts ?s0 = Inr s1"
      and s': "s' = with_meta (Some (header_hash X hdr)) (Some (validating_height s)) (Some a) s1"
    by (auto simp: connect_prevalidated_def and_then_eq_Inr check_prev_side_hash_def ensure_eq_Inr
        try_get_tip_def Let_def apply_accumulator_diff_def set_tip_def with_meta_def h split: if_splits)
  let ?m = "with_meta (Some (header_hash X hdr)) (Some (validating_height s)) (Some a)"
  have "try_fold (undo_tx X) (rev ?fts) s1 = Inr ?s0"
    using blk.undo_run [OF revertible_pre_run [OF r] s1] .
  then have "try_fold (undo_tx X) (rev ?fts) s' = Inr (?m ?s0)"
    using try_fold_commute [of "undo_tx X" ?m, OF undo_tx_with_meta] by (simp add: s')
  moreover have "rev (transactions b) = map transaction (rev ?fts)" using txs by (metis rev_map)
  ultimately have d1: "try_fold (disconnect_tx X) (rev (transactions b)) (diff_default, s') = Inr (d1, ?m ?s0)"
    by (simp add: disconnect_txs d1_def opposite_concat comp_def)
  have "try_fold (\<lambda>x s. Inr (put_output x s)) ?cb s = (Inr ?s0 :: 'a State res)"
    unfolding connect_coinbase_def mr by (rule try_fold_total) simp
  moreover have "creating.pre_run ?cb s"
    by (rule creating_pre_run) (use cb mr in \<open>auto simp: coinbase_fresh_def\<close>)
  ultimately have "try_fold (\<lambda>x. delete_utxo (fst x)) (rev ?cb) ?s0 = Inr s"
    by (intro creating.undo_run)
  then have "try_fold (\<lambda>x. delete_utxo (fst x)) (rev ?cb) (?m ?s0) = Inr (?m s)"
    using try_fold_commute [of "\<lambda>x :: OutPoint \<times> Output. delete_utxo (fst x)" ?m, OF utxo_steps_with_meta(1)] by simp
  moreover have "d2 = fold diff_remove (output_hashes X (rev ?cb)) d1"
    by (simp add: d2_def d1_def body_ops_def opposite_ops_append opposite_inserts mr)
  ultimately have "try_fold (delete_output X) (rev ?cb) (d1, ?m ?s0) = Inr (d2, ?m s)"
    by (simp add: delete_outputs_split)
  moreover have "tip s' = Some (header_hash X hdr)" by (simp add: s' with_meta_def)
  ultimately have "disconnect_tip X hdr b s' =
      apply_accumulator_diff X d2 (get_accumulator X s') (with_meta (tip s) (height s) (Some a) s)"
    using d1 rewind_tip_back [OF t ph] by (simp add: disconnect_tip_def Let_def)
  then show ?thesis
    by (simp add: apply_accumulator_diff_def with_meta_def d2_def)
qed

end
