(* ===== verification/Peg_Data.thy ===== *)
theory Peg_Data
  imports Block_Undo
begin

text \<open>
  Two-way peg data (\<^verbatim>\<open>lib/state/two_way_peg_data.rs\<close>): deposits and withdrawal bundle events of
  the mainchain, the collection of a new bundle, and the observation of swaps on their parent
  chains. Sums that only feed a log message are left out.
\<close>

section \<open>Events\<close>

record Deposit =
  dep_tx_index :: u64
  dep_outpoint :: BitcoinOutPoint
  dep_output :: Output

datatype BlockEvent = EvDeposit Deposit | EvBundle M6id WithdrawalBundleStatus

text \<open>The events of each mainchain block, oldest first.\<close>

type_synonym TwoWayPegData = "(hash256 \<times> BlockEvent list) list"

definition withdrawal_bundle_failure_gap :: u32 where
  "withdrawal_bundle_failure_gap = 4"

section \<open>Collecting a bundle\<close>

definition aggregate_output ::
  "OutPoint \<times> Output \<Rightarrow> (MainAddress, AggregatedWithdrawal) fmap \<Rightarrow>
   (MainAddress, AggregatedWithdrawal) fmap res" where
  "aggregate_output = (\<lambda>(op, out) m.
     case content out of
       Content.Withdrawal v main_fee addr \<Rightarrow>
         let a = (case fmlookup m addr of
                    Some a \<Rightarrow> a
                  | None \<Rightarrow> \<lparr>agg_spend_utxos = fmempty, agg_main_address = addr,
                             agg_value = 0, agg_main_fee = 0\<rparr>) in
         and_then (ok_or (Fail AmountOverflow) (checked_add (agg_value a) v)) (\<lambda>v'.
         and_then (ok_or (Fail AmountOverflow) (checked_add (agg_main_fee a) main_fee)) (\<lambda>f'.
         Inr (fmupd addr (a\<lparr>agg_value := v', agg_main_fee := f',
                            agg_spend_utxos := fmupd op out (agg_spend_utxos a)\<rparr>) m)))
     | _ \<Rightarrow> Inr m)"

record BundleAcc =
  ba_fee :: amount
  ba_spend :: "(OutPoint, Output) fmap"
  ba_outputs :: "TxOut list"
  ba_size :: u32

text \<open>
  The loop over the aggregated withdrawals: a script that is too long is skipped, and the loop
  ends at the first output that would make the bundle too heavy. The sum of the fees is an
  \<open>Amount\<close> addition, which panics on overflow.
\<close>

fun bundle_loop :: "'acc ext \<Rightarrow> AggregatedWithdrawal list \<Rightarrow> BundleAcc \<Rightarrow> BundleAcc res" where
  "bundle_loop X [] acc = Inr acc"
| "bundle_loop X (a # as) acc =
     (let spk = script_pubkey X (agg_main_address a); n = length (ba_outputs acc) + 1 in
      if n \<ge> 2 ^ 32 then Inr acc
      else if length spk \<ge> 2 ^ 32 then bundle_loop X as acc
      else case txout_size (word_of_nat (length spk)) of
             None \<Rightarrow> bundle_loop X as acc
           | Some sz \<Rightarrow>
               (case checked_add (ba_size acc) sz of
                  None \<Rightarrow> Inr acc
                | Some size' \<Rightarrow>
                    if predict_weight (word_of_nat n) size' = None then Inr acc
                    else case checked_add (ba_fee acc) (agg_main_fee a) of
                           None \<Rightarrow> Inl (Panic ''Amount addition error'')
                         | Some fee' \<Rightarrow>
                             bundle_loop X as
                               \<lparr>ba_fee = fee', ba_spend = ba_spend acc ++\<^sub>f agg_spend_utxos a,
                                ba_outputs = ba_outputs acc @ [(agg_value a, spk)],
                                ba_size = size'\<rparr>))"

text \<open>The aggregated withdrawals have pairwise distinct addresses, so the descending order is the
  reverse of the ascending one.\<close>

definition collect_withdrawal_bundle ::
  "'acc ext \<Rightarrow> 'acc State \<Rightarrow> u32 \<Rightarrow> WithdrawalBundle option res" where
  "collect_withdrawal_bundle X s block_height =
     and_then (try_fold aggregate_output (db_iter (utxos s)) fmempty) (\<lambda>m.
     if m = fmempty then Inr None
     else
       and_then (bundle_loop X (rev (sort_key (agg_key X) (map snd (db_iter m))))
                  \<lparr>ba_fee = 0, ba_spend = fmempty, ba_outputs = [], ba_size = 0\<rparr>) (\<lambda>acc.
       case WithdrawalBundle_new X block_height (ba_fee acc) (ba_spend acc) (ba_outputs acc) of
         Inl e \<Rightarrow> err (WithdrawalBundleErr e)
       | Inr b \<Rightarrow> Inr (Some b)))"

section \<open>Connecting events\<close>

text \<open>What the event handlers thread through: the state, the accumulator diff, the index events,
  and the last blocks seen with a deposit and with a bundle event.\<close>

record 'acc Peg =
  peg_state :: "'acc State"
  peg_diff :: AccumulatorDiff
  peg_events :: BlockIndexEvents
  peg_deposit_block :: "hash256 option"
  peg_bundle_block :: "hash256 option"

definition btree_iter :: "(OutPoint, Output) fmap \<Rightarrow> (OutPoint \<times> Output) list" where
  "btree_iter m = map (\<lambda>k. (k, the (fmlookup m k))) (btree_keys m)"

definition bundle_spend :: "'acc ext \<Rightarrow> M6id \<Rightarrow> OutPoint \<times> Output \<Rightarrow> 'acc Peg \<Rightarrow> 'acc Peg" where
  "bundle_spend X m6id = (\<lambda>(op, out) p.
     let s = peg_state p in
     p\<lparr>peg_diff := diff_remove (pointed_hash X op out) (peg_diff p),
       peg_state := s\<lparr>utxos := fmdrop op (utxos s),
         stxos := fmupd op \<lparr>spent_output = out, inpoint = InWithdrawal m6id\<rparr> (stxos s)\<rparr>,
       peg_events := (peg_events p)
         \<lparr>bi_bundle_spends := bi_bundle_spends (peg_events p) @ [(op, m6id)]\<rparr>\<rparr>)"

definition put_bundle ::
  "M6id \<Rightarrow> WithdrawalBundleInfo \<times> WithdrawalBundleStatus RollBack \<Rightarrow> 'acc State \<Rightarrow> 'acc State" where
  "put_bundle m6id v s = s\<lparr>withdrawal_bundles := fmupd m6id v (withdrawal_bundles s)\<rparr>"

definition pending_matches :: "'acc ext \<Rightarrow> M6id \<Rightarrow> 'acc State \<Rightarrow> (WithdrawalBundle \<times> u32) option" where
  "pending_matches X m6id s =
     (case pending_withdrawal_bundle s of
        Some (b, bh) \<Rightarrow> if compute_m6id X b = m6id then Some (b, bh) else None
      | None \<Rightarrow> None)"

definition connect_withdrawal_bundle_submitted ::
  "'acc ext \<Rightarrow> u32 \<Rightarrow> M6id \<Rightarrow> 'acc Peg \<Rightarrow> 'acc Peg res" where
  "connect_withdrawal_bundle_submitted X block_height m6id p =
     (let s = peg_state p in
      case pending_matches X m6id s of
        Some (b, bh) \<Rightarrow>
          if bh \<noteq> block_height - 1 then Inl (Panic ''bundle_block_height'')
          else
            let p1 = fold (bundle_spend X m6id) (btree_iter (spend_utxos b)) p;
                s1 = put_bundle m6id (Known b, rb_new Submitted block_height) (peg_state p1)
            in Inr (p1\<lparr>peg_state := s1\<lparr>pending_withdrawal_bundle := None\<rparr>\<rparr>)
      | None \<Rightarrow>
          (case fmlookup (withdrawal_bundles s) m6id of
             Some (_, status) \<Rightarrow>
               if hs_value (rb_earliest status) \<noteq> Submitted
               then Inl (Panic ''earliest bundle status'') else Inr p
           | None \<Rightarrow>
               Inr (p\<lparr>peg_state := put_bundle m6id (Unknown, rb_new Submitted block_height) s\<rparr>)))"

definition push_status ::
  "WithdrawalBundleStatus \<Rightarrow> u32 \<Rightarrow> WithdrawalBundleStatus RollBack \<Rightarrow>
   WithdrawalBundleStatus RollBack res" where
  "push_status st h rb = (case rb_push st h rb of
     Inl _ \<Rightarrow> Inl (Panic ''Push status should be valid'') | Inr rb' \<Rightarrow> Inr rb')"

text \<open>An unknown bundle confirmed at height zero spends every output; later it is an error.\<close>

definition confirm_all_utxos :: "'acc ext \<Rightarrow> M6id \<Rightarrow> 'acc Peg \<Rightarrow> 'acc Peg" where
  "confirm_all_utxos X m6id p =
     (let s = peg_state p;
          p1 = fold (\<lambda>(op, out) p.
                 let s = peg_state p in
                 p\<lparr>peg_state := s\<lparr>stxos :=
                      fmupd op \<lparr>spent_output = out, inpoint = InWithdrawal m6id\<rparr> (stxos s)\<rparr>,
                   peg_diff := diff_remove (pointed_hash X op out) (peg_diff p)\<rparr>)
               (btree_iter (utxos s)) p
      in p1\<lparr>peg_state := (peg_state p1)\<lparr>utxos := fmempty\<rparr>\<rparr>)"

definition connect_withdrawal_bundle_confirmed ::
  "'acc ext \<Rightarrow> u32 \<Rightarrow> hash256 \<Rightarrow> M6id \<Rightarrow> 'acc Peg \<Rightarrow> 'acc Peg res" where
  "connect_withdrawal_bundle_confirmed X block_height event_block_hash m6id p =
     and_then (ok_or (Fail (UnknownWithdrawalBundle m6id))
                (fmlookup (withdrawal_bundles (peg_state p)) m6id)) (\<lambda>(info, status).
     if hs_value (rb_latest status) = Confirmed then Inr p
     else if hs_value (rb_latest status) \<noteq> Submitted then Inl (Panic ''latest bundle status'')
     else
       and_then (if is_known info then Inr (info, p)
                 else if block_height = 0
                 then Inr (UnknownConfirmed (utxos (peg_state p)), confirm_all_utxos X m6id p)
                 else err (UnknownWithdrawalBundleConfirmed event_block_hash m6id)) (\<lambda>(info', p1).
       and_then (push_status Confirmed block_height status) (\<lambda>status'.
       Inr (p1\<lparr>peg_state := put_bundle m6id (info', status') (peg_state p1)\<rparr>))))"

definition bundle_restore :: "'acc ext \<Rightarrow> OutPoint \<times> Output \<Rightarrow> 'acc Peg \<Rightarrow> 'acc Peg" where
  "bundle_restore X = (\<lambda>(op, out) p.
     let s = peg_state p in
     p\<lparr>peg_state := s\<lparr>stxos := fmdrop op (stxos s), utxos := fmupd op out (utxos s)\<rparr>,
       peg_diff := diff_insert (pointed_hash X op out) (peg_diff p)\<rparr>)"

definition push_failed :: "M6id \<Rightarrow> u32 \<Rightarrow> M6id RollBack option \<Rightarrow> M6id RollBack res" where
  "push_failed m6id h r = (case r of
     None \<Rightarrow> Inr (rb_new m6id h)
   | Some rb \<Rightarrow> (case rb_push m6id h rb of
       Inl _ \<Rightarrow> Inl (Panic ''Push latest failed m6id should be valid'') | Inr rb' \<Rightarrow> Inr rb'))"

definition connect_withdrawal_bundle_failed ::
  "'acc ext \<Rightarrow> u32 \<Rightarrow> M6id \<Rightarrow> 'acc Peg \<Rightarrow> 'acc Peg res" where
  "connect_withdrawal_bundle_failed X block_height m6id p =
     and_then (ok_or (Fail (UnknownWithdrawalBundle m6id))
                (fmlookup (withdrawal_bundles (peg_state p)) m6id)) (\<lambda>(info, status).
     if hs_value (rb_latest status) = Failed then Inr p
     else if hs_value (rb_latest status) \<noteq> Submitted then Inl (Panic ''latest bundle status'')
     else
       and_then (push_status Failed block_height status) (\<lambda>status'.
       and_then (case info of
                   Known b \<Rightarrow>
                     let p1 = fold (bundle_restore X) (btree_iter (spend_utxos b)) p in
                     and_then (push_failed m6id block_height
                                (latest_failed_withdrawal_bundle (peg_state p1))) (\<lambda>rb.
                     Inr (p1\<lparr>peg_state :=
                       (peg_state p1)\<lparr>latest_failed_withdrawal_bundle := Some rb\<rparr>\<rparr>))
                 | _ \<Rightarrow> Inr p) (\<lambda>p1.
       Inr (p1\<lparr>peg_state := put_bundle m6id (info, status') (peg_state p1)\<rparr>))))"

definition connect_withdrawal_bundle_event ::
  "'acc ext \<Rightarrow> u32 \<Rightarrow> hash256 \<Rightarrow> M6id \<Rightarrow> WithdrawalBundleStatus \<Rightarrow> 'acc Peg \<Rightarrow> 'acc Peg res" where
  "connect_withdrawal_bundle_event X h bh m6id status p =
     (case status of
        Submitted \<Rightarrow> connect_withdrawal_bundle_submitted X h m6id p
      | Confirmed \<Rightarrow> connect_withdrawal_bundle_confirmed X h bh m6id p
      | Failed \<Rightarrow> connect_withdrawal_bundle_failed X h m6id p)"

definition connect_event ::
  "'acc ext \<Rightarrow> u32 \<Rightarrow> hash256 \<times> BlockEvent \<Rightarrow> 'acc Peg \<Rightarrow> 'acc Peg res" where
  "connect_event X h = (\<lambda>(bh, ev) p.
     case ev of
       EvDeposit dep \<Rightarrow>
         let op = OpDeposit (dep_outpoint dep); out = dep_output dep; s = peg_state p in
         Inr (p\<lparr>peg_state := s\<lparr>utxos := fmupd op out (utxos s)\<rparr>,
                peg_diff := diff_insert (pointed_hash X op out) (peg_diff p),
                peg_events := (peg_events p)\<lparr>bi_deposits := bi_deposits (peg_events p) @ [(op, out)]\<rparr>,
                peg_deposit_block := Some bh\<rparr>)
     | EvBundle m6id status \<Rightarrow>
         and_then (connect_withdrawal_bundle_event X h bh m6id status p) (\<lambda>p1.
         Inr (p1\<lparr>peg_bundle_block := Some bh\<rparr>)))"

definition peg_event_list :: "TwoWayPegData \<Rightarrow> (hash256 \<times> BlockEvent) list" where
  "peg_event_list d = concat (map (\<lambda>(bh, evs). map (Pair bh) evs) d)"

section \<open>Observing swaps\<close>

record TransactionInfo =
  ti_txid :: string
  ti_confirmations :: u32
  ti_blockheight :: "u32 option"

text \<open>
  The parent chain's RPC interface: for a configured chain, the transactions that pay an amount to
  an address, with their senders; \<open>None\<close> inside is a failed call.
\<close>

type_synonym rpc = "ParentChainType \<Rightarrow> (string \<Rightarrow> u64 \<Rightarrow> (string \<times> TransactionInfo) list option) option"

definition l1_match_ok :: "Swap \<Rightarrow> string \<times> TransactionInfo \<Rightarrow> bool" where
  "l1_match_ok sw = (\<lambda>(_, ti).
     ti_confirmations ti \<noteq> 0 \<and> ti_blockheight ti \<noteq> None \<and>
     ti_confirmations ti \<le> max_l1_tx_age_blocks (parent_chain sw))"

text \<open>\<open>Inr (Some sw)\<close> is an updated swap, \<open>Inr None\<close> is no change; an error changes nothing.\<close>

definition query_and_update_swap ::
  "'acc ext \<Rightarrow> (string \<Rightarrow> u64 \<Rightarrow> (string \<times> TransactionInfo) list option) \<Rightarrow> Swap \<Rightarrow> BlockHash \<Rightarrow> u32 \<Rightarrow>
   'acc State \<Rightarrow> Swap option res" where
  "query_and_update_swap X client sw bh ht s =
     and_then (ok_or (Fail ParentChainRpc) (client (l1_recipient_address sw) (l1_amount sw))) (\<lambda>found.
     case filter (l1_match_ok sw) found of
       [] \<Rightarrow> Inr None
     | (_, ti) # _ \<Rightarrow>
         (case from_hex_rpc (hex_read X) (ti_txid ti) of
            Inl _ \<Rightarrow> err ParentChainRpc
          | Inr t \<Rightarrow>
              if is_zero_txid (l1_txid sw) then
                if (case get_swap_by_l1_txid (parent_chain sw) t s of
                      Some ex \<Rightarrow> sw_id ex \<noteq> sw_id sw | None \<Rightarrow> False) then Inr None
                else Inr (Some ((set_l1_txid_validation_block bh ht (update_l1_txid t sw))
                       \<lparr>sw_state := confirmed_state (ti_confirmations ti) (required_confirmations sw)\<rparr>))
              else
                let current = (case sw_state sw of WaitingConfirmations c _ \<Rightarrow> c | _ \<Rightarrow> 0) in
                if ti_confirmations ti > current then
                  Inr (Some (sw\<lparr>sw_state :=
                    confirmed_state (ti_confirmations ti) (required_confirmations sw)\<rparr>))
                else Inr None))"

fun is_open_state :: "SwapState \<Rightarrow> bool" where
  "is_open_state Pending = True"
| "is_open_state (WaitingConfirmations _ _) = True"
| "is_open_state _ = False"

definition swap_outputs :: "SwapId \<Rightarrow> 'acc State \<Rightarrow> OutPoint list" where
  "swap_outputs i s = map fst (filter (\<lambda>(_, j). j = i) (db_iter (locked_swap_outputs s)))"

definition expire_swap :: "'acc ext \<Rightarrow> Swap \<Rightarrow> 'acc State \<Rightarrow> (ExpiredSwapReversal \<times> 'acc State) res" where
  "expire_swap X sw s =
     (let ops = swap_outputs (sw_id sw) s; s1 = fold unlock_output_from_swap ops s in
      and_then (save_swap X (sw\<lparr>sw_state := Cancelled\<rparr>) s1) (\<lambda>s2.
      Inr ((sw_id sw, sw_state sw, ops), s2)))"

definition process_swap ::
  "'acc ext \<Rightarrow> rpc option \<Rightarrow> u32 \<Rightarrow> BlockHash \<Rightarrow> Swap \<Rightarrow>
   ExpiredSwapReversal list \<times> 'acc State \<Rightarrow> (ExpiredSwapReversal list \<times> 'acc State) res" where
  "process_swap X rpc block_height bh sw = (\<lambda>(revs, s).
     if \<not> is_open_state (sw_state sw) then Inr (revs, s)
     else if (case expires_at_height sw of Some e \<Rightarrow> block_height \<ge> e | None \<Rightarrow> False) then
       and_then (expire_swap X sw s) (\<lambda>(r, s1). Inr (revs @ [r], s1))
     else
       (case rpc of
          None \<Rightarrow> Inr (revs, s)
        | Some get_config \<Rightarrow>
            (case get_config (parent_chain sw) of
               None \<Rightarrow> Inr (revs, s)
             | Some client \<Rightarrow>
                 (case query_and_update_swap X client sw bh block_height s of
                    Inr (Some sw') \<Rightarrow> and_then (save_swap X sw' s) (\<lambda>s1. Inr (revs, s1))
                  | Inr None \<Rightarrow> Inr (revs, s)
                  | Inl _ \<Rightarrow> Inr (revs, s)))))"

definition process_coinshift_transactions ::
  "'acc ext \<Rightarrow> rpc option \<Rightarrow> u32 \<Rightarrow> BlockHash \<Rightarrow> 'acc State \<Rightarrow> 'acc State res" where
  "process_coinshift_transactions X rpc block_height bh s =
     and_then (try_fold (process_swap X rpc block_height bh) (load_all_swaps s) ([], s)) (\<lambda>(revs, s1).
     Inr (if revs = [] then s1
          else s1\<lparr>expired_swaps := fmupd block_height revs (expired_swaps s1)\<rparr>))"

section \<open>Connecting peg data\<close>

text \<open>The next free index of a table of event blocks.\<close>

definition push_seq :: "hash256 \<times> u32 \<Rightarrow> (u32, hash256 \<times> u32) db \<Rightarrow> (u32, hash256 \<times> u32) db" where
  "push_seq v m = fmupd (case seq_last m of None \<Rightarrow> 0 | Some (k, _) \<Rightarrow> k + 1) v m"

definition record_event_blocks ::
  "u32 \<Rightarrow> hash256 option \<Rightarrow> hash256 option \<Rightarrow> 'acc State \<Rightarrow> 'acc State" where
  "record_event_blocks h dep wb s =
     (let s1 = (case dep of
                  None \<Rightarrow> s
                | Some bh \<Rightarrow> s\<lparr>deposit_blocks := push_seq (bh, h) (deposit_blocks s)\<rparr>)
      in case wb of
           None \<Rightarrow> s1
         | Some bh \<Rightarrow>
             s1\<lparr>withdrawal_bundle_event_blocks := push_seq (bh, h) (withdrawal_bundle_event_blocks s1)\<rparr>)"

text \<open>\<open>block_height - last_failure_height\<close> wraps.\<close>

definition failure_gap_over :: "u32 \<Rightarrow> (u32 \<times> M6id) option \<Rightarrow> bool" where
  "failure_gap_over h latest =
     (h - (case latest of Some (fh, _) \<Rightarrow> fh | None \<Rightarrow> 0) \<ge> withdrawal_bundle_failure_gap)"

definition collect_pending :: "'acc ext \<Rightarrow> u32 \<Rightarrow> 'acc State \<Rightarrow> 'acc State res" where
  "collect_pending X h s =
     and_then (get_latest_failed_withdrawal_bundle s) (\<lambda>latest.
     if failure_gap_over h latest \<and> pending_withdrawal_bundle s = None then
       and_then (collect_withdrawal_bundle X s h) (\<lambda>r.
       case r of
         None \<Rightarrow> Inr s
       | Some b \<Rightarrow> Inr (s\<lparr>pending_withdrawal_bundle := Some (b, h)\<rparr>))
     else Inr s)"

definition peg_start :: "'acc State \<Rightarrow> 'acc Peg" where
  "peg_start s = \<lparr>peg_state = s, peg_diff = diff_default, peg_events = bi_default,
     peg_deposit_block = None, peg_bundle_block = None\<rparr>"

definition connect_two_way_peg_data ::
  "'acc ext \<Rightarrow> rpc option \<Rightarrow> TwoWayPegData \<Rightarrow> 'acc State \<Rightarrow> 'acc State res" where
  "connect_two_way_peg_data X rpc d s =
     and_then (ok_or (Fail NoTip) (try_get_height s)) (\<lambda>h.
     let acc = get_accumulator X s in
     and_then (try_fold (connect_event X h) (peg_event_list d) (peg_start s)) (\<lambda>p.
     let s0 = peg_state p;
         s1 = (if bi_is_empty (peg_events p) then s0
               else s0\<lparr>block_index_events := fmupd h (peg_events p) (block_index_events s0)\<rparr>) in
     and_then (ok_or (Fail NoTip) (try_get_tip s1)) (\<lambda>bh.
     and_then (process_coinshift_transactions X rpc h bh s1) (\<lambda>s2.
     let s3 = record_event_blocks h (peg_deposit_block p) (peg_bundle_block p) s2 in
     and_then (collect_pending X h s3) (\<lambda>s4.
     apply_accumulator_diff X (peg_diff p) acc s4)))))"

section \<open>Disconnecting peg data\<close>

text \<open>Putting the outputs of a bundle back, last to first; a missing spent output is an error.\<close>

definition unsubmit_output :: "'acc ext \<Rightarrow> OutPoint \<times> Output \<Rightarrow> 'acc Peg \<Rightarrow> 'acc Peg res" where
  "unsubmit_output X = (\<lambda>(op, out) p.
     if fmlookup (stxos (peg_state p)) op = None then err (NoStxo op)
     else Inr (bundle_restore X (op, out) p))"

definition disconnect_withdrawal_bundle_submitted ::
  "'acc ext \<Rightarrow> u32 \<Rightarrow> M6id \<Rightarrow> 'acc Peg \<Rightarrow> 'acc Peg res" where
  "disconnect_withdrawal_bundle_submitted X block_height m6id p =
     (case fmlookup (withdrawal_bundles (peg_state p)) m6id of
        None \<Rightarrow>
          if pending_matches X m6id (peg_state p) \<noteq> None then Inr p
          else err (UnknownWithdrawalBundle m6id)
      | Some (info, status) \<Rightarrow>
          let st = rb_latest status in
          if hs_height st > block_height
          then err (UnexpectedWithdrawalBundleStatus m6id (hs_value st) (hs_height st) block_height)
          else if hs_value st \<noteq> Submitted \<or> hs_height st \<noteq> block_height then Inr p
          else
            and_then (case info of
                        Known b \<Rightarrow>
                          and_then (try_fold (unsubmit_output X) (rev (btree_iter (spend_utxos b))) p) (\<lambda>p1.
                          Inr (p1\<lparr>peg_state := (peg_state p1)
                            \<lparr>pending_withdrawal_bundle := Some (b, hs_height st - 1)\<rparr>\<rparr>))
                      | _ \<Rightarrow> Inr p) (\<lambda>p1.
            let s1 = peg_state p1 in
            Inr (p1\<lparr>peg_state := s1\<lparr>withdrawal_bundles := fmdrop m6id (withdrawal_bundles s1)\<rparr>\<rparr>)))"

text \<open>The common part of the two reversals: the previous status, which must be \<open>Submitted\<close>.\<close>

definition pop_status ::
  "WithdrawalBundleStatus \<Rightarrow> u32 \<Rightarrow> WithdrawalBundleStatus RollBack \<Rightarrow>
   WithdrawalBundleStatus RollBack res" where
  "pop_status expected block_height status =
     (case rb_pop status of (prev, st) \<Rightarrow>
        if hs_value st \<noteq> expected then Inl (Panic ''latest bundle status'')
        else if hs_height st \<noteq> block_height then Inl (Panic ''latest bundle status height'')
        else case prev of
               None \<Rightarrow> Inl (Panic ''Pop bundle status should be valid'')
             | Some r \<Rightarrow>
                 if hs_value (rb_latest r) \<noteq> Submitted then Inl (Panic ''previous bundle status'')
                 else Inr r)"

definition unconfirm_output :: "'acc ext \<Rightarrow> OutPoint \<times> Output \<Rightarrow> 'acc Peg \<Rightarrow> 'acc Peg res" where
  "unconfirm_output X = (\<lambda>(op, out) p.
     let s = peg_state p; s1 = s\<lparr>utxos := fmupd op out (utxos s)\<rparr> in
     if fmlookup (stxos s1) op = None then err (NoStxo op)
     else Inr (p\<lparr>peg_state := s1\<lparr>stxos := fmdrop op (stxos s1)\<rparr>,
                 peg_diff := diff_insert (pointed_hash X op out) (peg_diff p)\<rparr>))"

definition disconnect_withdrawal_bundle_confirmed ::
  "'acc ext \<Rightarrow> u32 \<Rightarrow> M6id \<Rightarrow> 'acc Peg \<Rightarrow> 'acc Peg res" where
  "disconnect_withdrawal_bundle_confirmed X block_height m6id p =
     and_then (ok_or (Fail (UnknownWithdrawalBundle m6id))
                (fmlookup (withdrawal_bundles (peg_state p)) m6id)) (\<lambda>(info, status).
     if hs_value (rb_latest status) = Submitted then Inr p
     else
       and_then (pop_status Confirmed block_height status) (\<lambda>prev.
       and_then (case info of
                   UnknownConfirmed us \<Rightarrow>
                     and_then (try_fold (unconfirm_output X) (btree_iter us) p) (\<lambda>p1. Inr (Unknown, p1))
                 | _ \<Rightarrow> Inr (info, p)) (\<lambda>(info', p1).
       Inr (p1\<lparr>peg_state := put_bundle m6id (info', prev) (peg_state p1)\<rparr>))))"

definition unfail_output :: "'acc ext \<Rightarrow> M6id \<Rightarrow> OutPoint \<times> Output \<Rightarrow> 'acc Peg \<Rightarrow> 'acc Peg res" where
  "unfail_output X m6id = (\<lambda>(op, out) p.
     let s = peg_state p;
         s1 = s\<lparr>stxos := fmupd op \<lparr>spent_output = out, inpoint = InWithdrawal m6id\<rparr> (stxos s)\<rparr> in
     if fmlookup (utxos s1) op = None then err (NoUtxo op)
     else Inr (p\<lparr>peg_state := s1\<lparr>utxos := fmdrop op (utxos s1)\<rparr>,
                 peg_diff := diff_remove (pointed_hash X op out) (peg_diff p)\<rparr>))"

definition pop_failed :: "M6id \<Rightarrow> u32 \<Rightarrow> M6id RollBack option \<Rightarrow> M6id RollBack option res" where
  "pop_failed m6id block_height r =
     (case r of
        None \<Rightarrow> Inl (Panic ''latest failed withdrawal bundle should exist'')
      | Some rb \<Rightarrow>
          (case rb_pop rb of (prev, st) \<Rightarrow>
             if hs_value st \<noteq> m6id then Inl (Panic ''latest failed m6id'')
             else if hs_height st \<noteq> block_height then Inl (Panic ''latest failed height'')
             else Inr prev))"

definition disconnect_withdrawal_bundle_failed ::
  "'acc ext \<Rightarrow> u32 \<Rightarrow> M6id \<Rightarrow> 'acc Peg \<Rightarrow> 'acc Peg res" where
  "disconnect_withdrawal_bundle_failed X block_height m6id p =
     and_then (ok_or (Fail (UnknownWithdrawalBundle m6id))
                (fmlookup (withdrawal_bundles (peg_state p)) m6id)) (\<lambda>(info, status).
     if hs_value (rb_latest status) = Submitted then Inr p
     else
       and_then (pop_status Failed block_height status) (\<lambda>prev.
       and_then (case info of
                   Known b \<Rightarrow>
                     and_then (try_fold (unfail_output X m6id) (rev (btree_iter (spend_utxos b))) p) (\<lambda>p1.
                     and_then (pop_failed m6id block_height
                                (latest_failed_withdrawal_bundle (peg_state p1))) (\<lambda>r.
                     Inr (p1\<lparr>peg_state := (peg_state p1)\<lparr>latest_failed_withdrawal_bundle := r\<rparr>\<rparr>)))
                 | _ \<Rightarrow> Inr p) (\<lambda>p1.
       Inr (p1\<lparr>peg_state := put_bundle m6id (info, prev) (peg_state p1)\<rparr>))))"

definition disconnect_withdrawal_bundle_event ::
  "'acc ext \<Rightarrow> u32 \<Rightarrow> M6id \<Rightarrow> WithdrawalBundleStatus \<Rightarrow> 'acc Peg \<Rightarrow> 'acc Peg res" where
  "disconnect_withdrawal_bundle_event X h m6id status p =
     (case status of
        Submitted \<Rightarrow> disconnect_withdrawal_bundle_submitted X h m6id p
      | Confirmed \<Rightarrow> disconnect_withdrawal_bundle_confirmed X h m6id p
      | Failed \<Rightarrow> disconnect_withdrawal_bundle_failed X h m6id p)"

text \<open>The events come last to first, so the first block seen is the latest one.\<close>

definition disconnect_event ::
  "'acc ext \<Rightarrow> u32 \<Rightarrow> hash256 \<times> BlockEvent \<Rightarrow> 'acc Peg \<Rightarrow> 'acc Peg res" where
  "disconnect_event X h = (\<lambda>(bh, ev) p.
     case ev of
       EvDeposit dep \<Rightarrow>
         let op = OpDeposit (dep_outpoint dep); s = peg_state p in
         if fmlookup (utxos s) op = None then err (NoUtxo op)
         else Inr (p\<lparr>peg_state := s\<lparr>utxos := fmdrop op (utxos s)\<rparr>,
                     peg_diff := diff_remove (pointed_hash X op (dep_output dep)) (peg_diff p),
                     peg_deposit_block := (if peg_deposit_block p = None then Some bh
                                           else peg_deposit_block p)\<rparr>)
     | EvBundle m6id status \<Rightarrow>
         and_then (disconnect_withdrawal_bundle_event X h m6id status p) (\<lambda>p1.
         Inr (p1\<lparr>peg_bundle_block := (if peg_bundle_block p1 = None then Some bh
                                      else peg_bundle_block p1)\<rparr>)))"

definition restore_expired :: "'acc ext \<Rightarrow> ExpiredSwapReversal \<Rightarrow> 'acc State \<Rightarrow> 'acc State res" where
  "restore_expired X = (\<lambda>(i, st, ops) s.
     and_then (case get_swap i s of
                 Some sw \<Rightarrow> save_swap X (sw\<lparr>sw_state := st\<rparr>) s
               | None \<Rightarrow> Inr s) (\<lambda>s1.
     Inr (fold (\<lambda>op. lock_output_to_swap op i) ops s1)))"

definition restore_expiries :: "'acc ext \<Rightarrow> u32 \<Rightarrow> 'acc State \<Rightarrow> 'acc State res" where
  "restore_expiries X h s =
     (case fmlookup (expired_swaps s) h of
        None \<Rightarrow> Inr s
      | Some revs \<Rightarrow>
          and_then (try_fold (restore_expired X) revs s) (\<lambda>s1.
          Inr (s1\<lparr>expired_swaps := fmdrop h (expired_swaps s1)\<rparr>)))"

text \<open>Removing the last entry of a table of event blocks, which must be the given one.\<close>

definition pop_seq ::
  "Error \<Rightarrow> hash256 \<Rightarrow> u32 \<Rightarrow> (u32, hash256 \<times> u32) db \<Rightarrow> (u32, hash256 \<times> u32) db res" where
  "pop_seq e bh h m =
     (case seq_last m of
        None \<Rightarrow> err e
      | Some (k, last_bh, last_h) \<Rightarrow>
          if bh \<noteq> last_bh then Inl (Panic ''last event block hash'')
          else if h \<noteq> last_h then Inl (Panic ''last event block height'')
          else if fmlookup m k = None then err e
          else Inr (fmdrop k m))"

definition disconnect_two_way_peg_data ::
  "'acc ext \<Rightarrow> TwoWayPegData \<Rightarrow> 'acc State \<Rightarrow> 'acc State res" where
  "disconnect_two_way_peg_data X d s =
     and_then (ok_or (Panic ''Height should not be None'') (try_get_height s)) (\<lambda>h.
     let acc = get_accumulator X s;
         s0 = s\<lparr>block_index_events := fmdrop h (block_index_events s)\<rparr> in
     and_then (restore_expiries X h s0) (\<lambda>s1.
     and_then (try_fold (disconnect_event X h) (rev (peg_event_list d)) (peg_start s1)) (\<lambda>p.
     let s2 = peg_state p in
     and_then (case peg_bundle_block p of
                 None \<Rightarrow> Inr s2
               | Some bh \<Rightarrow>
                   and_then (pop_seq NoWithdrawalBundleEventBlock bh h (withdrawal_bundle_event_blocks s2)) (\<lambda>m.
                   Inr (s2\<lparr>withdrawal_bundle_event_blocks := m\<rparr>))) (\<lambda>s3.
     and_then (get_latest_failed_withdrawal_bundle s3) (\<lambda>latest.
     let s4 = (if failure_gap_over h latest \<and>
                  (case pending_withdrawal_bundle s3 of Some (_, bh) \<Rightarrow> bh = h | None \<Rightarrow> False)
               then s3\<lparr>pending_withdrawal_bundle := None\<rparr> else s3) in
     and_then (case peg_deposit_block p of
                 None \<Rightarrow> Inr s4
               | Some bh \<Rightarrow>
                   and_then (pop_seq NoDepositBlock bh h (deposit_blocks s4)) (\<lambda>m.
                   Inr (s4\<lparr>deposit_blocks := m\<rparr>))) (\<lambda>s5.
     apply_accumulator_diff X (peg_diff p) acc s5))))))"

end
