(* ===== verification/Swap_Machine.thy ===== *)
theory Swap_Machine
  imports Peg_Data
begin

text \<open>
  The life of a swap as a state machine: the steps that L1 observation, cancellation and expiry
  take, what is reachable, and that the operations of the store take only these steps.
\<close>

section \<open>Steps\<close>

inductive swap_step :: "u32 \<Rightarrow> SwapState \<Rightarrow> SwapState \<Rightarrow> bool" for req where
  fill: "0 < c \<Longrightarrow> swap_step req Pending (confirmed_state c req)"
| confirm: "c < c' \<Longrightarrow> swap_step req (WaitingConfirmations c req) (confirmed_state c' req)"
| cancel: "swap_step req Pending Cancelled"
| expire: "swap_step req (WaitingConfirmations c req) Cancelled"

inductive_cases from_ready: "swap_step req ReadyToClaim st"
inductive_cases from_completed: "swap_step req Completed st"
inductive_cases from_cancelled: "swap_step req Cancelled st"
inductive_cases from_waiting: "swap_step req (WaitingConfirmations c r) st"

lemma terminal_step:
  "swap_step req st st' \<Longrightarrow> is_open_state st"
  by (induction rule: swap_step.induct) simp_all

text \<open>A waiting swap has some confirmations, but fewer than its swap requires.\<close>

fun state_wf :: "u32 \<Rightarrow> SwapState \<Rightarrow> bool" where
  "state_wf req (WaitingConfirmations c r) = (0 < c \<and> c < r \<and> r = req)"
| "state_wf req _ = True"

lemma confirmed_state_wf: "0 < c \<Longrightarrow> state_wf req (confirmed_state c req)"
  by (simp add: confirmed_state_def not_le)

lemma step_wf: "swap_step req st st' \<Longrightarrow> state_wf req st \<Longrightarrow> state_wf req st'"
  by (induction rule: swap_step.induct) (auto intro!: confirmed_state_wf dest: less_trans)

text \<open>Rounds of steps: progress towards a claim, measured by a rank.\<close>

fun state_rank :: "SwapState \<Rightarrow> nat" where
  "state_rank Pending = 0"
| "state_rank (WaitingConfirmations c _) = unat c"
| "state_rank ReadyToClaim = 2 ^ 32"
| "state_rank Completed = 2 ^ 32 + 1"
| "state_rank Cancelled = 2 ^ 32 + 1"

lemma unat_less_2p32: "unat (c :: u32) < 2 ^ 32"
  using unsigned_less [of c] by simp

lemma step_rank: "swap_step req st st' \<Longrightarrow> state_rank st < state_rank st'"
proof (induction rule: swap_step.induct)
  case (confirm c c')
  then show ?case using unat_less_2p32 [of c]
    by (simp add: confirmed_state_def word_less_nat_alt)
next
  case (expire c)
  then show ?case using unat_less_2p32 [of c] by simp
qed (auto simp: confirmed_state_def word_less_nat_alt)

section \<open>Swaps and stores that evolve\<close>

text \<open>The terms of a swap that no observation changes.\<close>

definition same_terms :: "Swap \<Rightarrow> Swap \<Rightarrow> bool" where
  "same_terms a b \<longleftrightarrow>
     sw_id b = sw_id a \<and> direction b = direction a \<and> parent_chain b = parent_chain a \<and>
     required_confirmations b = required_confirmations a \<and> l2_recipient b = l2_recipient a \<and>
     l2_amount b = l2_amount a \<and> l1_recipient_address b = l1_recipient_address a \<and>
     l1_amount b = l1_amount a \<and> created_at_height b = created_at_height a \<and>
     expires_at_height b = expires_at_height a \<and> l2_creator_address b = l2_creator_address a"

definition evolves :: "Swap \<Rightarrow> Swap \<Rightarrow> bool" where
  "evolves a b \<longleftrightarrow> same_terms a b \<and> (swap_step (required_confirmations a))\<^sup>*\<^sup>* (sw_state a) (sw_state b)"

definition store_ok :: "'acc State \<Rightarrow> bool" where
  "store_ok s \<longleftrightarrow> (\<forall>i sw. get_swap i s = Some sw \<longrightarrow>
     sw_id sw = i \<and> state_wf (required_confirmations sw) (sw_state sw))"

definition store_evolves :: "'acc State \<Rightarrow> 'acc State \<Rightarrow> bool" where
  "store_evolves s t \<longleftrightarrow> (\<forall>i. case get_swap i s of
     None \<Rightarrow> get_swap i t = None
   | Some a \<Rightarrow> (\<exists>b. get_swap i t = Some b \<and> evolves a b))"

lemma evolves_refl: "evolves a a"
  by (simp add: evolves_def same_terms_def)

lemma evolves_trans: "evolves a b \<Longrightarrow> evolves b c \<Longrightarrow> evolves a c"
  by (auto simp: evolves_def same_terms_def intro: rtranclp_trans)

lemma evolves_step:
  "same_terms a b \<Longrightarrow> swap_step (required_confirmations a) (sw_state a) (sw_state b) \<Longrightarrow> evolves a b"
  by (simp add: evolves_def)

lemma evolves_wf:
  assumes "evolves a b" "state_wf (required_confirmations a) (sw_state a)"
  shows "state_wf (required_confirmations b) (sw_state b)"
proof -
  have "(swap_step r)\<^sup>*\<^sup>* st st' \<Longrightarrow> state_wf r st \<Longrightarrow> state_wf r st'" for r st st'
    by (induction rule: rtranclp_induct) (auto intro: step_wf)
  then show ?thesis using assms by (auto simp: evolves_def same_terms_def)
qed

lemma store_evolves_refl: "store_evolves s s"
  by (auto simp: store_evolves_def evolves_refl split: option.splits)

lemma store_evolves_trans: "store_evolves s t \<Longrightarrow> store_evolves t u \<Longrightarrow> store_evolves s u"
  unfolding store_evolves_def
proof (intro allI)
  fix i
  assume "\<forall>i. case get_swap i s of None \<Rightarrow> get_swap i t = None
      | Some a \<Rightarrow> \<exists>b. get_swap i t = Some b \<and> evolves a b"
    and "\<forall>i. case get_swap i t of None \<Rightarrow> get_swap i u = None
      | Some a \<Rightarrow> \<exists>b. get_swap i u = Some b \<and> evolves a b"
  from this(1) [rule_format, of i] this(2) [rule_format, of i]
  show "case get_swap i s of None \<Rightarrow> get_swap i u = None
      | Some a \<Rightarrow> \<exists>b. get_swap i u = Some b \<and> evolves a b"
    by (auto split: option.splits intro: evolves_trans)
qed

text \<open>One swap replaced by a later version of itself.\<close>

lemma replace_evolves:
  assumes "store_ok s" "get_swap i s = Some a" "evolves a b"
    and "\<And>j. get_swap j t = (if j = i then Some b else get_swap j s)"
  shows "store_evolves s t \<and> store_ok t"
proof
  show "store_evolves s t"
    using assms by (auto simp: store_evolves_def evolves_refl split: option.splits)
  have "sw_id b = i" using assms by (auto simp: store_ok_def evolves_def same_terms_def)
  moreover have "state_wf (required_confirmations b) (sw_state b)"
    using assms by (intro evolves_wf [of a b]) (auto simp: store_ok_def)
  ultimately show "store_ok t" using assms by (auto simp: store_ok_def)
qed

lemma save_evolves:
  assumes "codec_ok X" "store_ok s" "get_swap i s = Some a" "evolves a b"
    and "\<And>j. get_swap j s1 = get_swap j s" "save_swap X b s1 = Inr t"
  shows "store_evolves s t \<and> store_ok t \<and> (\<forall>j. get_swap j t = (if j = i then Some b else get_swap j s))"
proof -
  have "sw_id b = i" using assms by (auto simp: store_ok_def evolves_def same_terms_def)
  then have "get_swap j t = (if j = i then Some b else get_swap j s)" for j
    using get_swap_save [OF assms(1,6)] assms(5) by simp
  with replace_evolves [OF assms(2,3,4)] show ?thesis by blast
qed

section \<open>The operations take these steps\<close>

lemma cancel_evolves:
  assumes "codec_ok X" "store_ok s" "cancel_swap X i c s = Inr t"
  shows "store_evolves s t \<and> store_ok t"
proof -
  from assms(3) obtain sw where sw: "get_swap i s = Some sw" "sw_state sw = Pending"
      and sv: "save_swap X (sw\<lparr>sw_state := Cancelled\<rparr>)
        (s\<lparr>locked_swap_outputs := locks_without i (locked_swap_outputs s)\<rparr>) = Inr t"
    by (auto simp: cancel_swap_iff)
  have "evolves sw (sw\<lparr>sw_state := Cancelled\<rparr>)"
    by (rule evolves_step) (simp_all add: same_terms_def sw swap_step.cancel)
  with save_evolves [OF assms(1,2) sw(1) _ _ sv] show ?thesis by (simp add: get_swap_def)
qed

lemma update_l1_txid_evolves:
  assumes "codec_ok X" "store_ok s" "update_swap_l1_txid X i t c l1c l2c bh ht s = Inr s'"
  shows "store_evolves s s' \<and> store_ok s'"
proof -
  from assms(3) update_l1_txid_iff [OF assms(1), of i t c l1c l2c bh ht s "\<lambda>x. x = s'"]
  obtain sw where sw: "get_swap i s = Some sw" "sw_state sw = Pending" "0 < c"
      and sv: "save_swap X (filled_swap t c l1c l2c bh ht sw)
           (s\<lparr>swaps_by_l1_txid := fmupd (parent_chain sw, t) i
              (fmdrop (parent_chain sw, l1_txid sw) (swaps_by_l1_txid s))\<rparr>) = Inr s'"
    by auto
  have "evolves sw (filled_swap t c l1c l2c bh ht sw)"
    by (rule evolves_step) (simp_all add: same_terms_def sw filled_swap_def swap_step.fill)
  with save_evolves [OF assms(1,2) sw(1) _ _ sv] show ?thesis by (simp add: get_swap_def)
qed

lemma update_confirmations_evolves:
  assumes "codec_ok X" "store_ok s" "update_swap_confirmations X i new bh ht s = Inr s'"
  shows "store_evolves s s' \<and> store_ok s'"
proof -
  from assms(3) obtain sw c r where sw: "get_swap i s = Some sw" "sw_state sw = WaitingConfirmations c r"
      and r: "if new \<le> c then s' = s
         else save_swap X ((set_l1_txid_validation_block bh ht sw)\<lparr>sw_state := confirmed_state new r\<rparr>) s = Inr s'"
    by (auto simp: update_confirmations_iff)
  show ?thesis
  proof (cases "new \<le> c")
    case True
    with r assms(2) show ?thesis by (simp add: store_evolves_refl)
  next
    case False
    have req: "r = required_confirmations sw" using assms(2) sw by (fastforce simp: store_ok_def)
    have "evolves sw ((set_l1_txid_validation_block bh ht sw)\<lparr>sw_state := confirmed_state new r\<rparr>)"
      by (rule evolves_step)
        (use False in \<open>simp_all add: same_terms_def sw req set_l1_txid_validation_block_def swap_step.confirm\<close>)
    moreover have "save_swap X ((set_l1_txid_validation_block bh ht sw)\<lparr>sw_state := confirmed_state new r\<rparr>) s = Inr s'"
      using r False by simp
    ultimately show ?thesis using save_evolves [OF assms(1,2) sw(1) _ refl] by blast
  qed
qed

text \<open>
  A swap whose L1 transaction is not recorded yet has not been filled. The record is the transaction
  identifier that the parent chain's node reports; a node reports no payment whose identifier is the
  zero one, since an identifier is the hash of the transaction.
\<close>

definition fill_recorded :: "Swap \<Rightarrow> bool" where
  "fill_recorded sw \<longleftrightarrow> (is_zero_txid (l1_txid sw) \<longrightarrow> sw_state sw = Pending \<or> \<not> is_open_state (sw_state sw))"

definition store_filled :: "'acc State \<Rightarrow> bool" where
  "store_filled s \<longleftrightarrow> (\<forall>i sw. get_swap i s = Some sw \<longrightarrow> fill_recorded sw)"

definition txids_nonzero ::
  "'acc ext \<Rightarrow> (string \<Rightarrow> u64 \<Rightarrow> (string \<times> TransactionInfo) list option) \<Rightarrow> bool" where
  "txids_nonzero X client \<longleftrightarrow>
     (\<forall>a v found e t. client a v = Some found \<longrightarrow> e \<in> set found \<longrightarrow>
        from_hex_rpc (hex_read X) (ti_txid (snd e)) = Inr t \<longrightarrow> \<not> is_zero_txid t)"

definition rpc_txids_nonzero :: "'acc ext \<Rightarrow> rpc option \<Rightarrow> bool" where
  "rpc_txids_nonzero X rpc \<longleftrightarrow>
     (\<forall>get_config chain client. rpc = Some get_config \<longrightarrow> get_config chain = Some client \<longrightarrow> txids_nonzero X client)"

lemma store_filled_update:
  assumes "store_filled s" "fill_recorded b" "\<And>j. get_swap j t = (if j = i then Some b else get_swap j s)"
  shows "store_filled t"
  using assms by (auto simp: store_filled_def)

lemma query_result:
  assumes "query_and_update_swap X client sw bh ht s = Inr (Some sw')"
  shows "\<exists>c. 0 < c \<and> c \<le> max_l1_tx_age_blocks (parent_chain sw) \<and>
    sw_state sw' = confirmed_state c (required_confirmations sw) \<and> same_terms sw sw' \<and>
    (is_zero_txid (l1_txid sw) \<or> (case sw_state sw of WaitingConfirmations c' _ \<Rightarrow> c' | _ \<Rightarrow> 0) < c)"
proof -
  from assms obtain found where found: "client (l1_recipient_address sw) (l1_amount sw) = Some found"
    by (auto simp: query_and_update_swap_def and_then_eq_Inr ok_or_eq_Inr)
  show ?thesis
  proof (cases "filter (l1_match_ok sw) found")
    case Nil
    with assms found show ?thesis by (simp add: query_and_update_swap_def)
  next
    case (Cons m ms)
    obtain snd ti where m: "m = (snd, ti)" by (cases m)
    have "m \<in> set (filter (l1_match_ok sw) found)" by (simp add: Cons)
    then have ti: "0 < ti_confirmations ti" "ti_confirmations ti \<le> max_l1_tx_age_blocks (parent_chain sw)"
      by (simp_all add: m l1_match_ok_def word_greater_zero_iff)
    from assms found Cons m show ?thesis
      by (intro exI [of _ "ti_confirmations ti"])
        (auto simp: query_and_update_swap_def ti same_terms_def swap_update_defs Let_def
          split: sum.splits if_splits)
  qed
qed

lemma query_evolves:
  assumes q: "query_and_update_swap X client sw bh ht s = Inr (Some sw')"
    and o: "is_open_state (sw_state sw)" "state_wf (required_confirmations sw) (sw_state sw)"
      "fill_recorded sw"
  shows "evolves sw sw'"
proof -
  from query_result [OF q] obtain c where c: "0 < c"
      "sw_state sw' = confirmed_state c (required_confirmations sw)" "same_terms sw sw'"
      "is_zero_txid (l1_txid sw) \<or> (case sw_state sw of WaitingConfirmations c' _ \<Rightarrow> c' | _ \<Rightarrow> 0) < c"
    by blast
  show ?thesis
  proof (rule evolves_step [OF c(3)])
    show "swap_step (required_confirmations sw) (sw_state sw) (sw_state sw')"
    proof (cases "sw_state sw")
      case (WaitingConfirmations c' r)
      with o c show ?thesis by (auto simp: fill_recorded_def intro: swap_step.confirm)
    qed (use o c in \<open>auto intro: swap_step.fill\<close>)
  qed
qed

lemma query_filled:
  assumes q: "query_and_update_swap X client sw bh ht s = Inr (Some sw')" and nz: "txids_nonzero X client"
  shows "fill_recorded sw'"
proof -
  from q obtain found where found: "client (l1_recipient_address sw) (l1_amount sw) = Some found"
    by (auto simp: query_and_update_swap_def and_then_eq_Inr ok_or_eq_Inr)
  have nz': "\<not> is_zero_txid t"
    if "filter (l1_match_ok sw) found = e # es" "from_hex_rpc (hex_read X) (ti_txid (snd e)) = Inr t" for e es t
  proof -
    have "e \<in> set (filter (l1_match_ok sw) found)" by (simp add: that(1))
    then have "e \<in> set found" by simp
    with nz found that(2) show ?thesis unfolding txids_nonzero_def by blast
  qed
  then have "\<not> is_zero_txid (l1_txid sw')"
    using q found
    by (auto simp: query_and_update_swap_def swap_update_defs Let_def split: list.splits sum.splits if_splits)
  then show ?thesis by (simp add: fill_recorded_def)
qed

lemma expire_swap_get:
  assumes "codec_ok X" "expire_swap X sw s = Inr (r, t)" "get_swap (sw_id sw) s = Some sw"
  shows "get_swap j t = (if j = sw_id sw then Some (sw\<lparr>sw_state := Cancelled\<rparr>) else get_swap j s)"
proof -
  have "get_swap j (fold unlock_output_from_swap ops s) = get_swap j s" for ops j
    by (induction ops arbitrary: s) simp_all
  moreover have "save_swap X (sw\<lparr>sw_state := Cancelled\<rparr>)
      (fold unlock_output_from_swap (swap_outputs (sw_id sw) s) s) = Inr t"
    using assms(2) by (auto simp: expire_swap_def Let_def and_then_eq_Inr)
  ultimately show ?thesis using get_swap_save [OF assms(1)] by simp
qed

lemma process_swap_evolves:
  assumes X: "codec_ok X" and p: "process_swap X rpc h bh sw (revs, s) = Inr (revs', t)"
    and sw: "get_swap (sw_id sw) s = Some sw" "state_wf (required_confirmations sw) (sw_state sw)"
      "fill_recorded sw"
    and nz: "rpc_txids_nonzero X rpc"
  shows "\<exists>sw'. evolves sw sw' \<and> fill_recorded sw' \<and> (\<forall>j. get_swap j t = (if j = sw_id sw then Some sw' else get_swap j s))"
proof -
  have same: ?thesis if "t = s" using that sw by (intro exI [of _ sw]) (auto simp: evolves_refl)
  consider "t = s"
    | r where "is_open_state (sw_state sw)" "expire_swap X sw s = Inr (r, t)"
    | client sw' where "is_open_state (sw_state sw)" "query_and_update_swap X client sw bh h s = Inr (Some sw')"
        "save_swap X sw' s = Inr t" "txids_nonzero X client"
    using p nz
    by (auto simp: process_swap_def and_then_eq_Inr rpc_txids_nonzero_def split: if_splits option.splits sum.splits)
  then show ?thesis
  proof cases
    case 1
    then show ?thesis by (rule same)
  next
    case (2 r)
    have "swap_step (required_confirmations sw) (sw_state sw) Cancelled"
      using 2(1) sw(2) by (cases "sw_state sw") (auto intro: swap_step.intros)
    then have "evolves sw (sw\<lparr>sw_state := Cancelled\<rparr>)"
      by (intro evolves_step) (simp_all add: same_terms_def)
    moreover have "fill_recorded (sw\<lparr>sw_state := Cancelled\<rparr>)" by (simp add: fill_recorded_def)
    ultimately show ?thesis using expire_swap_get [OF X 2(2) sw(1)] by blast
  next
    case (3 client sw')
    then have ev: "evolves sw sw'" using sw by (intro query_evolves)
    then have "sw_id sw' = sw_id sw" by (simp add: evolves_def same_terms_def)
    with get_swap_save [OF X 3(3)] ev query_filled [OF 3(2,4)] show ?thesis by auto
  qed
qed

text \<open>The swaps that \<open>load_all_swaps\<close> gives are stored, and each is there once.\<close>

lemma load_scan_subset: "set (fst (load_scan c es)) \<subseteq> set (decodable es)"
  by (induction c es rule: load_scan.induct) (auto simp: case_prod_unfold Let_def)

lemma decodable_member: "sw \<in> set (decodable es) \<Longrightarrow> \<exists>i. (i, Decodes sw) \<in> set es"
proof (induction es)
  case (Cons e es)
  obtain i v where e: "e = (i, v)" by (cases e)
  with Cons show ?case by (cases v) auto
qed simp

lemma load_scan_distinct:
  assumes "distinct (map fst es)" "\<And>i sw. (i, Decodes sw) \<in> set es \<Longrightarrow> sw_id sw = i"
  shows "distinct (map sw_id (fst (load_scan c es)))"
  using assms
proof (induction c es rule: load_scan.induct)
  case (2 c i sw es)
  have "sw_id x \<in> fst ` set es" if "x \<in> set (fst (load_scan 0 es))" for x
  proof -
    from that load_scan_subset obtain j where j: "(j, Decodes x) \<in> set es"
      by (meson decodable_member subset_iff)
    then have "sw_id x = j" by (intro "2.prems"(2)) simp
    with j show ?thesis by force
  qed
  moreover have "sw_id sw = i" by (rule "2.prems"(2)) simp
  moreover have "i \<notin> fst ` set es" using "2.prems"(1) by simp
  ultimately have "sw_id sw \<notin> sw_id ` set (fst (load_scan 0 es))" by auto
  moreover have "distinct (map sw_id (fst (load_scan 0 es)))"
    by (rule "2.IH") (use "2.prems"(1) in simp, rule "2.prems"(2), simp)
  ultimately show ?case by (simp add: case_prod_unfold Let_def)
qed (auto simp: case_prod_unfold Let_def)

lemma load_all_swaps_stored:
  assumes "store_ok s"
  shows "distinct (map sw_id (load_all_swaps s))"
    and "sw \<in> set (load_all_swaps s) \<Longrightarrow> get_swap (sw_id sw) s = Some sw"
proof -
  have k: "swaps_keyed s" using assms by (simp add: store_ok_def swaps_keyed_def)
  have e: "sw_id sw = i \<and> get_swap i s = Some sw" if "(i, Decodes sw) \<in> set (db_iter (swaps s))" for i sw
    using that assms by (auto simp: store_ok_def set_db_iter get_swap_eq)
  have "distinct (map sw_id (fst (load_scan 0 (db_iter (swaps s)))))"
    by (rule load_scan_distinct [OF distinct_db_iter]) (simp only: e)
  then show "distinct (map sw_id (load_all_swaps s))" by (simp add: load_all_swaps_scan [OF k])
  show "get_swap (sw_id sw) s = Some sw" if "sw \<in> set (load_all_swaps s)"
  proof -
    from that have "sw \<in> set (decodable (db_iter (swaps s)))"
      unfolding load_all_swaps_scan [OF k] using load_scan_subset by blast
    then obtain i where "(i, Decodes sw) \<in> set (db_iter (swaps s))" using decodable_member by blast
    with e show ?thesis by blast
  qed
qed

text \<open>The loop over the loaded swaps: each swap it still has to reach is as it was loaded.\<close>

lemma process_swaps_evolve:
  assumes X: "codec_ok X" and nz: "rpc_txids_nonzero X rpc"
  shows "try_fold (process_swap X rpc h bh) sws (revs, s) = Inr (revs', t) \<Longrightarrow>
    store_ok s \<Longrightarrow> store_filled s \<Longrightarrow> distinct (map sw_id sws) \<Longrightarrow>
    (\<forall>sw \<in> set sws. get_swap (sw_id sw) s = Some sw) \<Longrightarrow>
    store_evolves s t \<and> store_ok t \<and> store_filled t"
proof (induction sws arbitrary: revs s)
  case Nil
  then show ?case by (simp add: store_evolves_refl)
next
  case (Cons sw sws)
  from Cons.prems(1) obtain revs1 s1 where
      p: "process_swap X rpc h bh sw (revs, s) = Inr (revs1, s1)"
      and r: "try_fold (process_swap X rpc h bh) sws (revs1, s1) = Inr (revs', t)"
    by (auto simp: and_then_eq_Inr)
  have sw: "get_swap (sw_id sw) s = Some sw" "fill_recorded sw"
    using Cons.prems by (auto simp: store_filled_def)
  with Cons.prems(2) have "state_wf (required_confirmations sw) (sw_state sw)"
    by (auto simp: store_ok_def)
  with process_swap_evolves [OF X p sw(1) _ sw(2) nz] obtain sw' where ev: "evolves sw sw'" "fill_recorded sw'"
      and g: "\<And>j. get_swap j s1 = (if j = sw_id sw then Some sw' else get_swap j s)" by blast
  from replace_evolves [OF Cons.prems(2) sw(1) ev(1) g] have s1: "store_evolves s s1" "store_ok s1" by simp_all
  have f1: "store_filled s1" by (rule store_filled_update [OF Cons.prems(3) ev(2) g])
  have "\<forall>x \<in> set sws. get_swap (sw_id x) s1 = Some x"
    using Cons.prems(4,5) g by (auto simp: image_iff)
  then have "store_evolves s1 t \<and> store_ok t \<and> store_filled t"
    using Cons.IH [OF r s1(2) f1] Cons.prems(4) by simp
  with s1(1) show ?case by (blast intro: store_evolves_trans)
qed

lemma process_coinshift_evolves:
  assumes "codec_ok X" "store_ok s" "store_filled s" "rpc_txids_nonzero X rpc"
    and p: "process_coinshift_transactions X rpc h bh s = Inr t"
  shows "store_evolves s t \<and> store_ok t \<and> store_filled t"
proof -
  from p obtain revs s1 where f: "try_fold (process_swap X rpc h bh) (load_all_swaps s) ([], s) = Inr (revs, s1)"
      and t: "\<And>j. get_swap j t = get_swap j s1"
    by (auto simp: process_coinshift_transactions_def and_then_eq_Inr get_swap_def split: if_splits)
  have "store_evolves s s1 \<and> store_ok s1 \<and> store_filled s1"
    by (rule process_swaps_evolve [OF assms(1,4) f assms(2,3)])
      (auto simp: load_all_swaps_stored [OF assms(2)] dest: load_all_swaps_stored(2) [OF assms(2)])
  moreover have "get_swap i t = get_swap i s1" for i by (rule t)
  ultimately show ?thesis unfolding store_evolves_def store_ok_def store_filled_def by presburger
qed

text \<open>
  The other ways in which a transaction changes stored swaps keep both conditions: a created swap is
  pending, a claimed one is completed, and the undone claim is ready again.
\<close>

lemma save_filled:
  assumes "codec_ok X" "store_ok s" "store_filled s" "\<And>j. get_swap j s1 = get_swap j s"
    and "save_swap X sw s1 = Inr t" "state_wf (required_confirmations sw) (sw_state sw)" "fill_recorded sw"
  shows "store_ok t \<and> store_filled t"
proof -
  have "get_swap j t = (if j = sw_id sw then Some sw else get_swap j s)" for j
    using get_swap_save [OF assms(1,5)] assms(4) by simp
  then show ?thesis using assms by (auto simp: store_ok_def store_filled_def)
qed

lemma connect_swap_data_filled:
  assumes "codec_ok X" "store_ok s" "store_filled s" "connect_swap_data X h ft s = Inr t"
  shows "store_ok t \<and> store_filled t"
proof (cases "data (transaction ft)")
  case Regular
  then show ?thesis using assms by (simp add: connect_swap_data_def)
next
  case (SwapAccept i who)
  then have "get_swap j t = get_swap j s" for j
    using assms(4) by (auto simp: connect_swap_data_def reserve_swap_def get_swap_def)
  then show ?thesis using assms by (simp add: store_ok_def store_filled_def)
next
  case (SwapCreate i chain l1tx req r a l1 b)
  let ?sw = "created_swap i chain l1tx req r a l1 b h (Some (h + default_swap_expiration_blocks chain)) ft"
  have "save_swap X ?sw (fold (\<lambda>op. lock_output_to_swap op i) (escrow_outpoints X i (transaction ft)) s) = Inr t"
    using SwapCreate assms(4) by (simp add: connect_swap_data_def Let_def)
  then show ?thesis
    by (rule save_filled [OF assms(1-3), rotated]) (simp_all add: fill_recorded_def)
next
  case (SwapClaim i declared pd)
  with assms(4) obtain sw where sw: "get_swap i s = Some sw"
    by (auto simp: connect_swap_data_def Let_def connect_swap_claim_def and_then_eq_Inr ok_or_eq_Inr)
  define s1 where "s1 = (if sw_state sw = ReadyToClaim then s
    else case save_swap X (sw\<lparr>sw_state := ReadyToClaim\<rparr>) s of Inr s1 \<Rightarrow> s1 | Inl _ \<Rightarrow> s)"
  have s1: "if sw_state sw = ReadyToClaim then s1 = s else save_swap X (sw\<lparr>sw_state := ReadyToClaim\<rparr>) s = Inr s1"
      and t: "save_swap X (sw\<lparr>sw_state := Completed\<rparr>) (unlock_own i (map fst (inputs (transaction ft))) s1) = Inr t"
    using SwapClaim assms(4) sw
    by (cases "sw_state sw = ReadyToClaim"; auto simp: s1_def connect_swap_data_def Let_def connect_swap_claim_def
        and_then_eq_Inr mark_completed_def split: if_splits)+
  have "store_ok s1 \<and> store_filled s1"
  proof (cases "sw_state sw = ReadyToClaim")
    case True
    then show ?thesis using s1 assms by simp
  next
    case False
    with s1 have "save_swap X (sw\<lparr>sw_state := ReadyToClaim\<rparr>) s = Inr s1" by simp
    then show ?thesis by (rule save_filled [OF assms(1-3) refl]) (simp_all add: fill_recorded_def)
  qed
  with t show ?thesis
    by (intro save_filled [OF assms(1), of s1]) (auto simp: fill_recorded_def)
qed

end
