(* ===== verification/Peg_Facts.thy ===== *)
theory Peg_Facts
  imports Swap_Machine
begin

text \<open>
  Facts about two-way peg data: the tables of event blocks, the reversal of expiries and of
  mainchain events, and the value of a collected bundle.
\<close>

section \<open>Tables of event blocks\<close>

abbreviation seq_key :: "u32 \<Rightarrow> bytes" where
  "seq_key k \<equiv> le_bytes 4 (unat k)"

lemma seq_key_inj: "seq_key a = seq_key b \<longleftrightarrow> a = b"
  by (metis u32_le_bytes_def u32_le_bytes_inverse)

lemma last_sort_key:
  fixes k :: "'a \<Rightarrow> 'k::linorder"
  assumes "xs \<noteq> []"
  shows "last (sort_key k xs) \<in> set xs" "x \<in> set xs \<Longrightarrow> k x \<le> k (last (sort_key k xs))"
proof -
  have ne: "sort_key k xs \<noteq> []" using assms by (metis length_0_conv length_sort)
  then show "last (sort_key k xs) \<in> set xs" using last_in_set by fastforce
  assume "x \<in> set xs"
  then have "k x \<in> set (map k (sort_key k xs))" by simp
  from sorted_le_last [OF sorted_sort_key this]
  show "k x \<le> k (last (sort_key k xs))" using ne by (simp add: last_map)
qed

text \<open>The last entry is the one with the greatest encoded key.\<close>

lemma seq_last_iff:
  "seq_last m = Some (k, v) \<longleftrightarrow>
     fmlookup m k = Some v \<and> (\<forall>k' v'. fmlookup m k' = Some v' \<longrightarrow> seq_key k' \<le> seq_key k)"
  (is "?l \<longleftrightarrow> ?r")
proof -
  let ?f = "\<lambda>(k :: u32, _ :: 'a). seq_key k"
  let ?l = "last (sort_key ?f (db_iter m))"
  have eq: "seq_last m = (if db_iter m = [] then None else Some ?l)"
    by (cases "sort_key ?f (db_iter m)") (auto simp: seq_last_def dest: arg_cong [of _ _ length])
  show ?thesis
  proof
    assume "seq_last m = Some (k, v)"
    then have ne: "db_iter m \<noteq> []" and l: "?l = (k, v)" by (auto simp: eq split: if_splits)
    from last_sort_key(1) [OF ne, of ?f] have "fmlookup m k = Some v" by (simp add: l set_db_iter)
    moreover have "seq_key k' \<le> seq_key k" if "fmlookup m k' = Some v'" for k' v'
      using last_sort_key(2) [OF ne, of "(k', v')" ?f] that by (simp add: l set_db_iter)
    ultimately show ?r by blast
  next
    assume r: ?r
    then have ne: "db_iter m \<noteq> []" by (metis empty_iff empty_set set_db_iter)
    obtain k1 v1 where l: "?l = (k1, v1)" by (cases ?l)
    from last_sort_key(1) [OF ne, of ?f] have v1: "fmlookup m k1 = Some v1" by (simp add: l set_db_iter)
    have "seq_key k \<le> seq_key k1"
      using last_sort_key(2) [OF ne, of "(k, v)" ?f] r by (simp add: l set_db_iter)
    moreover have "seq_key k1 \<le> seq_key k" using r v1 by blast
    ultimately have "k1 = k" using seq_key_inj antisym by blast
    with v1 r ne l eq show "seq_last m = Some (k, v)" by simp
  qed
qed

lemma seq_last_None: "seq_last m = None \<longleftrightarrow> m = fmempty"
proof
  assume "seq_last m = None"
  then have "db_iter m = []"
    by (auto simp: seq_last_def split: list.splits dest: arg_cong [of _ _ length])
  then have "fmlookup m k = None" for k
    by (metis empty_iff empty_set not_None_eq set_db_iter)
  then show "m = fmempty" by (intro fmap_ext) simp
next
  assume "m = fmempty"
  then show "seq_last m = None" by (simp add: seq_last_def)
qed

text \<open>A table that was filled by \<open>n\<close> pushes.\<close>

definition seq_filled :: "nat \<Rightarrow> (u32, 'v) db \<Rightarrow> bool" where
  "seq_filled n m \<longleftrightarrow> (\<forall>k. fmlookup m k \<noteq> None \<longleftrightarrow> unat k < n)"

lemma le_bytes_4:
  "le_bytes 4 x = [word_of_nat x, word_of_nat (x div 256), word_of_nat (x div 256 div 256),
     word_of_nat (x div 256 div 256 div 256)]"
proof -
  have "(4 :: nat) = Suc (Suc (Suc (Suc 0)))" by simp
  then show ?thesis by (simp only: le_bytes.simps)
qed

lemma seq_key_small: "unat k < 256 \<Longrightarrow> seq_key k = [word_of_nat (unat k), 0, 0, 0]"
  unfolding le_bytes_4 by simp

lemma seq_key_small_le:
  assumes "unat a \<le> unat b" "unat b < 256"
  shows "seq_key a \<le> seq_key b"
proof -
  have "unat (word_of_nat n :: u8) = n" if "n < 256" for n using that by (simp add: unat_of_nat)
  from this [of "unat a"] this [of "unat b"] assms
  have "(word_of_nat (unat a) :: u8) \<le> word_of_nat (unat b)"
    unfolding word_le_nat_alt by linarith
  with assms show ?thesis by (auto simp: seq_key_small)
qed

lemma seq_last_filled:
  assumes "seq_filled (Suc n) m" "n < 256"
  shows "\<exists>v. fmlookup m (word_of_nat n) = Some v \<and> seq_last m = Some (word_of_nat n, v)"
proof -
  have n: "unat (word_of_nat n :: u32) = n" using assms(2) by (simp add: unat_of_nat)
  then obtain v where v: "fmlookup m (word_of_nat n) = Some v"
    using assms(1) by (metis lessI option.exhaust seq_filled_def)
  have "seq_key k' \<le> seq_key (word_of_nat n)" if "fmlookup m k' = Some v'" for k' v'
  proof (rule seq_key_small_le)
    show "unat k' \<le> unat (word_of_nat n :: u32)"
      using assms(1) that n by (metis less_Suc_eq_le option.distinct(1) seq_filled_def)
  qed (simp add: n assms(2))
  with v show ?thesis by (auto simp: seq_last_iff)
qed

lemma push_seq_filled:
  assumes "seq_filled n m" "n \<le> 256"
  shows "push_seq v m = fmupd (word_of_nat n) v m" "seq_filled (Suc n) (push_seq v m)"
proof -
  show p: "push_seq v m = fmupd (word_of_nat n) v m"
  proof (cases n)
    case 0
    then have "m = fmempty" using assms(1) unfolding seq_filled_def
      by (intro fmap_ext) (metis fmempty_lookup not_less0)
    then show ?thesis using 0 by (simp add: push_seq_def seq_last_None [THEN iffD2])
  next
    case (Suc k)
    with assms obtain w where "seq_last m = Some (word_of_nat k, w)"
      using seq_last_filled [of k m] by auto
    then show ?thesis using Suc by (simp add: push_seq_def add.commute)
  qed
  have n: "unat (word_of_nat n :: u32) = n" using assms(2) by (simp add: unat_of_nat)
  show "seq_filled (Suc n) (push_seq v m)"
    using assms(1) n by (auto simp: p seq_filled_def less_Suc_eq word_unat_eq_iff)
qed

text \<open>Up to 256 entries the last one is the one pushed last.\<close>

lemma seq_last_push:
  assumes "seq_filled n m" "n < 256"
  shows "seq_last (push_seq v m) = Some (word_of_nat n, v)"
proof -
  from seq_last_filled [OF push_seq_filled(2) [OF assms(1)] assms(2)] assms(2)
  show ?thesis by (simp add: push_seq_filled(1) [OF assms(1)])
qed

lemma pop_seq_push:
  assumes "seq_filled n m" "n < 256"
  shows "pop_seq e bh h (push_seq (bh, h) m) = Inr m"
proof -
  have n: "unat (word_of_nat n :: u32) = n" using assms(2) by (simp add: unat_of_nat)
  then have "fmlookup m (word_of_nat n) = None" using assms(1) unfolding seq_filled_def by (metis less_irrefl)
  then show ?thesis
    using seq_last_push [OF assms] assms
    by (simp add: pop_seq_def push_seq_filled(1) db_drop_put_fresh)
qed

text \<open>Key 256 is encoded as \<open>[0, 1, 0, 0]\<close>, before key 255: from then on every push goes to key
  256 and is not the last entry.\<close>

lemma seq_last_stuck:
  assumes "seq_filled 256 m"
  shows "seq_last (push_seq v m) = seq_last m" "push_seq w (push_seq v m) = push_seq w m"
proof -
  from seq_last_filled [of 255 m] assms obtain u where
      u: "fmlookup m 255 = Some u" and l: "seq_last m = Some (255, u)" by auto
  have p: "push_seq v m = fmupd 256 v m" for v using l by (simp add: push_seq_def)
  have le: "seq_key 256 \<le> seq_key (255 :: u32)" by (simp add: le_bytes_4)
  have "seq_last (push_seq v m) = Some (255, u)"
    using l u le by (auto simp: seq_last_iff p)
  then show "seq_last (push_seq v m) = seq_last m" by (simp add: l)
  then show "push_seq w (push_seq v m) = push_seq w m"
    using l by (simp add: push_seq_def [of w] p)
qed

section \<open>Expiries\<close>

lemma set_swap_outputs: "op \<in> set (swap_outputs i s) \<longleftrightarrow> is_output_locked_to_swap op s = Some i"
  by (force simp: swap_outputs_def set_db_iter lock_defs)

lemma recipient_put_indexed:
  "recipient_index_ok s \<Longrightarrow> get_swap (sw_id sw) s = Some sw \<Longrightarrow>
   recipient_put sw (swaps_by_recipient s) = swaps_by_recipient s"
proof -
  assume ok: "recipient_index_ok s" and sw: "get_swap (sw_id sw) s = Some sw"
  have "\<exists>ids. fmlookup (swaps_by_recipient s) r = Some ids \<and> sw_id sw \<in> set ids"
    if "l2_recipient sw = Some r" for r
    using ok sw that unfolding recipient_index_ok_def by blast
  then show ?thesis by (fastforce simp: recipient_put_def Let_def split: option.splits)
qed

text \<open>Restoring an expired swap gives the state before the expiry; only the L1 index may differ,
  where two swaps have the same L1 transaction id.\<close>

lemma restore_expire:
  assumes X: "codec_ok X" and ok: "recipient_index_ok s" and sw: "get_swap (sw_id sw) s = Some sw"
    and e: "expire_swap X sw s = Inr (r, t)"
  shows "restore_expired X r t =
    Inr (s\<lparr>swaps_by_l1_txid := fmupd (parent_chain sw, l1_txid sw) (sw_id sw) (swaps_by_l1_txid s)\<rparr>)"
    (is "_ = Inr ?s'")
proof -
  let ?i = "sw_id sw" and ?ops = "swap_outputs (sw_id sw) s"
  let ?u = "fold unlock_output_from_swap ?ops s"
  obtain L where L: "?u = s\<lparr>locked_swap_outputs := L\<rparr>"
    using fold_frame [of unlock_output_from_swap ?ops s] by (simp add: unlock_output_from_swap_def)
  note put = recipient_put_indexed [OF ok sw]
  have r: "r = (?i, sw_state sw, ?ops)"
    and t: "t = s\<lparr>locked_swap_outputs := L, swaps := fmupd ?i (Decodes (sw\<lparr>sw_state := Cancelled\<rparr>)) (swaps s),
        swaps_by_l1_txid := fmupd (parent_chain sw, l1_txid sw) ?i (swaps_by_l1_txid s)\<rparr>"
    using e by (auto simp: expire_swap_def Let_def L save_swap_ok [OF X] put)
  have g: "get_swap ?i t = Some (sw\<lparr>sw_state := Cancelled\<rparr>)" by (simp add: t get_swap_def)
  have "fmupd ?i (Decodes sw) (swaps s) = swaps s" using sw by (simp add: get_swap_eq db_put_same)
  then have sv: "save_swap X ((sw\<lparr>sw_state := Cancelled\<rparr>)\<lparr>sw_state := sw_state sw\<rparr>) t =
      Inr (?s'\<lparr>locked_swap_outputs := L\<rparr>)"
    by (simp add: save_swap_ok [OF X] t put)
  have "fold (\<lambda>op. lock_output_to_swap op ?i) ?ops (?s'\<lparr>locked_swap_outputs := L\<rparr>) = ?s'" (is "?f = _")
  proof -
    obtain L' where L': "?f = ?s'\<lparr>locked_swap_outputs := L'\<rparr>"
      using lock_fold_frame(3) [of ?i ?ops "?s'\<lparr>locked_swap_outputs := L\<rparr>"] by simp
    have "is_output_locked_to_swap op ?f = is_output_locked_to_swap op s" for op
    proof -
      have "is_output_locked_to_swap op (?s'\<lparr>locked_swap_outputs := L\<rparr>) = is_output_locked_to_swap op ?u"
        by (simp add: L is_output_locked_to_swap_def)
      then show ?thesis
        by (simp add: locks.locked_lock_all locks.locked_unlock_all set_swap_outputs)
    qed
    then have "L' = locked_swap_outputs s" by (intro fmap_ext) (simp add: L' is_output_locked_to_swap_def)
    with L' show ?thesis by simp
  qed
  with sv g show ?thesis by (simp add: restore_expired_def r)
qed

end
