(* ===== verification/Peg_Undo.thy ===== *)
theory Peg_Undo
  imports Peg_Facts
begin

text \<open>
  Disconnecting the events of a mainchain block undoes their connection: the handlers of
  \<^verbatim>\<open>lib/state/two_way_peg_data.rs\<close> in pairs, then whole runs of events.
\<close>

section \<open>Steps on different keys\<close>

text \<open>Where a step leaves the preconditions of steps on other keys alone, a run over distinct keys
  can be undone as soon as every step can be undone at its start.\<close>

locale keyed_undo = undoable step undo pre
  for step :: "'x \<Rightarrow> 's \<Rightarrow> 'e + 's" and undo :: "'x \<Rightarrow> 's \<Rightarrow> 'e + 's" and pre :: "'x \<Rightarrow> 's \<Rightarrow> bool" +
  fixes key :: "'x \<Rightarrow> 'k"
  assumes keep: "key y \<noteq> key x \<Longrightarrow> pre y s \<Longrightarrow> step x s = Inr s' \<Longrightarrow> pre y s'"
begin

lemma keyed_pre_run: "distinct (map key xs) \<Longrightarrow> list_all (\<lambda>x. pre x s) xs \<Longrightarrow> pre_run xs s"
proof (induction xs arbitrary: s)
  case (Cons x xs)
  have "list_all (\<lambda>y. pre y s') xs" if "step x s = Inr s'" for s'
    using Cons.prems that keep [of _ x s s'] by (auto simp: list_all_iff image_iff)
  with Cons show ?case by simp
qed simp

lemma keyed_undo_run:
  "distinct (map key xs) \<Longrightarrow> list_all (\<lambda>x. pre x s) xs \<Longrightarrow> try_fold step xs s = Inr s' \<Longrightarrow>
   try_fold undo (rev xs) s' = Inr s"
  by (intro undo_run keyed_pre_run)

end

section \<open>Outputs of a bundle\<close>

definition spend_for :: "M6id \<Rightarrow> OutPoint \<times> Output \<Rightarrow> 'acc State \<Rightarrow> 'acc State" where
  "spend_for m6id = (\<lambda>(op, out) s. s\<lparr>utxos := fmdrop op (utxos s),
     stxos := fmupd op \<lparr>spent_output = out, inpoint = InWithdrawal m6id\<rparr> (stxos s)\<rparr>)"

definition return_output :: "OutPoint \<times> Output \<Rightarrow> 'acc State \<Rightarrow> 'acc State" where
  "return_output = (\<lambda>(op, out) s. s\<lparr>utxos := fmupd op out (utxos s), stxos := fmdrop op (stxos s)\<rparr>)"

definition unsubmit_state :: "OutPoint \<times> Output \<Rightarrow> 'acc State \<Rightarrow> 'acc State res" where
  "unsubmit_state e s = (if fmlookup (stxos s) (fst e) = None then err (NoStxo (fst e))
     else Inr (return_output e s))"

definition unfail_state :: "M6id \<Rightarrow> OutPoint \<times> Output \<Rightarrow> 'acc State \<Rightarrow> 'acc State res" where
  "unfail_state m6id e s = (if fmlookup (utxos s) (fst e) = None then err (NoUtxo (fst e))
     else Inr (spend_for m6id e s))"

text \<open>Such an output is unspent with this value, or spent by the bundle with this value.\<close>

definition held :: "OutPoint \<times> Output \<Rightarrow> 'acc State \<Rightarrow> bool" where
  "held = (\<lambda>(op, out) s. fmlookup (utxos s) op = Some out \<and> fmlookup (stxos s) op = None)"

definition spent_by :: "M6id \<Rightarrow> OutPoint \<times> Output \<Rightarrow> 'acc State \<Rightarrow> bool" where
  "spent_by m6id = (\<lambda>(op, out) s. fmlookup (utxos s) op = None \<and>
     fmlookup (stxos s) op = Some \<lparr>spent_output = out, inpoint = InWithdrawal m6id\<rparr>)"

lemmas bundle_output_defs =
  spend_for_def return_output_def unsubmit_state_def unfail_state_def held_def spent_by_def

interpretation submitting: keyed_undo "\<lambda>e s. Inr (spend_for m6id e s)" unsubmit_state held fst for m6id
  by unfold_locales
    (auto simp: bundle_output_defs db_put_same db_drop_put_fresh split: prod.splits)

interpretation failing: keyed_undo "\<lambda>e s. Inr (return_output e s)" "unfail_state m6id" "spent_by m6id" fst for m6id
  by unfold_locales
    (auto simp: bundle_output_defs db_put_same db_drop_put_fresh split: prod.splits)

lemma distinct_btree_iter: "distinct (map fst (btree_iter m))"
  by (simp add: btree_iter_def btree_keys_def comp_def)

lemma try_fold_Inr: "try_fold (\<lambda>x s. Inr (g x s)) xs s = Inr (fold g xs s)"
  by (rule try_fold_total) simp

section \<open>The state part of the handlers\<close>

definition state_of :: "'acc Peg res \<Rightarrow> 'acc State res" where
  "state_of r = and_then r (\<lambda>p. Inr (peg_state p))"

lemma state_of_simps [simp]: "state_of (Inr p) = Inr (peg_state p)" "state_of (Inl e) = Inl e"
  by (simp_all add: state_of_def)

lemma state_of_eq_Inr: "state_of r = Inr s \<longleftrightarrow> (\<exists>p. r = Inr p \<and> peg_state p = s)"
  by (cases r) auto

lemma state_of_try_fold:
  assumes "\<And>x p. state_of (f x p) = g x (peg_state p)"
  shows "state_of (try_fold f xs p) = try_fold g xs (peg_state p)"
proof (induction xs arbitrary: p)
  case (Cons x xs)
  show ?case
  proof (cases "f x p")
    case (Inl e)
    with assms [of x p] show ?thesis by simp (metis and_then_Inl)
  next
    case (Inr q)
    with assms [of x p] Cons.IH show ?thesis by simp (metis and_then_Inr)
  qed
qed simp

lemma state_fold_spend:
  "peg_state (fold (bundle_spend X m6id) es p) = fold (spend_for m6id) es (peg_state p)"
  by (induction es arbitrary: p) (auto simp: bundle_spend_def spend_for_def Let_def)

lemma state_fold_restore:
  "peg_state (fold (bundle_restore X) es p) = fold return_output es (peg_state p)"
proof (induction es arbitrary: p)
  case (Cons e es)
  have "peg_state (bundle_restore X e p) = return_output e (peg_state p)"
    by (cases e) (simp add: bundle_restore_def return_output_def Let_def)
  with Cons show ?case by simp
qed simp

lemma state_unsubmit:
  "state_of (try_fold (unsubmit_output X) es p) = try_fold unsubmit_state es (peg_state p)"
  by (rule state_of_try_fold)
    (auto simp: unsubmit_output_def unsubmit_state_def bundle_restore_def return_output_def Let_def
      split: prod.splits)

lemma state_unfail:
  "state_of (try_fold (unfail_output X m6id) es p) = try_fold (unfail_state m6id) es (peg_state p)"
  by (rule state_of_try_fold)
    (auto simp: unfail_output_def unfail_state_def spend_for_def Let_def split: prod.splits)

text \<open>Bundle outputs and the rest of the state.\<close>

lemma spend_for_frame: "\<exists>u v. fold (spend_for m6id) es s = with_utxos u v s"
proof (induction es arbitrary: s)
  case (Cons e es)
  have "\<exists>u v. spend_for m6id e s = with_utxos u v s"
    by (cases e) (auto simp: spend_for_def with_utxos_def)
  with Cons.IH [of "spend_for m6id e s"] show ?case by fastforce
qed (metis fold_simps(1) with_utxos_simps(4))

lemma return_output_frame: "\<exists>u v. fold return_output es s = with_utxos u v s"
proof (induction es arbitrary: s)
  case (Cons e es)
  have "\<exists>u v. return_output e s = with_utxos u v s"
    by (cases e) (auto simp: return_output_def with_utxos_def)
  with Cons.IH [of "return_output e s"] show ?case by fastforce
qed (metis fold_simps(1) with_utxos_simps(4))

section \<open>Handlers in pairs\<close>

text \<open>What the submission of a bundle needs to be undone exactly.\<close>

definition submit_revertible :: "'acc ext \<Rightarrow> u32 \<Rightarrow> M6id \<Rightarrow> 'acc State \<Rightarrow> bool" where
  "submit_revertible X h m6id s =
     (case pending_matches X m6id s of
        Some (b, _) \<Rightarrow>
          list_all (\<lambda>e. held e s) (btree_iter (spend_utxos b)) \<and>
          fmlookup (withdrawal_bundles s) m6id = None
      | None \<Rightarrow>
          (case fmlookup (withdrawal_bundles s) m6id of
             None \<Rightarrow> True
           | Some (_, status) \<Rightarrow>
               hs_height (rb_latest status) \<le> h \<and>
               (hs_value (rb_latest status) = Submitted \<longrightarrow> hs_height (rb_latest status) \<noteq> h)))"

lemma pending_matches_Some:
  "pending_matches X m6id s = Some (b, bh) \<longleftrightarrow>
     pending_withdrawal_bundle s = Some (b, bh) \<and> compute_m6id X b = m6id"
  by (auto simp: pending_matches_def split: option.splits if_splits)

lemma rb_latest_new [simp]: "rb_latest (rb_new v h) = \<lparr>hs_value = v, hs_height = h\<rparr>"
  by (simp add: rb_new_def)

lemma unsubmit_commute:
  fixes g :: "'acc State \<Rightarrow> 'acc State"
  assumes "\<And>s. utxos (g s) = utxos s" "\<And>s. stxos (g s) = stxos s"
    "\<And>e s. return_output e (g s) = g (return_output e s)"
  shows "try_fold unsubmit_state es (g s) = and_then (try_fold unsubmit_state es s) (\<lambda>s'. Inr (g s'))"
  by (rule try_fold_commute [where g = g]) (simp add: unsubmit_state_def assms)

lemma unfail_commute:
  fixes g :: "'acc State \<Rightarrow> 'acc State"
  assumes "\<And>s. utxos (g s) = utxos s" "\<And>s. stxos (g s) = stxos s"
    "\<And>e s. spend_for m6id e (g s) = g (spend_for m6id e s)"
  shows "try_fold (unfail_state m6id) es (g s) = and_then (try_fold (unfail_state m6id) es s) (\<lambda>s'. Inr (g s'))"
  by (rule try_fold_commute [where g = g]) (simp add: unfail_state_def assms)

lemma undo_submitted:
  assumes c: "connect_withdrawal_bundle_submitted X h m6id p = Inr p'"
    and pre: "submit_revertible X h m6id (peg_state p)" and q: "peg_state q = peg_state p'"
  shows "state_of (disconnect_withdrawal_bundle_submitted X h m6id q) = Inr (peg_state p)"
proof (cases "pending_matches X m6id (peg_state p)")
  case None
  then have pend: "pending_matches X m6id (s\<lparr>withdrawal_bundles := w\<rparr>) = None" if "s = peg_state p" for s w
    using that by (simp add: pending_matches_def split: option.splits)
  show ?thesis
  proof (cases "fmlookup (withdrawal_bundles (peg_state p)) m6id")
    case n: None
    with None c have "peg_state p' = put_bundle m6id (Unknown, rb_new Submitted h) (peg_state p)"
      by (auto simp: connect_withdrawal_bundle_submitted_def Let_def)
    with n q show ?thesis
      by (simp add: disconnect_withdrawal_bundle_submitted_def put_bundle_def Let_def db_drop_put_fresh)
  next
    case (Some v)
    obtain info status where v: "v = (info, status)" by (cases v)
    from Some v None c have "p' = p"
      by (auto simp: connect_withdrawal_bundle_submitted_def Let_def split: if_splits)
    with Some v None pre q show ?thesis
      by (auto simp: disconnect_withdrawal_bundle_submitted_def submit_revertible_def Let_def not_less)
  qed
next
  case (Some bb)
  obtain b bh where bb: "bb = (b, bh)" by (cases bb)
  let ?s = "peg_state p" and ?es = "btree_iter (spend_utxos b)"
  let ?s1 = "fold (spend_for m6id) ?es ?s"
  let ?g = "\<lambda>s. (put_bundle m6id (Known b, rb_new Submitted h) s)\<lparr>pending_withdrawal_bundle := None\<rparr>"
  have pend: "pending_withdrawal_bundle ?s = Some (b, bh)" using Some bb by (simp add: pending_matches_Some)
  from Some bb c have bh: "bh = h - 1" and p': "peg_state p' = ?g ?s1"
    by (auto simp: connect_withdrawal_bundle_submitted_def Let_def state_fold_spend split: if_splits)
  from pre Some bb have held: "list_all (\<lambda>e. held e ?s) ?es"
    and fresh: "fmlookup (withdrawal_bundles ?s) m6id = None" by (simp_all add: submit_revertible_def)
  have "try_fold unsubmit_state (rev ?es) ?s1 = Inr ?s"
    by (rule submitting.keyed_undo_run [OF distinct_btree_iter held]) (simp add: try_fold_Inr)
  then have "try_fold unsubmit_state (rev ?es) (?g ?s1) = Inr (?g ?s)"
    by (subst unsubmit_commute) (auto simp: put_bundle_def return_output_def)
  then obtain q1 where q1: "try_fold (unsubmit_output X) (rev ?es) q = Inr q1" "peg_state q1 = ?g ?s"
    using state_unsubmit [of X "rev ?es" q] q p' by (auto simp: state_of_eq_Inr)
  obtain u w where "?s1 = with_utxos u w ?s" using spend_for_frame by blast
  then have look: "fmlookup (withdrawal_bundles (peg_state q)) m6id = Some (Known b, rb_new Submitted h)"
    by (simp add: q p' put_bundle_def)
  show ?thesis
    using pend fresh bh
    by (simp add: disconnect_withdrawal_bundle_submitted_def look Let_def q1 put_bundle_def db_drop_put_fresh)
qed

lemma undo_push_status:
  "push_status st h rb = Inr rb' \<Longrightarrow> hs_value (rb_latest rb) = Submitted \<Longrightarrow>
   pop_status st h rb' = Inr rb \<and> rb_latest rb' = \<lparr>hs_value = st, hs_height = h\<rparr>"
  by (auto simp: push_status_def pop_status_def dest: rb_pop_push rb_push_latest split: sum.splits)

definition recorded ::
  "M6id \<Rightarrow> 'acc State \<Rightarrow> WithdrawalBundleInfo \<Rightarrow> WithdrawalBundleStatus RollBack \<Rightarrow> bool" where
  "recorded m6id s info status \<longleftrightarrow>
     fmlookup (withdrawal_bundles s) m6id = Some (info, status) \<and> hs_value (rb_latest status) = Submitted"

lemma undo_confirmed:
  assumes c: "connect_withdrawal_bundle_confirmed X h bh m6id p = Inr p'"
    and r: "recorded m6id (peg_state p) info status" "is_known info" and q: "peg_state q = peg_state p'"
  shows "state_of (disconnect_withdrawal_bundle_confirmed X h m6id q) = Inr (peg_state p)"
proof -
  from c r obtain status' where ps: "push_status Confirmed h status = Inr status'"
      and p': "peg_state p' = put_bundle m6id (info, status') (peg_state p)"
    by (auto simp: connect_withdrawal_bundle_confirmed_def recorded_def and_then_eq_Inr)
  from undo_push_status [OF ps] r have pop: "pop_status Confirmed h status' = Inr status"
      "hs_value (rb_latest status') = Confirmed" by (simp_all add: recorded_def)
  from r(2) obtain b where "info = Known b" by (cases info) simp_all
  with pop r(1) q p' show ?thesis
    by (simp add: disconnect_withdrawal_bundle_confirmed_def put_bundle_def recorded_def db_put_same)
qed

lemma undo_push_failed:
  "push_failed m6id h r = Inr rb \<Longrightarrow> pop_failed m6id h (Some rb) = Inr r"
  by (auto simp: push_failed_def pop_failed_def rb_pop_new dest: rb_pop_push split: option.splits sum.splits)

lemma undo_failed:
  assumes c: "connect_withdrawal_bundle_failed X h m6id p = Inr p'"
    and r: "recorded m6id (peg_state p) info status"
    and pre: "\<And>b. info = Known b \<Longrightarrow> list_all (\<lambda>e. spent_by m6id e (peg_state p)) (btree_iter (spend_utxos b))"
    and q: "peg_state q = peg_state p'"
  shows "state_of (disconnect_withdrawal_bundle_failed X h m6id q) = Inr (peg_state p)"
proof -
  let ?s = "peg_state p"
  from c r obtain status' p1 where ps: "push_status Failed h status = Inr status'"
      and i: "(case info of
           Known b \<Rightarrow>
             let p1 = fold (bundle_restore X) (btree_iter (spend_utxos b)) p in
             and_then (push_failed m6id h (latest_failed_withdrawal_bundle (peg_state p1))) (\<lambda>rb.
             Inr (p1\<lparr>peg_state := (peg_state p1)\<lparr>latest_failed_withdrawal_bundle := Some rb\<rparr>\<rparr>))
         | _ \<Rightarrow> Inr p) = Inr p1"
      and p': "peg_state p' = put_bundle m6id (info, status') (peg_state p1)"
    by (auto simp: connect_withdrawal_bundle_failed_def recorded_def and_then_eq_Inr)
  from undo_push_status [OF ps] r have pop: "pop_status Failed h status' = Inr status"
      "hs_value (rb_latest status') = Failed" by (simp_all add: recorded_def)
  have look: "fmlookup (withdrawal_bundles (peg_state q)) m6id = Some (info, status')"
    by (simp add: q p' put_bundle_def)
  show ?thesis
  proof (cases "\<exists>b. info = Known b")
    case False
    then have "p1 = p" using i by (cases info) simp_all
    with False pop look r q p' show ?thesis
      by (cases info)
        (simp_all add: disconnect_withdrawal_bundle_failed_def put_bundle_def recorded_def db_put_same)
  next
    case True
    then obtain b where b: "info = Known b" by blast
    let ?es = "btree_iter (spend_utxos b)"
    let ?s1 = "fold return_output ?es ?s"
    obtain u v where s1: "?s1 = with_utxos u v ?s" using return_output_frame by blast
    from i b obtain rb where rb: "push_failed m6id h (latest_failed_withdrawal_bundle ?s1) = Inr rb"
        and p1: "peg_state p1 = ?s1\<lparr>latest_failed_withdrawal_bundle := Some rb\<rparr>"
      by (auto simp: Let_def and_then_eq_Inr state_fold_restore)
    let ?g = "\<lambda>s. put_bundle m6id (info, status') (s\<lparr>latest_failed_withdrawal_bundle := Some rb\<rparr>)"
    have "try_fold (unfail_state m6id) (rev ?es) ?s1 = Inr ?s"
      by (rule failing.keyed_undo_run [OF distinct_btree_iter pre [OF b]]) (simp add: try_fold_Inr)
    then have "try_fold (unfail_state m6id) (rev ?es) (?g ?s1) = Inr (?g ?s)"
      by (subst unfail_commute) (auto simp: put_bundle_def spend_for_def)
    then obtain q1 where q1: "try_fold (unfail_output X m6id) (rev ?es) q = Inr q1" "peg_state q1 = ?g ?s"
      using state_unfail [of X m6id "rev ?es" q] q p' p1 by (auto simp: state_of_eq_Inr)
    have "pop_failed m6id h (Some rb) = Inr (latest_failed_withdrawal_bundle ?s)"
      using undo_push_failed [OF rb] by (simp add: s1 with_utxos_def)
    with pop look r q1 b show ?thesis
      by (simp add: disconnect_withdrawal_bundle_failed_def put_bundle_def recorded_def db_put_same)
  qed
qed

section \<open>Runs of events\<close>

fun event_revertible :: "'acc ext \<Rightarrow> u32 \<Rightarrow> hash256 \<times> BlockEvent \<Rightarrow> 'acc State \<Rightarrow> bool" where
  "event_revertible X h (bh, EvDeposit dep) s = (fmlookup (utxos s) (OpDeposit (dep_outpoint dep)) = None)"
| "event_revertible X h (bh, EvBundle m6id Submitted) s = submit_revertible X h m6id s"
| "event_revertible X h (bh, EvBundle m6id Confirmed) s =
     (\<exists>b status. recorded m6id s (Known b) status)"
| "event_revertible X h (bh, EvBundle m6id Failed) s =
     (\<exists>info status. recorded m6id s info status \<and>
        (\<forall>b. info = Known b \<longrightarrow> list_all (\<lambda>e. spent_by m6id e s) (btree_iter (spend_utxos b))))"

lemma undo_event:
  assumes c: "connect_event X h e p = Inr p'" and pre: "event_revertible X h e (peg_state p)"
    and q: "peg_state q = peg_state p'"
  shows "state_of (disconnect_event X h e q) = Inr (peg_state p)"
proof (cases e)
  case (Pair bh ev)
  show ?thesis
  proof (cases ev)
    case (EvDeposit dep)
    with Pair c pre q show ?thesis
      by (auto simp: connect_event_def disconnect_event_def Let_def db_drop_put_fresh)
  next
    case (EvBundle m6id status)
    with Pair c obtain p1 where c1: "connect_withdrawal_bundle_event X h bh m6id status p = Inr p1"
        and p1: "peg_state p1 = peg_state p'"
      by (auto simp: connect_event_def and_then_eq_Inr)
    have "state_of (disconnect_withdrawal_bundle_event X h m6id status q) = Inr (peg_state p)"
    proof (cases status)
      case Submitted
      then show ?thesis using c1 pre Pair EvBundle q p1
        by (auto simp: connect_withdrawal_bundle_event_def disconnect_withdrawal_bundle_event_def
            intro: undo_submitted)
    next
      case Confirmed
      then show ?thesis using c1 pre Pair EvBundle q p1
        by (auto simp: connect_withdrawal_bundle_event_def disconnect_withdrawal_bundle_event_def
            intro: undo_confirmed)
    next
      case Failed
      then show ?thesis using c1 pre Pair EvBundle q p1
        by (auto simp: connect_withdrawal_bundle_event_def disconnect_withdrawal_bundle_event_def
            intro!: undo_failed)
    qed
    then show ?thesis using Pair EvBundle
      by (auto simp: disconnect_event_def state_of_eq_Inr)
  qed
qed

fun events_revertible :: "'acc ext \<Rightarrow> u32 \<Rightarrow> (hash256 \<times> BlockEvent) list \<Rightarrow> 'acc Peg \<Rightarrow> bool" where
  "events_revertible X h [] p = True"
| "events_revertible X h (e # es) p =
     (event_revertible X h e (peg_state p) \<and>
      (case connect_event X h e p of Inr p' \<Rightarrow> events_revertible X h es p' | Inl _ \<Rightarrow> True))"

lemma undo_events:
  assumes "try_fold (connect_event X h) es p = Inr p'" "events_revertible X h es p"
    and "peg_state q = peg_state p'"
  shows "state_of (try_fold (disconnect_event X h) (rev es) q) = Inr (peg_state p)"
  using assms
proof (induction es arbitrary: p)
  case (Cons e es)
  from Cons.prems obtain p1 where p1: "connect_event X h e p = Inr p1"
      "try_fold (connect_event X h) es p1 = Inr p'" by (auto simp: and_then_eq_Inr)
  with Cons obtain q1 where q1: "try_fold (disconnect_event X h) (rev es) q = Inr q1"
      "peg_state q1 = peg_state p1" by (auto simp: state_of_eq_Inr)
  from Cons.prems(2) have "state_of (disconnect_event X h e q1) = Inr (peg_state p)"
    by (intro undo_event [OF p1(1) _ q1(2)]) simp
  with q1 show ?case by (auto simp: try_fold_append state_of_def and_then_assoc)
qed simp

end
