(* ===== verification/Peg_Bundle.thy ===== *)
theory Peg_Bundle
  imports Peg_Undo
begin

text \<open>
  The value of a collected withdrawal bundle: what its outputs pay to each mainchain address and
  what its fee output commits to is exactly what the withdrawal outputs it spends ask for.
\<close>

section \<open>Sums over tables\<close>

definition table_sum :: "('v \<Rightarrow> nat) \<Rightarrow> ('k, 'v) fmap \<Rightarrow> nat" where
  "table_sum f m = (\<Sum>k \<in> fmdom' m. f (the (fmlookup m k)))"

lemma table_sum_empty [simp]: "table_sum f fmempty = 0"
  by (simp add: table_sum_def)

lemma table_sum_fresh: "fmlookup m k = None \<Longrightarrow> table_sum f (fmupd k v m) = f v + table_sum f m"
proof -
  assume k: "fmlookup m k = None"
  have "(\<Sum>x \<in> fmdom' m. f (the (fmlookup (fmupd k v m) x))) = table_sum f m"
    unfolding table_sum_def using k by (intro sum.cong) (auto simp: fmdom'_notI)
  moreover have "k \<notin> fmdom' m" using k by (rule fmdom'_notI)
  ultimately show ?thesis by (simp add: table_sum_def)
qed

lemma table_sum_add:
  assumes "\<And>k. fmlookup m k = None \<or> fmlookup n k = None"
  shows "table_sum f (m ++\<^sub>f n) = table_sum f m + table_sum f n"
proof -
  have dis: "fmdom' m \<inter> fmdom' n = {}"
    using assms by (metis disjoint_iff fmdom'_notD fmdom'_notI fmlookup_dom'_iff option.distinct(1))
  have "table_sum f (m ++\<^sub>f n) =
      (\<Sum>k \<in> fmdom' m. f (the (fmlookup (m ++\<^sub>f n) k))) + (\<Sum>k \<in> fmdom' n. f (the (fmlookup (m ++\<^sub>f n) k)))"
    unfolding table_sum_def by (simp add: sum.union_disjoint dis)
  also have "(\<Sum>k \<in> fmdom' m. f (the (fmlookup (m ++\<^sub>f n) k))) = table_sum f m"
    unfolding table_sum_def
  proof (intro sum.cong refl)
    fix k assume "k \<in> fmdom' m"
    then have "fmlookup n k = None" using assms by (metis fmdom'_notI)
    then show "f (the (fmlookup (m ++\<^sub>f n) k)) = f (the (fmlookup m k))" by (simp add: fmdom_notI)
  qed
  also have "(\<Sum>k \<in> fmdom' n. f (the (fmlookup (m ++\<^sub>f n) k))) = table_sum f n"
    unfolding table_sum_def by (intro sum.cong) (auto simp: fmlookup_dom'_iff)
  finally show ?thesis .
qed

lemma table_sum_cong:
  "(\<And>k v. fmlookup m k = Some v \<Longrightarrow> f v = g v) \<Longrightarrow> table_sum f m = table_sum g m"
  unfolding table_sum_def by (intro sum.cong) (auto simp: fmlookup_dom'_iff)

lemma table_sum_none: "(\<And>k v. fmlookup m k = Some v \<Longrightarrow> f v = 0) \<Longrightarrow> table_sum f m = 0"
  using table_sum_cong [of m f "\<lambda>_. 0"] by (simp add: table_sum_def)

section \<open>Aggregation\<close>

fun withdrawn :: "Output \<Rightarrow> nat" where
  "withdrawn out = (case content out of Content.Withdrawal v f a \<Rightarrow> unat v | _ \<Rightarrow> 0)"

fun main_fee_of :: "Output \<Rightarrow> nat" where
  "main_fee_of out = (case content out of Content.Withdrawal v f a \<Rightarrow> unat f | _ \<Rightarrow> 0)"

definition pays_to :: "MainAddress \<Rightarrow> Output \<Rightarrow> bool" where
  "pays_to a out \<longleftrightarrow> (\<exists>v f. content out = Content.Withdrawal v f a)"

text \<open>What an output asks for at one address, and the addresses that a table of outputs pays to.\<close>

definition withdrawn_to :: "MainAddress \<Rightarrow> Output \<Rightarrow> nat" where
  "withdrawn_to a out = (if pays_to a out then withdrawn out else 0)"

definition paid_addresses :: "(OutPoint, Output) fmap \<Rightarrow> MainAddress set" where
  "paid_addresses m = {a. \<exists>op out. fmlookup m op = Some out \<and> pays_to a out}"

text \<open>An aggregate of outputs of \<open>u\<close> for its address, with their sums.\<close>

definition agg_ok :: "(OutPoint \<times> Output) set \<Rightarrow> AggregatedWithdrawal \<Rightarrow> bool" where
  "agg_ok u a \<longleftrightarrow>
     (\<forall>op out. fmlookup (agg_spend_utxos a) op = Some out \<longrightarrow>
        (op, out) \<in> u \<and> pays_to (agg_main_address a) out) \<and>
     unat (agg_value a) = table_sum withdrawn (agg_spend_utxos a) \<and>
     unat (agg_main_fee a) = table_sum main_fee_of (agg_spend_utxos a)"

definition aggregates_ok ::
  "(OutPoint \<times> Output) set \<Rightarrow> (MainAddress, AggregatedWithdrawal) fmap \<Rightarrow> bool" where
  "aggregates_ok u m \<longleftrightarrow>
     (\<forall>addr a. fmlookup m addr = Some a \<longrightarrow> agg_main_address a = addr \<and> agg_ok u a \<and> agg_spend_utxos a \<noteq> fmempty)"

lemma fmupd_nonempty: "fmupd k v m \<noteq> fmempty"
  by (metis fmempty_lookup fmupd_lookup option.distinct(1))

lemma agg_ok_mono: "agg_ok u a \<Longrightarrow> u \<subseteq> w \<Longrightarrow> agg_ok w a"
  by (auto simp: agg_ok_def)

lemma aggregate_step:
  assumes st: "aggregate_output (op, out) m = Inr m'" and ok: "aggregates_ok u m"
    and fresh: "op \<notin> fst ` u"
  shows "aggregates_ok (insert (op, out) u) m'"
proof (cases "\<exists>v f addr. content out = Content.Withdrawal v f addr")
  case False
  then have "m' = m" using st by (auto simp: aggregate_output_def split: Content.splits)
  then show ?thesis using ok by (auto simp: aggregates_ok_def intro: agg_ok_mono)
next
  case True
  then obtain v f addr where c: "content out = Content.Withdrawal v f addr" by blast
  define a where "a = (case fmlookup m addr of Some a \<Rightarrow> a
    | None \<Rightarrow> \<lparr>agg_spend_utxos = fmempty, agg_main_address = addr, agg_value = 0, agg_main_fee = 0\<rparr>)"
  have a: "agg_main_address a = addr" "agg_ok u a"
    using ok by (auto simp: a_def aggregates_ok_def agg_ok_def split: option.splits)
  from st c obtain v' f' where vf: "checked_add (agg_value a) v = Some v'"
      "checked_add (agg_main_fee a) f = Some f'"
      and m': "m' = fmupd addr (a\<lparr>agg_value := v', agg_main_fee := f',
                            agg_spend_utxos := fmupd op out (agg_spend_utxos a)\<rparr>) m"
    by (auto simp: aggregate_output_def Let_def and_then_eq_Inr ok_or_eq_Inr a_def)
  have op: "fmlookup (agg_spend_utxos a) op = None"
  proof (rule ccontr)
    assume "fmlookup (agg_spend_utxos a) op \<noteq> None"
    then obtain out' where "(op, out') \<in> u" using a(2) by (auto simp: agg_ok_def)
    with fresh show False by force
  qed
  have "agg_ok (insert (op, out) u) (a\<lparr>agg_value := v', agg_main_fee := f',
      agg_spend_utxos := fmupd op out (agg_spend_utxos a)\<rparr>)"
    using a vf c by (auto simp: agg_ok_def table_sum_fresh [OF op] checked_add_Some pays_to_def)
  with ok a(1) show ?thesis
    by (auto simp: m' aggregates_ok_def fmupd_nonempty intro: agg_ok_mono)
qed

lemma aggregate_all:
  assumes "try_fold aggregate_output es m = Inr m'" "aggregates_ok u m"
    and "distinct (map fst es)" "fst ` set es \<inter> fst ` u = {}"
  shows "aggregates_ok (u \<union> set es) m'"
  using assms
proof (induction es arbitrary: m u)
  case (Cons e es)
  obtain op out where e: "e = (op, out)" by (cases e)
  from Cons.prems(1) obtain m1 where m1: "aggregate_output (op, out) m = Inr m1"
      "try_fold aggregate_output es m1 = Inr m'" by (auto simp: e and_then_eq_Inr)
  have "aggregates_ok (insert (op, out) u) m1"
    using Cons.prems by (intro aggregate_step [OF m1(1)]) (auto simp: e)
  from Cons.IH [OF m1(2) this] Cons.prems have "aggregates_ok (insert (op, out) u \<union> set es) m'"
    by (auto simp: e)
  then show ?case by (simp add: e insert_commute Un_insert_left)
qed simp

section \<open>The bundle\<close>

text \<open>One output for each address that the spent outputs pay to, worth what they ask for there.\<close>

definition pays_each :: "'acc ext \<Rightarrow> (OutPoint, Output) fmap \<Rightarrow> TxOut list \<Rightarrow> bool" where
  "pays_each X m pays \<longleftrightarrow>
     (\<exists>addrs. distinct addrs \<and> set addrs = paid_addresses m \<and>
        map snd pays = map (script_pubkey X) addrs \<and>
        map (\<lambda>(v, _). unat v) pays = map (\<lambda>a. table_sum (withdrawn_to a) m) addrs)"

definition acc_ok :: "'acc ext \<Rightarrow> (OutPoint \<times> Output) set \<Rightarrow> BundleAcc \<Rightarrow> bool" where
  "acc_ok X u acc \<longleftrightarrow>
     (\<forall>op out. fmlookup (ba_spend acc) op = Some out \<longrightarrow> (op, out) \<in> u \<and> is_withdrawal (content out)) \<and>
     unat (ba_fee acc) = table_sum main_fee_of (ba_spend acc) \<and>
     (\<Sum>(v, _)\<leftarrow>ba_outputs acc. unat v) = table_sum withdrawn (ba_spend acc) \<and>
     pays_each X (ba_spend acc) (ba_outputs acc)"

text \<open>No output of the accumulator pays to an address that is still to come.\<close>

definition acc_apart :: "AggregatedWithdrawal list \<Rightarrow> BundleAcc \<Rightarrow> bool" where
  "acc_apart as acc \<longleftrightarrow>
     (\<forall>op out a. fmlookup (ba_spend acc) op = Some out \<longrightarrow> a \<in> set as \<longrightarrow> \<not> pays_to (agg_main_address a) out)"

definition functional :: "('a \<times> 'b) set \<Rightarrow> bool" where
  "functional u \<longleftrightarrow> (\<forall>x y z. (x, y) \<in> u \<longrightarrow> (x, z) \<in> u \<longrightarrow> y = z)"

lemma pays_to_unique: "pays_to a out \<Longrightarrow> pays_to b out \<Longrightarrow> a = b"
  by (auto simp: pays_to_def)

lemma pays_each_add:
  assumes m: "pays_each X m pays" and a: "agg_ok u a" "agg_spend_utxos a \<noteq> fmempty"
    and apart: "\<And>op. fmlookup m op = None \<or> fmlookup (agg_spend_utxos a) op = None"
    and new: "agg_main_address a \<notin> paid_addresses m"
  shows "pays_each X (m ++\<^sub>f agg_spend_utxos a) (pays @ [(agg_value a, script_pubkey X (agg_main_address a))])"
proof -
  let ?n = "agg_spend_utxos a" and ?addr = "agg_main_address a"
  from m obtain addrs where ad: "distinct addrs" "set addrs = paid_addresses m"
      "map snd pays = map (script_pubkey X) addrs"
      "map (\<lambda>(v, _). unat v) pays = map (\<lambda>a. table_sum (withdrawn_to a) m) addrs"
    by (auto simp: pays_each_def)
  from a(2) obtain op0 out0 where o0: "fmlookup ?n op0 = Some out0"
    by (metis fmap_ext fmempty_lookup option.exhaust)
  have n: "pays_to ?addr out" if "fmlookup ?n op = Some out" for op out
    using a(1) that by (auto simp: agg_ok_def)
  have paid: "paid_addresses (m ++\<^sub>f ?n) = insert ?addr (paid_addresses m)"
  proof
    show "paid_addresses (m ++\<^sub>f ?n) \<subseteq> insert ?addr (paid_addresses m)"
      by (auto simp: paid_addresses_def split: if_splits dest: n intro: pays_to_unique)
    have "fmlookup (m ++\<^sub>f ?n) op = Some out" if "fmlookup m op = Some out" for op out
      using that apart [of op] by (auto simp: fmdom_notI)
    moreover have "fmlookup (m ++\<^sub>f ?n) op0 = Some out0" using o0 by (simp add: fmdomI)
    ultimately show "insert ?addr (paid_addresses m) \<subseteq> paid_addresses (m ++\<^sub>f ?n)"
      using n [OF o0] unfolding paid_addresses_def by blast
  qed
  have other: "table_sum (withdrawn_to b) (m ++\<^sub>f ?n) = table_sum (withdrawn_to b) m" if "b \<in> set addrs" for b
  proof -
    have "b \<noteq> ?addr" using that new ad(2) by blast
    then have "table_sum (withdrawn_to b) ?n = 0"
      by (intro table_sum_none) (auto simp: withdrawn_to_def dest: n pays_to_unique)
    then show ?thesis by (simp add: table_sum_add [OF apart])
  qed
  have "table_sum (withdrawn_to ?addr) m = 0"
    using new by (intro table_sum_none) (auto simp: withdrawn_to_def paid_addresses_def)
  moreover have "table_sum (withdrawn_to ?addr) ?n = table_sum withdrawn ?n"
    using n by (intro table_sum_cong) (auto simp: withdrawn_to_def)
  ultimately have own: "table_sum (withdrawn_to ?addr) (m ++\<^sub>f ?n) = unat (agg_value a)"
    using a(1) by (simp add: table_sum_add [OF apart] agg_ok_def)
  show ?thesis
    unfolding pays_each_def
    by (rule exI [of _ "addrs @ [?addr]"]) (use ad new other own paid in simp)
qed

lemma add_aggregate:
  assumes fn: "functional u" and acc: "acc_ok X u acc" and a: "agg_ok u a" and ne: "agg_spend_utxos a \<noteq> fmempty"
    and ap: "acc_apart [a] acc" and fee: "checked_add (ba_fee acc) (agg_main_fee a) = Some fee'"
  shows "acc_ok X u \<lparr>ba_fee = fee', ba_spend = ba_spend acc ++\<^sub>f agg_spend_utxos a,
    ba_outputs = ba_outputs acc @ [(agg_value a, script_pubkey X (agg_main_address a))], ba_size = sz\<rparr>"
proof -
  have dis: "fmlookup (ba_spend acc) op = None \<or> fmlookup (agg_spend_utxos a) op = None" for op
  proof (rule ccontr)
    assume "\<not> ?thesis"
    then obtain o1 o2 where o: "fmlookup (ba_spend acc) op = Some o1" "fmlookup (agg_spend_utxos a) op = Some o2"
      by auto
    with acc a have "(op, o1) \<in> u" "(op, o2) \<in> u" "pays_to (agg_main_address a) o2"
      by (auto simp: acc_ok_def agg_ok_def)
    with fn have "pays_to (agg_main_address a) o1" unfolding functional_def by blast
    with ap o show False by (auto simp: acc_apart_def)
  qed
  note sums = table_sum_add [OF this]
  have "agg_main_address a \<notin> paid_addresses (ba_spend acc)"
    using ap by (auto simp: acc_apart_def paid_addresses_def)
  with acc have "pays_each X (ba_spend acc ++\<^sub>f agg_spend_utxos a)
      (ba_outputs acc @ [(agg_value a, script_pubkey X (agg_main_address a))])"
    by (intro pays_each_add [OF _ a ne dis]) (simp_all add: acc_ok_def)
  moreover have "\<forall>op out. fmlookup (ba_spend acc ++\<^sub>f agg_spend_utxos a) op = Some out \<longrightarrow>
      (op, out) \<in> u \<and> is_withdrawal (content out)"
    using acc a by (auto simp: acc_ok_def agg_ok_def pays_to_def split: if_splits) fastforce+
  ultimately show ?thesis using acc a fee
    by (simp add: acc_ok_def agg_ok_def sums checked_add_Some)
qed

lemma bundle_loop_ok:
  assumes "functional u"
  shows "bundle_loop X as acc = Inr acc' \<Longrightarrow> acc_ok X u acc \<Longrightarrow> acc_apart as acc \<Longrightarrow>
    list_all (\<lambda>a. agg_ok u a \<and> agg_spend_utxos a \<noteq> fmempty) as \<Longrightarrow>
    distinct (map agg_main_address as) \<Longrightarrow> acc_ok X u acc'"
proof (induction as arbitrary: acc)
  case (Cons a as)
  let ?spk = "script_pubkey X (agg_main_address a)" and ?n = "length (ba_outputs acc) + 1"
  let ?add = "\<lambda>fee' size'. \<lparr>ba_fee = fee', ba_spend = ba_spend acc ++\<^sub>f agg_spend_utxos a,
    ba_outputs = ba_outputs acc @ [(agg_value a, ?spk)], ba_size = size'\<rparr>"
  have ap: "acc_apart as acc" "acc_apart [a] acc" using Cons.prems(3) by (auto simp: acc_apart_def)
  have skip: ?case if "bundle_loop X (a # as) acc = bundle_loop X as acc"
    using Cons that ap by simp
  have stop: ?case if "bundle_loop X (a # as) acc = Inr acc"
    using Cons.prems that by simp
  note loop = bundle_loop.simps(2) [of X a as acc] Let_def
  consider "2 ^ 32 \<le> ?n" | "\<not> 2 ^ 32 \<le> ?n" "2 ^ 32 \<le> length ?spk \<or> txout_size (word_of_nat (length ?spk)) = None"
    | sz where "\<not> 2 ^ 32 \<le> ?n" "\<not> 2 ^ 32 \<le> length ?spk" "txout_size (word_of_nat (length ?spk)) = Some sz"
    by blast
  then show ?case
  proof cases
    case 1
    then show ?thesis by (intro stop) (simp add: loop)
  next
    case 2
    then show ?thesis by (intro skip) (auto simp: loop)
  next
    case (3 sz)
    show ?thesis
    proof (cases "\<exists>size'. checked_add (ba_size acc) sz = Some size' \<and> predict_weight (word_of_nat ?n) size' \<noteq> None")
      case False
      with 3 show ?thesis by (intro stop) (auto simp: loop split: option.splits)
    next
      case True
      then obtain size' where s: "checked_add (ba_size acc) sz = Some size'" "predict_weight (word_of_nat ?n) size' \<noteq> None"
        by blast
      with 3 Cons.prems(1) obtain fee' where fee: "checked_add (ba_fee acc) (agg_main_fee a) = Some fee'"
          and rest: "bundle_loop X as (?add fee' size') = Inr acc'"
        by (auto simp: loop split: option.splits)
      have "acc_ok X u (?add fee' size')"
        using Cons.prems by (intro add_aggregate [OF assms _ _ _ ap(2) fee]) simp_all
      moreover have "acc_apart as (?add fee' size')"
        using ap(1) Cons.prems(4,5)
        by (fastforce simp: acc_apart_def agg_ok_def pays_to_def split: if_splits)
      ultimately show ?thesis using Cons.IH [OF rest] Cons.prems by simp
    qed
  qed
qed simp

lemma collected_bundle_value:
  assumes "collect_withdrawal_bundle X s h = Inr (Some b)"
  shows "\<exists>commit pays. bundle_tx b =
      [(0, op_return_script (be_bytes 8 (table_sum main_fee_of (spend_utxos b)))), (0, commit)] @ pays \<and>
    table_sum main_fee_of (spend_utxos b) < 2 ^ 64 \<and>
    (\<forall>op out. fmlookup (spend_utxos b) op = Some out \<longrightarrow>
       fmlookup (utxos s) op = Some out \<and> is_withdrawal (content out)) \<and>
    (\<Sum>(v, _)\<leftarrow>pays. unat v) = table_sum withdrawn (spend_utxos b) \<and> pays_each X (spend_utxos b) pays"
proof -
  let ?u = "set (db_iter (utxos s))"
  have new_ok: "(case r of Inl e \<Rightarrow> err (WithdrawalBundleErr e) | Inr b' \<Rightarrow> Inr (Some b')) = Inr (Some b) \<longleftrightarrow> r = Inr b" for r
    by (cases r) simp_all
  from assms obtain m acc where m: "try_fold aggregate_output (db_iter (utxos s)) fmempty = Inr m"
      and acc: "bundle_loop X (rev (sort_key (agg_key X) (map snd (db_iter m))))
          \<lparr>ba_fee = 0, ba_spend = fmempty, ba_outputs = [], ba_size = 0\<rparr> = Inr acc"
      and b: "WithdrawalBundle_new X h (ba_fee acc) (ba_spend acc) (ba_outputs acc) = Inr b"
    by (auto simp: collect_withdrawal_bundle_def and_then_eq_Inr new_ok split: if_splits)
  have agg: "aggregates_ok ?u m"
    using aggregate_all [OF m, of "{}"] by (simp add: aggregates_ok_def)
  have fn: "functional ?u" by (auto simp: functional_def set_db_iter)
  have "map agg_main_address (map snd (db_iter m)) = map fst (db_iter m)"
    using agg by (auto simp: aggregates_ok_def set_db_iter)
  then have dist: "distinct (map agg_main_address (rev (sort_key (agg_key X) (map snd (db_iter m)))))"
    by (metis (no_types, lifting) distinct_db_iter distinct_map distinct_rev distinct_sort rev_map set_rev set_sort)
  have "pays_each X fmempty []" by (simp add: pays_each_def paid_addresses_def)
  then have "acc_ok X ?u \<lparr>ba_fee = 0, ba_spend = fmempty, ba_outputs = [], ba_size = 0\<rparr>"
    by (simp add: acc_ok_def)
  then have "acc_ok X ?u acc"
    by (rule bundle_loop_ok [OF fn acc _ _ _ dist])
      (use agg in \<open>auto simp: acc_apart_def list_all_iff aggregates_ok_def set_db_iter\<close>)
  moreover from this have "table_sum main_fee_of (ba_spend acc) < 2 ^ 64"
    unfolding acc_ok_def using ex_word_iff by blast
  ultimately show ?thesis using b
    by (auto simp: WithdrawalBundle_new_def Let_def acc_ok_def set_db_iter split: if_splits)
qed

end
