(* ===== verification/Examples.thy ===== *)
theory Examples
  imports Peg_Bundle
begin

text \<open>
  A concrete instance of the external functions, and small states, transactions and blocks over
  it: the inputs at which the properties with hypotheses are applied.
\<close>

definition ex_ext :: "hash256 list ext" where
  "ex_ext =
     \<lparr>blake3 = (\<lambda>bs. word_of_nat (length bs)), borsh_tx = (\<lambda>_. [1, 2, 3, 4, 5, 6, 7, 8]),
      borsh_pointed_output = (\<lambda>(op, _). case op of OpDeposit _ \<Rightarrow> [1] | OpCoinbase _ _ \<Rightarrow> [1, 2] | OpRegular _ _ \<Rightarrow> [1, 2, 3]), borsh_header = (\<lambda>_. [1, 2]), borsh_coinbase = (\<lambda>_. [1]),
      borsh_leaf = (\<lambda>_. [1, 2]), borsh_node = (\<lambda>_. [1, 2, 3]), borsh_pair = (\<lambda>_. [1, 2, 3, 4]),
      borsh_body_length = (\<lambda>_. 100),
      build_merkle_root = (\<lambda>_ ls. Some (case ls of
          [] \<Rightarrow> \<lparr>commitment = 0, fees = 0, canonical_size = 0, cbmt_index = 0\<rparr> | l # _ \<Rightarrow> l)),
      key_address = (\<lambda>_. 5), batch_verify = (\<lambda>_. True),
      forest_default = [], forest_modify = (\<lambda>ins del acc. Some (ins @ acc)),
      forest_roots = (\<lambda>acc. acc), forest_prove = (\<lambda>_ _. Some ([], [])),
      forest_verify = (\<lambda>_ _ _. Some True), f64_growth = (\<lambda>start _. start),
      borsh_outpoints = (\<lambda>ops. concat (map OutPointKey_from ops)), hex_read = hex_decode,
      swap_codec = Decodes, script_pubkey = (\<lambda>a. a), address_rank = of_le_bytes,
      main_txid = (\<lambda>outs. word_of_nat (length outs)), main_weight = (\<lambda>outs. 1000)\<rparr>"

lemma db_iter_singleton: "db_iter (fmupd k v fmempty) = [(k, v)]"
  by (simp add: db_iter_def sorted_list_of_fmap_def sorted_list_of_fset_finsert sorted_list_of_fset.rep_eq)

lemma ex_codec [simp]: "codec_ok ex_ext"
  by (simp add: codec_ok_def ex_ext_def)

definition ex_op :: OutPoint where
  "ex_op = OpDeposit (1, 0)"

definition ex_utxo :: Output where
  "ex_utxo = \<lparr>address = 5, content = Value 10\<rparr>"

definition ex_tx :: Transaction where
  "ex_tx = \<lparr>inputs = [(ex_op, 1)], utreexo_proof = ([], []), outputs = [\<lparr>address = 6, content = Value 7\<rparr>],
     data = Regular\<rparr>"

definition ex_state :: "hash256 list State" where
  "ex_state = State_new\<lparr>utxos := fmupd ex_op ex_utxo fmempty\<rparr>"

definition ex_body :: Body where
  "ex_body = \<lparr>coinbase = [\<lparr>address = 8, content = Value 2\<rparr>], transactions = [ex_tx],
     body_authorizations = [\<lparr>verifying_key = [5], signature = []\<rparr>]\<rparr>"

definition ex_header :: Header where
  "ex_header = \<lparr>merkle_root = 4, prev_side_hash = None, prev_main_hash = 0, roots = [2, 3]\<rparr>"

definition ex_pre :: PrevalidatedBlock where
  "ex_pre = \<lparr>filled_transactions = [\<lparr>transaction = ex_tx, spent_utxos = [ex_utxo]\<rparr>],
     computed_merkle_root = 4, total_fees = 3, coinbase_value = 2, next_height = 0,
     accumulator_diff = \<lparr>diff = [(2, True), (1, False), (3, True)], insertions = 2, deletions = 1\<rparr>\<rparr>"

lemma ex_fields [simp]:
  "tip ex_state = None" "height ex_state = None" "inputs ex_tx = [(ex_op, 1)]"
  "outputs ex_tx = [\<lparr>address = 6, content = Value 7\<rparr>]" "content ex_utxo = Value 10"
  by (simp_all add: ex_state_def State_new_def ex_tx_def ex_utxo_def)

lemma ex_filled: "fill_transaction ex_state ex_tx = Inr \<lparr>transaction = ex_tx, spent_utxos = [ex_utxo]\<rparr>"
  by (simp add: fill_transaction_def ex_state_def ex_tx_def State_new_def)

lemmas ex_defs = ex_op_def ex_utxo_def ex_tx_def ex_state_def ex_body_def ex_header_def ex_pre_def State_new_def ex_ext_def

lemma ex_tx_ok: "tx_ok ex_ext ex_state acc \<lparr>transaction = ex_tx, spent_utxos = [ex_utxo]\<rparr>"
proof -
  let ?ft = "\<lparr>transaction = ex_tx, spent_utxos = [ex_utxo]\<rparr>"
  have "check_utreexo_proof ex_ext acc ex_tx = Inr ()"
    by (simp add: check_utreexo_proof_def ex_ext_def acc_verify_def utreexo_res_def)
  moreover have "validate_block_transaction ex_ext ex_state ex_tx ?ft = Inr ()"
    by (simp add: validate_block_transaction_def ex_tx_def ex_state_def State_new_def
        validate_no_locked_outputs_def is_output_locked_to_swap_def)
  moreover have "validate_filled_transaction ex_ext ?ft = Inr 3"
    by (simp add: validate_filled_iff filled_inputs_def ex_tx_def ex_utxo_def get_value_def pointed_hash_def
        ex_ext_def ex_op_def)
  ultimately show ?thesis by (auto simp: tx_ok_def)
qed

lemma ex_prevalidates: "prevalidate ex_ext ex_state ex_header ex_body = Inr ex_pre"
proof -
  let ?ft = "\<lparr>transaction = ex_tx, spent_utxos = [ex_utxo]\<rparr>"
  have limits: "check_limits ex_ext (validating_height ex_state) ex_body = Inr ()"
    by (simp add: check_limits_def body_sigops_limit_def body_size_limit_def body_limit_def
        validating_height_def try_get_height_def ex_defs)
  have root: "body_merkle_root ex_ext ex_header ex_body [?ft] = Inr 4"
    by (simp add: body_merkle_root_def compute_merkle_root_def cbmt_leaf_def get_fee_def get_value_in_def
        get_value_out_def get_value_def checked_add_def ex_defs)
  have owners: "check_body_owners ex_ext ex_body [?ft] = Inr ()"
    by (simp add: check_body_owners_def get_address_def ex_defs)
  have auths: "check_body_authorizations ex_ext ex_body = Inr ()"
    by (simp add: check_body_authorizations_def verify_authorizations_def check_count_def inputs_len_def
        ensure_def list_all_iff ex_defs)
  have d: "body_diff ex_ext 4 ex_body = accumulator_diff ex_pre"
    by (simp add: body_diff_def tx_diff_def output_hashes_def coinbase_outputs_def tx_outputs_def
        enumerate_u32_def pointed_hash_def diff_step_def diff_insert_def diff_remove_def diff_default_def ex_defs)
  have roots: "check_roots ex_ext (accumulator_diff ex_pre) (get_accumulator ex_ext ex_state) ex_header = Inr ()"
    by (simp add: check_roots_def apply_diff_def utreexo_res_def get_accumulator_def ex_defs)
  show ?thesis
    unfolding prevalidate_iff accepted_def
    using limits root owners auths d roots ex_filled ex_tx_ok
    by (simp add: ex_pre_def ex_body_def check_prev_side_hash_def try_get_tip_def get_inputs_def ex_header_def
        fee_of_def validating_height_def try_get_height_def get_value_def)
qed

section \<open>An open swap\<close>

text \<open>An open swap of 10 satoshis, reserved by address 5, with its escrow locked.\<close>

definition ex_swap :: Swap where
  "ex_swap = Swap_new 77 L2ToL1 Regtest (Hash32 (replicate 32 0)) (Some 1) None 10 ''bcrt1'' 20 0 (Some 50) (Some 6)"

definition ex_lock_op :: OutPoint where
  "ex_lock_op = OpRegular 9 0"

definition ex_escrow :: Output where
  "ex_escrow = \<lparr>address = 6, content = SwapPending 10 77\<rparr>"

definition ex_swap_state :: "hash256 list State" where
  "ex_swap_state = State_new\<lparr>swaps := fmupd 77 (Decodes ex_swap) fmempty,
     swaps_by_l1_txid := fmupd (Regtest, l1_txid ex_swap) 77 fmempty,
     locked_swap_outputs := fmupd ex_lock_op 77 fmempty,
     swap_reservations := fmupd 77 \<lparr>claimer = 5, accepted_at_height = 0\<rparr> fmempty,
     utxos := fmupd ex_lock_op ex_escrow fmempty\<rparr>"

definition ex_claim :: "Address option \<Rightarrow> Transaction" where
  "ex_claim declared = \<lparr>inputs = [(ex_lock_op, 3)], utreexo_proof = ([], []),
     outputs = [\<lparr>address = 5, content = Value 10\<rparr>], data = SwapClaim 77 declared None\<rparr>"

lemma ex_swap_fields [simp]:
  "sw_id ex_swap = 77" "l2_recipient ex_swap = None" "l2_amount ex_swap = 10"
  "parent_chain ex_swap = Regtest" "sw_state ex_swap = Pending" "required_confirmations ex_swap = 1"
  "l2_creator_address ex_swap = Some 6" "expires_at_height ex_swap = Some 50"
  "l1_txid ex_swap = Hash32 (replicate 32 0)"
  by (simp_all add: ex_swap_def Swap_new_def)

lemma ex_swap_state_fields [simp]:
  "get_swap i ex_swap_state = (if i = 77 then Some ex_swap else None)"
  "is_output_locked_to_swap op ex_swap_state = (if op = ex_lock_op then Some 77 else None)"
  "get_swap_reservation i ex_swap_state =
     (if i = 77 then Some \<lparr>claimer = 5, accepted_at_height = 0\<rparr> else None)"
  "validating_height ex_swap_state = 0" "tip ex_swap_state = None" "height ex_swap_state = None"
  "swaps_by_recipient ex_swap_state = fmempty"
  by (simp_all add: ex_swap_state_def State_new_def get_swap_def is_output_locked_to_swap_def
      get_swap_reservation_def validating_height_def try_get_height_def)

lemma ex_claim_fields [simp]:
  "inputs (ex_claim d) = [(ex_lock_op, 3)]" "data (ex_claim d) = SwapClaim 77 d None"
  "outputs (ex_claim d) = [\<lparr>address = 5, content = Value 10\<rparr>]"
  by (simp_all add: ex_claim_def)

lemma ex_live: "is_live_at \<lparr>claimer = 5, accepted_at_height = 0\<rparr> Regtest 0"
  by (simp add: is_live_at_iff)

lemma ex_claim_rule: "d \<in> {None, Some 5} \<Longrightarrow> claim_rule ex_swap_state (ex_claim d) 77 d"
  by (auto simp: claim_rule_def spends_def paid_to_def get_value_def entitled_claimer_at_def ex_live)

lemma ex_store_ok: "store_ok ex_swap_state" "swaps_keyed ex_swap_state" "recipient_index_ok ex_swap_state"
  by (auto simp: store_ok_def swaps_keyed_def recipient_index_ok_def split: if_splits)

end
