(* ===== verification/Data_Properties.thy ===== *)
theory Data_Properties
  imports Examples
begin

text \<open>
  Properties of the data types: keys and identifiers, reservations, accumulator diffs, rollback
  values, the weight of a bundle, and the authorizations of a body.
\<close>

lemma diff_run_meaning:
  assumes "diff_wf d"
  shows "diff_wf (fold diff_step ops d) \<and>
    map_of (diff (fold diff_step ops d)) h =
      fold (\<lambda>(ins, k). if k = h then (if ins then net_insert else net_remove) else id) ops (map_of (diff d) h)"
  using assms
proof (induction ops arbitrary: d)
  case (Cons x ops)
  obtain ins k where x: "x = (ins, k)" by (cases x)
  have wf: "diff_wf (diff_step x d)"
    using Cons.prems by (simp add: x diff_step_def diff_insert_wf diff_remove_wf)
  have "map_of (diff (diff_step x d)) h =
      (if k = h then (if ins then net_insert else net_remove) else id) (map_of (diff d) h)"
    using Cons.prems by (simp add: x diff_step_def diff_insert_meaning diff_remove_meaning)
  with Cons.IH [OF wf] show ?case by (simp add: x)
qed simp

lemma address_bytes_of: "length bs = 20 \<Longrightarrow> address_bytes (word_of_nat (of_be_bytes bs)) = bs"
proof -
  assume l: "length bs = 20"
  have "of_le_bytes (rev bs) < 256 ^ 20" using of_le_bytes_bound [of "rev bs"] l by simp
  then have "unat (word_of_nat (of_le_bytes (rev bs)) :: Address) = of_le_bytes (rev bs)"
    by (simp add: unat_of_nat)
  then show ?thesis
    using le_bytes_of_le_bytes [of "rev bs" 20] l by (simp add: address_bytes_def of_be_bytes_def be_bytes_def)
qed

lemma amount_bytes_of: "length bs = 8 \<Longrightarrow> amount_le_bytes (word_of_nat (of_le_bytes bs)) = bs"
proof -
  assume l: "length bs = 8"
  have "of_le_bytes bs < 256 ^ 8" using of_le_bytes_bound [of bs] l by simp
  then have "unat (word_of_nat (of_le_bytes bs) :: amount) = of_le_bytes bs" by (simp add: unat_of_nat)
  then show ?thesis using le_bytes_of_le_bytes [of bs 8] l by (simp add: amount_le_bytes_def)
qed

text \<open>
  The table key of an outpoint has the size that the schema declares, and decoding a key gives
  back the outpoint it encodes.
\<close>

theorem outpoint_key_roundtrip:
  "OutPoint_decode (OutPointKey_from op) = Some op \<and> length (OutPointKey_from op) = outpoint_key_size"
  by (simp add: OutPoint_decode_key OutPointKey_length)

text \<open>
  A 32-byte L1 transaction id survives both of its hexadecimal forms, the canonical one and the
  reversed one of Bitcoin's RPC interface, for every hex codec that decodes what it encodes.
\<close>

theorem txid_hex_roundtrip:
  assumes "hex_codec encode decode" "length h = 32"
  shows "from_hex decode (to_hex encode (Hash32 h)) = Inr (Hash32 h) \<and>
    from_hex_rpc decode (to_hex_rpc encode (Hash32 h)) = Inr (Hash32 h)"
  using hex_codec.from_hex_to_hex [OF assms] hex_codec.from_hex_rpc_to_hex_rpc [OF assms] by blast

theorem txid_hex_roundtrip_witness:
  "from_hex hex_decode (to_hex hex_encode (Hash32 (replicate 32 1))) = Inr (Hash32 (replicate 32 1))"
  using txid_hex_roundtrip [OF hex.hex_codec_axioms, of "replicate 32 1"] by simp

text \<open>
  The bytes hashed into a swap identifier determine the L1 address, the L1 amount and the
  parties, among swaps with a fixed recipient and among open swaps.
\<close>

theorem swap_id_preimage_injective:
  "(swap_id_data a n s (Some r) = swap_id_data a' n' s' (Some r') \<longleftrightarrow> a = a' \<and> n = n' \<and> s = s' \<and> r = r') \<and>
   (swap_id_data a n s None = swap_id_data a' n' s' None \<longleftrightarrow> a = a' \<and> n = n' \<and> s = s')"
  by (blast dest: swap_id_data_inj_recipient swap_id_data_inj_open)

text \<open>
  Between the two kinds the bytes are ambiguous: a swap with a fixed recipient and an open swap
  with other terms can hash the same bytes.
\<close>

theorem swap_id_kinds_collide:
  "\<exists>a n s r a' n' s'. swap_id_data a n s (Some r) = swap_id_data a' n' s' None"
proof -
  let ?A = "\<lambda>n. replicate n (65 :: u8)" and ?open = "string_bytes ''OPEN_SWAP''"
  let ?n = "word_of_nat (of_le_bytes (?A 8))" and ?s = "word_of_nat (of_be_bytes (?A 20))"
  let ?r = "word_of_nat (of_be_bytes (?A 11 @ ?open))"
  have open9: "length ?open = 9" by simp
  have "string_bytes (replicate 11 (CHR ''A'')) = ?A 11" by (simp add: string_bytes_def)
  then have "swap_id_data [] ?n ?s (Some ?r) = swap_id_data (replicate 11 (CHR ''A'')) ?n ?s None"
    using open9 by (simp only: swap_id_data_def option.case amount_bytes_of address_bytes_of
        length_append length_replicate) (simp add: string_bytes_def flip: replicate_add append_assoc)
  then show ?thesis by blast
qed

text \<open>
  A reservation is live from the block of its acceptance for exactly the acceptance window of the
  parent chain; at the end of the height range the window is cut off instead of wrapping.
\<close>

theorem reservation_window:
  "is_live_at r chain h \<longleftrightarrow>
     unat h < min (unat (accepted_at_height r) + unat (accept_expiration_blocks chain)) (2 ^ 32 - 1)"
  by (rule is_live_at_iff)

text \<open>
  An accumulator diff built by any sequence of insertions and removals holds for each hash the
  net effect of the operations on it, has every hash once, and its counters count its entries.
\<close>

theorem diff_refines_net_effect:
  "diff_wf (fold diff_step ops diff_default) \<and>
   map_of (diff (fold diff_step ops diff_default)) h =
     fold (\<lambda>(ins, k). if k = h then (if ins then net_insert else net_remove) else id) ops None"
  using diff_run_meaning [OF diff_default_wf, of ops h] by (simp add: diff_default_def)

text \<open>
  A value pushed with a height that is not below the latest one is popped again and leaves the
  earlier history as it was, and heights stay in order.
\<close>

theorem rollback_push_pop:
  assumes "rb_push v h r = Inr r'" "rb_sorted r"
  shows "rb_pop r' = (Some r, \<lparr>hs_value = v, hs_height = h\<rparr>) \<and> rb_sorted r' \<and> hs_height (rb_latest r) \<le> h"
  using rb_pop_push [OF assms(1)] rb_push_sorted [OF assms(2,1)] assms(1) by (simp add: rb_push_ok)

theorem rollback_push_pop_witness:
  "rb_pop (RollBack \<lparr>hs_value = ''a'', hs_height = 3\<rparr> [\<lparr>hs_value = ''b'', hs_height = 5\<rparr>]) =
     (Some (rb_new ''a'' 3), \<lparr>hs_value = ''b'', hs_height = 5\<rparr>)"
proof -
  have "rb_push ''b'' 5 (rb_new ''a'' 3) =
      Inr (RollBack \<lparr>hs_value = ''a'', hs_height = 3\<rparr> [\<lparr>hs_value = ''b'', hs_height = 5\<rparr>])"
    by (simp add: rb_new_def)
  moreover have "rb_sorted (rb_new ''a'' 3)" by (simp add: rb_sorted_def rb_new_def)
  ultimately show ?thesis using rollback_push_pop [of "''b''" 5 "rb_new ''a'' 3"] by blast
qed

text \<open>
  A predicted bundle weight is four times the byte size that the Bitcoin encoding of the bundle
  transaction has, without overflow, and never above the standard weight limit.
\<close>

theorem predicted_weight_exact:
  assumes "predict_weight n s = Some w"
  shows "w = 4 * (112 + unat (varint_size (unat n + 2)) + unat s) \<and> w \<le> max_standard_tx_weight"
  using assms by (rule predict_weight_value)

theorem predicted_weight_exact_witness: "4 * (112 + unat (varint_size (unat (1 :: u32) + 2)) + unat (31 :: u32)) = 576"
proof -
  have "predict_weight 1 31 = Some 576"
    by (simp add: predict_weight_def tx_base_size_def vec_size_def varint_size_def checked_add_def
        treasury_txin_base_size_value commitment_txout_sizes_value max_standard_tx_weight_def)
  from predicted_weight_exact [OF this] show ?thesis by simp
qed

text \<open>
  A body assembled from authorized transactions, one authorization for each input, gives
  the same authorized transactions back.
\<close>

theorem body_authorizations_roundtrip:
  assumes "list_all (\<lambda>at. length (authorizations at) = length (inputs (auth_transaction at))) ats"
  shows "authorized_transactions (Body_new ats cb) = Some ats"
  using split_authorizations_concat [OF assms, of "[]"]
  by (simp add: authorized_transactions_def Body_new_def)

theorem body_authorizations_roundtrip_witness:
  "authorized_transactions (Body_new [\<lparr>auth_transaction = ex_tx,
       authorizations = [\<lparr>verifying_key = [5], signature = []\<rparr>]\<rparr>] []) =
   Some [\<lparr>auth_transaction = ex_tx, authorizations = [\<lparr>verifying_key = [5], signature = []\<rparr>]\<rparr>]"
  by (rule body_authorizations_roundtrip) simp

text \<open>
  The chunks in which signatures are verified cover the whole list in order, and each has between
  one and \<open>2 ^ 14\<close> of them.
\<close>

theorem authorization_chunks:
  "concat (chunks auth_chunk_size xs) = xs \<and>
   list_all (\<lambda>c. 0 < length c \<and> length c \<le> auth_chunk_size) (chunks auth_chunk_size xs)"
  by (auto simp: list_all_iff auth_chunk_size_def intro!: concat_chunks dest: chunks_length)

end
