(* ===== verification/Swap_Properties.thy ===== *)
theory Swap_Properties
  imports Examples
begin

text \<open>
  Properties of swaps: the consensus and mempool rules, persistence, and the state machine that L1
  observation drives.
\<close>

section \<open>The rules\<close>

text \<open>
  C3. The consensus check of a claim accepts exactly the transactions that spend at least one output
  locked to the swap and none locked to another one, name no claimer or the entitled one, and pay
  the entitled claimer at least the swap's amount, in a sum that fits 64 bits.
\<close>

theorem claim_rule_exact:
  "validate_swap_claim_consensus s tx = Inr () \<longleftrightarrow>
     (case data tx of SwapClaim i declared _ \<Rightarrow> claim_rule s tx i declared | _ \<Rightarrow> False)"
proof (cases "data tx")
  case (SwapClaim i declared pd)
  then show ?thesis by (simp add: claim_consensus_iff)
qed (simp_all add: validate_swap_claim_consensus_def)

text \<open>
  C8. The check of a creation accepts exactly the transactions that satisfy all of the following: it
  spends at least one output, and its identifier is the hash of the terms with the owner of the first
  one; it creates no known swap; the amount is positive; it has outputs; it spends nothing locked to
  another swap; the outputs it spends are together worth at least the amount; it escrows at least
  the amount in outputs tagged with the swap; and both sums fit 64 bits.
\<close>

theorem create_rule_exact:
  "validate_swap_create X s tx ft = Inr () \<longleftrightarrow>
     (case data tx of
        SwapCreate i _ _ _ l2_recip l2_amt l1_addr l1_amt \<Rightarrow> create_rule X s tx ft i l2_recip l2_amt l1_addr l1_amt
      | _ \<Rightarrow> False)"
proof (cases "data tx")
  case (SwapCreate i chain l1tx req l2_recip l2_amt l1_addr l1_amt)
  then show ?thesis by (simp add: create_iff [OF SwapCreate])
qed (simp_all add: validate_swap_create_def)

text \<open>
  C9. The check of an acceptance accepts exactly the transactions that spend no locked output and an
  output of the named claimer, and reserve an open swap that has not expired and has no live
  reservation.
\<close>

theorem accept_rule_exact:
  "validate_swap_accept s tx ft = Inr () \<longleftrightarrow>
     (case data tx of SwapAccept i who \<Rightarrow> accept_rule s tx ft i who | _ \<Rightarrow> False)"
proof (cases "data tx")
  case (SwapAccept i who)
  then show ?thesis by (simp add: accept_iff)
qed (simp_all add: validate_swap_accept_def)

text \<open>
  The mempool adds to the consensus rule of claims that the swap is ready to be claimed and, when
  it is open, has an L1 transaction.
\<close>

theorem mempool_claim_exact:
  "validate_swap_claim s tx = Inr () \<longleftrightarrow>
     (case data tx of
        SwapClaim i declared _ \<Rightarrow>
          claim_rule s tx i declared \<and>
          (\<exists>sw. get_swap i s = Some sw \<and> sw_state sw = ReadyToClaim \<and>
             \<not> (l2_recipient sw = None \<and> is_zero_txid (l1_txid sw)))
      | _ \<Rightarrow> False)"
proof (cases "data tx")
  case (SwapClaim i declared pd)
  then show ?thesis by (auto simp: claim_iff)
qed (simp_all add: validate_swap_claim_def)

text \<open>
  C7. A transaction that passes block validation and spends an output locked to a stored swap
  is a claim of that swap.
\<close>

theorem locked_output_only_claimed:
  assumes "validate_block_transaction X s tx ft = Inr ()"
    and "op \<in> spends tx" "is_output_locked_to_swap op s = Some i" "get_swap i s = Some sw"
  shows "\<exists>declared pd. data tx = SwapClaim i declared pd"
  using assms by (rule block_rule_locked)

theorem locked_output_only_claimed_witness:
  "\<exists>declared pd. data (ex_claim (Some 5)) = SwapClaim 77 declared pd"
proof (rule locked_output_only_claimed [of ex_ext ex_swap_state "ex_claim (Some 5)"
      "\<lparr>transaction = ex_claim (Some 5), spent_utxos = [ex_escrow]\<rparr>" ex_lock_op 77 ex_swap])
  show "validate_block_transaction ex_ext ex_swap_state (ex_claim (Some 5))
      \<lparr>transaction = ex_claim (Some 5), spent_utxos = [ex_escrow]\<rparr> = Inr ()"
    by (simp add: validate_block_transaction_def claim_consensus_iff ex_claim_rule)
qed (simp_all add: spends_def)

text \<open>
  C39. A valid claim stays valid when it also spends any escrow output that is not locked, such
  as one of a cancelled or expired swap, and the owner of that output does not have to sign.
\<close>

theorem claim_takes_unlocked_escrow:
  assumes "claim_rule s tx i declared" "data tx = SwapClaim i declared pd"
    and "is_output_locked_to_swap op s = None" "is_swap_pending (content u)"
  shows "validate_swap_claim_consensus s (tx\<lparr>inputs := inputs tx @ [(op, h)]\<rparr>) = Inr () \<and>
    check_owner X (is_swap_claim (data tx)) (a, u) = Inr ()"
proof
  have "claim_rule s (tx\<lparr>inputs := inputs tx @ [(op, h)]\<rparr>) i declared"
    using assms(1,3) by (auto simp: claim_rule_def spends_def paid_to_def)
  then show "validate_swap_claim_consensus s (tx\<lparr>inputs := inputs tx @ [(op, h)]\<rparr>) = Inr ()"
    using assms(2) by (simp add: claim_consensus_iff)
  show "check_owner X (is_swap_claim (data tx)) (a, u) = Inr ()"
    using assms(2,4) by (simp add: check_owner_def)
qed

theorem claim_takes_unlocked_escrow_witness:
  "validate_swap_claim_consensus ex_swap_state
     ((ex_claim None)\<lparr>inputs := [(ex_lock_op, 3), (ex_op, 1)]\<rparr>) = Inr ()"
  using claim_takes_unlocked_escrow [OF ex_claim_rule [of None] ex_claim_fields(2), of ex_op
      "\<lparr>address = 123, content = SwapPending 5 99\<rparr>" 1 ex_ext "\<lparr>verifying_key = [9], signature = []\<rparr>"]
  by (simp add: ex_op_def ex_lock_op_def)

text \<open>
  C40. A claim of an open swap that names no claimer passes the consensus check, so that a block with
  it can pass prevalidation; but such a block fails to connect, with the error that an open claim
  needs a claimer, wherever the claim is in the block and whatever the other transactions are.
\<close>

theorem unnamed_open_claim_fails:
  assumes "codec_ok X" "swaps_keyed s" "prevalidate X s hdr b = Inr pre"
    and "ft \<in> set (filled_transactions pre)" "data (transaction ft) = SwapClaim i None pd"
    and "get_swap i s = Some sw" "l2_recipient sw = None"
  shows "connect_prevalidated X hdr b pre s = Inl (Fail (InvalidTransaction OpenClaimNeedsClaimer))"
proof -
  have "\<not> claim_named s ft" using assms by (simp add: claim_named_def)
  with assms(4) show ?thesis by (intro prevalidated_unnamed [OF assms(1-3)]) blast
qed

text \<open>A block with one claim, of the open swap, that names no claimer.\<close>

definition ex_claim_body :: Body where
  "ex_claim_body = \<lparr>coinbase = [], transactions = [ex_claim None],
     body_authorizations = [\<lparr>verifying_key = [5], signature = []\<rparr>]\<rparr>"

definition ex_claim_header :: Header where
  "ex_claim_header = \<lparr>merkle_root = 4, prev_side_hash = None, prev_main_hash = 0, roots = []\<rparr>"

definition ex_claim_pre :: PrevalidatedBlock where
  "ex_claim_pre = \<lparr>filled_transactions = [\<lparr>transaction = ex_claim None, spent_utxos = [ex_escrow]\<rparr>],
     computed_merkle_root = 4, total_fees = 0, coinbase_value = 0, next_height = 0,
     accumulator_diff = diff_default\<rparr>"

lemmas ex_claim_defs = ex_claim_body_def ex_claim_header_def ex_claim_pre_def ex_claim_def ex_escrow_def
  ex_lock_op_def ex_ext_def

lemma ex_claim_tx_ok: "tx_ok ex_ext ex_swap_state acc \<lparr>transaction = ex_claim None, spent_utxos = [ex_escrow]\<rparr>"
proof -
  let ?ft = "\<lparr>transaction = ex_claim None, spent_utxos = [ex_escrow]\<rparr>"
  have "check_utreexo_proof ex_ext acc (ex_claim None) = Inr ()"
    by (simp add: check_utreexo_proof_def ex_ext_def acc_verify_def utreexo_res_def)
  moreover have "validate_block_transaction ex_ext ex_swap_state (ex_claim None) ?ft = Inr ()"
    using ex_claim_rule [of None] by (simp add: validate_block_transaction_def claim_consensus_iff)
  moreover have "validate_filled_transaction ex_ext ?ft = Inr 0"
    by (simp add: validate_filled_iff filled_inputs_def get_value_def pointed_hash_def ex_escrow_def
        ex_lock_op_def ex_ext_def)
  ultimately show ?thesis by (auto simp: tx_ok_def)
qed

lemma ex_claim_prevalidates: "prevalidate ex_ext ex_swap_state ex_claim_header ex_claim_body = Inr ex_claim_pre"
proof -
  let ?ft = "\<lparr>transaction = ex_claim None, spent_utxos = [ex_escrow]\<rparr>"
  have "fill_transaction ex_swap_state (ex_claim None) = Inr ?ft"
    by (simp add: fill_transaction_def ex_swap_state_def)
  moreover have "check_limits ex_ext 0 ex_claim_body = Inr ()"
    by (simp add: check_limits_def body_sigops_limit_def body_size_limit_def body_limit_def ex_claim_defs)
  moreover have "body_merkle_root ex_ext ex_claim_header ex_claim_body [?ft] = Inr 4"
    by (simp add: body_merkle_root_def compute_merkle_root_def cbmt_leaf_def get_fee_def get_value_in_def
        get_value_out_def get_value_def checked_add_def ex_claim_defs)
  moreover have "check_body_owners ex_ext ex_claim_body [?ft] = Inr ()"
    by (simp add: check_body_owners_def get_address_def ex_claim_defs)
  moreover have "check_body_authorizations ex_ext ex_claim_body = Inr ()"
    by (simp add: check_body_authorizations_def verify_authorizations_def check_count_def inputs_len_def
        ensure_def list_all_iff ex_claim_defs)
  moreover have d: "body_diff ex_ext 4 ex_claim_body = diff_default"
    by (simp add: body_diff_def tx_diff_def output_hashes_def coinbase_outputs_def tx_outputs_def
        enumerate_u32_def pointed_hash_def diff_step_def diff_insert_def diff_remove_def diff_remove_key_def
        diff_default_def ex_claim_defs)
  moreover have "check_roots ex_ext diff_default (get_accumulator ex_ext ex_swap_state) ex_claim_header = Inr ()"
    by (simp add: check_roots_def apply_diff_def utreexo_res_def get_accumulator_def diff_default_def
        ex_swap_state_def State_new_def ex_claim_defs)
  ultimately show ?thesis
    unfolding prevalidate_iff accepted_def
    using ex_claim_tx_ok
    by (simp add: ex_claim_pre_def ex_claim_body_def check_prev_side_hash_def try_get_tip_def get_inputs_def
        ex_claim_header_def fee_of_def get_value_def ex_escrow_def)
qed

theorem unnamed_open_claim_fails_witness:
  "prevalidate ex_ext ex_swap_state ex_claim_header ex_claim_body = Inr ex_claim_pre \<and>
   connect_prevalidated ex_ext ex_claim_header ex_claim_body ex_claim_pre ex_swap_state =
     Inl (Fail (InvalidTransaction OpenClaimNeedsClaimer))"
  using unnamed_open_claim_fails [OF ex_codec ex_store_ok(2) ex_claim_prevalidates,
      of "\<lparr>transaction = ex_claim None, spent_utxos = [ex_escrow]\<rparr>" 77 None ex_swap] ex_claim_prevalidates
  by (simp add: ex_claim_pre_def)

text \<open>
  Two acceptances of the same swap that are each valid against the state before the block are
  both connected, and the later one holds the reservation.
\<close>

theorem second_accept_overwrites:
  assumes "accept_rule s (transaction a) a i who" "data (transaction a) = SwapAccept i who"
    and "accept_rule s (transaction b) b i who'" "data (transaction b) = SwapAccept i who'"
  shows "validate_block_transaction X s (transaction a) a = Inr () \<and>
    validate_block_transaction X s (transaction b) b = Inr () \<and>
    (\<exists>t. try_fold (connect_swap_data X h) [a, b] s = Inr t \<and>
       get_swap_reservation i t = Some \<lparr>claimer = who', accepted_at_height = h\<rparr>)"
  using assms
  by (simp add: validate_block_transaction_def accept_iff connect_swap_data_def get_reservation_reserve)

definition ex_accept :: "Address \<Rightarrow> FilledTransaction" where
  "ex_accept who = \<lparr>transaction = \<lparr>inputs = [(ex_op, 1)], utreexo_proof = ([], []), outputs = [],
     data = SwapAccept 77 who\<rparr>, spent_utxos = [\<lparr>address = who, content = Value 1\<rparr>]\<rparr>"

theorem second_accept_overwrites_witness:
  "\<exists>t. try_fold (connect_swap_data ex_ext 1) [ex_accept 5, ex_accept 6] (clear_swap_reservation 77 ex_swap_state) = Inr t \<and>
     get_swap_reservation 77 t = Some \<lparr>claimer = 6, accepted_at_height = 1\<rparr>"
proof -
  have "validating_height (clear_swap_reservation 77 ex_swap_state) = validating_height ex_swap_state"
      "is_output_locked_to_swap op (clear_swap_reservation 77 ex_swap_state) = is_output_locked_to_swap op ex_swap_state" for op
    by (simp_all add: clear_swap_reservation_def validating_height_def try_get_height_def is_output_locked_to_swap_def)
  then have "accept_rule (clear_swap_reservation 77 ex_swap_state) (transaction (ex_accept who)) (ex_accept who) 77 who" for who
    by (simp add: accept_rule_def spends_def ex_accept_def get_reservation_reserve ex_op_def ex_lock_op_def)
  from second_accept_overwrites [OF this [of 5] _ this [of 6], of ex_ext 1] show ?thesis
    by (simp add: ex_accept_def)
qed

section \<open>Persistence\<close>

text \<open>
  A saved swap is read back under its identifier, every other swap is unchanged, and it is found by its
  parent chain and L1 transaction id.
\<close>

theorem save_then_get:
  assumes "codec_ok X" "save_swap X sw s = Inr s'"
  shows "get_swap i s' = (if i = sw_id sw then Some sw else get_swap i s) \<and>
    get_swap_by_l1_txid (parent_chain sw) (l1_txid sw) s' = Some sw"
proof
  show "get_swap i s' = (if i = sw_id sw then Some sw else get_swap i s)" for i
    by (rule get_swap_save [OF assms])
  from this [of "sw_id sw"] show "get_swap_by_l1_txid (parent_chain sw) (l1_txid sw) s' = Some sw"
    using assms by (auto simp: save_swap_ok get_swap_by_l1_txid_def)
qed

theorem save_then_get_witness:
  "\<exists>s'. save_swap ex_ext (mark_completed ex_swap) ex_swap_state = Inr s' \<and>
     get_swap 77 s' = Some (mark_completed ex_swap)"
proof -
  obtain s' where s': "save_swap ex_ext (mark_completed ex_swap) ex_swap_state = Inr s'"
    by (simp add: save_swap_ok)
  from save_then_get [OF ex_codec s', of 77] s' show ?thesis by (simp add: mark_completed_def)
qed

text \<open>
  A cancellation succeeds only for the recorded creator of a pending swap; it leaves the swap cancelled,
  every other swap unchanged, and no output locked to it, without touching other locks.
\<close>

theorem cancel_effect:
  assumes "codec_ok X" "swaps_keyed s" "cancel_swap X i creator s = Inr s'"
  shows "\<exists>sw c. get_swap i s = Some sw \<and> sw_state sw = Pending \<and> l2_creator_address sw = Some c \<and>
    creator = Some c \<and>
    (\<forall>j. get_swap j s' = (if j = i then Some (sw\<lparr>sw_state := Cancelled\<rparr>) else get_swap j s)) \<and>
    (\<forall>op. is_output_locked_to_swap op s' =
       (if is_output_locked_to_swap op s = Some i then None else is_output_locked_to_swap op s))"
proof -
  from assms(3) obtain sw c where sw: "get_swap i s = Some sw" "l2_creator_address sw = Some c" "creator = Some c"
      "sw_state sw = Pending"
      and sv: "save_swap X (sw\<lparr>sw_state := Cancelled\<rparr>)
          (s\<lparr>locked_swap_outputs := locks_without i (locked_swap_outputs s)\<rparr>) = Inr s'"
    by (auto simp: cancel_swap_iff)
  have "sw_id sw = i" using assms(2) sw(1) by (simp add: swaps_keyed_def)
  then have "get_swap j s' = (if j = i then Some (sw\<lparr>sw_state := Cancelled\<rparr>) else get_swap j s)" for j
    using get_swap_save [OF assms(1) sv] by (simp add: get_swap_def)
  moreover have "is_output_locked_to_swap op s' =
      (if is_output_locked_to_swap op s = Some i then None else is_output_locked_to_swap op s)" for op
    using sv assms(1) by (auto simp: save_swap_ok is_output_locked_to_swap_def lookup_locks_without)
  ultimately show ?thesis using sw by blast
qed

theorem cancel_effect_witness:
  "\<exists>s'. cancel_swap ex_ext 77 (Some 6) ex_swap_state = Inr s' \<and> is_output_locked_to_swap ex_lock_op s' = None"
proof -
  obtain s' where s': "cancel_swap ex_ext 77 (Some 6) ex_swap_state = Inr s'"
    by (simp add: cancel_swap_def save_swap_ok)
  from cancel_effect [OF ex_codec ex_store_ok(2) s'] s' show ?thesis by simp
qed

text \<open>
  Recording an L1 transaction succeeds only for a pending swap, with at least one and not too many
  confirmations and a transaction id that no other stored swap of the parent chain is found by; it
  leaves the swap waiting or ready by its confirmations, found by the new id.
\<close>

theorem fill_effect:
  assumes "codec_ok X" "swaps_keyed s" "update_swap_l1_txid X i t c l1c l2c bh ht s = Inr s'"
  shows "\<exists>sw. get_swap i s = Some sw \<and> sw_state sw = Pending \<and>
    0 < c \<and> c \<le> max_l1_tx_age_blocks (parent_chain sw) \<and>
    get_swap_by_l1_txid (parent_chain sw) t s \<in> {None, Some sw} \<and>
    (\<forall>j. get_swap j s' = (if j = i then Some (filled_swap t c l1c l2c bh ht sw) else get_swap j s)) \<and>
    get_swap_by_l1_txid (parent_chain sw) t s' = Some (filled_swap t c l1c l2c bh ht sw)"
proof -
  from assms(3) update_l1_txid_iff [OF assms(1), of i t c l1c l2c bh ht s "\<lambda>x. x = s'"]
  obtain sw where sw: "get_swap i s = Some sw" "sw_state sw = Pending" "0 < c"
      "c \<le> max_l1_tx_age_blocks (parent_chain sw)"
      and u: "\<And>ex. get_swap_by_l1_txid (parent_chain sw) t s = Some ex \<Longrightarrow> sw_id ex = i"
      and sv: "save_swap X (filled_swap t c l1c l2c bh ht sw)
           (s\<lparr>swaps_by_l1_txid := fmupd (parent_chain sw, t) i
              (fmdrop (parent_chain sw, l1_txid sw) (swaps_by_l1_txid s))\<rparr>) = Inr s'"
    by auto
  have id: "sw_id sw = i" using assms(2) sw(1) by (simp add: swaps_keyed_def)
  have f: "sw_id (filled_swap t c l1c l2c bh ht sw) = i" "l1_txid (filled_swap t c l1c l2c bh ht sw) = t"
      "parent_chain (filled_swap t c l1c l2c bh ht sw) = parent_chain sw"
    by (simp_all add: filled_swap_def id)
  have g: "get_swap j s' = (if j = i then Some (filled_swap t c l1c l2c bh ht sw) else get_swap j s)" for j
    using get_swap_save [OF assms(1) sv] f by (simp add: get_swap_def)
  moreover have "get_swap_by_l1_txid (parent_chain sw) t s' = Some (filled_swap t c l1c l2c bh ht sw)"
    using sv assms(1) g [of i] f by (auto simp: save_swap_ok get_swap_by_l1_txid_def)
  moreover have "get_swap_by_l1_txid (parent_chain sw) t s \<in> {None, Some sw}"
  proof (cases "get_swap_by_l1_txid (parent_chain sw) t s")
    case (Some ex)
    then obtain j where j: "get_swap j s = Some ex" by (auto simp: get_swap_by_l1_txid_def split: option.splits)
    with u [OF Some] assms(2) sw(1) have "ex = sw" by (auto simp: swaps_keyed_def)
    with Some show ?thesis by simp
  qed simp
  ultimately show ?thesis using sw by blast
qed

theorem fill_effect_witness:
  "\<exists>s'. update_swap_l1_txid ex_ext 77 (Hash32 (replicate 32 1)) 3 None None 0 0 ex_swap_state = Inr s' \<and>
     (\<exists>sw. get_swap 77 s' = Some sw \<and> sw_state sw = ReadyToClaim)"
proof -
  have none: "get_swap_by_l1_txid Regtest (Hash32 (replicate 32 1)) ex_swap_state = None"
    by (simp add: get_swap_by_l1_txid_def ex_swap_state_def numeral_eq_Suc)
  obtain s' where s': "update_swap_l1_txid ex_ext 77 (Hash32 (replicate 32 1)) 3 None None 0 0 ex_swap_state = Inr s'"
    by (simp add: update_swap_l1_txid_def none save_swap_ok Let_def)
  from fill_effect [OF ex_codec ex_store_ok(2) s'] s' show ?thesis
    by (auto simp: filled_swap_def confirmed_state_def)
qed

text \<open>
  Saving a swap whose recipient does not change, and deleting a swap, keep the recipient index
  exact, and the lookup by recipient then gives exactly the stored swaps for that recipient.
\<close>

theorem recipient_index_exact:
  assumes "codec_ok X" "recipient_index_ok s" "save_swap X sw s = Inr s'"
    and "\<And>old. get_swap (sw_id sw) s = Some old \<Longrightarrow> l2_recipient old = l2_recipient sw"
  shows "set (get_swaps_by_recipient r s') = {x. get_swap (sw_id x) s' = Some x \<and> l2_recipient x = Some r} \<and>
    recipient_index_ok s' \<and> recipient_index_ok (delete_swap_unchecked (sw_id sw) s')"
proof -
  have ok: "recipient_index_ok s'"
    by (rule recipient_index_save [OF assms(2,1,3)]) (rule assms(4))
  have "get_swap (sw_id sw) s' = Some sw" by (simp add: get_swap_save [OF assms(1,3)])
  from recipient_index_delete [OF ok this] get_swaps_by_recipient_set [OF ok] ok show ?thesis by blast
qed

definition ex_paid_swap :: Swap where
  "ex_paid_swap = ex_swap\<lparr>sw_id := 78, l2_recipient := Some 4\<rparr>"

theorem recipient_index_exact_witness:
  "\<exists>s'. save_swap ex_ext ex_paid_swap ex_swap_state = Inr s' \<and> ex_paid_swap \<in> set (get_swaps_by_recipient 4 s')"
proof -
  obtain s' where s': "save_swap ex_ext ex_paid_swap ex_swap_state = Inr s'"
    by (simp add: save_swap_ok)
  have id: "sw_id ex_paid_swap = 78" "l2_recipient ex_paid_swap = Some 4" by (simp_all add: ex_paid_swap_def)
  from recipient_index_exact [OF ex_codec ex_store_ok(3) s', of 4] id
  have "set (get_swaps_by_recipient 4 s') = {x. get_swap (sw_id x) s' = Some x \<and> l2_recipient x = Some 4}" by simp
  with s' id get_swap_save [OF ex_codec s', of 78] show ?thesis by simp
qed

text \<open>
  With fewer than ten records that do not decode, loading gives every swap that does, in key order.
\<close>

theorem load_all_complete:
  assumes "swaps_keyed s"
    and "length (filter (\<lambda>e. snd e = Undecodable) (db_iter (swaps s))) < max_consecutive_errors"
  shows "load_all_swaps s = decodable (db_iter (swaps s))"
  using assms by (simp add: load_all_swaps_scan load_scan_all)

theorem load_all_complete_witness: "load_all_swaps ex_swap_state = [ex_swap]"
proof -
  have "db_iter (swaps ex_swap_state) = [(77, Decodes ex_swap)]"
    by (simp add: ex_swap_state_def db_iter_def sorted_list_of_fmap_def sorted_list_of_fset_finsert
        sorted_list_of_fset.rep_eq)
  with load_all_complete [OF ex_store_ok(2)] show ?thesis by (simp add: max_consecutive_errors_def)
qed

text \<open>
  The cleanup of orphaned locks removes exactly the locks to swaps that cannot be read.
\<close>

theorem orphan_cleanup_exact:
  "is_output_locked_to_swap op (snd (cleanup_orphaned_locks s)) =
     (case is_output_locked_to_swap op s of
        None \<Rightarrow> None | Some i \<Rightarrow> if get_swap i s = None then None else Some i)"
proof -
  have "(op, i) \<in> set (db_iter (locked_swap_outputs s)) \<longleftrightarrow> is_output_locked_to_swap op s = Some i" for i
    by (simp add: set_db_iter is_output_locked_to_swap_def)
  then show ?thesis
    unfolding cleanup_orphaned_locks_def cleanup_orphaned_fold by (auto split: option.splits)
qed

text \<open>
  The search for corrupted swaps never finds one, so the cleanup of corrupted swaps
  deletes nothing, whatever the table holds.
\<close>

theorem corrupted_cleanup_does_nothing: "cleanup_corrupted_swaps s = (0, s)"
  by (simp add: cleanup_corrupted_swaps_def find_corrupted_empty)

section \<open>The state machine\<close>

text \<open>
  C6. The observation of all swaps at a block changes stored swaps only by steps of the
  swap state machine, keeps their terms, adds and removes none, and keeps every swap stored under
  its identifier with fewer confirmations than required. It assumes of the store that every swap is
  under its identifier with a well-formed state, and that an open swap with the zero L1 transaction
  identifier is still pending; of the parent chain's node that it reports no payment with the zero
  identifier. Both conditions on the store hold again afterwards.
\<close>

theorem observation_takes_machine_steps:
  assumes "codec_ok X" "store_ok s" "store_filled s" "rpc_txids_nonzero X rpc"
    and "process_coinshift_transactions X rpc h bh s = Inr t"
  shows "store_evolves s t \<and> store_ok t \<and> store_filled t"
  using assms by (rule process_coinshift_evolves)

text \<open>A node that reports one payment with three confirmations for every address and amount.\<close>

definition ex_paid_rpc :: rpc where
  "ex_paid_rpc = (\<lambda>_. Some (\<lambda>_ _. Some [([], \<lparr>ti_txid = concat (replicate 32 ''01''), ti_confirmations = 3,
     ti_blockheight = Some 9\<rparr>)]))"

lemma ex_paid_hex: "from_hex_rpc (hex_read ex_ext) (concat (replicate 32 ''01'')) = Inr (Hash32 (replicate 32 1))"
  by (simp add: ex_ext_def) code_simp

lemma ex_paid_nonzero: "rpc_txids_nonzero ex_ext (Some ex_paid_rpc)"
  by (auto simp: rpc_txids_nonzero_def txids_nonzero_def ex_paid_rpc_def ex_paid_hex)

theorem observation_takes_machine_steps_witness:
  "\<exists>t sw. process_coinshift_transactions ex_ext (Some ex_paid_rpc) 40 0 ex_swap_state = Inr t \<and>
     store_evolves ex_swap_state t \<and> get_swap 77 t = Some sw \<and>
     sw_state sw = ReadyToClaim \<and> l1_txid sw = Hash32 (replicate 32 1)"
proof -
  have "db_iter (swaps ex_swap_state) = [(77, Decodes ex_swap)]"
    by (simp add: ex_swap_state_def db_iter_def sorted_list_of_fmap_def sorted_list_of_fset_finsert
        sorted_list_of_fset.rep_eq)
  then have l: "load_all_swaps ex_swap_state = [ex_swap]" by (simp add: load_all_swaps_def)
  let ?sw = "(set_l1_txid_validation_block 0 40 (update_l1_txid (Hash32 (replicate 32 1)) ex_swap))\<lparr>sw_state := ReadyToClaim\<rparr>"
  have "get_swap_by_l1_txid Regtest (Hash32 (replicate 32 1)) ex_swap_state = None"
    by (simp add: get_swap_by_l1_txid_def ex_swap_state_def State_new_def)
  then have q: "query_and_update_swap ex_ext (the (ex_paid_rpc Regtest)) ex_swap 0 40 ex_swap_state = Inr (Some ?sw)"
    by (simp add: query_and_update_swap_def ex_paid_rpc_def ex_paid_hex l1_match_ok_def
        confirmed_state_def)
  obtain t where sv: "save_swap ex_ext ?sw ex_swap_state = Inr t" by (simp add: save_swap_ok)
  then have t: "process_coinshift_transactions ex_ext (Some ex_paid_rpc) 40 0 ex_swap_state = Inr t"
    using q by (simp add: process_coinshift_transactions_def process_swap_def l ex_paid_rpc_def)
  have "store_filled ex_swap_state" by (simp add: store_filled_def fill_recorded_def)
  from observation_takes_machine_steps [OF ex_codec ex_store_ok(1) this ex_paid_nonzero t] t
    get_swap_save [OF ex_codec sv]
  show ?thesis by (auto simp: swap_update_defs)
qed

lemma steps_rank: "(swap_step req ^^ n) st st' \<Longrightarrow> state_rank st + n \<le> state_rank st'"
proof (induction n arbitrary: st')
  case (Suc n)
  then obtain mid where "(swap_step req ^^ n) st mid" "swap_step req mid st'" by auto
  with Suc.IH [of mid] step_rank [of req mid st'] show ?case by simp
qed simp

text \<open>
  No swap takes more than \<open>2 ^ 32 + 1\<close> steps of the state machine, and a swap that is ready,
  completed or cancelled takes none.
\<close>

theorem life_of_swap_is_finite:
  assumes "(swap_step req ^^ n) st st'"
  shows "n \<le> 2 ^ 32 + 1 \<and> (is_open_state st \<or> n = 0)"
proof
  have "state_rank st' \<le> 2 ^ 32 + 1"
  proof (cases st')
    case (WaitingConfirmations c r)
    then show ?thesis using unat_less_2p32 [of c] by simp
  qed simp_all
  with steps_rank [OF assms] show "n \<le> 2 ^ 32 + 1" by simp
  show "is_open_state st \<or> n = 0"
  proof (cases n)
    case (Suc m)
    with assms obtain mid where "swap_step req st mid" by (metis relpowp_Suc_D2)
    then show ?thesis by (simp add: terminal_step)
  qed simp
qed

theorem life_of_swap_is_finite_witness: "(1 :: nat) \<le> 2 ^ 32 + 1 \<and> (is_open_state Pending \<or> (1 :: nat) = 0)"
proof -
  have "(swap_step 6 ^^ 1) Pending Cancelled" by (auto intro: swap_step.cancel)
  then show ?thesis by (rule life_of_swap_is_finite)
qed

end
