(* ===== verification/Block_Properties.thy ===== *)
theory Block_Properties
  imports Examples
begin

text \<open>
  Properties of transactions and blocks: fees, validation, connection and disconnection.
\<close>

section \<open>Fees\<close>

text \<open>The hashes that the inputs of a transaction commit to are those of the outputs they spend.\<close>

definition hashes_committed :: "'acc ext \<Rightarrow> FilledTransaction \<Rightarrow> bool" where
  "hashes_committed X ft \<longleftrightarrow> (\<forall>(op, h, out) \<in> set (filled_inputs ft). h = pointed_hash X op out)"

text \<open>
  A transaction passes the value check with a fee exactly when its inputs commit to the outputs they
  spend, it spends no withdrawal output, and the fee is the one that the Merkle tree uses.
\<close>

theorem fee_check_exact:
  "validate_filled_transaction X ft = Inr fee \<longleftrightarrow>
     hashes_committed X ft \<and> list_all (\<lambda>u. \<not> is_withdrawal (content u)) (spent_utxos ft) \<and> get_fee ft = Inr fee"
  by (simp add: validate_filled_iff get_fee_iff hashes_committed_def)

text \<open>
  A fee is computed exactly when the spent value fits 64 bits and is the value of the outputs
  plus the fee, with the sums taken over the natural numbers.
\<close>

theorem fee_conserves_value:
  "get_fee ft = Inr fee \<longleftrightarrow>
     value_sum (spent_utxos ft) < 2 ^ 64 \<and>
     value_sum (spent_utxos ft) = value_sum (outputs (transaction ft)) + unat fee"
  by (rule get_fee_iff)

text \<open>
  The sidechain's wealth is the value of all deposits, spent or not, less what
  withdrawal bundles have spent.
\<close>

theorem wealth_is_deposits_less_withdrawals:
  assumes "sidechain_wealth s = Inr w"
  shows "unat w + (\<Sum>(op, so)\<leftarrow>db_iter (stxos s). withdrawn_value so) =
    (\<Sum>(op, out)\<leftarrow>db_iter (utxos s). deposit_value op out) +
    (\<Sum>(op, so)\<leftarrow>db_iter (stxos s). deposit_value op (spent_output so))"
proof -
  from assms obtain a b c t where *: "try_fold wealth_utxo (db_iter (utxos s)) 0 = Inr a"
      "try_fold wealth_stxo (db_iter (stxos s)) (0, 0) = Inr (b, c)"
      "checked_add a b = Some t" "checked_sub t c = Some w"
    by (auto simp: sidechain_wealth_def and_then_eq_Inr ok_or_eq_Inr)
  then show ?thesis
    using wealth_utxos [OF *(1)] wealth_stxos [OF *(2)] by (simp add: checked_add_Some checked_sub_Some)
qed

theorem wealth_is_deposits_less_withdrawals_witness:
  "\<exists>w. sidechain_wealth ex_state = Inr w \<and> unat w = 10"
proof -
  have s: "db_iter (utxos ex_state) = [(ex_op, ex_utxo)]" "db_iter (stxos ex_state) = []"
    by (simp_all add: ex_state_def State_new_def db_iter_singleton)
  then obtain w where w: "sidechain_wealth ex_state = Inr w"
    by (simp add: sidechain_wealth_def wealth_utxo_def ex_op_def checked_add_def checked_sub_def get_value_def)
  from wealth_is_deposits_less_withdrawals [OF w] w show ?thesis
    by (simp add: s deposit_value_def ex_op_def get_value_def)
qed

section \<open>Validation\<close>

text \<open>
  C5. The two validation functions accept the same blocks, with the same fees and the same Merkle root.
\<close>

theorem validators_agree:
  "validate X s hdr b = Inr (fs, mr) \<longleftrightarrow>
     (\<exists>pre. prevalidate X s hdr b = Inr pre \<and> total_fees pre = fs \<and> computed_merkle_root pre = mr)"
proof
  assume "validate X s hdr b = Inr (fs, mr)"
  then obtain fts cb where a: "accepted X s hdr b fts mr fs cb" by (auto simp: validate_iff)
  let ?pre = "\<lparr>filled_transactions = fts, computed_merkle_root = mr, total_fees = fs, coinbase_value = cb,
    next_height = validating_height s, accumulator_diff = body_diff X mr b\<rparr>"
  from a have "prevalidate X s hdr b = Inr ?pre" by (simp add: prevalidate_iff)
  then show "\<exists>pre. prevalidate X s hdr b = Inr pre \<and> total_fees pre = fs \<and> computed_merkle_root pre = mr" by force
next
  assume "\<exists>pre. prevalidate X s hdr b = Inr pre \<and> total_fees pre = fs \<and> computed_merkle_root pre = mr"
  then show "validate X s hdr b = Inr (fs, mr)" by (auto simp: prevalidate_iff validate_iff)
qed

lemma fees_conserve:
  assumes "list_all (tx_ok X s acc) fts"
  shows "(\<Sum>ft\<leftarrow>fts. value_sum (spent_utxos ft)) =
    (\<Sum>ft\<leftarrow>fts. value_sum (outputs (transaction ft))) + sum_list (map fee_of fts)"
  using assms
proof (induction fts)
  case (Cons ft fts)
  then obtain fee where "validate_filled_transaction X ft = Inr fee" by (auto simp: tx_ok_def)
  then have "value_sum (spent_utxos ft) = value_sum (outputs (transaction ft)) + fee_of ft"
    by (simp add: validate_filled_iff fee_of_def)
  with Cons show ?case by simp
qed simp

text \<open>
  C4. A prevalidated block spends every output at most once, spends only outputs that
  exist, and its coinbase and transaction outputs together are worth no more than what it spends.
\<close>

theorem accepted_block_creates_no_value:
  assumes "prevalidate X s hdr b = Inr pre"
  shows "distinct (get_inputs b) \<and> list_all (\<lambda>op. fmlookup (utxos s) op \<noteq> None) (get_inputs b) \<and>
    value_sum (coinbase b) + (\<Sum>tx\<leftarrow>transactions b. value_sum (outputs tx)) \<le>
      (\<Sum>ft\<leftarrow>filled_transactions pre. value_sum (spent_utxos ft))"
proof -
  let ?fts = "filled_transactions pre"
  from assms have a: "distinct (get_inputs b)" "list_all (tx_ok X s (get_accumulator X s)) ?fts"
      "list_all2 (\<lambda>tx ft. fill_transaction s tx = Inr ft) (transactions b) ?fts"
      "unat (total_fees pre) = sum_list (map fee_of ?fts)"
      "unat (coinbase_value pre) = value_sum (coinbase b)" "coinbase_value pre \<le> total_fees pre"
    by (simp_all add: prevalidate_iff accepted_def)
  have "(\<Sum>ft\<leftarrow>?fts. value_sum (outputs (transaction ft))) = (\<Sum>tx\<leftarrow>transactions b. value_sum (outputs tx))"
    using arg_cong [OF fills_transactions [OF a(3)], of "\<lambda>txs. \<Sum>tx\<leftarrow>txs. value_sum (outputs tx)"]
    by (simp add: comp_def)
  with fees_conserve [OF a(2)] a(4-6) have "value_sum (coinbase b) + (\<Sum>tx\<leftarrow>transactions b. value_sum (outputs tx)) \<le>
      (\<Sum>ft\<leftarrow>?fts. value_sum (spent_utxos ft))" by (simp add: word_le_nat_alt)
  moreover have "fmlookup (utxos s) op \<noteq> None" if "op \<in> set (get_inputs b)" for op
  proof -
    from that obtain tx where tx: "tx \<in> set (transactions b)" "op \<in> spends tx"
      by (auto simp: get_inputs_def spends_def)
    from list_all2_left [OF a(3) tx(1)] obtain ft where "fill_transaction s tx = Inr ft" by blast
    from fill_spends [OF this tx(2)] show ?thesis .
  qed
  ultimately show ?thesis using a(1) by (simp add: list_all_iff)
qed

theorem accepted_block_creates_no_value_witness: "distinct (get_inputs ex_body)"
  using accepted_block_creates_no_value [OF ex_prevalidates] by blast

section \<open>Connection and disconnection\<close>

text \<open>
  C1. A block that passes prevalidation connects, as long as its claims of open swaps name
  their claimer: no error and no panic is left, the tip is the block, and the accumulator has the
  roots of its header.
\<close>

theorem prevalidated_block_connects:
  assumes "codec_ok X" "swaps_keyed s" "prevalidate X s hdr b = Inr pre"
    and "list_all (claim_named s) (filled_transactions pre)"
  shows "\<exists>s'. connect_prevalidated X hdr b pre s = Inr (computed_merkle_root pre, s') \<and>
    tip s' = Some (header_hash X hdr) \<and> height s' = Some (validating_height s) \<and>
    forest_roots X (get_accumulator X s') = roots hdr"
  using assms by (intro prevalidated_connects) (simp_all add: list_all_iff)

lemma ex_keyed: "swaps_keyed ex_state"
  by (simp add: swaps_keyed_def get_swap_def ex_state_def State_new_def)

lemma ex_named: "list_all (claim_named ex_state) (filled_transactions ex_pre)"
  by (simp add: ex_pre_def claim_named_def ex_tx_def)

theorem prevalidated_block_connects_witness:
  "\<exists>s'. connect_prevalidated ex_ext ex_header ex_body ex_pre ex_state = Inr (4, s') \<and> height s' = Some 0"
  using prevalidated_block_connects [OF ex_codec ex_keyed ex_prevalidates ex_named]
  by (auto simp: ex_pre_def validating_height_def try_get_height_def)

text \<open>
  C2. Disconnecting a block that was just connected gives back the state before it, the
  accumulator apart. The accumulator is changed by the reverse of the diff that the block was
  connected with: the same insertions and removals of hashes taken backwards, each insertion turned
  into a removal and each removal into an insertion; disconnection fails only if the accumulator
  library rejects that diff. The hypotheses are that tip and height are set together and the height can
  be increased, that the block's outputs were new and its inputs not already recorded as spent, and that
  its swap transactions overwrite nothing: created swaps and their index entries are new, accepted swaps have no
  reservation, and claimed swaps are ready, indexed, and the only ones to which the claim's inputs are locked.
\<close>

theorem disconnect_undoes_connect:
  assumes "prevalidate X s hdr b = Inr pre" "connect_prevalidated X hdr b pre s = Inr (mr, s')"
    and "tip_ok s" "coinbase_fresh (computed_merkle_root pre) b s"
    and "revertible_run X (next_height pre) (filled_transactions pre)
      (connect_coinbase (computed_merkle_root pre) b s)"
  shows "accumulator_diff pre = fold diff_step (body_ops X (computed_merkle_root pre) b) diff_default \<and>
    disconnect_tip X hdr b s' =
      and_then (utreexo_res (apply_diff X
          (fold diff_step (opposite_ops (body_ops X (computed_merkle_root pre) b)) diff_default)
          (get_accumulator X s')))
        (\<lambda>a. Inr (s\<lparr>utreexo_accumulator := Some a\<rparr>))"
proof
  show "accumulator_diff pre = fold diff_step (body_ops X (computed_merkle_root pre) b) diff_default"
    using assms(1) by (simp add: prevalidate_iff body_diff_ops)
  have "map transaction (filled_transactions pre) = transactions b" "next_height pre = validating_height s"
    using assms(1) by (auto simp: prevalidate_iff accepted_def dest: fills_transactions)
  then show "disconnect_tip X hdr b s' =
      and_then (utreexo_res (apply_diff X
          (fold diff_step (opposite_ops (body_ops X (computed_merkle_root pre) b)) diff_default)
          (get_accumulator X s')))
        (\<lambda>a. Inr (s\<lparr>utreexo_accumulator := Some a\<rparr>))"
    by (rule disconnect_connect [OF assms(2) _ _ assms(3-5)])
qed

theorem disconnect_undoes_connect_witness:
  "\<exists>mr s'. connect_prevalidated ex_ext ex_header ex_body ex_pre ex_state = Inr (mr, s') \<and>
     disconnect_tip ex_ext ex_header ex_body s' = Inr (ex_state\<lparr>utreexo_accumulator := Some [1, 2, 3]\<rparr>)"
proof -
  obtain mr s' where c: "connect_prevalidated ex_ext ex_header ex_body ex_pre ex_state = Inr (mr, s')"
      and r: "forest_roots ex_ext (get_accumulator ex_ext s') = roots ex_header"
    using prevalidated_connects [OF ex_codec ex_keyed ex_prevalidates] ex_named by (auto simp: list_all_iff)
  from r have acc: "get_accumulator ex_ext s' = [2, 3]" by (simp add: ex_ext_def ex_header_def)
  have "coinbase_fresh (computed_merkle_root ex_pre) ex_body ex_state"
    by (simp add: coinbase_fresh_def coinbase_outputs_def enumerate_u32_def ex_body_def ex_state_def State_new_def ex_op_def)
  moreover have "revertible_run ex_ext (next_height ex_pre) (filled_transactions ex_pre)
      (connect_coinbase (computed_merkle_root ex_pre) ex_body ex_state)"
    by (simp add: ex_pre_def tx_revertible_def tx_fresh_def spends_def tx_outputs_def enumerate_u32_def
        swap_revertible_def connect_coinbase_def coinbase_outputs_def put_output_def ex_body_def ex_state_def State_new_def
        ex_op_def split: sum.splits) (simp add: ex_tx_def)
  moreover have "tip_ok ex_state" by (simp add: tip_ok_def)
  ultimately have d: "disconnect_tip ex_ext ex_header ex_body s' =
      and_then (utreexo_res (apply_diff ex_ext
          (fold diff_step (opposite_ops (body_ops ex_ext (computed_merkle_root ex_pre) ex_body)) diff_default)
          (get_accumulator ex_ext s')))
        (\<lambda>a. Inr (ex_state\<lparr>utreexo_accumulator := Some a\<rparr>))"
    using disconnect_undoes_connect [OF ex_prevalidates c] by blast
  have "body_ops ex_ext (computed_merkle_root ex_pre) ex_body = [(True, 2), (False, 1), (True, 3)]"
    by (simp add: body_ops_def tx_diff_def output_hashes_def coinbase_outputs_def tx_outputs_def
        enumerate_u32_def pointed_hash_def ex_defs)
  then have "fold diff_step (opposite_ops (body_ops ex_ext (computed_merkle_root ex_pre) ex_body)) diff_default =
      \<lparr>diff = [(3, False), (1, True), (2, False)], insertions = 1, deletions = 2\<rparr>"
    by (simp add: opposite_ops_def diff_step_def diff_insert_def diff_remove_def diff_default_def)
  with d acc have "disconnect_tip ex_ext ex_header ex_body s' = Inr (ex_state\<lparr>utreexo_accumulator := Some [1, 2, 3]\<rparr>)"
    by (simp add: apply_diff_def Let_def utreexo_res_def) (simp add: ex_ext_def)
  with c show ?thesis by blast
qed

end
