(* ===== verification/Peg_Properties.thy ===== *)
theory Peg_Properties
  imports Examples
begin

text \<open>
  Properties of two-way peg data: bundles, the reversal of mainchain events and of expiries, and
  the tables of event blocks.
\<close>

text \<open>
  C11. A collected bundle spends only unspent withdrawal outputs, and the outputs of its transaction
  after the first two pay exactly what these ask for, address by address: there is one output for
  each mainchain address that a spent withdrawal names, to the script of that address, and its value
  is the sum of what the spent withdrawals to that address ask for. So the whole payment is the sum of
  the withdrawals. The first output commits to the sum of their mainchain fees, which fits 64 bits.
\<close>

theorem bundle_conserves_value:
  assumes "collect_withdrawal_bundle X s h = Inr (Some b)"
  shows "\<exists>commit pays addrs. bundle_tx b =
      [(0, op_return_script (be_bytes 8 (table_sum main_fee_of (spend_utxos b)))), (0, commit)] @ pays \<and>
    table_sum main_fee_of (spend_utxos b) < 2 ^ 64 \<and>
    (\<forall>op out. fmlookup (spend_utxos b) op = Some out \<longrightarrow>
       fmlookup (utxos s) op = Some out \<and> is_withdrawal (content out)) \<and>
    (\<Sum>(v, _)\<leftarrow>pays. unat v) = table_sum withdrawn (spend_utxos b) \<and>
    distinct addrs \<and> set addrs = paid_addresses (spend_utxos b) \<and>
    map snd pays = map (script_pubkey X) addrs \<and>
    map (\<lambda>(v, _). unat v) pays = map (\<lambda>a. table_sum (withdrawn_to a) (spend_utxos b)) addrs"
  using collected_bundle_value [OF assms] unfolding pays_each_def by blast

definition ex_withdrawals :: "hash256 list State" where
  "ex_withdrawals = State_new\<lparr>utxos := fmupd ex_op \<lparr>address = 5, content = Content.Withdrawal 8 2 [1, 2]\<rparr> fmempty\<rparr>"

theorem bundle_conserves_value_witness:
  "\<exists>b commit v. collect_withdrawal_bundle ex_ext ex_withdrawals 7 = Inr (Some b) \<and>
     bundle_tx b = [(0, op_return_script (be_bytes 8 2)), (0, commit), (v, [1, 2])] \<and> unat v = 8"
proof -
  let ?out = "\<lparr>address = 5, content = Content.Withdrawal 8 2 [1, 2]\<rparr> :: Output"
  have agg: "try_fold aggregate_output (db_iter (utxos ex_withdrawals)) fmempty =
      Inr (fmupd [1, 2] \<lparr>agg_spend_utxos = fmupd ex_op ?out fmempty,
        agg_main_address = [1, 2], agg_value = 8, agg_main_fee = 2\<rparr> fmempty)"
    by (simp add: ex_withdrawals_def db_iter_singleton aggregate_output_def checked_add_def)
  have ext: "script_pubkey ex_ext a = a" "main_weight ex_ext outs = 1000" for a outs
    by (simp_all add: ex_ext_def)
  obtain b where b: "collect_withdrawal_bundle ex_ext ex_withdrawals 7 = Inr (Some b)"
      and sp: "spend_utxos b = fmupd ex_op ?out fmempty"
    by (simp add: collect_withdrawal_bundle_def agg fmupd_nonempty db_iter_singleton ext txout_size_def varint_size_def checked_add_def
        predict_weight_def tx_base_size_def vec_size_def treasury_txin_base_size_value commitment_txout_sizes_value
        max_standard_tx_weight_def WithdrawalBundle_new_def Let_def)
  have one: "addrs = [a]" if "distinct addrs" "set addrs = {a}" for addrs and a :: MainAddress
    using that by (metis distinct_card card_1_singleton_iff length_Suc_conv length_0_conv One_nat_def list.set_intros(1) singletonD)
  have paid: "paid_addresses (spend_utxos b) = {[1, 2]}"
    by (auto simp: sp paid_addresses_def pays_to_def split: if_splits)
  have sums: "table_sum main_fee_of (spend_utxos b) = 2" "table_sum (withdrawn_to [1, 2]) (spend_utxos b) = 8"
    by (simp_all add: sp table_sum_fresh withdrawn_to_def pays_to_def)
  from bundle_conserves_value [OF b, unfolded paid sums] obtain commit pays addrs where
      p: "bundle_tx b = [(0, op_return_script (be_bytes 8 2)), (0, commit)] @ pays"
      "distinct addrs" "set addrs = {[1, 2]}" "map snd pays = map (script_pubkey ex_ext) addrs"
      "map (\<lambda>(v, _). unat v) pays = map (\<lambda>a. table_sum (withdrawn_to a) (spend_utxos b)) addrs"
    by blast
  from one [OF p(2,3)] p(4,5) sums obtain v where "pays = [(v, [1, 2])]" "unat v = 8"
    by (auto simp: ext map_eq_Cons_conv)
  with b p(1) show ?thesis by auto
qed

text \<open>
  C10. Disconnecting the events of a block in reverse order undoes their connection: the state is the one
  before them, where deposits were new and bundles moved through their statuses.
\<close>

theorem events_undone_in_reverse:
  assumes "try_fold (connect_event X h) es p = Inr p'" "events_revertible X h es p" "peg_state q = peg_state p'"
  shows "\<exists>q'. try_fold (disconnect_event X h) (rev es) q = Inr q' \<and> peg_state q' = peg_state p"
  using undo_events [OF assms] by (simp add: state_of_eq_Inr)

definition ex_deposit :: "hash256 \<times> BlockEvent" where
  "ex_deposit = (3, EvDeposit \<lparr>dep_tx_index = 0, dep_outpoint = (2, 0), dep_output = ex_utxo\<rparr>)"

theorem events_undone_in_reverse_witness:
  "\<exists>p' q'. try_fold (connect_event ex_ext 7) [ex_deposit, (4, EvBundle 9 Submitted)] (peg_start ex_state) = Inr p' \<and>
     try_fold (disconnect_event ex_ext 7) [(4, EvBundle 9 Submitted), ex_deposit] (peg_start (peg_state p')) = Inr q' \<and>
     peg_state q' = ex_state"
proof -
  have run: "events_revertible ex_ext 7 [ex_deposit, (4, EvBundle 9 Submitted)] (peg_start ex_state)"
    by (simp add: ex_deposit_def connect_event_def peg_start_def submit_revertible_def pending_matches_def Let_def
        connect_withdrawal_bundle_event_def connect_withdrawal_bundle_submitted_def ex_state_def State_new_def ex_op_def)
  obtain p' where p': "try_fold (connect_event ex_ext 7) [ex_deposit, (4, EvBundle 9 Submitted)] (peg_start ex_state) = Inr p'"
    by (simp add: ex_deposit_def connect_event_def peg_start_def pending_matches_def Let_def
        connect_withdrawal_bundle_event_def connect_withdrawal_bundle_submitted_def ex_state_def State_new_def)
  have "peg_state (peg_start (peg_state p')) = peg_state p'" by (simp add: peg_start_def)
  from events_undone_in_reverse [OF p' run this] p' show ?thesis by (simp add: peg_start_def)
qed

text \<open>
  The record that an expiry leaves restores the swap and its locks when the block is disconnected;
  only the entry of the swap in the L1 index may be written anew.
\<close>

theorem expiry_restored:
  assumes "codec_ok X" "recipient_index_ok s" "get_swap (sw_id sw) s = Some sw" "expire_swap X sw s = Inr (r, t)"
  shows "restore_expired X r t =
    Inr (s\<lparr>swaps_by_l1_txid := fmupd (parent_chain sw, l1_txid sw) (sw_id sw) (swaps_by_l1_txid s)\<rparr>)"
  using assms by (rule restore_expire)

theorem expiry_restored_witness:
  "\<exists>r t s'. expire_swap ex_ext ex_swap ex_swap_state = Inr (r, t) \<and> restore_expired ex_ext r t = Inr s' \<and>
     is_output_locked_to_swap ex_lock_op s' = Some 77 \<and> is_output_locked_to_swap ex_lock_op t = None"
proof -
  obtain r t where e: "expire_swap ex_ext ex_swap ex_swap_state = Inr (r, t)"
    by (simp add: expire_swap_def Let_def save_swap_ok)
  have "is_output_locked_to_swap ex_lock_op t = None"
  proof -
    have "is_output_locked_to_swap ex_lock_op t =
        is_output_locked_to_swap ex_lock_op (fold unlock_output_from_swap (swap_outputs 77 ex_swap_state) ex_swap_state)"
      using e by (auto simp: expire_swap_def Let_def save_swap_ok is_output_locked_to_swap_def)
    then show ?thesis by (simp add: locks.locked_unlock_all set_swap_outputs)
  qed
  moreover have "is_output_locked_to_swap ex_lock_op (ex_swap_state\<lparr>swaps_by_l1_txid := m\<rparr>) = Some 77" for m
    using ex_swap_state_fields(2) [of ex_lock_op] by (simp add: is_output_locked_to_swap_def)
  ultimately show ?thesis
    using e expiry_restored [OF ex_codec ex_store_ok(3) _ e] by simp
qed

text \<open>
  While a table of event blocks has fewer than 256 entries, a recorded block is the last entry, and
  removing it on disconnection restores the table.
\<close>

theorem event_blocks_recorded:
  assumes "seq_filled n m" "n < 256"
  shows "seq_last (push_seq (bh, h) m) = Some (word_of_nat n, bh, h) \<and> pop_seq e bh h (push_seq (bh, h) m) = Inr m"
  using seq_last_push [OF assms] pop_seq_push [OF assms] by blast

theorem event_blocks_recorded_witness: "seq_last (push_seq (7, 3) fmempty) = Some (0, 7, 3)"
proof -
  have "seq_filled 0 (fmempty :: (u32, hash256 \<times> u32) db)" by (simp add: seq_filled_def)
  from event_blocks_recorded [OF this, of 7 3] show ?thesis by simp
qed

text \<open>
  After 256 entries the last entry stays the one with key 255: a newly recorded deposit block is
  not the one that is reported as the last, and the next recording overwrites it.
\<close>

theorem event_blocks_stale:
  assumes "seq_filled 256 (deposit_blocks s)"
  shows "get_last_deposit_block_hash (record_event_blocks h (Some bh) None s) = get_last_deposit_block_hash s \<and>
    record_event_blocks h' (Some bh') None (record_event_blocks h (Some bh) None s) =
      record_event_blocks h' (Some bh') None s"
  using seq_last_stuck [OF assms]
  by (simp add: record_event_blocks_def get_last_deposit_block_hash_def)

lemma seq_filled_pushes: "n \<le> 257 \<Longrightarrow> seq_filled n ((push_seq v ^^ n) fmempty)"
proof (induction n)
  case 0
  show ?case by (simp add: seq_filled_def)
next
  case (Suc n)
  then show ?case using push_seq_filled(2) [of n "(push_seq v ^^ n) fmempty"] by simp
qed

theorem event_blocks_stale_witness:
  "\<exists>s :: hash256 list State. get_last_deposit_block_hash (record_event_blocks 300 (Some 2) None s) = Some 1"
proof -
  let ?s = "State_new\<lparr>deposit_blocks := (push_seq (1, 0) ^^ 256) fmempty\<rparr> :: hash256 list State"
  have f: "seq_filled 256 (deposit_blocks ?s)" using seq_filled_pushes [of 256 "(1, 0)"] by simp
  have "(push_seq (1, 0) ^^ 256) fmempty = push_seq (1, 0) ((push_seq (1, 0) ^^ 255) fmempty)"
    using funpow.simps(2) [of 255 "push_seq (1, 0)"] by simp
  then have "seq_last (deposit_blocks ?s) = Some (255, 1, 0)"
    using seq_last_push [OF seq_filled_pushes [of 255 "(1, 0)"], of "(1, 0)"] by simp
  then have "get_last_deposit_block_hash ?s = Some 1" by (simp add: get_last_deposit_block_hash_def)
  with event_blocks_stale [OF f, of 300 2] show ?thesis by metis
qed

end
