(* ===== verification/Side_Tips.thy ===== *)
theory Side_Tips
  imports Peg_Data "HOL-Library.Product_Lexorder"
begin

text \<open>
  The tips of the sidechain as of the current mainchain tip (\<^verbatim>\<open>src/lib/archive/side_tips/mod.rs\<close>): the
  mainchain tip with its cumulative work, the sidechain blocks that can be reorganized to, and an
  index of them ordered by height and then work. Work is a 256-bit integer and wraps.
\<close>

type_synonym Work = "256 word"

record BlockHeaderInfo =
  bhi_block_hash :: hash256
  bhi_prev_block_hash :: hash256
  bhi_height :: u32
  bhi_work :: Work

record MainchainTip =
  cumulative_work :: Work
  tip_info :: "BlockHeaderInfo option"

text \<open>The hash of no block, \<^verbatim>\<open>all_zeros\<close>, is 0.\<close>

definition mainchain_tip_hash :: "MainchainTip \<Rightarrow> hash256" where
  "mainchain_tip_hash t = (case tip_info t of Some info \<Rightarrow> bhi_block_hash info | None \<Rightarrow> 0)"

record SidechainTipInfo =
  sidechain_height :: u32
  sti_work :: Work
  sti_main_block_hash :: hash256

text \<open>The bytes of an info as a key: big-endian numbers, so the byte order is the order of the triple.\<close>

definition tip_key :: "SidechainTipInfo \<Rightarrow> u32 \<times> Work \<times> hash256" where
  "tip_key i = (sidechain_height i, sti_work i, sti_main_block_hash i)"

definition key_tip :: "u32 \<times> Work \<times> hash256 \<Rightarrow> SidechainTipInfo" where
  "key_tip = (\<lambda>(h, w, m). \<lparr>sidechain_height = h, sti_work = w, sti_main_block_hash = m\<rparr>)"

record SidechainHeaderData =
  shd_prev_side_hash :: "BlockHash option"
  shd_prev_main_hash :: hash256

definition header_data :: "Header \<Rightarrow> SidechainHeaderData" where
  "header_data h = \<lparr>shd_prev_side_hash = prev_side_hash h, shd_prev_main_hash = prev_main_hash h\<rparr>"

record BmmCommitment =
  sidechain_block_hash :: BlockHash
  sidechain_header_data :: SidechainHeaderData

datatype SideTipsError =
  MissingSidechainParent BlockHash
| ConnectInvalidMainchainParent hash256
| InvalidTipHeight u32
| NoMainchainTip
| DisconnectInvalidMainchainParent hash256
| InvalidMainchainParentHeight u32
| MissingSidechainTip BlockHash

record SideTips =
  mainchain_tip :: MainchainTip
  sidechain_tips :: "(BlockHash, SidechainTipInfo) db"
  ordered_sidechain_tips :: "(u32 \<times> Work \<times> hash256, BlockHash) db"

definition SideTips_create :: SideTips where
  "SideTips_create = \<lparr>mainchain_tip = \<lparr>cumulative_work = 0, tip_info = None\<rparr>,
     sidechain_tips = fmempty, ordered_sidechain_tips = fmempty\<rparr>"

text \<open>The last entry of the ordered table.\<close>

definition best_side_tip :: "SideTips \<Rightarrow> (BlockHash \<times> SidechainTipInfo) option" where
  "best_side_tip st =
     (case rev (db_iter (ordered_sidechain_tips st)) of
        [] \<Rightarrow> None | (k, h) # _ \<Rightarrow> Some (h, key_tip k))"

definition connect_sidechain_tip ::
  "hash256 \<Rightarrow> Work \<Rightarrow> BlockHash \<Rightarrow> SidechainHeaderData \<Rightarrow> SideTips \<Rightarrow> SideTipsError + SideTips" where
  "connect_sidechain_tip main_hash work side_hash hdata st =
     and_then (case shd_prev_side_hash hdata of
                 Some parent \<Rightarrow>
                   (case fmlookup (sidechain_tips st) parent of
                      Some info \<Rightarrow> Inr (saturating_add (sidechain_height info) 1)
                    | None \<Rightarrow> Inl (MissingSidechainParent parent))
               | None \<Rightarrow> Inr 0) (\<lambda>h.
     if db_has (sidechain_tips st) side_hash then Inr st
     else
       let info = \<lparr>sidechain_height = h, sti_work = work, sti_main_block_hash = main_hash\<rparr> in
       Inr (st\<lparr>sidechain_tips := fmupd side_hash info (sidechain_tips st),
               ordered_sidechain_tips := fmupd (tip_key info) side_hash (ordered_sidechain_tips st)\<rparr>))"

definition disconnect_sidechain_tip :: "BlockHash \<Rightarrow> SideTips \<Rightarrow> SideTips" where
  "disconnect_sidechain_tip h st =
     (case fmlookup (sidechain_tips st) h of
        None \<Rightarrow> st
      | Some info \<Rightarrow>
          st\<lparr>ordered_sidechain_tips := fmdrop (tip_key info) (ordered_sidechain_tips st),
             sidechain_tips := fmdrop h (sidechain_tips st)\<rparr>)"

definition connect_mainchain_tip ::
  "BlockHeaderInfo \<Rightarrow> BmmCommitment option \<Rightarrow> SideTips \<Rightarrow> SideTipsError + SideTips" where
  "connect_mainchain_tip hi bc st =
     (let mt = mainchain_tip st; expected = mainchain_tip_hash mt in
      if bhi_prev_block_hash hi \<noteq> expected then Inl (ConnectInvalidMainchainParent expected)
      else
        and_then (case tip_info mt of
                    Some info \<Rightarrow>
                      if bhi_height hi \<noteq> bhi_height info + 1 then Inl (InvalidTipHeight (bhi_height info + 1))
                      else Inr ()
                  | None \<Rightarrow> Inr ()) (\<lambda>_.
        let work = cumulative_work mt + bhi_work hi in
        and_then (case bc of
                    Some c \<Rightarrow> connect_sidechain_tip (bhi_block_hash hi) work
                                (sidechain_block_hash c) (sidechain_header_data c) st
                  | None \<Rightarrow> Inr st) (\<lambda>st1.
        Inr (st1\<lparr>mainchain_tip := \<lparr>cumulative_work = work, tip_info = Some hi\<rparr>\<rparr>))))"

definition previous_tip ::
  "BlockHeaderInfo \<Rightarrow> BlockHeaderInfo option \<Rightarrow> SideTipsError + BlockHeaderInfo option" where
  "previous_tip cur prev =
     (case prev of
        Some p \<Rightarrow>
          if bhi_block_hash p \<noteq> bhi_prev_block_hash cur
          then Inl (DisconnectInvalidMainchainParent (bhi_prev_block_hash cur))
          else if bhi_height p + 1 \<noteq> bhi_height cur then Inl (InvalidMainchainParentHeight (bhi_height cur))
          else if bhi_prev_block_hash cur \<noteq> 0 then Inr (Some p)
          else Inr None
      | None \<Rightarrow>
          if bhi_prev_block_hash cur = 0 then Inr None
          else Inl (DisconnectInvalidMainchainParent (bhi_prev_block_hash cur)))"

definition drop_commitment :: "hash256 \<Rightarrow> BlockHash \<Rightarrow> SideTips \<Rightarrow> SideTipsError + SideTips" where
  "drop_commitment main_hash side_hash st =
     (case fmlookup (sidechain_tips st) side_hash of
        None \<Rightarrow> Inl (MissingSidechainTip side_hash)
      | Some info \<Rightarrow>
          if sti_main_block_hash info = main_hash then
            if db_has (ordered_sidechain_tips st) (tip_key info)
            then Inr (st\<lparr>ordered_sidechain_tips := fmdrop (tip_key info) (ordered_sidechain_tips st)\<rparr>)
            else Inl (MissingSidechainTip side_hash)
          else Inr st)"

definition disconnect_mainchain_tip ::
  "BlockHeaderInfo option \<Rightarrow> BlockHash option \<Rightarrow> SideTips \<Rightarrow> SideTipsError + SideTips" where
  "disconnect_mainchain_tip prev bc st =
     and_then (ok_or NoMainchainTip (tip_info (mainchain_tip st))) (\<lambda>cur.
     and_then (previous_tip cur prev) (\<lambda>new_tip.
     and_then (case bc of Some h \<Rightarrow> drop_commitment (bhi_block_hash cur) h st | None \<Rightarrow> Inr st) (\<lambda>st1.
     Inr (st1\<lparr>mainchain_tip :=
       \<lparr>cumulative_work = cumulative_work (mainchain_tip st) - bhi_work cur, tip_info = new_tip\<rparr>\<rparr>))))"

section \<open>The tables agree\<close>

text \<open>Every tip is in the ordered table under its info, and every entry of that table is a tip.\<close>

definition tips_ok :: "SideTips \<Rightarrow> bool" where
  "tips_ok st \<longleftrightarrow>
     (\<forall>i h. fmlookup (ordered_sidechain_tips st) (tip_key i) = Some h \<longleftrightarrow>
        fmlookup (sidechain_tips st) h = Some i)"

lemma key_tip_key [simp]: "key_tip (tip_key i) = i"
  by (simp add: key_tip_def tip_key_def)

lemma tip_key_key [simp]: "tip_key (key_tip k) = k"
  by (cases k) (simp add: key_tip_def tip_key_def)

lemma tip_key_inj [simp]: "tip_key i = tip_key j \<longleftrightarrow> i = j"
  by (metis key_tip_key)

lemma tips_okD:
  "tips_ok st \<Longrightarrow> fmlookup (ordered_sidechain_tips st) (tip_key i) = Some h \<longleftrightarrow>
     fmlookup (sidechain_tips st) h = Some i"
  by (simp add: tips_ok_def)

lemma tips_ok_create: "tips_ok SideTips_create"
  by (simp add: tips_ok_def SideTips_create_def)

lemma tips_ok_disconnect: "tips_ok st \<Longrightarrow> tips_ok (disconnect_sidechain_tip h st)"
  by (auto simp: tips_ok_def disconnect_sidechain_tip_def split: option.splits)
    (metis option.inject)

text \<open>
  A tip is connected with the mainchain block that commits to it; a mainchain block commits to one
  sidechain block, so no other tip has that block.
\<close>

definition main_unused :: "hash256 \<Rightarrow> BlockHash \<Rightarrow> SideTips \<Rightarrow> bool" where
  "main_unused m h st \<longleftrightarrow> (\<forall>g i. fmlookup (sidechain_tips st) g = Some i \<longrightarrow> sti_main_block_hash i = m \<longrightarrow> g = h)"

lemma connect_sidechain_tip_cases:
  assumes "connect_sidechain_tip m w h hdata st = Inr st'"
  shows "st' = st \<and> fmlookup (sidechain_tips st) h \<noteq> None \<or>
    (\<exists>i. sti_main_block_hash i = m \<and> sti_work i = w \<and> fmlookup (sidechain_tips st) h = None \<and>
       st' = st\<lparr>sidechain_tips := fmupd h i (sidechain_tips st),
               ordered_sidechain_tips := fmupd (tip_key i) h (ordered_sidechain_tips st)\<rparr>)"
proof (cases "fmlookup (sidechain_tips st) h")
  case None
  with assms obtain ht where "st' = st\<lparr>sidechain_tips := fmupd h
        \<lparr>sidechain_height = ht, sti_work = w, sti_main_block_hash = m\<rparr> (sidechain_tips st),
      ordered_sidechain_tips := fmupd (tip_key \<lparr>sidechain_height = ht, sti_work = w, sti_main_block_hash = m\<rparr>)
        h (ordered_sidechain_tips st)\<rparr>"
    by (auto simp: connect_sidechain_tip_def res_simps db_has_def Let_def)
  with None show ?thesis
    by (intro disjI2 exI [of _ "\<lparr>sidechain_height = ht, sti_work = w, sti_main_block_hash = m\<rparr>"]) simp
next
  case (Some i)
  with assms show ?thesis by (auto simp: connect_sidechain_tip_def res_simps db_has_def)
qed

lemma tips_ok_connect:
  assumes ok: "tips_ok st" and c: "connect_sidechain_tip m w h hdata st = Inr st'" and m: "main_unused m h st"
  shows "tips_ok st'"
  using connect_sidechain_tip_cases [OF c]
proof (elim disjE exE conjE)
  fix i
  assume i: "sti_main_block_hash i = m" and new: "fmlookup (sidechain_tips st) h = None"
    and st': "st' = st\<lparr>sidechain_tips := fmupd h i (sidechain_tips st),
      ordered_sidechain_tips := fmupd (tip_key i) h (ordered_sidechain_tips st)\<rparr>"
  have "fmlookup (sidechain_tips st) g \<noteq> Some i" for g
    using m i new by (auto simp: main_unused_def)
  then show "tips_ok st'"
    using new by (auto simp: st' tips_ok_def tips_okD [OF ok])
qed (simp add: ok)

lemma best_side_tip_entry:
  assumes "best_side_tip st = Some (h, i)"
  shows "fmlookup (ordered_sidechain_tips st) (tip_key i) = Some h"
proof -
  obtain k xs where "rev (db_iter (ordered_sidechain_tips st)) = (k, h) # xs" "i = key_tip k"
    using assms by (auto simp: best_side_tip_def split: list.splits)
  moreover from this have "(k, h) \<in> set (db_iter (ordered_sidechain_tips st))" by (metis list.set_intros(1) set_rev)
  ultimately show ?thesis using set_db_iter [of k h "ordered_sidechain_tips st"] by simp
qed

text \<open>The best tip is the highest one, and among those of the same height one with the most work.\<close>

lemma best_side_tip_max:
  assumes "tips_ok st" "best_side_tip st = Some (h, i)"
  shows "fmlookup (sidechain_tips st) h = Some i \<and>
    (\<forall>g j. fmlookup (sidechain_tips st) g = Some j \<longrightarrow> tip_key j \<le> tip_key i)"
proof -
  let ?o = "ordered_sidechain_tips st"
  obtain k xs where rev: "rev (db_iter ?o) = (k, h) # xs" and i: "i = key_tip k"
    using assms(2) by (auto simp: best_side_tip_def split: list.splits)
  then have last: "db_iter ?o \<noteq> []" "last (db_iter ?o) = (k, h)"
    by (metis Nil_is_rev_conv list.discI, metis last_rev list.sel(1) rev_rev_ident hd_rev)
  then have "fmlookup ?o k = Some h" by (metis last_in_set set_db_iter)
  then have "fmlookup (sidechain_tips st) h = Some i"
    using tips_okD [OF assms(1), of "key_tip k" h] i by simp
  moreover have "tip_key j \<le> k" if j: "fmlookup (sidechain_tips st) g = Some j" for g j
  proof -
    have "(tip_key j, g) \<in> set (db_iter ?o)" using assms(1) j by (auto simp: set_db_iter tips_okD)
    then have "tip_key j \<in> set (map fst (db_iter ?o))" by force
    moreover have "sorted (map fst (db_iter ?o))" by (simp add: db_iter_keys sorted_list_of_fset.rep_eq)
    moreover have "last (map fst (db_iter ?o)) = k" using last by (simp add: last_map)
    ultimately show ?thesis by (metis sorted_le_last)
  qed
  ultimately show ?thesis by (simp add: i)
qed

end
