(* ===== verification/Archive.thy ===== *)
theory Archive
  imports Side_Tips
begin

text \<open>
  The archive (\<^verbatim>\<open>src/lib/archive/mod.rs\<close>): headers, bodies and accumulators of sidechain blocks, headers
  and infos of mainchain blocks, results of blind merged mining, and exponential ancestor tables
  that find an ancestor in a logarithmic number of lookups. A \<^verbatim>\<open>HashSet\<close> or \<^verbatim>\<open>HashMap\<close> that is
  iterated over comes with an order \<open>ord\<close>, since Rust does not fix one.
\<close>

section \<open>Tables\<close>

record BlockInfo =
  bmm_commitment :: "BlockHash option"
  bi_events :: "BlockEvent list"

datatype BmmResult = BmmVerified | BmmFailed

record Tip =
  tip_block_hash :: BlockHash
  tip_main_block_hash :: hash256

datatype ArchiveError =
  ArInvalidPrevSideHash
| ArNoAccumulator BlockHash
| ArNoAncestor BlockHash u32
| ArNoMainAncestor hash256 u32
| ArNoBlockHash BlockHash
| ArNoBmmResult BlockHash
| ArNoBody BlockHash
| ArNoHeader BlockHash
| ArNoHeight BlockHash
| ArNoMainBlockHash hash256
| ArNoMainBlockInfo hash256
| ArNoMainHeaderInfo hash256
| ArNoMainHeight hash256
| ArDbGet
| ArSideTips SideTipsError

type_synonym 'a ares = "ArchiveError fault + 'a"

abbreviation ar_err :: "ArchiveError \<Rightarrow> 'a ares" where
  "ar_err e \<equiv> Inl (Fail e)"

record 'acc Archive =
  ar_accumulators :: "(BlockHash, 'acc) db"
  block_hash_to_height :: "(BlockHash, u32) db"
  bmm_results :: "(BlockHash, (hash256, BmmResult) fmap) db"
  ar_bodies :: "(BlockHash, Body) db"
  exponential_ancestors :: "(BlockHash, BlockHash list) db"
  exponential_main_ancestors :: "(hash256, hash256 list) db"
  ar_headers :: "(BlockHash, Header) db"
  invalid_blocks :: "(BlockHash, unit) db"
  main_block_hash_to_height :: "(hash256, u32) db"
  main_block_infos :: "(hash256, BlockInfo) db"
  main_header_infos :: "(hash256, BlockHeaderInfo) db"
  main_successors :: "(hash256, hash256 fset) db"
  ar_side_tips :: SideTips
  ar_successors :: "(BlockHash option, BlockHash fset) db"
  total_work :: "(hash256, Work) db"

text \<open>A new archive: the successors of no block are known to be empty, on both chains.\<close>

definition Archive_new :: "'acc Archive" where
  "Archive_new =
     \<lparr>ar_accumulators = fmempty, block_hash_to_height = fmempty, bmm_results = fmempty,
      ar_bodies = fmempty, exponential_ancestors = fmempty, exponential_main_ancestors = fmempty,
      ar_headers = fmempty, invalid_blocks = fmempty, main_block_hash_to_height = fmempty,
      main_block_infos = fmempty, main_header_infos = fmempty,
      main_successors = fmupd 0 {||} fmempty, ar_side_tips = SideTips_create,
      ar_successors = fmupd None {||} fmempty, total_work = fmempty\<rparr>"

section \<open>Lookups\<close>

definition ar_get_accumulator :: "'acc Archive \<Rightarrow> BlockHash \<Rightarrow> 'acc ares" where
  "ar_get_accumulator A h = ok_or (Fail (ArNoAccumulator h)) (fmlookup (ar_accumulators A) h)"

definition ar_get_height :: "'acc Archive \<Rightarrow> BlockHash \<Rightarrow> u32 ares" where
  "ar_get_height A h = ok_or (Fail (ArNoHeight h)) (fmlookup (block_hash_to_height A) h)"

definition get_bmm_results :: "'acc Archive \<Rightarrow> BlockHash \<Rightarrow> (hash256, BmmResult) fmap" where
  "get_bmm_results A h = (case fmlookup (bmm_results A) h of Some m \<Rightarrow> m | None \<Rightarrow> fmempty)"

definition contains_body :: "'acc Archive \<Rightarrow> BlockHash \<Rightarrow> bool" where
  "contains_body A h = db_has (ar_bodies A) h"

definition try_get_bmm_result :: "'acc Archive \<Rightarrow> BlockHash \<Rightarrow> hash256 \<Rightarrow> BmmResult option" where
  "try_get_bmm_result A h m = fmlookup (get_bmm_results A h) m"

definition get_bmm_result :: "'acc Archive \<Rightarrow> BlockHash \<Rightarrow> hash256 \<Rightarrow> BmmResult ares" where
  "get_bmm_result A h m = ok_or (Fail (ArNoBmmResult h)) (try_get_bmm_result A h m)"

definition get_body :: "'acc Archive \<Rightarrow> BlockHash \<Rightarrow> Body ares" where
  "get_body A h = ok_or (Fail (ArNoBody h)) (fmlookup (ar_bodies A) h)"

definition invalidated_block :: "'acc Archive \<Rightarrow> BlockHash \<Rightarrow> bool" where
  "invalidated_block A h = db_has (invalid_blocks A) h"

definition get_header :: "'acc Archive \<Rightarrow> BlockHash \<Rightarrow> Header ares" where
  "get_header A h = ok_or (Fail (ArNoHeader h)) (fmlookup (ar_headers A) h)"

definition get_main_block_info :: "'acc Archive \<Rightarrow> hash256 \<Rightarrow> BlockInfo ares" where
  "get_main_block_info A m = ok_or (Fail (ArNoMainBlockInfo m)) (fmlookup (main_block_infos A) m)"

definition get_main_height :: "'acc Archive \<Rightarrow> hash256 \<Rightarrow> u32 ares" where
  "get_main_height A m = ok_or (Fail (ArNoMainHeight m)) (fmlookup (main_block_hash_to_height A) m)"

definition get_main_header_info :: "'acc Archive \<Rightarrow> hash256 \<Rightarrow> BlockHeaderInfo ares" where
  "get_main_header_info A m = ok_or (Fail (ArNoMainHeaderInfo m)) (fmlookup (main_header_infos A) m)"

definition get_main_successors :: "'acc Archive \<Rightarrow> hash256 \<Rightarrow> hash256 fset ares" where
  "get_main_successors A m = ok_or (Fail (ArNoMainBlockHash m)) (fmlookup (main_successors A) m)"

definition get_successors :: "'acc Archive \<Rightarrow> BlockHash option \<Rightarrow> BlockHash fset ares" where
  "get_successors A h =
     (case fmlookup (ar_successors A) h of
        Some S \<Rightarrow> Inr S
      | None \<Rightarrow>
          (case h of
             Some g \<Rightarrow> ar_err (ArNoBlockHash g)
           | None \<Rightarrow> Inl (Panic ''Successors to None should always be known'')))"

definition get_total_work :: "'acc Archive \<Rightarrow> hash256 \<Rightarrow> Work ares" where
  "get_total_work A m = ok_or (Fail (ArNoMainHeaderInfo m)) (fmlookup (total_work A) m)"

text \<open>The verifications of a block; the best is one with the most total work, the last such one in the order.\<close>

definition verified_in :: "(hash256 fset \<Rightarrow> hash256 list) \<Rightarrow> 'acc Archive \<Rightarrow> BlockHash \<Rightarrow> hash256 list" where
  "verified_in ord A h =
     filter (\<lambda>m. fmlookup (get_bmm_results A h) m = Some BmmVerified) (ord (fmdom (get_bmm_results A h)))"

definition try_get_best_main_verification ::
  "(hash256 fset \<Rightarrow> hash256 list) \<Rightarrow> 'acc Archive \<Rightarrow> BlockHash \<Rightarrow> hash256 option ares" where
  "try_get_best_main_verification ord A h =
     and_then (try_fold (\<lambda>m best.
         and_then (get_total_work A m) (\<lambda>w.
         Inr (case best of
                None \<Rightarrow> Some (m, w)
              | Some (_, w0) \<Rightarrow> if w0 \<le> w then Some (m, w) else best)))
       (verified_in ord A h) None) (\<lambda>best.
     Inr (map_option fst best))"

definition get_best_main_verification ::
  "(hash256 fset \<Rightarrow> hash256 list) \<Rightarrow> 'acc Archive \<Rightarrow> BlockHash \<Rightarrow> hash256 ares" where
  "get_best_main_verification ord A h =
     and_then (try_get_best_main_verification ord A h) (ok_or (Fail (ArNoBmmResult h)))"

section \<open>Ancestors\<close>

fun ilog2 :: "nat \<Rightarrow> nat" where
  "ilog2 n = (if n < 2 then 0 else Suc (ilog2 (n div 2)))"

text \<open>
  The loop of \<open>get_nth_ancestor\<close> and of \<open>get_nth_main_ancestor\<close>: it takes the largest power of two
  that fits from the table of the current block. The chains differ in the lookups of a height, of a
  parent and of the table.
\<close>

declare ilog2.simps [simp del]

lemma ilog2_less_2 [simp]: "n < 2 \<Longrightarrow> ilog2 n = 0"
  by (subst ilog2.simps) simp

lemma ilog2_step [simp]: "2 \<le> n \<Longrightarrow> ilog2 n = Suc (ilog2 (n div 2))"
  by (subst ilog2.simps) simp

lemma ilog2_exp: "2 \<le> n \<Longrightarrow> 2 ^ ilog2 n \<le> n \<and> n < 2 * 2 ^ ilog2 n"
proof (induction n rule: ilog2.induct)
  case (1 n)
  show ?case
  proof (cases "n < 4")
    case True
    then have "ilog2 n = 1" using 1 by simp
    with 1 True show ?thesis by simp
  next
    case False
    then have "2 ^ ilog2 (n div 2) \<le> n div 2 \<and> n div 2 < 2 * 2 ^ ilog2 (n div 2)" using 1 by simp
    then show ?thesis using 1 by (simp add: power_Suc) linarith
  qed
qed

function nth_loop ::
  "('h \<Rightarrow> u32 ares) \<Rightarrow> ('h \<Rightarrow> 'h ares) \<Rightarrow> ('h \<Rightarrow> 'h list ares) \<Rightarrow> ArchiveError \<Rightarrow> 'h \<Rightarrow> nat \<Rightarrow> 'h ares" where
  "nth_loop ht par exps e h n =
     (if n = 0 then Inr h
      else
        and_then (ht h) (\<lambda>k.
        if n > unat k then ar_err e
        else if n = 1 then par h
        else
          let i = ilog2 n - 1 in
          and_then (exps h) (\<lambda>xs.
          if i < length xs then nth_loop ht par exps e (xs ! i) (n - 2 * 2 ^ i)
          else Inl (Panic ''index out of bounds''))))"
  by pat_completeness auto

termination
  by (relation "measure (\<lambda>(ht, par, exps, e, h, n). n)") auto

declare nth_loop.simps [simp del]

definition side_parent :: "'acc Archive \<Rightarrow> BlockHash \<Rightarrow> BlockHash ares" where
  "side_parent A h =
     and_then (get_header A h) (\<lambda>hdr.
     ok_or (Panic ''block with height >= 1 should have a parent'') (prev_side_hash hdr))"

definition main_parent :: "'acc Archive \<Rightarrow> hash256 \<Rightarrow> hash256 ares" where
  "main_parent A m = and_then (get_main_header_info A m) (\<lambda>hi. Inr (bhi_prev_block_hash hi))"

definition side_exponentials :: "'acc Archive \<Rightarrow> BlockHash \<Rightarrow> BlockHash list ares" where
  "side_exponentials A h = ok_or (Fail ArDbGet) (fmlookup (exponential_ancestors A) h)"

definition main_exponentials :: "'acc Archive \<Rightarrow> hash256 \<Rightarrow> hash256 list ares" where
  "main_exponentials A m = ok_or (Fail ArDbGet) (fmlookup (exponential_main_ancestors A) m)"

definition get_nth_ancestor :: "'acc Archive \<Rightarrow> BlockHash \<Rightarrow> u32 \<Rightarrow> BlockHash ares" where
  "get_nth_ancestor A h n =
     nth_loop (ar_get_height A) (side_parent A) (side_exponentials A) (ArNoAncestor h n) h (unat n)"

definition get_nth_main_ancestor :: "'acc Archive \<Rightarrow> hash256 \<Rightarrow> u32 \<Rightarrow> hash256 ares" where
  "get_nth_main_ancestor A m n =
     nth_loop (get_main_height A) (main_parent A) (main_exponentials A) (ArNoMainAncestor m n) m (unat n)"

definition get_block_locator :: "'acc Archive \<Rightarrow> BlockHash \<Rightarrow> BlockHash list ares" where
  "get_block_locator A h =
     and_then (get_header A h) (\<lambda>hdr.
     and_then (side_exponentials A h) (\<lambda>xs.
     Inr (case prev_side_hash hdr of Some p \<Rightarrow> p # xs | None \<Rightarrow> xs)))"

definition is_descendant :: "'acc Archive \<Rightarrow> BlockHash \<Rightarrow> BlockHash \<Rightarrow> bool ares" where
  "is_descendant A ancestor descendant =
     (if ancestor = descendant then Inr True
      else
        and_then (ar_get_height A ancestor) (\<lambda>ha.
        and_then (ar_get_height A descendant) (\<lambda>hd.
        if ha > hd then Inr False
        else and_then (get_nth_ancestor A descendant (hd - ha)) (\<lambda>a. Inr (ancestor = a)))))"

definition is_main_descendant :: "'acc Archive \<Rightarrow> hash256 \<Rightarrow> hash256 \<Rightarrow> bool ares" where
  "is_main_descendant A ancestor descendant =
     (if ancestor = descendant then Inr True
      else
        and_then (get_main_height A ancestor) (\<lambda>ha.
        and_then (get_main_height A descendant) (\<lambda>hd.
        if ha > hd then Inr False
        else and_then (get_nth_main_ancestor A descendant (hd - ha)) (\<lambda>a. Inr (ancestor = a)))))"

section \<open>Storing headers\<close>

definition put_accumulator :: "BlockHash \<Rightarrow> 'acc \<Rightarrow> 'acc Archive \<Rightarrow> 'acc Archive" where
  "put_accumulator h acc A = A\<lparr>ar_accumulators := fmupd h acc (ar_accumulators A)\<rparr>"

text \<open>
  The exponential ancestors of a block of height \<open>k\<close>: its grandparent, and then the ancestors at
  depths 4, 8 and so on, each found from the one before; \<open>i\<close> counts the rounds.
\<close>

function exp_loop :: "('h \<Rightarrow> u32 \<Rightarrow> 'h ares) \<Rightarrow> u32 \<Rightarrow> nat \<Rightarrow> 'h list \<Rightarrow> 'h list ares" where
  "exp_loop anc k i xs =
     (if 4 * 2 ^ i \<le> unat k then
        and_then (anc (last xs) (word_of_nat (4 * 2 ^ i) div 2)) (\<lambda>a. exp_loop anc k (Suc i) (xs @ [a]))
      else Inr xs)"
  by pat_completeness auto

termination
proof (relation "measure (\<lambda>(anc, k, i, xs). Suc (unat k) - 4 * 2 ^ i)")
  fix anc :: "'h \<Rightarrow> u32 \<Rightarrow> 'h ares" and k i and xs :: "'h list" and a
  assume "4 * 2 ^ i \<le> unat k"
  moreover have "0 < (2 :: nat) ^ i" by simp
  ultimately have "Suc (unat k) - 8 * 2 ^ i < Suc (unat k) - 4 * 2 ^ i" by linarith
  then show "((anc, k, Suc i, xs @ [a]), anc, k, i, xs) \<in> measure (\<lambda>(anc, k, i, xs). Suc (unat k) - 4 * 2 ^ i)"
    by simp
qed simp

declare exp_loop.simps [simp del]

definition exp_table :: "('h \<Rightarrow> u32 \<Rightarrow> 'h ares) \<Rightarrow> u32 \<Rightarrow> 'h ares \<Rightarrow> 'h list ares" where
  "exp_table anc k parent =
     (if 2 \<le> k then and_then parent (\<lambda>p. and_then (anc p 1) (\<lambda>g. exp_loop anc k 0 [g])) else Inr [])"

fun try_any :: "('x \<Rightarrow> 'e + bool) \<Rightarrow> 'x list \<Rightarrow> 'e + bool" where
  "try_any f [] = Inr False"
| "try_any f (x # xs) = and_then (f x) (\<lambda>b. if b then Inr True else try_any f xs)"

text \<open>Whether the ancestry of a mainchain block has a valid commitment to the parent.\<close>

definition parent_committed ::
  "(hash256 fset \<Rightarrow> hash256 list) \<Rightarrow> 'acc Archive \<Rightarrow> (hash256, BmmResult) fmap \<Rightarrow> hash256 \<Rightarrow> bool ares" where
  "parent_committed ord A res main_block =
     try_any (\<lambda>m. if fmlookup res m = Some BmmVerified then is_main_descendant A m main_block else Inr False)
       (ord (fmdom res))"

definition bmm_outcome :: "bool \<Rightarrow> BmmResult" where
  "bmm_outcome b = (if b then BmmVerified else BmmFailed)"

text \<open>The result of blind merged mining of a header in a mainchain block.\<close>

definition check_bmm ::
  "(hash256 fset \<Rightarrow> hash256 list) \<Rightarrow> 'acc Archive \<Rightarrow> BlockHash \<Rightarrow> Header \<Rightarrow> (hash256, BmmResult) fmap option \<Rightarrow>
   hash256 \<Rightarrow> BmmResult ares" where
  "check_bmm ord A h hdr parent_res main_block =
     and_then (get_main_block_info A main_block) (\<lambda>info.
     case bmm_commitment info of
       None \<Rightarrow> Inr BmmFailed
     | Some c \<Rightarrow>
         if c \<noteq> h then Inr BmmFailed
         else
           and_then (get_main_header_info A main_block) (\<lambda>mhi.
           if prev_main_hash hdr \<noteq> bhi_prev_block_hash mhi then Inr BmmFailed
           else
             (case parent_res of
                None \<Rightarrow> Inr BmmVerified
              | Some res \<Rightarrow>
                  and_then (parent_committed ord A res main_block) (\<lambda>b. Inr (bmm_outcome b)))))"

definition put_bmm_results ::
  "(hash256 fset \<Rightarrow> hash256 list) \<Rightarrow> BlockHash \<Rightarrow> Header \<Rightarrow> 'acc Archive \<Rightarrow> 'acc Archive ares" where
  "put_bmm_results ord h hdr A =
     (let parent_res = map_option (get_bmm_results A) (prev_side_hash hdr) in
      and_then (get_main_successors A (prev_main_hash hdr)) (\<lambda>blocks.
      and_then (try_fold (\<lambda>m res. and_then (check_bmm ord A h hdr parent_res m) (\<lambda>r. Inr (fmupd m r res)))
                 (ord blocks) (get_bmm_results A h)) (\<lambda>res.
      Inr (A\<lparr>bmm_results := fmupd h res (bmm_results A)\<rparr>))))"

text \<open>The block joins the successors of its parent, and gets an entry of its own.\<close>

definition put_successor :: "BlockHash \<Rightarrow> BlockHash option \<Rightarrow> 'acc Archive \<Rightarrow> 'acc Archive ares" where
  "put_successor h prev A =
     and_then (get_successors A prev) (\<lambda>S.
     let A1 = A\<lparr>ar_successors := fmupd prev (finsert h S) (ar_successors A)\<rparr>;
         own = (case fmlookup (ar_successors A1) (Some h) of Some S \<Rightarrow> S | None \<Rightarrow> {||}) in
     Inr (A1\<lparr>ar_successors := fmupd (Some h) own (ar_successors A1)\<rparr>))"

definition put_header ::
  "'acc ext \<Rightarrow> (hash256 fset \<Rightarrow> hash256 list) \<Rightarrow> Header \<Rightarrow> 'acc Archive \<Rightarrow> 'acc Archive ares" where
  "put_header X ord hdr A =
     and_then (case prev_side_hash hdr of
                 None \<Rightarrow> Inr 0
               | Some p \<Rightarrow>
                   and_then (ok_or (Fail ArInvalidPrevSideHash) (fmlookup (block_hash_to_height A) p)) (\<lambda>k.
                   Inr (k + 1))) (\<lambda>k.
     let h = header_hash X hdr;
         A1 = A\<lparr>block_hash_to_height := fmupd h k (block_hash_to_height A),
                ar_headers := fmupd h hdr (ar_headers A)\<rparr> in
     and_then (put_successor h (prev_side_hash hdr) A1) (\<lambda>A2.
     and_then (exp_table (get_nth_ancestor A2) k
                (ok_or (Panic ''called Option::unwrap() on a None value'') (prev_side_hash hdr))) (\<lambda>xs.
     put_bmm_results ord h hdr
       (A2\<lparr>exponential_ancestors := fmupd h xs (exponential_ancestors A2)\<rparr>))))"

definition put_main_block_info ::
  "(hash256 fset \<Rightarrow> hash256 list) \<Rightarrow> hash256 \<Rightarrow> BlockInfo \<Rightarrow> 'acc Archive \<Rightarrow> 'acc Archive ares" where
  "put_main_block_info ord m info A =
     and_then (get_main_header_info A m) (\<lambda>mhi.
     and_then (if bhi_prev_block_hash mhi \<noteq> 0
               then and_then (get_main_block_info A (bhi_prev_block_hash mhi)) (\<lambda>_. Inr ()) else Inr ()) (\<lambda>_.
     let A1 = A\<lparr>main_block_infos := fmupd m info (main_block_infos A)\<rparr> in
     case bmm_commitment info of
       None \<Rightarrow> Inr A1
     | Some c \<Rightarrow>
         (case fmlookup (ar_headers A1) c of
            None \<Rightarrow> Inr A1
          | Some hdr \<Rightarrow>
              and_then (if prev_main_hash hdr \<noteq> bhi_prev_block_hash mhi then Inr BmmFailed
                        else
                          (case prev_side_hash hdr of
                             Some p \<Rightarrow>
                               and_then (parent_committed ord A1 (get_bmm_results A1 p) m) (\<lambda>b.
                               Inr (bmm_outcome b))
                           | None \<Rightarrow> Inr BmmVerified)) (\<lambda>r.
              Inr (A1\<lparr>bmm_results := fmupd c (fmupd m r (get_bmm_results A1 c)) (bmm_results A1)\<rparr>)))))"

definition put_main_successor :: "hash256 \<Rightarrow> hash256 \<Rightarrow> 'acc Archive \<Rightarrow> 'acc Archive ares" where
  "put_main_successor m prev A =
     and_then (get_main_successors A prev) (\<lambda>S.
     let A1 = A\<lparr>main_successors := fmupd prev (finsert m S) (main_successors A)\<rparr>;
         own = (case fmlookup (main_successors A1) m of Some S \<Rightarrow> S | None \<Rightarrow> {||}) in
     Inr (A1\<lparr>main_successors := fmupd m own (main_successors A1)\<rparr>))"

definition put_main_header_info :: "BlockHeaderInfo \<Rightarrow> 'acc Archive \<Rightarrow> 'acc Archive ares" where
  "put_main_header_info hi A =
     (let prev = bhi_prev_block_hash hi; m = bhi_block_hash hi in
      if fmlookup (main_header_infos A) prev = None \<and> prev \<noteq> 0 then ar_err (ArNoMainHeaderInfo prev)
      else
        and_then (if prev = 0 then Inr 0
                  else and_then (get_main_height A prev) (\<lambda>k. Inr (k + 1))) (\<lambda>k.
        and_then (if prev \<noteq> 0
                  then and_then (get_total_work A prev) (\<lambda>w. Inr (w + bhi_work hi)) else Inr (bhi_work hi)) (\<lambda>w.
        let A1 = A\<lparr>main_block_hash_to_height := fmupd m k (main_block_hash_to_height A),
                   main_header_infos := fmupd m hi (main_header_infos A),
                   total_work := fmupd m w (total_work A)\<rparr> in
        and_then (put_main_successor m prev A1) (\<lambda>A2.
        and_then (exp_table (get_nth_main_ancestor A2) k (Inr prev)) (\<lambda>xs.
        Inr (A2\<lparr>exponential_main_ancestors := fmupd m xs (exponential_main_ancestors A2)\<rparr>))))))"

end
