(* ===== verification/Archive_Chain.thy ===== *)
theory Archive_Chain
  imports Archive
begin

text \<open>
  The walks of the archive: storing and discarding bodies with the update of the sidechain tips,
  invalidating a block with its descendants, iterating over ancestors (\<^verbatim>\<open>src/lib/archive/iter.rs\<close>),
  finding common ancestors, and comparing tips. A walk up the chain ends only when the headers have
  no cycle, so such a loop is a partial function, and \<open>None\<close> is a loop that does not end.
\<close>

section \<open>Bodies and tips\<close>

definition ar_side :: "SideTipsError + SideTips \<Rightarrow> 'acc Archive \<Rightarrow> 'acc Archive ares" where
  "ar_side r A = (case r of Inl e \<Rightarrow> ar_err (ArSideTips e) | Inr st \<Rightarrow> Inr (A\<lparr>ar_side_tips := st\<rparr>))"

text \<open>One verification of a block: a tip is connected when its parent is one and the mainchain
  block is in the current chain.\<close>

definition connect_verification ::
  "BlockHash \<Rightarrow> Header \<Rightarrow> hash256 \<Rightarrow> bool \<times> 'acc Archive \<Rightarrow> (bool \<times> 'acc Archive) ares" where
  "connect_verification h hdr m = (\<lambda>(connected, A).
     if (case prev_side_hash hdr of
           Some p \<Rightarrow> \<not> db_has (sidechain_tips (ar_side_tips A)) p | None \<Rightarrow> False) then Inr (connected, A)
     else
       and_then (is_main_descendant A m (mainchain_tip_hash (mainchain_tip (ar_side_tips A)))) (\<lambda>b.
       if \<not> b then Inr (connected, A)
       else
         and_then (get_total_work A m) (\<lambda>w.
         and_then (ar_side (connect_sidechain_tip m w h (header_data hdr) (ar_side_tips A)) A) (\<lambda>A1.
         Inr (True, A1)))))"

text \<open>The tips of one block, and the blocks to look at next.\<close>

definition update_side_tips ::
  "(hash256 fset \<Rightarrow> hash256 list) \<Rightarrow> BlockHash \<Rightarrow> Header \<Rightarrow> 'acc Archive \<Rightarrow> (BlockHash list \<times> 'acc Archive) ares" where
  "update_side_tips ord h hdr A =
     and_then (try_fold (connect_verification h hdr) (verified_in ord A h) (False, A)) (\<lambda>(connected, A1).
     if connected then and_then (get_successors A1 (Some h)) (\<lambda>S. Inr (ord S, A1)) else Inr ([], A1))"

definition tips_step ::
  "(hash256 fset \<Rightarrow> hash256 list) \<Rightarrow> BlockHash \<Rightarrow> 'acc Archive \<Rightarrow> (BlockHash list \<times> 'acc Archive) ares" where
  "tips_step ord h A =
     (if \<not> contains_body A h then Inr ([], A)
      else and_then (get_header A h) (\<lambda>hdr. update_side_tips ord h hdr A))"

partial_function (option) tips_loop ::
  "(hash256 fset \<Rightarrow> hash256 list) \<Rightarrow> BlockHash list \<Rightarrow> 'acc Archive \<Rightarrow> 'acc Archive ares option" where
  "tips_loop ord q A =
     (case q of
        [] \<Rightarrow> Some (Inr A)
      | h # q' \<Rightarrow>
          (case tips_step ord h A of
             Inl e \<Rightarrow> Some (Inl e)
           | Inr (new, A1) \<Rightarrow> tips_loop ord (q' @ new) A1))"

declare tips_loop.simps [code]

definition put_body ::
  "(hash256 fset \<Rightarrow> hash256 list) \<Rightarrow> BlockHash \<Rightarrow> Body \<Rightarrow> 'acc Archive \<Rightarrow> 'acc Archive ares option" where
  "put_body ord h body A =
     (case and_then (get_header A h) (\<lambda>hdr.
             update_side_tips ord h hdr (A\<lparr>ar_bodies := fmupd h body (ar_bodies A)\<rparr>)) of
        Inl e \<Rightarrow> Some (Inl e)
      | Inr (q, A1) \<Rightarrow> tips_loop ord q A1)"

lemma disconnected_fewer:
  "db_has (sidechain_tips st) h \<Longrightarrow>
     fcard (fmdom (sidechain_tips (disconnect_sidechain_tip h st))) < fcard (fmdom (sidechain_tips st))"
  by (cases "fmlookup (sidechain_tips st) h")
    (auto simp: disconnect_sidechain_tip_def db_has_def simp del: fmdom_drop intro: fcard_fmdrop)

text \<open>Discarding a body: the tips of the block and of its descendants are disconnected.\<close>

function discard_loop ::
  "(hash256 fset \<Rightarrow> hash256 list) \<Rightarrow> BlockHash list \<Rightarrow> 'acc Archive \<Rightarrow> 'acc Archive ares" where
  "discard_loop ord [] A = Inr A"
| "discard_loop ord (h # q) A =
     (if db_has (sidechain_tips (ar_side_tips A)) h then
        let A1 = A\<lparr>ar_side_tips := disconnect_sidechain_tip h (ar_side_tips A)\<rparr> in
        and_then (get_successors A1 (Some h)) (\<lambda>S. discard_loop ord (q @ ord S) A1)
      else discard_loop ord q A)"
  by pat_completeness auto

termination
  by (relation "measures [\<lambda>(ord, q, A). fcard (fmdom (sidechain_tips (ar_side_tips A))), \<lambda>(ord, q, A). length q]")
    (simp_all add: disconnected_fewer)

definition delete_body ::
  "(hash256 fset \<Rightarrow> hash256 list) \<Rightarrow> BlockHash \<Rightarrow> 'acc Archive \<Rightarrow> 'acc Archive ares" where
  "delete_body ord h A = discard_loop ord [h] (A\<lparr>ar_bodies := fmdrop h (ar_bodies A)\<rparr>)"

section \<open>Invalidation\<close>

definition drop_successor :: "BlockHash \<Rightarrow> 'acc Archive \<Rightarrow> 'acc Archive" where
  "drop_successor h A =
     (case fmlookup (ar_headers A) h of
        Some hdr \<Rightarrow>
          (case fmlookup (ar_successors A) (prev_side_hash hdr) of
             Some S \<Rightarrow> A\<lparr>ar_successors := fmupd (prev_side_hash hdr) (S |-| {|h|}) (ar_successors A)\<rparr>
           | None \<Rightarrow> A)
      | None \<Rightarrow> A)"

definition invalidate_one :: "BlockHash \<Rightarrow> 'acc Archive \<Rightarrow> 'acc Archive" where
  "invalidate_one h A =
     (let A1 = drop_successor h A in
      A1\<lparr>ar_accumulators := fmdrop h (ar_accumulators A1),
         block_hash_to_height := fmdrop h (block_hash_to_height A1),
         ar_bodies := fmdrop h (ar_bodies A1),
         exponential_ancestors := fmdrop h (exponential_ancestors A1),
         ar_headers := fmdrop h (ar_headers A1),
         invalid_blocks := fmupd h () (invalid_blocks A1)\<rparr>)"

lemma invalidate_one_dom: "fmdom (ar_successors (invalidate_one h A)) = fmdom (ar_successors A)"
  by (auto simp: invalidate_one_def drop_successor_def Let_def fmdomI finsert_absorb split: option.splits)

text \<open>The stack: its head is the element that is popped next, so a set is pushed in reverse order.\<close>

function invalidate_loop ::
  "(hash256 fset \<Rightarrow> hash256 list) \<Rightarrow> BlockHash list \<Rightarrow> 'acc Archive \<Rightarrow> 'acc Archive" where
  "invalidate_loop ord [] A = A"
| "invalidate_loop ord (h # stack) A =
     (let A1 = invalidate_one h A in
      case fmlookup (ar_successors A1) (Some h) of
        Some S \<Rightarrow> invalidate_loop ord (rev (ord S) @ stack)
                    (A1\<lparr>ar_successors := fmdrop (Some h) (ar_successors A1)\<rparr>)
      | None \<Rightarrow> invalidate_loop ord stack (A1\<lparr>ar_successors := fmdrop (Some h) (ar_successors A1)\<rparr>))"
  by pat_completeness auto

termination
proof (relation "measures [\<lambda>(ord, st, A). fcard (fmdom (ar_successors A)), \<lambda>(ord, st, A). length st]")
  fix ord :: "hash256 fset \<Rightarrow> hash256 list" and h stack and A A1 :: "'acc Archive" and S
  assume A1: "A1 = invalidate_one h A"
  {
    assume "fmlookup (ar_successors A1) (Some h) = None"
    then show "((ord, stack, A1\<lparr>ar_successors := fmdrop (Some h) (ar_successors A1)\<rparr>), ord, h # stack, A) \<in>
        measures [\<lambda>(ord, st, A). fcard (fmdom (ar_successors A)), \<lambda>(ord, st, A). length st]"
      by (simp add: A1 invalidate_one_dom db_drop_none del: fmdom_drop)
  }
  assume "fmlookup (ar_successors A1) (Some h) = Some S"
  from fcard_fmdrop [OF this]
  show "((ord, rev (ord S) @ stack, A1\<lparr>ar_successors := fmdrop (Some h) (ar_successors A1)\<rparr>), ord, h # stack, A) \<in>
      measures [\<lambda>(ord, st, A). fcard (fmdom (ar_successors A)), \<lambda>(ord, st, A). length st]"
    by (simp add: A1 invalidate_one_dom del: fmdom_drop)
qed simp

definition invalidate_block ::
  "(hash256 fset \<Rightarrow> hash256 list) \<Rightarrow> BlockHash \<Rightarrow> 'acc Archive \<Rightarrow> 'acc Archive" where
  "invalidate_block ord h A = invalidate_loop ord [h] A"

end
