(* ===== verification/Archive_Walk.thy ===== *)
theory Archive_Walk
  imports Archive_Chain "HOL-Library.Option_ord"
begin

text \<open>
  Walks along the ancestors of a block: the iterators (\<^verbatim>\<open>src/lib/archive/iter.rs\<close>), missing bodies, common
  ancestors by binary search, and the comparison of tips. The sidechain and the mainchain have the
  same code over different lookups, so the shared parts take the lookups as arguments.
\<close>

definition opt_then :: "('e + 'a) option \<Rightarrow> ('a \<Rightarrow> ('e + 'b) option) \<Rightarrow> ('e + 'b) option" where
  "opt_then m f = (case m of None \<Rightarrow> None | Some (Inl e) \<Rightarrow> Some (Inl e) | Some (Inr x) \<Rightarrow> f x)"

lemma opt_then_simps [simp]:
  "opt_then None f = None" "opt_then (Some (Inl e)) f = Some (Inl e)" "opt_then (Some (Inr x)) f = f x"
  by (simp_all add: opt_then_def)

lemma opt_then_bind: "opt_then m g = Option.bind m (\<lambda>r. case r of Inl e \<Rightarrow> Some (Inl e) | Inr x \<Rightarrow> g x)"
  by (auto simp: opt_then_def split: option.splits sum.splits)

lemma opt_then_mono [partial_function_mono]:
  assumes "mono_option B" "\<And>y. mono_option (\<lambda>f. C y f)"
  shows "mono_option (\<lambda>f. opt_then (B f) (\<lambda>y. C y f))"
  unfolding opt_then_bind
proof (rule bind_mono [OF assms(1)])
  fix r
  show "mono_option (\<lambda>f. case r of Inl e \<Rightarrow> Some (Inl e) | Inr x \<Rightarrow> C x f)"
    using assms(2) by (cases r) (auto simp: monotone_def fun_ord_def flat_ord_def)
qed

section \<open>Iterators\<close>

text \<open>\<open>ancestor_headers(..).take(n)\<close> and \<open>main_ancestor_header_infos(..).take(n)\<close>.\<close>

fun take_headers :: "'acc Archive \<Rightarrow> nat \<Rightarrow> BlockHash option \<Rightarrow> (BlockHash \<times> Header) list ares" where
  "take_headers A (Suc n) (Some h) =
     and_then (get_header A h) (\<lambda>hdr.
     and_then (take_headers A n (prev_side_hash hdr)) (\<lambda>xs. Inr ((h, hdr) # xs)))"
| "take_headers A _ _ = Inr []"

fun take_main_headers :: "'acc Archive \<Rightarrow> nat \<Rightarrow> hash256 \<Rightarrow> BlockHeaderInfo list ares" where
  "take_main_headers A (Suc n) m =
     (if m = 0 then Inr []
      else
        and_then (get_main_header_info A m) (\<lambda>hi.
        and_then (take_main_headers A n (bhi_prev_block_hash hi)) (\<lambda>xs. Inr (hi # xs))))"
| "take_main_headers A 0 m = Inr []"

text \<open>
  The iterators from a height up to a block work in batches of at most 32. \<open>rv_inner\<close> has the height of
  the block and the buffer, with the item that comes next at its head.
\<close>

record 'i RevIter =
  rv_start :: "u32 option"
  rv_inner :: "(u32 \<times> 'i list) option"

definition rev_new :: "u32 \<Rightarrow> 'i RevIter" where
  "rev_new start = \<lparr>rv_start = Some start, rv_inner = None\<rparr>"

definition max_batch_size :: u32 where
  "max_batch_size = 32"

definition rev_next ::
  "u32 ares \<Rightarrow> (u32 \<Rightarrow> 'h ares) \<Rightarrow> (nat \<Rightarrow> 'h \<Rightarrow> 'i list ares) \<Rightarrow> 'i RevIter \<Rightarrow> ('i option \<times> 'i RevIter) ares" where
  "rev_next block_height anc headers it =
     and_then (case rv_inner it of Some inner \<Rightarrow> Inr inner | None \<Rightarrow> and_then block_height (\<lambda>k. Inr (k, [])))
       (\<lambda>(end_height, buffer).
     case buffer of
       x # rest \<Rightarrow> Inr (Some x, it\<lparr>rv_inner := Some (end_height, rest)\<rparr>)
     | [] \<Rightarrow>
         (case rv_start it of
            None \<Rightarrow> Inr (None, it\<lparr>rv_inner := Some (end_height, [])\<rparr>)
          | Some start \<Rightarrow>
              (case checked_sub end_height start of
                 None \<Rightarrow> Inr (None, it\<lparr>rv_inner := Some (end_height, [])\<rparr>)
               | Some delta \<Rightarrow>
                   let offset = min delta (max_batch_size - 1); size = offset + 1 in
                   and_then (anc (delta - offset)) (\<lambda>a.
                   and_then (headers (unat size) a) (\<lambda>items.
                   let next_start = (case checked_add start size of
                                       Some s \<Rightarrow> if s \<le> end_height then Some s else None | None \<Rightarrow> None) in
                   case rev items of
                     [] \<Rightarrow> Inr (None, \<lparr>rv_start = next_start, rv_inner = Some (end_height, [])\<rparr>)
                   | x # rest \<Rightarrow>
                       Inr (Some x, \<lparr>rv_start = next_start, rv_inner = Some (end_height, rest)\<rparr>))))))"

definition ancestors_rev_next ::
  "'acc Archive \<Rightarrow> BlockHash \<Rightarrow> (BlockHash \<times> Header) RevIter \<Rightarrow>
   ((BlockHash \<times> Header) option \<times> (BlockHash \<times> Header) RevIter) ares" where
  "ancestors_rev_next A h =
     rev_next (ar_get_height A h) (get_nth_ancestor A h) (\<lambda>n a. take_headers A n (Some a))"

definition main_ancestors_rev_next ::
  "'acc Archive \<Rightarrow> hash256 \<Rightarrow> BlockHeaderInfo RevIter \<Rightarrow> (BlockHeaderInfo option \<times> BlockHeaderInfo RevIter) ares" where
  "main_ancestors_rev_next A m =
     rev_next (and_then (get_main_header_info A m) (\<lambda>hi. Inr (bhi_height hi))) (get_nth_main_ancestor A m)
       (take_main_headers A)"

text \<open>\<open>take(n).collect()\<close> of an iterator.\<close>

fun iter_take :: "('s \<Rightarrow> ('i option \<times> 's) ares) \<Rightarrow> nat \<Rightarrow> 's \<Rightarrow> 'i list ares" where
  "iter_take nxt 0 it = Inr []"
| "iter_take nxt (Suc n) it =
     and_then (nxt it) (\<lambda>(x, it1).
     case x of None \<Rightarrow> Inr [] | Some i \<Rightarrow> and_then (iter_take nxt n it1) (\<lambda>xs. Inr (i # xs)))"

text \<open>The walk of \<open>get_missing_bodies\<close>; it conses, so the oldest block comes first.\<close>

partial_function (option) missing_loop ::
  "'acc Archive \<Rightarrow> BlockHash option \<Rightarrow> BlockHash option \<Rightarrow> BlockHash list \<Rightarrow> BlockHash list ares option" where
  "missing_loop A cur ancestor acc =
     (case cur of
        None \<Rightarrow> Some (Inr acc)
      | Some h \<Rightarrow>
          (case get_header A h of
             Inl e \<Rightarrow> Some (Inl e)
           | Inr hdr \<Rightarrow>
               if ancestor = Some h then Some (Inr acc)
               else missing_loop A (prev_side_hash hdr) ancestor
                      (if fmlookup (ar_bodies A) h = None then h # acc else acc)))"

declare missing_loop.simps [code]

definition get_missing_bodies ::
  "'acc Archive \<Rightarrow> BlockHash \<Rightarrow> BlockHash option \<Rightarrow> BlockHash list ares option" where
  "get_missing_bodies A h ancestor = missing_loop A (Some h) ancestor []"

definition main_parent_header_info :: "'acc Archive \<Rightarrow> BlockHeaderInfo \<Rightarrow> BlockHeaderInfo option ares" where
  "main_parent_header_info A hi =
     (if bhi_prev_block_hash hi = 0 then Inr None
      else and_then (get_main_header_info A (bhi_prev_block_hash hi)) (\<lambda>p. Inr (Some p)))"

section \<open>Common ancestors\<close>

text \<open>Two blocks at the smaller of their heights.\<close>

definition level_blocks ::
  "('h \<Rightarrow> u32 ares) \<Rightarrow> ('h \<Rightarrow> u32 \<Rightarrow> 'h ares) \<Rightarrow> 'h \<Rightarrow> 'h \<Rightarrow> ('h \<times> 'h \<times> u32) ares" where
  "level_blocks ht anc h0 h1 =
     and_then (ht h0) (\<lambda>k0.
     and_then (ht h1) (\<lambda>k1.
     if k0 = k1 then Inr (h0, h1, k0)
     else if k0 < k1 then and_then (anc h1 (k1 - k0)) (\<lambda>a. Inr (h0, a, k0))
     else and_then (anc h0 (k0 - k1)) (\<lambda>a. Inr (a, h1, k1))))"

definition same_ancestor :: "('h \<Rightarrow> u32 \<Rightarrow> 'h ares) \<Rightarrow> 'h \<Rightarrow> 'h \<Rightarrow> u32 \<Rightarrow> bool ares" where
  "same_ancestor anc h0 h1 d = and_then (anc h0 d) (\<lambda>a. and_then (anc h1 d) (\<lambda>b. Inr (a = b)))"

text \<open>The binary search; the sum of the depths wraps.\<close>

partial_function (option) depth_search :: "(u32 \<Rightarrow> bool ares) \<Rightarrow> u32 \<Rightarrow> u32 \<Rightarrow> u32 ares option" where
  "depth_search same lo hi =
     (if lo < hi then
        let mid = (lo + hi) div 2 in
        (case same mid of
           Inl e \<Rightarrow> Some (Inl e)
         | Inr b \<Rightarrow> if b then depth_search same lo mid else depth_search same (mid + 1) hi)
      else Some (Inr hi))"

declare depth_search.simps [code]

definition search_ancestor :: "('h \<Rightarrow> u32 \<Rightarrow> 'h ares) \<Rightarrow> 'h \<Rightarrow> 'h \<Rightarrow> u32 \<Rightarrow> 'h ares option" where
  "search_ancestor anc h0 h1 k = opt_then (depth_search (same_ancestor anc h0 h1) 1 k) (\<lambda>d. Some (anc h0 d))"

definition last_common_ancestor ::
  "'acc Archive \<Rightarrow> BlockHash \<Rightarrow> BlockHash \<Rightarrow> BlockHash option ares option" where
  "last_common_ancestor A b0 b1 =
     opt_then (Some (level_blocks (ar_get_height A) (get_nth_ancestor A) b0 b1)) (\<lambda>(h0, h1, k).
     if h0 = h1 then Some (Inr (Some h0))
     else
       opt_then (Some (same_ancestor (get_nth_ancestor A) h0 h1 k)) (\<lambda>shared.
       if \<not> shared then Some (Inr None)
       else opt_then (search_ancestor (get_nth_ancestor A) h0 h1 k) (\<lambda>a. Some (Inr (Some a)))))"

definition last_common_main_ancestor :: "'acc Archive \<Rightarrow> hash256 \<Rightarrow> hash256 \<Rightarrow> hash256 ares option" where
  "last_common_main_ancestor A m0 m1 =
     opt_then (Some (level_blocks (get_main_height A) (get_nth_main_ancestor A) m0 m1)) (\<lambda>(h0, h1, k).
     if h0 = h1 then Some (Inr h0) else search_ancestor (get_nth_main_ancestor A) h0 h1 k)"

definition shared_mainchain_lineage :: "'acc Archive \<Rightarrow> hash256 \<Rightarrow> hash256 \<Rightarrow> bool ares" where
  "shared_mainchain_lineage A m0 m1 =
     and_then (level_blocks (get_main_height A) (get_nth_main_ancestor A) m0 m1) (\<lambda>(h0, h1, _). Inr (h0 = h1))"

section \<open>Comparing tips\<close>

text \<open>\<open>ancestors(..).find_map(f)\<close>.\<close>

partial_function (option) find_ancestor ::
  "'acc Archive \<Rightarrow> (BlockHash \<Rightarrow> 'b option ares) \<Rightarrow> BlockHash option \<Rightarrow> 'b option ares option" where
  "find_ancestor A f cur =
     (case cur of
        None \<Rightarrow> Some (Inr None)
      | Some h \<Rightarrow>
          (case get_header A h of
             Inl e \<Rightarrow> Some (Inl e)
           | Inr hdr \<Rightarrow>
               (case f h of
                  Inl e \<Rightarrow> Some (Inl e)
                | Inr (Some b) \<Rightarrow> Some (Inr (Some b))
                | Inr None \<Rightarrow> find_ancestor A f (prev_side_hash hdr))))"

declare find_ancestor.simps [code]

text \<open>Whether a block builds on a mainchain block before the given one.\<close>

definition before_fork :: "'acc Archive \<Rightarrow> hash256 \<Rightarrow> BlockHash \<Rightarrow> Header option ares" where
  "before_fork A main_anc h =
     and_then (get_header A h) (\<lambda>hdr.
     and_then (is_main_descendant A (prev_main_hash hdr) main_anc) (\<lambda>b.
     Inr (if \<not> b \<or> prev_main_hash hdr = main_anc then None else Some hdr)))"

definition height_before_fork :: "'acc Archive \<Rightarrow> hash256 \<Rightarrow> BlockHash \<Rightarrow> u32 option ares" where
  "height_before_fork A main_anc h =
     and_then (before_fork A main_anc h) (\<lambda>r.
     case r of None \<Rightarrow> Inr None | Some _ \<Rightarrow> and_then (ar_get_height A h) (\<lambda>k. Inr (Some k)))"

definition work_before_fork :: "'acc Archive \<Rightarrow> hash256 \<Rightarrow> u32 \<Rightarrow> BlockHash \<Rightarrow> (u32 \<times> Work) option ares" where
  "work_before_fork A main_anc main_height h =
     and_then (before_fork A main_anc h) (\<lambda>r.
     case r of
       None \<Rightarrow> Inr None
     | Some hdr \<Rightarrow>
         and_then (ar_get_height A h) (\<lambda>k.
         and_then (get_main_height A (prev_main_hash hdr)) (\<lambda>prev.
         and_then (get_nth_main_ancestor A main_anc (main_height - (prev + 1))) (\<lambda>m.
         and_then (get_total_work A m) (\<lambda>w. Inr (Some (k, w)))))))"

text \<open>Same work and same height: the blocks before the fork of the mainchain decide.\<close>

definition better_equal_tip :: "'acc Archive \<Rightarrow> Tip \<Rightarrow> Tip \<Rightarrow> Tip option ares option" where
  "better_equal_tip A tip0 tip1 =
     (if tip_block_hash tip0 = tip_block_hash tip1 then Some (Inr (Some tip0))
      else
        opt_then (last_common_main_ancestor A (tip_main_block_hash tip0) (tip_main_block_hash tip1)) (\<lambda>main_anc.
        opt_then (Some (get_main_height A main_anc)) (\<lambda>mh.
        opt_then (find_ancestor A (work_before_fork A main_anc mh) (Some (tip_block_hash tip0))) (\<lambda>r0.
        opt_then (find_ancestor A (work_before_fork A main_anc mh) (Some (tip_block_hash tip1))) (\<lambda>r1.
        let (k0, w0) = (map_option fst r0, map_option snd r0); (k1, w1) = (map_option fst r1, map_option snd r1) in
        Some (Inr (Some (if k0 > k1 \<or> k0 = k1 \<and> w0 \<le> w1 then tip0 else tip1))))))))"

definition better_tip :: "'acc Archive \<Rightarrow> Tip \<Rightarrow> Tip \<Rightarrow> Tip option ares option" where
  "better_tip A tip0 tip1 =
     (if tip0 = tip1 then Some (Inr None)
      else
        opt_then (Some (ar_get_height A (tip_block_hash tip0))) (\<lambda>k0.
        opt_then (Some (ar_get_height A (tip_block_hash tip1))) (\<lambda>k1.
        if k0 = 0 \<and> k1 = 0 then Some (Inr None)
        else if k0 = 0 then Some (Inr (Some tip1))
        else if k1 = 0 then Some (Inr (Some tip0))
        else
          opt_then (Some (get_total_work A (tip_main_block_hash tip0))) (\<lambda>w0.
          opt_then (Some (get_total_work A (tip_main_block_hash tip1))) (\<lambda>w1.
          if w0 \<le> w1 \<and> k0 < k1 then Some (Inr (Some tip1))
          else if w0 \<ge> w1 \<and> k0 > k1 then Some (Inr (Some tip0))
          else if k0 = k1 \<and> w0 \<noteq> w1 then
            opt_then (Some (shared_mainchain_lineage A (tip_main_block_hash tip0) (tip_main_block_hash tip1))) (\<lambda>shared.
            Some (Inr (Some (if w0 < w1 then (if shared then tip0 else tip1)
                             else (if \<not> shared then tip0 else tip1)))))
          else if k0 = k1 then better_equal_tip A tip0 tip1
          else
            opt_then (last_common_main_ancestor A (tip_main_block_hash tip0) (tip_main_block_hash tip1)) (\<lambda>main_anc.
            if w0 < w1 then
              opt_then (find_ancestor A (height_before_fork A main_anc) (Some (tip_block_hash tip0))) (\<lambda>r.
              Some (Inr (Some (if r \<ge> Some k1 then tip0 else tip1))))
            else
              opt_then (find_ancestor A (height_before_fork A main_anc) (Some (tip_block_hash tip1))) (\<lambda>r.
              Some (Inr (Some (if r < Some k0 then tip0 else tip1))))))))))"

end
