(* ===== verification/Archive_Facts.thy ===== *)
theory Archive_Facts
  imports Archive_Walk
begin

text \<open>
  Ancestors by exponential tables are ancestors by parents, one step at a time. The facts hold for
  any lookups whose tables are right on a set of known blocks that is closed under parents; the
  sidechain and the mainchain are instances.
\<close>

section \<open>Ancestors one step at a time\<close>

fun walk :: "('h \<Rightarrow> 'h ares) \<Rightarrow> nat \<Rightarrow> 'h \<Rightarrow> 'h ares" where
  "walk par 0 h = Inr h"
| "walk par (Suc n) h = and_then (par h) (walk par n)"

text \<open>Known blocks: a positive height has a known parent one below, and the table is complete.\<close>

definition linked :: "'h set \<Rightarrow> ('h \<Rightarrow> u32 ares) \<Rightarrow> ('h \<Rightarrow> 'h ares) \<Rightarrow> 'h \<Rightarrow> bool" where
  "linked K ht par h \<longleftrightarrow>
     (\<exists>k. ht h = Inr k \<and>
        (0 < k \<longrightarrow> (\<exists>p \<in> K. \<exists>j. par h = Inr p \<and> ht p = Inr j \<and> unat k = Suc (unat j))))"

definition tabled :: "('h \<Rightarrow> u32 ares) \<Rightarrow> ('h \<Rightarrow> 'h ares) \<Rightarrow> ('h \<Rightarrow> 'h list ares) \<Rightarrow> 'h \<Rightarrow> bool" where
  "tabled ht par exps h \<longleftrightarrow>
     (\<exists>xs. exps h = Inr xs \<and>
        (\<forall>k i. ht h = Inr k \<longrightarrow> 2 * 2 ^ i \<le> unat k \<longrightarrow> i < length xs \<and> walk par (2 * 2 ^ i) h = Inr (xs ! i)))"

definition chain_ok :: "'h set \<Rightarrow> ('h \<Rightarrow> u32 ares) \<Rightarrow> ('h \<Rightarrow> 'h ares) \<Rightarrow> ('h \<Rightarrow> 'h list ares) \<Rightarrow> bool" where
  "chain_ok K ht par exps \<longleftrightarrow> (\<forall>h \<in> K. linked K ht par h \<and> tabled ht par exps h)"

lemma walk_add: "walk par (m + n) h = and_then (walk par m h) (walk par n)"
  by (induction m arbitrary: h) (auto simp: and_then_assoc intro!: and_then_cong)

lemma linkedE:
  assumes "\<forall>h \<in> K. linked K ht par h" "h \<in> K" "ht h = Inr k" "0 < k"
  obtains p j where "p \<in> K" "par h = Inr p" "ht p = Inr j" "unat k = Suc (unat j)"
  using assms by (fastforce simp: linked_def)

lemma walk_height:
  assumes "\<forall>h \<in> K. linked K ht par h" "h \<in> K" "ht h = Inr k" "n \<le> unat k"
  shows "\<exists>a j. walk par n h = Inr a \<and> a \<in> K \<and> ht a = Inr j \<and> unat j = unat k - n"
  using assms(2-)
proof (induction n arbitrary: h k)
  case (Suc n)
  then have "0 < k" by (metis Suc_le_D unat_gt_0 word_gt_0 nat.distinct(1) unat_0)
  with Suc.prems assms(1) obtain p j where p: "p \<in> K" "par h = Inr p" "ht p = Inr j" "unat k = Suc (unat j)"
    by (blast elim: linkedE)
  with Suc.prems Suc.IH [of p j] show ?case by auto
qed auto

lemma walk_agree:
  assumes "\<forall>h \<in> K. linked K ht par h" "\<forall>h \<in> K. par' h = par h" "h \<in> K" "ht h = Inr k" "n \<le> unat k"
  shows "walk par' n h = walk par n h"
  using assms(3-)
proof (induction n arbitrary: h k)
  case (Suc n)
  then have "0 < k" by (metis Suc_le_D word_gt_0 nat.distinct(1) unat_0)
  with Suc.prems assms(1) obtain p j where p: "p \<in> K" "par h = Inr p" "ht p = Inr j" "unat k = Suc (unat j)"
    by (blast elim: linkedE)
  with Suc.prems Suc.IH [of p j] assms(2) show ?case by auto
qed simp

section \<open>The exponential tables\<close>

theorem nth_loop_walk:
  assumes ok: "chain_ok K ht par exps" and "h \<in> K" "ht h = Inr k"
  shows "nth_loop ht par exps e h n = (if n \<le> unat k then walk par n h else ar_err e)"
  using assms(2-)
proof (induction n arbitrary: h k rule: less_induct)
  case (less n)
  have links: "\<forall>h \<in> K. linked K ht par h" using ok by (simp add: chain_ok_def)
  consider "n = 0" | "n > unat k" | "n = 1" "n \<le> unat k" | "2 \<le> n" "n \<le> unat k" by linarith
  then show ?case
  proof cases
    case 2
    with less.prems show ?thesis by (subst nth_loop.simps) simp
  next
    case 3
    have "par h = and_then (par h) (walk par 0)" by (cases "par h") simp_all
    with 3 less.prems show ?thesis by (subst nth_loop.simps) simp
  next
    case 4
    let ?i = "ilog2 (n div 2)"
    have i: "ilog2 n - 1 = ?i" using 4 by simp
    have fit: "2 * 2 ^ ?i \<le> n" using ilog2_exp [OF 4(1)] 4 by simp
    obtain xs where xs: "exps h = Inr xs" "?i < length xs" "walk par (2 * 2 ^ ?i) h = Inr (xs ! ?i)"
      using ok less.prems fit 4 by (fastforce simp: chain_ok_def tabled_def)
    obtain j where a: "xs ! ?i \<in> K" "ht (xs ! ?i) = Inr j" "unat j = unat k - 2 * 2 ^ ?i"
      using walk_height [OF links less.prems(1,2), of "2 * 2 ^ ?i"] xs fit 4 by auto
    have "nth_loop ht par exps e h n = nth_loop ht par exps e (xs ! ?i) (n - 2 * 2 ^ ?i)"
      using 4 less.prems xs(1,2) by (subst nth_loop.simps) (simp add: Let_def i)
    also have "\<dots> = walk par (n - 2 * 2 ^ ?i) (xs ! ?i)"
      using less.IH [of "n - 2 * 2 ^ ?i" "xs ! ?i" j] a 4 fit by simp
    also have "\<dots> = walk par n h"
      using walk_add [of par "2 * 2 ^ ?i" "n - 2 * 2 ^ ?i" h] xs fit by simp
    finally show ?thesis using 4 by simp
  qed (subst nth_loop.simps, simp)
qed

text \<open>The table of a new block, built from the tables of its known ancestors.\<close>

lemma nth_walk:
  assumes ok: "chain_ok K ht par exps" and anc: "\<And>g n. anc g n = nth_loop ht par exps (e g n) g (unat n)"
    and "g \<in> K" "ht g = Inr k" "unat n \<le> unat k"
  shows "anc g n = walk par (unat n) g"
  using nth_loop_walk [OF ok assms(3,4)] assms(5) by (simp add: anc)

lemma unat_depth: "d < 2 ^ 32 \<Longrightarrow> unat (word_of_nat d div 2 :: u32) = d div 2"
  by (simp add: unat_div unat_of_nat take_bit_nat_eq_self)

lemma exp_loop_ok:
  assumes ok: "chain_ok K ht par exps" and anc: "\<And>g n. anc g n = nth_loop ht par exps (e g n) g (unat n)"
    and p: "p \<in> K" "ht p = Inr j" "unat k = Suc (unat j)"
    and xs: "length xs = Suc i" "2 * 2 ^ i \<le> unat k" "\<forall>l \<le> i. walk par (2 * 2 ^ l - 1) p = Inr (xs ! l)"
  shows "\<exists>ys. exp_loop anc k i xs = Inr ys \<and>
    (\<forall>l. 2 * 2 ^ l \<le> unat k \<longrightarrow> l < length ys \<and> walk par (2 * 2 ^ l - 1) p = Inr (ys ! l))"
  using xs
proof (induction "unat k - i" arbitrary: i xs rule: less_induct)
  case less
  have links: "\<forall>h \<in> K. linked K ht par h" using ok by (simp add: chain_ok_def)
  show ?case
  proof (cases "4 * 2 ^ i \<le> unat k")
    case True
    let ?d = "word_of_nat (4 * 2 ^ i) div 2 :: u32" and ?l = "xs ! i"
    have last: "last xs = ?l" using less.prems(1) by (metis diff_Suc_1 last_conv_nth length_0_conv nat.distinct(1))
    have "unat k < 2 ^ LENGTH(32)" by (rule unsigned_less)
    then have "4 * 2 ^ i < (2 :: nat) ^ 32" using True by simp
    then have d: "unat ?d = 2 * 2 ^ i" using unat_depth [of "4 * 2 ^ i"] by simp
    have l: "walk par (2 * 2 ^ i - 1) p = Inr ?l" using less.prems by simp
    have lower: "2 * 2 ^ i - 1 \<le> unat j" using True p(3) by linarith
    obtain m where m: "?l \<in> K" "ht ?l = Inr m" "unat m = unat j - (2 * 2 ^ i - 1)"
      using walk_height [OF links p(1,2) lower] l by auto
    have room: "2 * 2 ^ i \<le> unat m" using m(3) True p(3) by linarith
    then have "anc ?l ?d = walk par (2 * 2 ^ i) ?l" using nth_walk [OF ok anc m(1,2), of ?d] d by simp
    also have "\<dots> = walk par (2 * 2 ^ Suc i - 1) p"
    proof -
      have "2 * 2 ^ Suc i - 1 = (2 * 2 ^ i - 1) + 2 * (2 :: nat) ^ i"
        using zero_less_power [of "2 :: nat" i] by (simp del: zero_less_power)
      then show ?thesis using walk_add [of par "2 * 2 ^ i - 1" "2 * 2 ^ i" p] l by simp
    qed
    finally have step: "anc (last xs) ?d = walk par (2 * 2 ^ Suc i - 1) p" by (simp add: last)
    have deep: "2 * 2 ^ Suc i - 1 \<le> unat j" using True p(3) by simp
    then obtain a where a: "walk par (2 * 2 ^ Suc i - 1) p = Inr a"
      using walk_height [OF links p(1,2)] by blast
    have "i < 2 ^ i" by (rule less_exp)
    then have fewer: "unat k - Suc i < unat k - i" using True by linarith
    have "length (xs @ [a]) = Suc (Suc i)" using less.prems(1) by simp
    moreover have "2 * 2 ^ Suc i \<le> unat k" using True by simp
    moreover have "\<forall>l \<le> Suc i. walk par (2 * 2 ^ l - 1) p = Inr ((xs @ [a]) ! l)"
      using less.prems a by (auto simp: nth_append le_Suc_eq)
    ultimately obtain ys where "exp_loop anc k (Suc i) (xs @ [a]) = Inr ys"
      "\<forall>l. 2 * 2 ^ l \<le> unat k \<longrightarrow> l < length ys \<and> walk par (2 * 2 ^ l - 1) p = Inr (ys ! l)"
      using less.hyps [OF fewer] by blast
    then show ?thesis using True step a by (subst exp_loop.simps) simp
  next
    case False
    have "l \<le> i" if "2 * 2 ^ l \<le> unat k" for l
    proof (rule ccontr)
      assume "\<not> l \<le> i"
      then have "(2 :: nat) ^ Suc i \<le> 2 ^ l" by (intro power_increasing) auto
      with that False show False by simp
    qed
    with False less.prems show ?thesis by (subst exp_loop.simps) (auto simp: less_Suc_eq_le)
  qed
qed

lemma exp_table_ok:
  assumes ok: "chain_ok K ht par exps" and anc: "\<And>g n. anc g n = nth_loop ht par exps (e g n) g (unat n)"
    and p: "p \<in> K" "ht p = Inr j" "unat k = Suc (unat j)"
  shows "\<exists>ys. exp_table anc k (Inr p) = Inr ys \<and>
    (\<forall>l. 2 * 2 ^ l \<le> unat k \<longrightarrow> l < length ys \<and> walk par (2 * 2 ^ l - 1) p = Inr (ys ! l))"
proof (cases "2 \<le> k")
  case True
  then have two: "2 \<le> unat k" by (simp add: word_le_nat_alt)
  have links: "\<forall>h \<in> K. linked K ht par h" using ok by (simp add: chain_ok_def)
  obtain g where "walk par 1 p = Inr g" using walk_height [OF links p(1,2), of 1] p(3) two by auto
  moreover from this have "anc p 1 = Inr g" using nth_walk [OF ok anc p(1,2), of 1] p(3) two by simp
  ultimately show ?thesis
    using exp_loop_ok [OF ok anc p, of "[g]" 0] two True by (simp add: exp_table_def)
next
  case False
  then have "unat k < 2" by (simp add: word_le_nat_alt not_le word_less_nat_alt)
  moreover have "2 \<le> 2 * (2 :: nat) ^ l" for l by simp
  ultimately show ?thesis using False by (auto simp: exp_table_def dest: le_less_trans)
qed

section \<open>Binary search\<close>

lemma mid_bounds:
  fixes lo hi :: u32
  assumes "lo < hi" "unat hi < 2 ^ 31"
  shows "unat ((lo + hi) div 2) = (unat lo + unat hi) div 2" "lo \<le> (lo + hi) div 2" "(lo + hi) div 2 < hi"
    "unat ((lo + hi) div 2 + 1) = (unat lo + unat hi) div 2 + 1"
proof -
  have l: "unat lo < unat hi" using assms(1) by (simp add: word_less_nat_alt)
  then have "unat (lo + hi) = unat lo + unat hi" using assms(2) by (simp add: unat_word_ariths)
  then show m: "unat ((lo + hi) div 2) = (unat lo + unat hi) div 2" by (simp add: unat_div)
  show "lo \<le> (lo + hi) div 2" "(lo + hi) div 2 < hi"
    using l by (simp_all add: word_le_nat_alt word_less_nat_alt m)
  show "unat ((lo + hi) div 2 + 1) = (unat lo + unat hi) div 2 + 1"
    using l assms(2) by (simp add: unat_word_ariths m)
qed

text \<open>The search ends with the least depth at which the ancestors agree.\<close>

lemma depth_search_least:
  assumes "\<And>d. lo \<le> d \<Longrightarrow> d \<le> hi \<Longrightarrow> same d = Inr (P (unat d))"
    and "\<And>i j. P i \<Longrightarrow> i \<le> j \<Longrightarrow> j \<le> unat hi \<Longrightarrow> P j" "P (unat hi)" "lo \<le> hi" "unat hi < 2 ^ 31"
  shows "\<exists>d. depth_search same lo hi = Some (Inr d) \<and> lo \<le> d \<and> d \<le> hi \<and> P (unat d) \<and>
    (\<forall>i. unat lo \<le> i \<longrightarrow> i < unat d \<longrightarrow> \<not> P i)"
  using assms
proof (induction "unat hi - unat lo" arbitrary: lo hi rule: less_induct)
  case less
  show ?case
  proof (cases "lo < hi")
    case False
    with less.prems(4) have "lo = hi" by simp
    with less.prems(3) show ?thesis by (subst depth_search.simps) (auto simp: word_le_nat_alt)
  next
    case True
    define mid where "mid = (lo + hi) div 2"
    note b = mid_bounds [OF True less.prems(5), folded mid_def]
    have l: "unat lo < unat hi" using True by (simp add: word_less_nat_alt)
    have same: "same mid = Inr (P (unat mid))" using b by (intro less.prems(1)) auto
    show ?thesis
    proof (cases "P (unat mid)")
      case P: True
      have "unat mid < unat hi" using b(3) by (simp add: word_less_nat_alt)
      with l b(2) have "unat mid - unat lo < unat hi - unat lo" by (simp add: word_le_nat_alt)
      then have "\<exists>d. depth_search same lo mid = Some (Inr d) \<and> lo \<le> d \<and> d \<le> mid \<and> P (unat d) \<and>
          (\<forall>i. unat lo \<le> i \<longrightarrow> i < unat d \<longrightarrow> \<not> P i)"
        using less.prems \<open>unat mid < unat hi\<close> P b(2,3) by (intro less.hyps) auto
      with True P same b(3) show ?thesis
        by (subst depth_search.simps) (auto simp: Let_def mid_def [symmetric])
    next
      case P: False
      have up: "mid + 1 \<le> hi" using b l by (simp add: word_le_nat_alt)
      have lo: "lo \<le> mid + 1" using b by (simp add: word_le_nat_alt)
      have "unat hi - unat (mid + 1) < unat hi - unat lo" using b l by (simp add: word_le_nat_alt)
      then have "\<exists>d. depth_search same (mid + 1) hi = Some (Inr d) \<and> mid + 1 \<le> d \<and> d \<le> hi \<and> P (unat d) \<and>
          (\<forall>i. unat (mid + 1) \<le> i \<longrightarrow> i < unat d \<longrightarrow> \<not> P i)"
        using less.prems up lo by (intro less.hyps) auto
      then obtain d where
        d: "depth_search same (mid + 1) hi = Some (Inr d)" "mid + 1 \<le> d" "d \<le> hi" "P (unat d)"
        "\<forall>i. unat (mid + 1) \<le> i \<longrightarrow> i < unat d \<longrightarrow> \<not> P i"
        by blast
      have "\<not> P i" if "i \<le> unat mid" for i
        using P that less.prems(2) [of i "unat mid"] b l by (auto simp: word_less_nat_alt)
      then have "\<forall>i. unat lo \<le> i \<longrightarrow> i < unat d \<longrightarrow> \<not> P i"
        using d(5) b by (metis Suc_eq_plus1 not_less_eq_eq)
      with d True P same lo show ?thesis
        by (subst depth_search.simps) (auto simp: Let_def mid_def [symmetric])
    qed
  qed
qed

section \<open>A store of blocks\<close>

text \<open>A block and its ancestors.\<close>

definition has_ancestor :: "('h \<Rightarrow> u32 ares) \<Rightarrow> ('h \<Rightarrow> 'h ares) \<Rightarrow> 'h \<Rightarrow> 'h \<Rightarrow> bool" where
  "has_ancestor ht par h a \<longleftrightarrow> (\<exists>k n. ht h = Inr k \<and> n \<le> unat k \<and> walk par n h = Inr a)"

text \<open>
  What a store promises to the walks: in a good state the tables are right for every block that has
  a height.
\<close>

locale chain_store =
  fixes ok :: "'s \<Rightarrow> bool"
    and ht :: "'s \<Rightarrow> 'h \<Rightarrow> u32 ares" and par :: "'s \<Rightarrow> 'h \<Rightarrow> 'h ares" and exps :: "'s \<Rightarrow> 'h \<Rightarrow> 'h list ares"
  assumes chain: "ok s \<Longrightarrow> chain_ok {h. \<exists>k. ht s h = Inr k} (ht s) (par s) (exps s)"
begin

lemma links: "ok s \<Longrightarrow> \<forall>h \<in> {h. \<exists>k. ht s h = Inr k}. linked {h. \<exists>k. ht s h = Inr k} (ht s) (par s) h"
  using chain [of s] by (simp add: chain_ok_def)

lemma ancestor_exact:
  "ok s \<Longrightarrow> ht s h = Inr k \<Longrightarrow>
     nth_loop (ht s) (par s) (exps s) e h n = (if n \<le> unat k then walk (par s) n h else ar_err e)"
  using nth_loop_walk [OF chain] by blast

lemma walk_up:
  assumes "ok s" "ht s h = Inr k" "n \<le> unat k"
  shows "\<exists>a j. walk (par s) n h = Inr a \<and> ht s a = Inr j \<and> unat j = unat k - n"
  using walk_height [OF links [OF assms(1)] _ assms(2,3)] assms(2) by blast

lemma above_height:
  assumes "ok s" "ht s h = Inr k" "ht s a = Inr i"
  shows "has_ancestor (ht s) (par s) h a \<longleftrightarrow> i \<le> k \<and> walk (par s) (unat k - unat i) h = Inr a"
proof -
  have "n = unat k - unat i \<and> i \<le> k" if "n \<le> unat k" "walk (par s) n h = Inr a" for n
    using walk_up [OF assms(1,2) that(1)] that assms(3) by (auto simp: word_le_nat_alt)
  moreover have "unat k - unat i \<le> unat k" by simp
  ultimately show ?thesis using assms(2) unfolding has_ancestor_def by (metis sum.inject(2))
qed

lemma above_known: "ok s \<Longrightarrow> has_ancestor (ht s) (par s) h a \<Longrightarrow> \<exists>i. ht s a = Inr i"
  using walk_up by (fastforce simp: has_ancestor_def)

lemma descends_exact:
  assumes "ok s" "ht s d = Inr k" "ht s a = Inr i"
  shows "(if i > k then Inr False
          else and_then (nth_loop (ht s) (par s) (exps s) e d (unat (k - i))) (\<lambda>b. Inr (a = b))) =
    Inr (has_ancestor (ht s) (par s) d a)"
proof (cases "i \<le> k")
  case True
  then have n: "unat (k - i) = unat k - unat i" by (simp add: unat_sub)
  then obtain b where "walk (par s) (unat k - unat i) d = Inr b"
    using walk_up [OF assms(1,2), of "unat k - unat i"] by auto
  with True n show ?thesis
    using ancestor_exact [OF assms(1,2), of e "unat (k - i)"] above_height [OF assms] by auto
next
  case False
  then show ?thesis using above_height [OF assms] by (simp add: not_le)
qed

lemma above_trans:
  assumes "ok s" "has_ancestor (ht s) (par s) h a" "has_ancestor (ht s) (par s) a b"
  shows "has_ancestor (ht s) (par s) h b"
proof -
  obtain k n where n: "ht s h = Inr k" "n \<le> unat k" "walk (par s) n h = Inr a"
    using assms(2) by (auto simp: has_ancestor_def)
  obtain i m where m: "ht s a = Inr i" "m \<le> unat i" "walk (par s) m a = Inr b"
    using assms(3) by (auto simp: has_ancestor_def)
  have "unat i = unat k - n" using walk_up [OF assms(1) n(1,2)] n m by auto
  with n m walk_add [of "par s" n m h] show ?thesis
    by (auto simp: has_ancestor_def intro!: exI [of _ "n + m"])
qed

text \<open>The last common ancestor, from two blocks of the same height.\<close>

lemma level_exact:
  assumes "ok s" "ht s h0 = Inr k0" "ht s h1 = Inr k1"
    and anc: "\<And>g n. anc g n = nth_loop (ht s) (par s) (exps s) (e g n) g (unat n)"
  shows "\<exists>a0 a1. level_blocks (ht s) anc h0 h1 = Inr (a0, a1, min k0 k1) \<and>
    ht s a0 = Inr (min k0 k1) \<and> ht s a1 = Inr (min k0 k1) \<and>
    (\<forall>c. has_ancestor (ht s) (par s) h0 c \<and> has_ancestor (ht s) (par s) h1 c \<longleftrightarrow>
       has_ancestor (ht s) (par s) a0 c \<and> has_ancestor (ht s) (par s) a1 c)"
proof -
  have down: "\<exists>a. anc g (k - i) = Inr a \<and> ht s a = Inr i \<and> has_ancestor (ht s) (par s) g a \<and>
      (\<forall>c j. has_ancestor (ht s) (par s) g c \<longrightarrow> ht s c = Inr j \<longrightarrow> j \<le> i \<longrightarrow> has_ancestor (ht s) (par s) a c)"
    if g: "ht s g = Inr k" and i: "i \<le> k" for g k i
  proof -
    have n: "unat (k - i) = unat k - unat i" using i by (simp add: unat_sub)
    obtain a j where a: "walk (par s) (unat k - unat i) g = Inr a" "ht s a = Inr j" "unat j = unat i"
      using walk_up [OF assms(1) g, of "unat k - unat i"] i by (auto simp: word_le_nat_alt)
    then have "j = i" by (simp add: word_unat_eq_iff)
    moreover have "anc g (k - i) = Inr a"
      using ancestor_exact [OF assms(1) g, of "e g (k - i)" "unat (k - i)"] a n by (simp add: anc)
    moreover have "has_ancestor (ht s) (par s) a c" if c: "has_ancestor (ht s) (par s) g c" "ht s c = Inr l" "l \<le> i" for c l
    proof -
      have "walk (par s) (unat k - unat l) g = Inr c"
        using above_height [OF assms(1) g c(2)] c(1) by simp
      moreover have "unat k - unat l = (unat k - unat i) + (unat i - unat l)"
        using i c(3) by (simp add: word_le_nat_alt)
      ultimately have "walk (par s) (unat i - unat l) a = Inr c" using walk_add a(1) by (metis and_then_Inr)
      then show ?thesis using above_height [OF assms(1) a(2) c(2)] \<open>j = i\<close> c(3) by simp
    qed
    moreover have "has_ancestor (ht s) (par s) g a" using above_height [OF assms(1) g a(2)] a(1) i \<open>j = i\<close> by simp
    ultimately show ?thesis using a(2) by blast
  qed
  have low: "j \<le> min k0 k1" if "has_ancestor (ht s) (par s) h0 c" "has_ancestor (ht s) (par s) h1 c" "ht s c = Inr j" for c j
    using above_height [OF assms(1,2) that(3)] above_height [OF assms(1,3) that(3)] that by simp
  show ?thesis
  proof (cases k0 k1 rule: linorder_cases)
    case less
    then obtain a where a: "anc h1 (k1 - k0) = Inr a" "ht s a = Inr k0" "has_ancestor (ht s) (par s) h1 a"
      "\<forall>c j. has_ancestor (ht s) (par s) h1 c \<longrightarrow> ht s c = Inr j \<longrightarrow> j \<le> k0 \<longrightarrow> has_ancestor (ht s) (par s) a c"
      using down [OF assms(3) less_imp_le [OF less]] by blast
    have "has_ancestor (ht s) (par s) a c"
      if "has_ancestor (ht s) (par s) h0 c" "has_ancestor (ht s) (par s) h1 c" for c
      using low [OF that] above_known [OF assms(1) that(1)] a(4) that less by auto
    moreover have "has_ancestor (ht s) (par s) h1 c" if "has_ancestor (ht s) (par s) a c" for c
      by (rule above_trans [OF assms(1) a(3) that])
    ultimately have common: "has_ancestor (ht s) (par s) h0 c \<and> has_ancestor (ht s) (par s) h1 c \<longleftrightarrow>
        has_ancestor (ht s) (par s) h0 c \<and> has_ancestor (ht s) (par s) a c" for c by blast
    have "level_blocks (ht s) anc h0 h1 = Inr (h0, a, k0)"
      using assms(2,3) a(1) less by (auto simp: level_blocks_def)
    moreover have "min k0 k1 = k0" using less by simp
    ultimately show ?thesis using assms(2,3) a(2) common by auto
  next
    case equal
    then show ?thesis using assms(2,3) by (auto simp: level_blocks_def)
  next
    case greater
    then obtain a where a: "anc h0 (k0 - k1) = Inr a" "ht s a = Inr k1" "has_ancestor (ht s) (par s) h0 a"
      "\<forall>c j. has_ancestor (ht s) (par s) h0 c \<longrightarrow> ht s c = Inr j \<longrightarrow> j \<le> k1 \<longrightarrow> has_ancestor (ht s) (par s) a c"
      using down [OF assms(2) less_imp_le [OF greater]] by blast
    have "has_ancestor (ht s) (par s) a c"
      if "has_ancestor (ht s) (par s) h0 c" "has_ancestor (ht s) (par s) h1 c" for c
      using low [OF that] above_known [OF assms(1) that(1)] a(4) that greater by auto
    moreover have "has_ancestor (ht s) (par s) h0 c" if "has_ancestor (ht s) (par s) a c" for c
      by (rule above_trans [OF assms(1) a(3) that])
    ultimately have common: "has_ancestor (ht s) (par s) h0 c \<and> has_ancestor (ht s) (par s) h1 c \<longleftrightarrow>
        has_ancestor (ht s) (par s) a c \<and> has_ancestor (ht s) (par s) h1 c" for c by blast
    have "level_blocks (ht s) anc h0 h1 = Inr (a, h1, k1)"
      using assms(2,3) a(1) greater by (auto simp: level_blocks_def)
    moreover have "min k0 k1 = k1" using greater by simp
    ultimately show ?thesis using assms(2,3) a(2) common by auto
  qed
qed

lemma common_depth:
  assumes "ok s" "ht s a0 = Inr k" "ht s a1 = Inr k"
    and "has_ancestor (ht s) (par s) a0 b" "has_ancestor (ht s) (par s) a1 b"
  shows "\<exists>n \<le> unat k. walk (par s) n a0 = Inr b \<and> walk (par s) n a1 = Inr b"
proof -
  obtain i where i: "ht s b = Inr i" using above_known [OF assms(1,4)] by blast
  have "unat k - unat i \<le> unat k" by simp
  then show ?thesis
    using above_height [OF assms(1,2) i] above_height [OF assms(1,3) i] assms(4,5) by blast
qed

lemma walk_same:
  assumes "walk (par s) i a0 = walk (par s) i a1" "i \<le> j"
  shows "walk (par s) j a0 = walk (par s) j a1"
  using walk_add [of "par s" i "j - i"] assms by (metis le_add_diff_inverse)

lemma search_exact:
  assumes s: "ok s" and a0: "ht s a0 = Inr k" and a1: "ht s a1 = Inr k" and "a0 \<noteq> a1"
    and shared: "walk (par s) (unat k) a0 = walk (par s) (unat k) a1" and "unat k < 2 ^ 31"
    and anc: "\<And>g n. anc g n = nth_loop (ht s) (par s) (exps s) (e g n) g (unat n)"
  shows "\<exists>c. search_ancestor anc a0 a1 k = Some (Inr c) \<and>
    has_ancestor (ht s) (par s) a0 c \<and> has_ancestor (ht s) (par s) a1 c \<and>
    (\<forall>b. has_ancestor (ht s) (par s) a0 b \<and> has_ancestor (ht s) (par s) a1 b \<longrightarrow> has_ancestor (ht s) (par s) c b)"
proof -
  define P where "P d \<longleftrightarrow> walk (par s) d a0 = walk (par s) d a1" for d
  have near: "anc a0 d = walk (par s) (unat d) a0" "anc a1 d = walk (par s) (unat d) a1" if "d \<le> k" for d
    using ancestor_exact [OF s a0] ancestor_exact [OF s a1] that by (simp_all add: anc word_le_nat_alt)
  have same: "same_ancestor anc a0 a1 d = Inr (P (unat d))" if "d \<le> k" for d
    using near [OF that] walk_up [OF s a0, of "unat d"] walk_up [OF s a1, of "unat d"] that
    by (auto simp: same_ancestor_def P_def word_le_nat_alt)
  have "k \<noteq> 0" using shared assms(4) by auto
  then have "1 \<le> k" by (simp add: word_le_nat_alt unat_gt_0 Suc_le_eq)
  have mono: "P j" if "P i" "i \<le> j" "j \<le> unat k" for i j
    unfolding P_def by (rule walk_same [OF that(1) [unfolded P_def] that(2)])
  have "P (unat k)" using shared by (simp add: P_def)
  then have "\<exists>d. depth_search (same_ancestor anc a0 a1) 1 k = Some (Inr d) \<and> 1 \<le> d \<and> d \<le> k \<and> P (unat d) \<and>
      (\<forall>i. unat (1 :: u32) \<le> i \<longrightarrow> i < unat d \<longrightarrow> \<not> P i)"
    using \<open>1 \<le> k\<close> assms(6) by (intro depth_search_least [where P = P]) (use same mono in blast)+
  then obtain d where d: "depth_search (same_ancestor anc a0 a1) 1 k = Some (Inr d)" "d \<le> k" "P (unat d)"
      "\<forall>i. 1 \<le> i \<longrightarrow> i < unat d \<longrightarrow> \<not> P i"
    by auto
  have dk: "unat d \<le> unat k" using d(2) by (simp add: word_le_nat_alt)
  obtain c j where c: "walk (par s) (unat d) a0 = Inr c" "ht s c = Inr j" "unat j = unat k - unat d"
    using walk_up [OF s a0 dk] by blast
  have "has_ancestor (ht s) (par s) c b"
    if common: "has_ancestor (ht s) (par s) a0 b" "has_ancestor (ht s) (par s) a1 b" for b
  proof -
    obtain n where n: "n \<le> unat k" "walk (par s) n a0 = Inr b" "walk (par s) n a1 = Inr b"
      using common_depth [OF s a0 a1 common] by blast
    have "n \<noteq> 0" using n assms(4) by (metis Inr_inject walk.simps(1))
    then have "unat d \<le> n" using d(4) n by (metis P_def Suc_le_eq gr0I not_less One_nat_def)
    then have "walk (par s) (n - unat d) c = Inr b"
      using walk_add [of "par s" "unat d" "n - unat d" a0] n c(1) by simp
    moreover have "n - unat d \<le> unat j" using n c(3) by simp
    ultimately show ?thesis using c(2) by (auto simp: has_ancestor_def)
  qed
  moreover have "has_ancestor (ht s) (par s) a0 c" "has_ancestor (ht s) (par s) a1 c"
    using c(1) d(3) dk a0 a1 by (auto simp: has_ancestor_def P_def)
  moreover have "search_ancestor anc a0 a1 k = Some (Inr c)"
    using d(1,2) near c(1) by (simp add: search_ancestor_def)
  ultimately show ?thesis by blast
qed

end

end
