(* ===== verification/Archive_Store.thy ===== *)
theory Archive_Store
  imports Archive_Facts
begin

text \<open>
  The invariant of the archive's chains, that storing headers keeps it, and what follows for
  ancestors, descendants and common ancestors on both chains.
\<close>

section \<open>Adding a block to a chain\<close>

lemma chain_ok_extend:
  assumes ok: "chain_ok K ht par exps" and K: "K = {g. \<exists>k. ht g = Inr k}"
    and other: "\<And>g. g \<noteq> h \<Longrightarrow> ht' g = ht g \<and> par' g = par g \<and> exps' g = exps g"
    and same: "h \<in> K \<Longrightarrow> ht' h = ht h \<and> par' h = par h"
    and k: "ht' h = Inr k" and xs: "exps' h = Inr xs"
    and par: "0 < k \<Longrightarrow> \<exists>p j. par' h = Inr p \<and> ht p = Inr j \<and> unat k = Suc (unat j) \<and>
      (\<forall>l. 2 * 2 ^ l \<le> unat k \<longrightarrow> l < length xs \<and> walk par (2 * 2 ^ l - 1) p = Inr (xs ! l))"
  shows "chain_ok {g. \<exists>k. ht' g = Inr k} ht' par' exps'"
proof -
  let ?K = "{g. \<exists>k. ht' g = Inr k}"
  have links: "\<forall>g \<in> K. linked K ht par g" and tables: "\<forall>g \<in> K. tabled ht par exps g"
    using ok by (simp_all add: chain_ok_def)
  have agree: "ht' g = ht g \<and> par' g = par g" if "g \<in> K" for g
    using other [of g] same that by (cases "g = h") auto
  have sub: "K \<subseteq> ?K" and dom: "?K = insert h K"
    using agree other k by (auto simp: K)
  have walks: "walk par' n g = walk par n g" if "g \<in> K" "ht g = Inr i" "n \<le> unat i" for g i n
    using walk_agree [OF links _ that] agree by blast
  have old: "linked ?K ht' par' g" if "g \<in> K" for g
    using links agree that sub by (fastforce simp: linked_def)
  have table: "tabled ht' par' exps' g" if g: "g \<in> K" "g \<noteq> h" for g
    using tables walks [OF g(1)] agree [OF g(1)] other [OF g(2)] g(1) by (fastforce simp: tabled_def)
  have new: "linked ?K ht' par' h \<and> tabled ht' par' exps' h"
  proof (cases "k = 0")
    case True
    moreover have "\<not> 2 * 2 ^ l \<le> (0 :: nat)" for l by simp
    ultimately show ?thesis using k xs by (auto simp: linked_def tabled_def)
  next
    case False
    then have "0 < k" by (simp add: word_gt_0)
    from par [OF this] obtain p j where p: "par' h = Inr p" "ht p = Inr j" "unat k = Suc (unat j)"
      and t: "\<forall>l. 2 * 2 ^ l \<le> unat k \<longrightarrow> l < length xs \<and> walk par (2 * 2 ^ l - 1) p = Inr (xs ! l)"
      by blast
    have pK: "p \<in> K" using p(2) by (auto simp: K)
    have "walk par' (2 * 2 ^ l) h = Inr (xs ! l)" if l: "2 * 2 ^ l \<le> unat k" for l
    proof -
      have "2 * 2 ^ l = Suc (2 * 2 ^ l - 1)" by simp
      then have "walk par' (2 * 2 ^ l) h = walk par' (2 * 2 ^ l - 1) p" using p(1) by (metis and_then_Inr walk.simps(2))
      also have "\<dots> = walk par (2 * 2 ^ l - 1) p" using walks [OF pK p(2)] l p(3) by simp
      finally show ?thesis using t l by simp
    qed
    then have "tabled ht' par' exps' h" using k xs t by (auto simp: tabled_def)
    moreover have "ht' p = Inr j" using agree [OF pK] p(2) by simp
    ultimately show ?thesis using k p sub pK by (auto simp: linked_def)
  qed
  show ?thesis
    unfolding chain_ok_def
  proof (intro ballI)
    fix g
    assume "g \<in> ?K"
    with dom old [of g] table [of g] new show "linked ?K ht' par' g \<and> tabled ht' par' exps' g"
      by (cases "g = h") auto
  qed
qed

lemma chain_ok_agree:
  assumes ok: "chain_ok K ht par exps" and same: "\<And>g. g \<in> K \<Longrightarrow> ht' g = ht g \<and> par' g = par g \<and> exps' g = exps g"
  shows "chain_ok K ht' par' exps'"
proof -
  have links: "\<forall>g \<in> K. linked K ht par g" using ok by (simp add: chain_ok_def)
  have "walk par' n g = walk par n g" if "g \<in> K" "ht g = Inr i" "n \<le> unat i" for g i n
    using walk_agree [OF links _ that] same by blast
  with ok same show ?thesis by (fastforce simp: chain_ok_def linked_def tabled_def)
qed

section \<open>The sidechain\<close>

definition side_ok :: "'acc Archive \<Rightarrow> bool" where
  "side_ok A \<longleftrightarrow>
     chain_ok {h. \<exists>k. ar_get_height A h = Inr k} (ar_get_height A) (side_parent A) (side_exponentials A) \<and>
     (\<forall>h. fmlookup (ar_headers A) h = None \<longleftrightarrow> fmlookup (block_hash_to_height A) h = None) \<and>
     (\<forall>h hdr. fmlookup (ar_headers A) h = Some hdr \<longrightarrow>
        (prev_side_hash hdr = None \<longleftrightarrow> fmlookup (block_hash_to_height A) h = Some 0))"

interpretation side: chain_store side_ok ar_get_height side_parent side_exponentials
  by unfold_locales (simp add: side_ok_def)

lemma ar_get_height_iff [simp]: "ar_get_height A h = Inr k \<longleftrightarrow> fmlookup (block_hash_to_height A) h = Some k"
  by (simp add: ar_get_height_def res_simps)

lemma side_ok_new: "side_ok Archive_new"
  by (simp add: side_ok_def chain_ok_def Archive_new_def)

lemma put_successor_frame:
  assumes "put_successor h prev A = Inr A'"
  shows "\<exists>m. A' = A\<lparr>ar_successors := m\<rparr>"
  using assms by (auto simp: put_successor_def Let_def res_simps)

lemma put_bmm_frame:
  assumes "put_bmm_results ord h hdr A = Inr A'"
  shows "\<exists>m. A' = A\<lparr>bmm_results := m\<rparr>"
  using assms by (auto simp: put_bmm_results_def Let_def res_simps)

text \<open>What storing a header does to the tables of the chain.\<close>

lemma put_header_tables:
  fixes A :: "'acc Archive"
  assumes "put_header X ord hdr A = Inr A'" and h: "h = header_hash X hdr"
  shows "\<exists>k xs (A2 :: 'acc Archive).
    (case prev_side_hash hdr of
       None \<Rightarrow> k = 0 | Some p \<Rightarrow> \<exists>j. fmlookup (block_hash_to_height A) p = Some j \<and> k = j + 1) \<and>
    block_hash_to_height A2 = fmupd h k (block_hash_to_height A) \<and> ar_headers A2 = fmupd h hdr (ar_headers A) \<and>
    exponential_ancestors A2 = exponential_ancestors A \<and>
    exp_table (get_nth_ancestor A2) k
      (ok_or (Panic ''called Option::unwrap() on a None value'') (prev_side_hash hdr)) = Inr xs \<and>
    block_hash_to_height A' = block_hash_to_height A2 \<and> ar_headers A' = ar_headers A2 \<and>
    exponential_ancestors A' = fmupd h xs (exponential_ancestors A)"
proof -
  from assms obtain k A2 xs where k: "(case prev_side_hash hdr of None \<Rightarrow> Inr 0
        | Some p \<Rightarrow> and_then (ok_or (Fail ArInvalidPrevSideHash) (fmlookup (block_hash_to_height A) p)) (\<lambda>k. Inr (k + 1))) = Inr k"
    and A2: "put_successor h (prev_side_hash hdr) (A\<lparr>block_hash_to_height := fmupd h k (block_hash_to_height A),
        ar_headers := fmupd h hdr (ar_headers A)\<rparr>) = Inr A2"
    and xs: "exp_table (get_nth_ancestor A2) k
        (ok_or (Panic ''called Option::unwrap() on a None value'') (prev_side_hash hdr)) = Inr xs"
    and A': "put_bmm_results ord h hdr (A2\<lparr>exponential_ancestors := fmupd h xs (exponential_ancestors A2)\<rparr>) = Inr A'"
    by (auto simp: put_header_def Let_def res_simps)
  obtain m m' where "A2 = A\<lparr>block_hash_to_height := fmupd h k (block_hash_to_height A),
      ar_headers := fmupd h hdr (ar_headers A), ar_successors := m\<rparr>"
    "A' = A2\<lparr>exponential_ancestors := fmupd h xs (exponential_ancestors A2), bmm_results := m'\<rparr>"
    using put_successor_frame [OF A2] put_bmm_frame [OF A'] by auto
  with k xs show ?thesis
    by (intro exI [of _ k] exI [of _ xs] exI [of _ A2]) (auto simp: res_simps split: option.splits)
qed

lemma side_parent_eq: "side_parent A h = Inr p \<longleftrightarrow> (\<exists>hdr. fmlookup (ar_headers A) h = Some hdr \<and> prev_side_hash hdr = Some p)"
  by (simp add: side_parent_def get_header_def res_simps)

lemma unat_plus_1:
  assumes "(j :: u32) \<noteq> - 1"
  shows "unat (j + 1) = Suc (unat j)"
proof -
  have "1 + j \<noteq> 0" using assms by (auto simp: add_eq_0_iff)
  then have "unat (1 + j) = Suc (unat j)" by (rule unatSuc)
  then show ?thesis by (simp only: add.commute)
qed

lemma side_known:
  assumes "side_ok A" "fmlookup (block_hash_to_height A) h = Some k"
  shows "\<exists>hdr. fmlookup (ar_headers A) h = Some hdr \<and>
    (case prev_side_hash hdr of
       None \<Rightarrow> k = 0 | Some p \<Rightarrow> \<exists>j. fmlookup (block_hash_to_height A) p = Some j \<and> unat k = Suc (unat j))"
proof -
  obtain hdr where hdr: "fmlookup (ar_headers A) h = Some hdr"
    using assms by (cases "fmlookup (ar_headers A) h") (auto simp: side_ok_def)
  have root: "prev_side_hash hdr = None \<longleftrightarrow> k = 0" using assms hdr by (auto simp: side_ok_def)
  show ?thesis
  proof (cases "k = 0")
    case False
    then obtain p j where "side_parent A h = Inr p" "fmlookup (block_hash_to_height A) p = Some j" "unat k = Suc (unat j)"
      using side.links [OF assms(1)] assms(2) by (fastforce simp: linked_def word_gt_0)
    with hdr show ?thesis by (auto simp: side_parent_eq)
  qed (use hdr root in auto)
qed

theorem side_ok_put_header:
  assumes ok: "side_ok A" and put: "put_header X ord hdr A = Inr A'" and h: "h = header_hash X hdr"
    and fresh: "fmlookup (ar_headers A) h \<in> {None, Some hdr}"
    and room: "\<And>p. prev_side_hash hdr = Some p \<Longrightarrow> fmlookup (block_hash_to_height A) p \<noteq> Some (- 1)"
  shows "side_ok A'"
proof -
  let ?K = "{g. \<exists>k. ar_get_height A g = Inr k}"
  obtain k xs and A2 :: "'a Archive" where k: "case prev_side_hash hdr of None \<Rightarrow> k = 0
        | Some p \<Rightarrow> \<exists>j. fmlookup (block_hash_to_height A) p = Some j \<and> k = j + 1"
    and A2: "block_hash_to_height A2 = fmupd h k (block_hash_to_height A)" "ar_headers A2 = fmupd h hdr (ar_headers A)"
      "exponential_ancestors A2 = exponential_ancestors A"
    and xs: "exp_table (get_nth_ancestor A2) k
        (ok_or (Panic ''called Option::unwrap() on a None value'') (prev_side_hash hdr)) = Inr xs"
    and A': "block_hash_to_height A' = block_hash_to_height A2" "ar_headers A' = ar_headers A2"
      "exponential_ancestors A' = fmupd h xs (exponential_ancestors A)"
    using put_header_tables [OF put h] by blast
  have again: "fmlookup (block_hash_to_height A) h = Some k \<and> fmlookup (ar_headers A) h = Some hdr" if "h \<in> ?K"
  proof -
    obtain i where i: "fmlookup (block_hash_to_height A) h = Some i" using \<open>h \<in> ?K\<close> by auto
    from side_known [OF ok i] fresh have hd: "fmlookup (ar_headers A) h = Some hdr"
      and up: "case prev_side_hash hdr of None \<Rightarrow> i = 0
        | Some p \<Rightarrow> \<exists>j. fmlookup (block_hash_to_height A) p = Some j \<and> unat i = Suc (unat j)" by auto
    have "i = k"
    proof (cases "prev_side_hash hdr")
      case (Some p)
      with k up obtain j where "fmlookup (block_hash_to_height A) p = Some j" "k = j + 1" "unat i = Suc (unat j)" by auto
      moreover from this Some room have "j \<noteq> - 1" by auto
      ultimately show ?thesis by (simp add: word_unat_eq_iff unat_plus_1)
    qed (use k up in simp)
    with i hd show ?thesis by simp
  qed
  have eqs: "ar_get_height A2 g = ar_get_height A g \<and> side_parent A2 g = side_parent A g \<and>
      side_exponentials A2 g = side_exponentials A g" if "g \<in> ?K" for g
    using again that
    by (cases "g = h") (auto simp: A2 ar_get_height_def side_parent_def get_header_def side_exponentials_def)
  have chain: "chain_ok ?K (ar_get_height A) (side_parent A) (side_exponentials A)"
    using ok by (simp add: side_ok_def)
  have "chain_ok {g. \<exists>k. ar_get_height A' g = Inr k} (ar_get_height A') (side_parent A') (side_exponentials A')"
  proof (rule chain_ok_extend [OF chain refl, of h _ _ _ k xs])
    fix g
    assume "g \<noteq> h"
    then show "ar_get_height A' g = ar_get_height A g \<and> side_parent A' g = side_parent A g \<and>
        side_exponentials A' g = side_exponentials A g"
      by (simp add: A' A2 ar_get_height_def side_parent_def get_header_def side_exponentials_def)
  next
    assume "h \<in> ?K"
    then show "ar_get_height A' h = ar_get_height A h \<and> side_parent A' h = side_parent A h"
      using again by (auto simp: A' A2 ar_get_height_def side_parent_def get_header_def)
  next
    assume "0 < k"
    then obtain p j where p: "prev_side_hash hdr = Some p" "fmlookup (block_hash_to_height A) p = Some j" "k = j + 1"
      using k by (auto split: option.splits)
    then have kj: "unat k = Suc (unat j)" using room [OF p(1)] by (auto intro: unat_plus_1)
    have pK: "p \<in> ?K" and htp: "ar_get_height A2 p = Inr j" using p eqs [of p] by auto
    have "\<forall>l. 2 * 2 ^ l \<le> unat k \<longrightarrow> l < length xs \<and> walk (side_parent A2) (2 * 2 ^ l - 1) p = Inr (xs ! l)"
      using exp_table_ok [OF chain_ok_agree [OF chain, of "ar_get_height A2" "side_parent A2" "side_exponentials A2"]
          get_nth_ancestor_def pK htp kj] eqs xs p(1) by auto
    moreover have agree: "\<forall>g \<in> ?K. side_parent A2 g = side_parent A g" using eqs by blast
    moreover have "walk (side_parent A2) n p = walk (side_parent A) n p" if "n \<le> unat j" for n
      by (rule walk_agree [OF side.links [OF ok] agree pK _ that]) (simp add: p(2))
    ultimately show "\<exists>p j. side_parent A' h = Inr p \<and> ar_get_height A p = Inr j \<and> unat k = Suc (unat j) \<and>
        (\<forall>l. 2 * 2 ^ l \<le> unat k \<longrightarrow> l < length xs \<and> walk (side_parent A) (2 * 2 ^ l - 1) p = Inr (xs ! l))"
      using p kj by (intro exI [of _ p] exI [of _ j]) (auto simp: side_parent_eq A' A2)
  qed (simp_all add: A' A2 ar_get_height_def side_exponentials_def)
  moreover have "prev_side_hash hdr = None \<longleftrightarrow> k = 0"
    using k room by (auto split: option.splits simp: eq_neg_iff_add_eq_0)
  ultimately show ?thesis using ok by (auto simp: side_ok_def A' A2)
qed

section \<open>The mainchain\<close>

definition main_ok :: "'acc Archive \<Rightarrow> bool" where
  "main_ok A \<longleftrightarrow>
     chain_ok {m. \<exists>k. get_main_height A m = Inr k} (get_main_height A) (main_parent A) (main_exponentials A) \<and>
     (\<forall>m. fmlookup (main_header_infos A) m = None \<longleftrightarrow> fmlookup (main_block_hash_to_height A) m = None) \<and>
     (\<forall>m. fmlookup (total_work A) m = None \<longleftrightarrow> fmlookup (main_block_hash_to_height A) m = None) \<and>
     (\<forall>m hi. fmlookup (main_header_infos A) m = Some hi \<longrightarrow>
        (bhi_prev_block_hash hi = 0 \<longleftrightarrow> fmlookup (main_block_hash_to_height A) m = Some 0))"

interpretation mainc: chain_store main_ok get_main_height main_parent main_exponentials
  by unfold_locales (simp add: main_ok_def)

lemma get_main_height_iff [simp]: "get_main_height A m = Inr k \<longleftrightarrow> fmlookup (main_block_hash_to_height A) m = Some k"
  by (simp add: get_main_height_def res_simps)

lemma main_ok_new: "main_ok Archive_new"
  by (simp add: main_ok_def chain_ok_def Archive_new_def)

lemma main_parent_eq:
  "main_parent A m = Inr p \<longleftrightarrow> (\<exists>hi. fmlookup (main_header_infos A) m = Some hi \<and> bhi_prev_block_hash hi = p)"
  by (auto simp: main_parent_def get_main_header_info_def res_simps)

lemma put_main_successor_frame:
  assumes "put_main_successor m prev A = Inr A'"
  shows "\<exists>s. A' = A\<lparr>main_successors := s\<rparr>"
  using assms by (auto simp: put_main_successor_def Let_def res_simps)

lemma put_main_tables:
  fixes A :: "'acc Archive"
  assumes "put_main_header_info hi A = Inr A'" and m: "m = bhi_block_hash hi" and prev: "prev = bhi_prev_block_hash hi"
  shows "\<exists>k w xs (A2 :: 'acc Archive).
    (if prev = 0 then k = 0 else \<exists>j. fmlookup (main_block_hash_to_height A) prev = Some j \<and> k = j + 1) \<and>
    main_block_hash_to_height A2 = fmupd m k (main_block_hash_to_height A) \<and>
    main_header_infos A2 = fmupd m hi (main_header_infos A) \<and>
    exponential_main_ancestors A2 = exponential_main_ancestors A \<and>
    exp_table (get_nth_main_ancestor A2) k (Inr prev) = Inr xs \<and>
    main_block_hash_to_height A' = main_block_hash_to_height A2 \<and> main_header_infos A' = main_header_infos A2 \<and>
    total_work A' = fmupd m w (total_work A) \<and>
    exponential_main_ancestors A' = fmupd m xs (exponential_main_ancestors A)"
proof -
  from assms obtain k w A2 xs where
        k: "(if prev = 0 then Inr 0 else and_then (get_main_height A prev) (\<lambda>k. Inr (k + 1))) = Inr k"
    and A2: "put_main_successor m prev (A\<lparr>main_block_hash_to_height := fmupd m k (main_block_hash_to_height A),
        main_header_infos := fmupd m hi (main_header_infos A), total_work := fmupd m w (total_work A)\<rparr>) = Inr A2"
    and xs: "exp_table (get_nth_main_ancestor A2) k (Inr prev) = Inr xs"
    and A': "A' = A2\<lparr>exponential_main_ancestors := fmupd m xs (exponential_main_ancestors A2)\<rparr>"
    by (auto simp: put_main_header_info_def Let_def res_simps split: if_splits)
  obtain s where "A2 = A\<lparr>main_block_hash_to_height := fmupd m k (main_block_hash_to_height A),
      main_header_infos := fmupd m hi (main_header_infos A), total_work := fmupd m w (total_work A), main_successors := s\<rparr>"
    using put_main_successor_frame [OF A2] by auto
  with k xs A' show ?thesis
    by (intro exI [of _ k] exI [of _ w] exI [of _ xs] exI [of _ A2]) (auto simp: res_simps split: if_splits)
qed

lemma main_known:
  assumes "main_ok A" "fmlookup (main_block_hash_to_height A) m = Some k"
  shows "\<exists>hi. fmlookup (main_header_infos A) m = Some hi \<and>
    (if bhi_prev_block_hash hi = 0 then k = 0
     else \<exists>j. fmlookup (main_block_hash_to_height A) (bhi_prev_block_hash hi) = Some j \<and> unat k = Suc (unat j))"
proof -
  obtain hi where hi: "fmlookup (main_header_infos A) m = Some hi"
    using assms by (cases "fmlookup (main_header_infos A) m") (auto simp: main_ok_def)
  have root: "bhi_prev_block_hash hi = 0 \<longleftrightarrow> k = 0" using assms hi by (auto simp: main_ok_def)
  show ?thesis
  proof (cases "k = 0")
    case False
    then obtain p j where "main_parent A m = Inr p" "fmlookup (main_block_hash_to_height A) p = Some j" "unat k = Suc (unat j)"
      using mainc.links [OF assms(1)] assms(2) by (fastforce simp: linked_def word_gt_0)
    with hi False root show ?thesis by (auto simp: main_parent_eq)
  qed (use hi root in auto)
qed

theorem main_ok_put:
  assumes ok: "main_ok A" and put: "put_main_header_info hi A = Inr A'" and m: "m = bhi_block_hash hi"
    and fresh: "fmlookup (main_header_infos A) m \<in> {None, Some hi}"
    and room: "fmlookup (main_block_hash_to_height A) (bhi_prev_block_hash hi) \<noteq> Some (- 1)"
  shows "main_ok A'"
proof -
  let ?K = "{g. \<exists>k. get_main_height A g = Inr k}" and ?prev = "bhi_prev_block_hash hi"
  obtain k w xs and A2 :: "'a Archive" where
        k: "if ?prev = 0 then k = 0 else \<exists>j. fmlookup (main_block_hash_to_height A) ?prev = Some j \<and> k = j + 1"
    and A2: "main_block_hash_to_height A2 = fmupd m k (main_block_hash_to_height A)"
      "main_header_infos A2 = fmupd m hi (main_header_infos A)"
      "exponential_main_ancestors A2 = exponential_main_ancestors A"
    and xs: "exp_table (get_nth_main_ancestor A2) k (Inr ?prev) = Inr xs"
    and A': "main_block_hash_to_height A' = main_block_hash_to_height A2" "main_header_infos A' = main_header_infos A2"
      "total_work A' = fmupd m w (total_work A)" "exponential_main_ancestors A' = fmupd m xs (exponential_main_ancestors A)"
    using put_main_tables [OF put m refl] by blast
  have kj: "unat k = Suc (unat j)" if "fmlookup (main_block_hash_to_height A) ?prev = Some j" "k = j + 1" for j
    using room that by (auto intro: unat_plus_1)
  have again: "fmlookup (main_block_hash_to_height A) m = Some k \<and> fmlookup (main_header_infos A) m = Some hi" if "m \<in> ?K"
  proof -
    obtain i where i: "fmlookup (main_block_hash_to_height A) m = Some i" using \<open>m \<in> ?K\<close> by auto
    from main_known [OF ok i] fresh have "fmlookup (main_header_infos A) m = Some hi"
      and up: "if ?prev = 0 then i = 0
        else \<exists>j. fmlookup (main_block_hash_to_height A) ?prev = Some j \<and> unat i = Suc (unat j)" by auto
    moreover have "unat i = unat k" using k up kj by (cases "?prev = 0") auto
    then have "i = k" by (simp only: word_unat_eq_iff)
    ultimately show ?thesis using i by simp
  qed
  have eqs: "get_main_height A2 g = get_main_height A g \<and> main_parent A2 g = main_parent A g \<and>
      main_exponentials A2 g = main_exponentials A g" if "g \<in> ?K" for g
    using again that
    by (cases "g = m") (auto simp: A2 get_main_height_def main_parent_def get_main_header_info_def main_exponentials_def)
  have chain: "chain_ok ?K (get_main_height A) (main_parent A) (main_exponentials A)"
    using ok by (simp add: main_ok_def)
  have "chain_ok {g. \<exists>k. get_main_height A' g = Inr k} (get_main_height A') (main_parent A') (main_exponentials A')"
  proof (rule chain_ok_extend [OF chain refl, of m _ _ _ k xs])
    fix g
    assume "g \<noteq> m"
    then show "get_main_height A' g = get_main_height A g \<and> main_parent A' g = main_parent A g \<and>
        main_exponentials A' g = main_exponentials A g"
      by (simp add: A' A2 get_main_height_def main_parent_def get_main_header_info_def main_exponentials_def)
  next
    assume "m \<in> ?K"
    then show "get_main_height A' m = get_main_height A m \<and> main_parent A' m = main_parent A m"
      using again by (auto simp: A' A2 get_main_height_def main_parent_def get_main_header_info_def)
  next
    assume "0 < k"
    then obtain j where p: "fmlookup (main_block_hash_to_height A) ?prev = Some j" "k = j + 1"
      using k by (auto split: if_splits)
    have pK: "?prev \<in> ?K" and htp: "get_main_height A2 ?prev = Inr j" using p eqs [of ?prev] by auto
    have "\<forall>l. 2 * 2 ^ l \<le> unat k \<longrightarrow> l < length xs \<and> walk (main_parent A2) (2 * 2 ^ l - 1) ?prev = Inr (xs ! l)"
      using exp_table_ok [OF chain_ok_agree [OF chain, of "get_main_height A2" "main_parent A2" "main_exponentials A2"]
          get_nth_main_ancestor_def pK htp kj [OF p]] eqs xs by auto
    moreover have agree: "\<forall>g \<in> ?K. main_parent A2 g = main_parent A g" using eqs by blast
    moreover have "walk (main_parent A2) n ?prev = walk (main_parent A) n ?prev" if "n \<le> unat j" for n
      by (rule walk_agree [OF mainc.links [OF ok] agree pK _ that]) (simp add: p(1))
    ultimately show "\<exists>p j. main_parent A' m = Inr p \<and> get_main_height A p = Inr j \<and> unat k = Suc (unat j) \<and>
        (\<forall>l. 2 * 2 ^ l \<le> unat k \<longrightarrow> l < length xs \<and> walk (main_parent A) (2 * 2 ^ l - 1) p = Inr (xs ! l))"
      using p kj [OF p] by (intro exI [of _ ?prev] exI [of _ j]) (auto simp: main_parent_eq A' A2)
  qed (simp_all add: A' A2 get_main_height_def main_exponentials_def)
  moreover have "?prev = 0 \<longleftrightarrow> k = 0"
    using k room by (auto split: if_splits simp: eq_neg_iff_add_eq_0)
  ultimately show ?thesis using ok by (auto simp: main_ok_def A' A2)
qed

end
