(* ===== verification/Archive_Invalidate.thy ===== *)
theory Archive_Invalidate
  imports Archive_Store
begin

text \<open>
  Invalidating a block removes exactly the block and its offspring, whatever the order in which the
  successors are taken, and keeps the tables of the rest of the chain right.
\<close>

section \<open>Successors\<close>

definition order_ok :: "(hash256 fset \<Rightarrow> hash256 list) \<Rightarrow> bool" where
  "order_ok ord \<longleftrightarrow> (\<forall>S. set (ord S) = fset S \<and> distinct (ord S))"

text \<open>Every known block has an entry, and an entry has exactly the known children.\<close>

definition succ_ok :: "'acc Archive \<Rightarrow> bool" where
  "succ_ok A \<longleftrightarrow> fmlookup (ar_successors A) None \<noteq> None \<and>
     (\<forall>h. fmlookup (ar_successors A) (Some h) = None \<longleftrightarrow> fmlookup (ar_headers A) h = None) \<and>
     (\<forall>k S c. fmlookup (ar_successors A) k = Some S \<longrightarrow>
        (c |\<in>| S \<longleftrightarrow> (\<exists>hdr. fmlookup (ar_headers A) c = Some hdr \<and> prev_side_hash hdr = k)))"

lemma succ_ok_new: "succ_ok Archive_new"
  by (simp add: succ_ok_def Archive_new_def)

lemma succ_okD:
  assumes "succ_ok A"
  shows "fmlookup (ar_successors A) (Some h) = None \<longleftrightarrow> fmlookup (ar_headers A) h = None"
    "fmlookup (ar_successors A) k = Some S \<Longrightarrow>
      c |\<in>| S \<longleftrightarrow> (\<exists>hdr. fmlookup (ar_headers A) c = Some hdr \<and> prev_side_hash hdr = k)"
  using assms by (simp_all add: succ_ok_def)

section \<open>The loop\<close>

inductive_set offspring :: "'acc Archive \<Rightarrow> BlockHash \<Rightarrow> BlockHash set" for A h where
  self: "h \<in> offspring A h"
| child: "a \<in> offspring A h \<Longrightarrow> fmlookup (ar_headers A) c = Some hdr \<Longrightarrow> prev_side_hash hdr = Some a \<Longrightarrow>
    c \<in> offspring A h"

text \<open>One round of the loop: the archive without the block, and its successors.\<close>

definition invalidate_step :: "BlockHash \<Rightarrow> 'acc Archive \<Rightarrow> 'acc Archive" where
  "invalidate_step h A =
     (let A1 = invalidate_one h A in A1\<lparr>ar_successors := fmdrop (Some h) (ar_successors A1)\<rparr>)"

lemma invalidate_step_tables:
  "ar_headers (invalidate_step h A) = fmdrop h (ar_headers A)"
  "block_hash_to_height (invalidate_step h A) = fmdrop h (block_hash_to_height A)"
  "exponential_ancestors (invalidate_step h A) = fmdrop h (exponential_ancestors A)"
  "invalid_blocks (invalidate_step h A) = fmupd h () (invalid_blocks A)"
  "ar_bodies (invalidate_step h A) = fmdrop h (ar_bodies A)"
  by (simp_all add: invalidate_step_def invalidate_one_def drop_successor_def Let_def split: option.splits)

lemma invalidate_step_successors:
  "fmlookup (ar_successors (invalidate_step h A)) k =
     (if k = Some h then None
      else map_option (\<lambda>S. case fmlookup (ar_headers A) h of
          Some hdr \<Rightarrow> if prev_side_hash hdr = k then S |-| {|h|} else S | None \<Rightarrow> S)
        (fmlookup (ar_successors A) k))"
  by (cases "fmlookup (ar_successors A) k") (auto simp: invalidate_step_def invalidate_one_def drop_successor_def Let_def split: option.splits)

lemma invalidate_step_ok:
  assumes "succ_ok A"
  shows "succ_ok (invalidate_step h A)"
proof -
  have "c |\<in>| S \<longleftrightarrow> (\<exists>hdr. fmlookup (fmdrop h (ar_headers A)) c = Some hdr \<and> prev_side_hash hdr = k)"
    if "fmlookup (ar_successors (invalidate_step h A)) k = Some S" for k S c
    using that succ_okD(2) [OF assms, of k _ c]
    by (auto simp: invalidate_step_successors split: if_splits option.splits)
  then show ?thesis
    using assms by (auto simp: succ_ok_def invalidate_step_tables invalidate_step_successors)
qed

lemma pushed_successors:
  assumes "succ_ok A" "fmlookup (ar_successors (invalidate_one h A)) (Some h) = Some S"
  shows "c |\<in>| S \<Longrightarrow> \<exists>hdr. fmlookup (ar_headers A) c = Some hdr \<and> prev_side_hash hdr = Some h"
    and "fmlookup (ar_headers A) c = Some hdr \<Longrightarrow> prev_side_hash hdr = Some h \<Longrightarrow> c \<noteq> h \<Longrightarrow> c |\<in>| S"
  using assms succ_okD(2) [OF assms(1), of "Some h" _ c]
  by (auto simp: invalidate_one_def drop_successor_def Let_def split: option.splits if_splits)

definition invalidating :: "'acc Archive \<Rightarrow> BlockHash \<Rightarrow> BlockHash list \<Rightarrow> 'acc Archive \<Rightarrow> bool" where
  "invalidating A0 h0 stack A \<longleftrightarrow> succ_ok A \<and> set stack \<subseteq> offspring A0 h0 \<and>
     (\<exists>R \<subseteq> offspring A0 h0.
        (\<forall>g. fmlookup (ar_headers A) g = (if g \<in> R then None else fmlookup (ar_headers A0) g) \<and>
             fmlookup (block_hash_to_height A) g = (if g \<in> R then None else fmlookup (block_hash_to_height A0) g) \<and>
             fmlookup (exponential_ancestors A) g = (if g \<in> R then None else fmlookup (exponential_ancestors A0) g) \<and>
             fmlookup (ar_bodies A) g = (if g \<in> R then None else fmlookup (ar_bodies A0) g) \<and>
             fmlookup (invalid_blocks A) g = (if g \<in> R then Some () else fmlookup (invalid_blocks A0) g)) \<and>
        (h0 \<in> R \<or> h0 \<in> set stack) \<and>
        (\<forall>a c hdr. a \<in> R \<longrightarrow> fmlookup (ar_headers A0) c = Some hdr \<longrightarrow> prev_side_hash hdr = Some a \<longrightarrow>
           c \<in> R \<or> c \<in> set stack))"

text \<open>No header is stored without its parent.\<close>

definition parents_stored :: "'acc Archive \<Rightarrow> bool" where
  "parents_stored A \<longleftrightarrow>
     (\<forall>c hdr a. fmlookup (ar_headers A) c = Some hdr \<longrightarrow> prev_side_hash hdr = Some a \<longrightarrow> fmlookup (ar_headers A) a \<noteq> None)"

lemma invalidating_step:
  assumes inv: "invalidating A0 h0 (h # stack) A" and par: "parents_stored A0"
    and new: "\<And>c. c \<in> set new \<longleftrightarrow> (\<exists>S. fmlookup (ar_successors (invalidate_one h A)) (Some h) = Some S \<and> c |\<in>| S)"
  shows "invalidating A0 h0 (new @ stack) (invalidate_step h A)"
proof -
  from inv obtain R where ok: "succ_ok A" and st: "h \<in> offspring A0 h0" "set stack \<subseteq> offspring A0 h0" and R: "R \<subseteq> offspring A0 h0"
    and tabs: "\<And>g. fmlookup (ar_headers A) g = (if g \<in> R then None else fmlookup (ar_headers A0) g) \<and>
             fmlookup (block_hash_to_height A) g = (if g \<in> R then None else fmlookup (block_hash_to_height A0) g) \<and>
             fmlookup (exponential_ancestors A) g = (if g \<in> R then None else fmlookup (exponential_ancestors A0) g) \<and>
             fmlookup (ar_bodies A) g = (if g \<in> R then None else fmlookup (ar_bodies A0) g) \<and>
             fmlookup (invalid_blocks A) g = (if g \<in> R then Some () else fmlookup (invalid_blocks A0) g)"
    and root: "h0 \<in> R \<or> h0 = h \<or> h0 \<in> set stack"
    and kids: "\<And>a c hdr. a \<in> R \<Longrightarrow> fmlookup (ar_headers A0) c = Some hdr \<Longrightarrow> prev_side_hash hdr = Some a \<Longrightarrow>
      c \<in> R \<or> c = h \<or> c \<in> set stack"
    by (auto simp: invalidating_def)
  have hdrs: "fmlookup (ar_headers A) g = (if g \<in> R then None else fmlookup (ar_headers A0) g)" for g
    using tabs by blast
  have pushed: "c \<in> offspring A0 h0" if c: "c \<in> set new" for c
  proof -
    obtain hdr where "fmlookup (ar_headers A) c = Some hdr" "prev_side_hash hdr = Some h"
      using c new pushed_successors(1) [OF ok] by blast
    then show ?thesis using offspring.child [OF st(1)] by (auto simp: hdrs split: if_splits)
  qed
  have own: "c \<in> insert h R \<or> c \<in> set (new @ stack)"
    if c: "fmlookup (ar_headers A0) c = Some hdr" "prev_side_hash hdr = Some h" for c hdr
  proof (cases "h \<in> R \<or> c \<in> insert h R")
    case True
    then show ?thesis using kids [OF _ c] by auto
  next
    case False
    then have "fmlookup (ar_headers A) c = Some hdr" "c \<noteq> h" using c by (auto simp: hdrs)
    moreover have "fmlookup (ar_headers A) h \<noteq> None" using par c False by (auto simp: hdrs parents_stored_def)
    then obtain S where "fmlookup (ar_successors A) (Some h) = Some S" using succ_okD(1) [OF ok, of h] by auto
    then have "Some h |\<in>| fmdom (ar_successors (invalidate_one h A))" by (simp add: invalidate_one_dom fmdomI)
    then obtain S' where S': "fmlookup (ar_successors (invalidate_one h A)) (Some h) = Some S'"
      by (auto simp: fmlookup_dom_iff)
    ultimately show ?thesis using pushed_successors(2) [OF ok S', of c hdr] c(2) new by auto
  qed
  have "insert h R \<subseteq> offspring A0 h0" using R st by simp
  moreover have "c \<in> insert h R \<or> c \<in> set (new @ stack)"
    if "a \<in> insert h R" "fmlookup (ar_headers A0) c = Some hdr" "prev_side_hash hdr = Some a" for a c hdr
    using own kids [of a c hdr] that by (cases "a = h") auto
  ultimately show ?thesis
    unfolding invalidating_def
    using invalidate_step_ok [OF ok, of h] st pushed root tabs
    by (intro conjI exI [of _ "insert h R"]) (auto simp: invalidate_step_tables)
qed

lemma invalidate_loop_done:
  "order_ok ord \<Longrightarrow> parents_stored A0 \<Longrightarrow> invalidating A0 h0 stack A \<Longrightarrow>
     invalidating A0 h0 [] (invalidate_loop ord stack A)"
proof (induction ord stack A rule: invalidate_loop.induct)
  case (2 ord h stack A)
  show ?case
  proof (cases "fmlookup (ar_successors (invalidate_one h A)) (Some h)")
    case None
    with invalidating_step [OF "2.prems"(3,2), of "[]"] "2.IH"(1) "2.prems" show ?thesis
      by (simp add: Let_def invalidate_step_def)
  next
    case (Some S)
    have "c \<in> set (rev (ord S)) \<longleftrightarrow> c |\<in>| S" for c using "2.prems"(1) by (simp add: order_ok_def)
    with Some invalidating_step [OF "2.prems"(3,2), of "rev (ord S)"] "2.IH"(2) "2.prems" show ?thesis
      by (simp add: Let_def invalidate_step_def)
  qed
qed simp

lemma invalidate_block_effect:
  assumes "order_ok ord" "parents_stored A" "succ_ok A"
  shows "succ_ok (invalidate_block ord h A) \<and>
    (\<forall>g. fmlookup (ar_headers (invalidate_block ord h A)) g =
          (if g \<in> offspring A h then None else fmlookup (ar_headers A) g) \<and>
         fmlookup (block_hash_to_height (invalidate_block ord h A)) g =
          (if g \<in> offspring A h then None else fmlookup (block_hash_to_height A) g) \<and>
         fmlookup (exponential_ancestors (invalidate_block ord h A)) g =
          (if g \<in> offspring A h then None else fmlookup (exponential_ancestors A) g) \<and>
         fmlookup (ar_bodies (invalidate_block ord h A)) g =
          (if g \<in> offspring A h then None else fmlookup (ar_bodies A) g) \<and>
         fmlookup (invalid_blocks (invalidate_block ord h A)) g =
          (if g \<in> offspring A h then Some () else fmlookup (invalid_blocks A) g))"
proof -
  have "invalidating A h [h] A"
    using assms(3) by (auto simp: invalidating_def intro: offspring.self intro!: exI [of _ "{}"])
  then have "invalidating A h [] (invalidate_block ord h A)"
    unfolding invalidate_block_def by (rule invalidate_loop_done [OF assms(1,2)])
  then obtain R where R: "R \<subseteq> offspring A h" "h \<in> R"
      "\<And>a c hdr. a \<in> R \<Longrightarrow> fmlookup (ar_headers A) c = Some hdr \<Longrightarrow> prev_side_hash hdr = Some a \<Longrightarrow> c \<in> R"
    and rest: "succ_ok (invalidate_block ord h A)"
      "\<And>g. fmlookup (ar_headers (invalidate_block ord h A)) g = (if g \<in> R then None else fmlookup (ar_headers A) g) \<and>
         fmlookup (block_hash_to_height (invalidate_block ord h A)) g = (if g \<in> R then None else fmlookup (block_hash_to_height A) g) \<and>
         fmlookup (exponential_ancestors (invalidate_block ord h A)) g = (if g \<in> R then None else fmlookup (exponential_ancestors A) g) \<and>
         fmlookup (ar_bodies (invalidate_block ord h A)) g = (if g \<in> R then None else fmlookup (ar_bodies A) g) \<and>
         fmlookup (invalid_blocks (invalidate_block ord h A)) g = (if g \<in> R then Some () else fmlookup (invalid_blocks A) g)"
    by (auto simp: invalidating_def)
  have "g \<in> R" if "g \<in> offspring A h" for g
    using that by induction (use R in auto)
  then have "R = offspring A h" using R(1) by blast
  with rest show ?thesis by simp
qed

section \<open>The rest of the chain\<close>

lemma chain_ok_restrict:
  assumes ok: "chain_ok K ht par exps" and sub: "K' \<subseteq> K"
    and closed: "\<And>g p. g \<in> K' \<Longrightarrow> par g = Inr p \<Longrightarrow> p \<in> K \<Longrightarrow> p \<in> K'"
    and same: "\<And>g. g \<in> K' \<Longrightarrow> ht' g = ht g \<and> par' g = par g \<and> exps' g = exps g"
  shows "chain_ok K' ht' par' exps'"
proof -
  have "linked K' ht par g \<and> tabled ht par exps g" if "g \<in> K'" for g
    using ok sub closed [OF that] that by (fastforce simp: chain_ok_def linked_def)
  then have "chain_ok K' ht par exps" by (simp add: chain_ok_def)
  then show ?thesis by (rule chain_ok_agree) (rule same)
qed

lemma side_ok_dom: "side_ok A \<Longrightarrow> fmlookup (ar_headers A) h = None \<longleftrightarrow> fmlookup (block_hash_to_height A) h = None"
  by (simp add: side_ok_def)

lemma side_ok_parents: "side_ok A \<Longrightarrow> parents_stored A"
  unfolding parents_stored_def
proof (intro allI impI)
  fix c hdr a
  assume ok: "side_ok A" and c: "fmlookup (ar_headers A) c = Some hdr" "prev_side_hash hdr = Some a"
  then obtain k where "fmlookup (block_hash_to_height A) c = Some k"
    using side_ok_dom [OF ok, of c] by auto
  from side_known [OF ok this] c obtain j where "fmlookup (block_hash_to_height A) a = Some j" by auto
  then show "fmlookup (ar_headers A) a \<noteq> None" using side_ok_dom [OF ok, of a] by auto
qed

lemma invalidate_side_ok:
  assumes ok: "side_ok A" and "succ_ok A" "order_ok ord"
  shows "side_ok (invalidate_block ord h A)"
proof -
  let ?A = "invalidate_block ord h A" and ?D = "offspring A h"
  note eff = invalidate_block_effect [OF assms(3) side_ok_parents [OF ok] assms(2), of h]
  have hts: "fmlookup (block_hash_to_height ?A) g = (if g \<in> ?D then None else fmlookup (block_hash_to_height A) g)"
    and hdrs: "fmlookup (ar_headers ?A) g = (if g \<in> ?D then None else fmlookup (ar_headers A) g)"
    and exs: "fmlookup (exponential_ancestors ?A) g = (if g \<in> ?D then None else fmlookup (exponential_ancestors A) g)" for g
    using eff by blast+
  have "chain_ok {g. \<exists>k. ar_get_height ?A g = Inr k} (ar_get_height ?A) (side_parent ?A) (side_exponentials ?A)"
  proof (rule chain_ok_restrict [of "{g. \<exists>k. ar_get_height A g = Inr k}" "ar_get_height A" "side_parent A" "side_exponentials A"])
    show "chain_ok {g. \<exists>k. ar_get_height A g = Inr k} (ar_get_height A) (side_parent A) (side_exponentials A)"
      using ok by (simp add: side_ok_def)
  next
    fix g p
    assume "g \<in> {g. \<exists>k. ar_get_height ?A g = Inr k}" "side_parent A g = Inr p" "p \<in> {g. \<exists>k. ar_get_height A g = Inr k}"
    then show "p \<in> {g. \<exists>k. ar_get_height ?A g = Inr k}"
      by (auto simp: hts side_parent_eq split: if_splits dest: offspring.child)
  qed (auto simp: hts hdrs exs ar_get_height_def side_parent_def get_header_def side_exponentials_def res_simps split: if_splits)
  then show ?thesis using ok by (auto simp: side_ok_def hts hdrs)
qed

end
