(* ===== verification/Archive_Iter.thy ===== *)
theory Archive_Iter
  imports Archive_Invalidate
begin

text \<open>
  The batched iterator yields the ancestors from a height up to a block, oldest first, each once.
\<close>

text \<open>The ancestor of \<open>h\<close>, a block of height \<open>k\<close>, at height \<open>j\<close>, with its header.\<close>

definition item_at :: "'acc Archive \<Rightarrow> BlockHash \<Rightarrow> u32 \<Rightarrow> nat \<Rightarrow> BlockHash \<times> Header" where
  "item_at A h k j =
     (let a = projr (walk (side_parent A) (unat k - j) h) in (a, the (fmlookup (ar_headers A) a)))"

lemma item_at_props:
  assumes ok: "side_ok A" and h: "fmlookup (block_hash_to_height A) h = Some k" and "j \<le> unat k"
  shows "walk (side_parent A) (unat k - j) h = Inr (fst (item_at A h k j))"
    "fmlookup (ar_headers A) (fst (item_at A h k j)) = Some (snd (item_at A h k j))"
    "0 < j \<Longrightarrow> prev_side_hash (snd (item_at A h k j)) = Some (fst (item_at A h k (j - 1)))"
proof -
  have reach: "\<exists>a hdr. walk (side_parent A) (unat k - i) h = Inr a \<and> fmlookup (ar_headers A) a = Some hdr" if "i \<le> unat k" for i
  proof -
    obtain a j where "walk (side_parent A) (unat k - i) h = Inr a" "fmlookup (block_hash_to_height A) a = Some j"
      using side.walk_up [OF ok, of h k "unat k - i"] h by auto
    then show ?thesis using side_ok_dom [OF ok, of a] by auto
  qed
  show w: "walk (side_parent A) (unat k - j) h = Inr (fst (item_at A h k j))"
    and hd: "fmlookup (ar_headers A) (fst (item_at A h k j)) = Some (snd (item_at A h k j))"
    using reach [OF assms(3)] by (auto simp: item_at_def Let_def)
  assume "0 < j"
  then have "unat k - (j - 1) = Suc (unat k - j)" using assms(3) by simp
  then have "walk (side_parent A) (unat k - (j - 1)) h = side_parent A (fst (item_at A h k j))"
    using walk_add [of "side_parent A" "unat k - j" 1 h] w
    by (cases "side_parent A (fst (item_at A h k j))") simp_all
  then show "prev_side_hash (snd (item_at A h k j)) = Some (fst (item_at A h k (j - 1)))"
  proof -
    assume up: "walk (side_parent A) (unat k - (j - 1)) h = side_parent A (fst (item_at A h k j))"
    have "j - 1 \<le> unat k" using assms(3) by simp
    then obtain a where a: "walk (side_parent A) (unat k - (j - 1)) h = Inr a" using reach by blast
    then have "fst (item_at A h k (j - 1)) = a" by (simp add: item_at_def Let_def)
    moreover obtain hdr where "fmlookup (ar_headers A) (fst (item_at A h k j)) = Some hdr" "prev_side_hash hdr = Some a"
      using a up side_parent_eq [of A "fst (item_at A h k j)" a] by auto
    ultimately show ?thesis using hd by simp
  qed
qed

lemma take_headers_items:
  assumes "side_ok A" "fmlookup (block_hash_to_height A) h = Some k" "e \<le> unat k" "n \<le> e"
  shows "take_headers A (Suc n) (Some (fst (item_at A h k e))) = Inr (map (item_at A h k) (rev [e - n..<Suc e]))"
  using assms(3,4)
proof (induction n arbitrary: e)
  case 0
  then show ?case using item_at_props(2) [OF assms(1,2), of e] by (simp add: get_header_def)
next
  case (Suc n)
  then have "take_headers A (Suc n) (Some (fst (item_at A h k (e - 1)))) =
      Inr (map (item_at A h k) (rev [e - 1 - n..<Suc (e - 1)]))" by (intro Suc.IH) auto
  moreover have "[e - Suc n..<Suc e] = [e - 1 - n..<Suc (e - 1)] @ [e]" using Suc.prems by simp
  ultimately show ?case
    using item_at_props(2,3) [OF assms(1,2) Suc.prems(1)] Suc.prems(2) by (simp add: get_header_def del: upt_Suc)
qed

text \<open>What is left of an iterator.\<close>

definition iter_rest :: "'acc Archive \<Rightarrow> BlockHash \<Rightarrow> u32 \<Rightarrow> (BlockHash \<times> Header) RevIter \<Rightarrow> (BlockHash \<times> Header) list \<Rightarrow> bool" where
  "iter_rest A h k it ys \<longleftrightarrow>
     (\<exists>buf. (rv_inner it = Some (k, buf) \<or> rv_inner it = None \<and> buf = []) \<and>
        ys = buf @ (case rv_start it of None \<Rightarrow> [] | Some s \<Rightarrow> map (item_at A h k) [unat s..<Suc (unat k)]))"

lemma next_batch:
  assumes ok: "side_ok A" and h: "fmlookup (block_hash_to_height A) h = Some k" and s: "s \<le> k"
    and size: "delta = k - s" "off = min delta (max_batch_size - 1)"
  shows "get_nth_ancestor A h (delta - off) = Inr (fst (item_at A h k (unat s + unat off)))"
    "take_headers A (unat (off + 1)) (Some (fst (item_at A h k (unat s + unat off)))) =
      Inr (map (item_at A h k) (rev [unat s..<Suc (unat s + unat off)]))"
    "(case checked_add s (off + 1) of Some t \<Rightarrow> if t \<le> k then Some t else None | None \<Rightarrow> None) =
      (if unat s + unat off < unat k then Some (s + (off + 1)) else None)"
    "unat s + unat off < unat k \<Longrightarrow> unat (s + (off + 1)) = Suc (unat s + unat off)"
    "unat s + unat off \<le> unat k"
proof -
  have sk: "unat s \<le> unat k" using s by (simp add: word_le_nat_alt)
  have d: "unat delta = unat k - unat s" using s by (simp add: size unat_sub)
  have o31: "unat off \<le> 31" "unat off \<le> unat delta"
    unfolding size(2) max_batch_size_def by (simp_all add: min_def word_le_nat_alt)
  then show e: "unat s + unat off \<le> unat k" using d sk by simp
  have o1: "unat (off + 1) = Suc (unat off)" using o31(1) by (simp add: unat_word_ariths)
  have "off \<le> delta" using o31(2) by (simp add: word_le_nat_alt)
  then have "unat (delta - off) = unat k - (unat s + unat off)" by (simp add: unat_sub d)
  then show "get_nth_ancestor A h (delta - off) = Inr (fst (item_at A h k (unat s + unat off)))"
    using side.ancestor_exact [OF ok, of h k] h item_at_props(1) [OF ok h e] by (simp add: get_nth_ancestor_def)
  show "take_headers A (unat (off + 1)) (Some (fst (item_at A h k (unat s + unat off)))) =
      Inr (map (item_at A h k) (rev [unat s..<Suc (unat s + unat off)]))"
    using take_headers_items [OF ok h e, of "unat off"] by (simp add: o1 del: upt_Suc take_headers.simps)
  show sum: "unat (s + (off + 1)) = Suc (unat s + unat off)" if "unat s + unat off < unat k"
    using that o1 unsigned_less [of k, where 'a = nat] by (simp add: unat_word_ariths)
  show "(case checked_add s (off + 1) of Some t \<Rightarrow> if t \<le> k then Some t else None | None \<Rightarrow> None) =
      (if unat s + unat off < unat k then Some (s + (off + 1)) else None)"
  proof (cases "unat s + unat off < unat k")
    case True
    then have "checked_add s (off + 1) = Some (s + (off + 1))" using sum o1 by (simp add: checked_add_Some)
    with True sum show ?thesis by (simp add: word_le_nat_alt)
  next
    case False
    have "t > k" if "checked_add s (off + 1) = Some t" for t
      using that False o1 by (simp add: checked_add_Some word_less_nat_alt)
    with False show ?thesis by (auto split: option.splits simp: not_le)
  qed
qed

text \<open>One call takes the head of what is left.\<close>

lemma rev_next_rest:
  assumes ok: "side_ok A" and h: "fmlookup (block_hash_to_height A) h = Some k" and rest: "iter_rest A h k it ys"
  shows "\<exists>it'. ancestors_rev_next A h it = Inr (case ys of [] \<Rightarrow> None | y # _ \<Rightarrow> Some y, it') \<and> iter_rest A h k it' (tl ys)"
proof -
  obtain buf where buf: "rv_inner it = Some (k, buf) \<or> rv_inner it = None \<and> buf = []"
    and ys: "ys = buf @ (case rv_start it of None \<Rightarrow> [] | Some s \<Rightarrow> map (item_at A h k) [unat s..<Suc (unat k)])"
    using rest by (auto simp: iter_rest_def)
  have inner: "(case rv_inner it of Some inner \<Rightarrow> Inr inner | None \<Rightarrow> and_then (ar_get_height A h) (\<lambda>k. Inr (k, []))) =
      (Inr (k, buf) :: (u32 \<times> (BlockHash \<times> Header) list) ares)"
    using buf h by (auto simp: ar_get_height_def)
  show ?thesis
  proof (cases buf)
    case (Cons y rest)
    then show ?thesis using inner ys by (auto simp: ancestors_rev_next_def rev_next_def iter_rest_def)
  next
    case Nil
    show ?thesis
    proof (cases "rv_start it")
      case None
      then show ?thesis using inner ys Nil by (auto simp: ancestors_rev_next_def rev_next_def iter_rest_def)
    next
      case (Some s)
      show ?thesis
      proof (cases "s \<le> k")
        case False
        then have "checked_sub k s = None" "[unat s..<Suc (unat k)] = []"
          by (auto simp: checked_sub_def word_le_nat_alt)
        then show ?thesis using inner ys Nil Some by (auto simp: ancestors_rev_next_def rev_next_def iter_rest_def simp del: upt_Suc)
      next
        case True
        define delta where "delta = k - s"
        define off where "off = min delta (max_batch_size - 1)"
        note batch = next_batch [OF ok h True delta_def off_def]
        let ?e = "unat s + unat off"
        define nx where "nx = (if ?e < unat k then Some (s + (off + 1)) else None)"
        have sub: "checked_sub k s = Some delta" using True by (simp add: checked_sub_def delta_def)
        have now: "rev (map (item_at A h k) (rev [unat s..<Suc ?e])) =
            item_at A h k (unat s) # map (item_at A h k) [Suc (unat s)..<Suc ?e]"
          by (simp add: rev_map upt_conv_Cons del: upt_Suc)
        have left: "ys = item_at A h k (unat s) # map (item_at A h k) [Suc (unat s)..<Suc ?e] @
            (case nx of None \<Rightarrow> [] | Some t \<Rightarrow> map (item_at A h k) [unat t..<Suc (unat k)])"
        proof -
          have "[unat s..<Suc (unat k)] = [unat s..<Suc ?e] @ [Suc ?e..<Suc (unat k)]"
            using upt_add_eq_append [of "unat s" "Suc ?e" "unat k - ?e"] batch(5) by (simp del: upt_Suc)
          moreover have "[Suc ?e..<Suc (unat k)] = []" if "\<not> ?e < unat k" using that by simp
          ultimately show ?thesis
            using ys Nil Some batch(4) by (auto simp: nx_def upt_conv_Cons simp del: upt_Suc)
        qed
        have "ancestors_rev_next A h it = Inr (Some (item_at A h k (unat s)),
            \<lparr>rv_start = nx, rv_inner = Some (k, map (item_at A h k) [Suc (unat s)..<Suc ?e])\<rparr>)"
          unfolding ancestors_rev_next_def rev_next_def inner
          using Nil Some sub batch(1,2,3) now
          by (simp add: Let_def off_def [symmetric] nx_def del: upt_Suc take_headers.simps)
        then show ?thesis using left by (auto simp: iter_rest_def)
      qed
    qed
  qed
qed

lemma iter_take_rest:
  assumes "side_ok A" "fmlookup (block_hash_to_height A) h = Some k"
  shows "iter_rest A h k it ys \<Longrightarrow> iter_take (ancestors_rev_next A h) n it = Inr (take n ys)"
proof (induction n arbitrary: it ys)
  case (Suc n)
  obtain it' where step: "ancestors_rev_next A h it = Inr (case ys of [] \<Rightarrow> None | y # _ \<Rightarrow> Some y, it')"
    and "iter_rest A h k it' (tl ys)"
    using rev_next_rest [OF assms Suc.prems] by blast
  then have "iter_take (ancestors_rev_next A h) n it' = Inr (take n (tl ys))" by (intro Suc.IH)
  with step show ?case by (cases ys) simp_all
qed simp

lemma ancestors_rev_exact:
  assumes "side_ok A" "fmlookup (block_hash_to_height A) h = Some k"
  shows "iter_take (ancestors_rev_next A h) n (rev_new start) =
    Inr (take n (map (item_at A h k) [unat start..<Suc (unat k)]))"
  by (rule iter_take_rest [OF assms]) (auto simp: iter_rest_def rev_new_def)

end
