(* ===== verification/Archive_Compare.thy ===== *)
theory Archive_Compare
  imports Archive_Iter
begin

text \<open>
  The walks that are written as loops end on a good archive: missing bodies, the search among the
  ancestors of a block, and the comparison of two tips. Also: storing a header keeps the table of
  successors.
\<close>

section \<open>Successors of a new header\<close>

lemma put_successor_ok:
  assumes ok: "succ_ok A" and par: "parents_stored A"
    and put: "put_successor h (prev_side_hash hdr) (A\<lparr>block_hash_to_height := hts, ar_headers := fmupd h hdr (ar_headers A)\<rparr>) = Inr A'"
    and fresh: "fmlookup (ar_headers A) h \<in> {None, Some hdr}"
  shows "succ_ok A'"
proof -
  let ?p = "prev_side_hash hdr"
  obtain S where S: "fmlookup (ar_successors A) ?p = Some S"
    and A': "ar_headers A' = fmupd h hdr (ar_headers A)"
      "ar_successors A' = fmupd (Some h) (case fmlookup (fmupd ?p (finsert h S) (ar_successors A)) (Some h) of
         Some T \<Rightarrow> T | None \<Rightarrow> {||}) (fmupd ?p (finsert h S) (ar_successors A))"
    using put by (auto simp: put_successor_def get_successors_def Let_def res_simps split: option.splits)
  have root: "fmlookup (ar_successors A) None \<noteq> None" using ok by (simp add: succ_ok_def)
  have kids: "c |\<in>| T \<longleftrightarrow> (\<exists>g. fmlookup (ar_headers A') c = Some g \<and> prev_side_hash g = k)"
    if T: "fmlookup (ar_successors A) k = Some T'" "T = (if k = ?p then finsert h T' else T')" for k T T' c
    using succ_okD(2) [OF ok T(1), of c] T(2) fresh by (auto simp: A')
  have none: "\<not> (\<exists>g. fmlookup (ar_headers A) c = Some g \<and> prev_side_hash g = Some h)"
    if "fmlookup (ar_successors A) (Some h) = None" for c
    using that par succ_okD(1) [OF ok, of h] unfolding parents_stored_def by fastforce
  have "c |\<in>| T \<longleftrightarrow> (\<exists>g. fmlookup (ar_headers A') c = Some g \<and> prev_side_hash g = k)"
    if T: "fmlookup (ar_successors A') k = Some T" for k T c
  proof (cases "fmlookup (ar_successors A) k")
    case (Some T')
    have "T = (if k = ?p then finsert h T' else T')" using T Some S by (auto simp: A' split: if_splits)
    from kids [OF Some this] show ?thesis .
  next
    case None
    then have "k \<noteq> ?p" "k = Some h" "T = {||}" using T S by (auto simp: A' split: if_splits)
    with None none show ?thesis by (auto simp: A')
  qed
  moreover have "fmlookup (ar_successors A') (Some g) = None \<longleftrightarrow> fmlookup (ar_headers A') g = None" for g
    using succ_okD(1) [OF ok, of g] S by (auto simp: A')
  ultimately show ?thesis using root by (auto simp: succ_ok_def A')
qed

theorem put_header_succ_ok:
  fixes A :: "'acc Archive"
  assumes "side_ok A" "succ_ok A" "put_header X ord hdr A = Inr A'"
    and "fmlookup (ar_headers A) (header_hash X hdr) \<in> {None, Some hdr}"
  shows "succ_ok A'"
proof -
  let ?h = "header_hash X hdr"
  obtain hts xs and A2 :: "'acc Archive" where
    put: "put_successor ?h (prev_side_hash hdr) (A\<lparr>block_hash_to_height := hts, ar_headers := fmupd ?h hdr (ar_headers A)\<rparr>) = Inr A2"
    and bmm: "put_bmm_results ord ?h hdr (A2\<lparr>exponential_ancestors := xs\<rparr>) = Inr A'"
    using assms(3) by (auto simp: put_header_def Let_def res_simps)
  have "succ_ok A2" by (rule put_successor_ok [OF assms(2) side_ok_parents [OF assms(1)] put assms(4)])
  moreover obtain m where "A' = A2\<lparr>exponential_ancestors := xs, bmm_results := m\<rparr>" using put_bmm_frame [OF bmm] by auto
  ultimately show ?thesis by (simp add: succ_ok_def)
qed

section \<open>The ancestors of a block as a list\<close>

fun lineage :: "'acc Archive \<Rightarrow> nat \<Rightarrow> BlockHash \<Rightarrow> BlockHash list" where
  "lineage A 0 h = [h]"
| "lineage A (Suc n) h =
     h # (case fmlookup (ar_headers A) h of
            Some hdr \<Rightarrow> (case prev_side_hash hdr of Some p \<Rightarrow> lineage A n p | None \<Rightarrow> []) | None \<Rightarrow> [])"

text \<open>The induction over a block's ancestors.\<close>

lemma lineage_induct [consumes 2, case_names root step]:
  assumes "side_ok A" "fmlookup (block_hash_to_height A) h = Some k"
    and "\<And>h hdr. fmlookup (ar_headers A) h = Some hdr \<Longrightarrow> prev_side_hash hdr = None \<Longrightarrow> P h 0"
    and "\<And>h hdr p n. fmlookup (ar_headers A) h = Some hdr \<Longrightarrow> prev_side_hash hdr = Some p \<Longrightarrow> P p n \<Longrightarrow> P h (Suc n)"
  shows "P h (unat k)"
  using assms(2)
proof (induction "unat k" arbitrary: h k)
  case 0
  from side_known [OF assms(1) 0(2)] show ?case using assms(3) 0(1) [symmetric] by (auto split: option.splits)
next
  case (Suc n)
  then have "k \<noteq> 0" by auto
  with side_known [OF assms(1) Suc(3)] obtain hdr p j where
    "fmlookup (ar_headers A) h = Some hdr" "prev_side_hash hdr = Some p"
    "fmlookup (block_hash_to_height A) p = Some j" "unat k = Suc (unat j)"
    by (auto split: option.splits)
  moreover from this Suc(2) have "n = unat j" by simp
  ultimately show ?case using Suc(1) [of j p] assms(4) by simp
qed

lemma lineage_ancestors:
  assumes "side_ok A" "fmlookup (block_hash_to_height A) h = Some k"
  shows "set (lineage A (unat k) h) = {a. has_ancestor (ar_get_height A) (side_parent A) h a}"
proof -
  have "set (lineage A (unat k) h) = {a. \<exists>n \<le> unat k. walk (side_parent A) n h = Inr a}"
    using assms
  proof (induction rule: lineage_induct)
    case (step h hdr p n)
    have "(\<exists>m \<le> Suc n. walk (side_parent A) m h = Inr a) \<longleftrightarrow> a = h \<or> (\<exists>m \<le> n. walk (side_parent A) m p = Inr a)" for a
    proof -
      have "side_parent A h = Inr p" using step by (simp add: side_parent_eq)
      then have "walk (side_parent A) (Suc m) h = walk (side_parent A) m p" for m by simp
      then show ?thesis by (metis Inr_inject Suc_le_mono not0_implies_Suc walk.simps(1) zero_le)
    qed
    with step show ?case by auto
  qed auto
  with assms(2) show ?thesis by (auto simp: has_ancestor_def)
qed

lemma missing_loop_exact:
  assumes "side_ok A" "fmlookup (block_hash_to_height A) h = Some k"
  shows "missing_loop A (Some h) anc acc =
    Some (Inr (rev (filter (\<lambda>g. fmlookup (ar_bodies A) g = None) (takeWhile (\<lambda>g. anc \<noteq> Some g) (lineage A (unat k) h))) @ acc))"
  using assms
proof (induction arbitrary: acc rule: lineage_induct)
  case (root h hdr)
  have "missing_loop A None anc acc' = Some (Inr acc')" for acc' by (subst missing_loop.simps) simp
  with root show ?case by (subst missing_loop.simps) (auto simp: get_header_def)
next
  case (step h hdr p n)
  then show ?case by (subst missing_loop.simps) (auto simp: get_header_def)
qed

text \<open>The first ancestor for which a search function answers.\<close>

fun first_hit :: "(BlockHash \<Rightarrow> 'b option ares) \<Rightarrow> BlockHash list \<Rightarrow> 'b option ares" where
  "first_hit f [] = Inr None"
| "first_hit f (h # hs) =
     and_then (f h) (\<lambda>r. case r of Some b \<Rightarrow> Inr (Some b) | None \<Rightarrow> first_hit f hs)"

lemma find_ancestor_exact:
  assumes "side_ok A" "fmlookup (block_hash_to_height A) h = Some k"
  shows "find_ancestor A f (Some h) = Some (first_hit f (lineage A (unat k) h))"
  using assms
proof (induction rule: lineage_induct)
  case (root h hdr)
  have "find_ancestor A f None = Some (Inr None)" by (subst find_ancestor.simps) simp
  with root show ?case by (subst find_ancestor.simps) (auto simp: get_header_def split: sum.splits option.splits)
next
  case (step h hdr p n)
  then show ?case by (subst find_ancestor.simps) (auto simp: get_header_def split: sum.splits option.splits)
qed

lemma first_hit_returns:
  "(\<And>g. g \<in> set hs \<Longrightarrow> \<exists>r. f g = Inr r) \<Longrightarrow> \<exists>r. first_hit f hs = Inr r"
proof (induction hs)
  case (Cons h hs)
  then obtain r where "f h = Inr r" by fastforce
  with Cons show ?case by (cases r) auto
qed simp

section \<open>Common ancestors on both chains\<close>

definition last_common :: "('h \<Rightarrow> u32 ares) \<Rightarrow> ('h \<Rightarrow> 'h ares) \<Rightarrow> 'h \<Rightarrow> 'h \<Rightarrow> 'h \<Rightarrow> bool" where
  "last_common ht par h0 h1 c \<longleftrightarrow> has_ancestor ht par h0 c \<and> has_ancestor ht par h1 c \<and>
     (\<forall>b. has_ancestor ht par h0 b \<longrightarrow> has_ancestor ht par h1 b \<longrightarrow> has_ancestor ht par c b)"

context chain_store
begin

lemma above_self: "ht s h = Inr k \<Longrightarrow> has_ancestor (ht s) (par s) h h"
  by (auto simp: has_ancestor_def intro!: exI [of _ 0])

lemma above_antisym:
  assumes "ok s" "has_ancestor (ht s) (par s) a b" "has_ancestor (ht s) (par s) b a"
  shows "a = b"
proof -
  obtain i j where i: "ht s a = Inr i" and j: "ht s b = Inr j"
    using above_known [OF assms(1)] assms(2,3) by blast
  show ?thesis using above_height [OF assms(1) i j] above_height [OF assms(1) j i] assms(2,3) by auto
qed

lemma last_common_unique:
  "ok s \<Longrightarrow> last_common (ht s) (par s) h0 h1 c \<Longrightarrow> last_common (ht s) (par s) h0 h1 d \<Longrightarrow> c = d"
  using above_antisym [of s c d] by (auto simp: last_common_def)

lemma common_exact:
  assumes "ok s" and k: "ht s h0 = Inr k0" "ht s h1 = Inr k1" and small: "unat (min k0 k1) < 2 ^ 31"
    and common: "has_ancestor (ht s) (par s) h0 b" "has_ancestor (ht s) (par s) h1 b"
    and anc: "\<And>g n. anc g n = nth_loop (ht s) (par s) (exps s) (e g n) g (unat n)"
  shows "\<exists>a0 a1 c. level_blocks (ht s) anc h0 h1 = Inr (a0, a1, min k0 k1) \<and> last_common (ht s) (par s) h0 h1 c \<and>
    (a0 = a1 \<and> c = a0 \<or> a0 \<noteq> a1 \<and> same_ancestor anc a0 a1 (min k0 k1) = Inr True \<and>
       search_ancestor anc a0 a1 (min k0 k1) = Some (Inr c))"
proof -
  obtain a0 a1 where lev: "level_blocks (ht s) anc h0 h1 = Inr (a0, a1, min k0 k1)"
    and a: "ht s a0 = Inr (min k0 k1)" "ht s a1 = Inr (min k0 k1)"
    and eq: "\<And>c. has_ancestor (ht s) (par s) h0 c \<and> has_ancestor (ht s) (par s) h1 c \<longleftrightarrow>
       has_ancestor (ht s) (par s) a0 c \<and> has_ancestor (ht s) (par s) a1 c"
    using level_exact [OF assms(1) k anc] by blast
  have top: "last_common (ht s) (par s) h0 h1 c \<longleftrightarrow> last_common (ht s) (par s) a0 a1 c" for c
    using eq unfolding last_common_def by metis
  show ?thesis
  proof (cases "a0 = a1")
    case True
    then have "last_common (ht s) (par s) h0 h1 a0" using top above_self [OF a(1)] by (simp add: last_common_def)
    with lev True show ?thesis by blast
  next
    case False
    obtain n where n: "n \<le> unat (min k0 k1)" "walk (par s) n a0 = Inr b" "walk (par s) n a1 = Inr b"
      using common_depth [OF assms(1) a] eq common by blast
    have "walk (par s) n a0 = walk (par s) n a1" by (simp only: n(2,3))
    then have shared: "walk (par s) (unat (min k0 k1)) a0 = walk (par s) (unat (min k0 k1)) a1"
      by (rule walk_same [OF _ n(1)])
    obtain x where "walk (par s) (unat (min k0 k1)) a0 = Inr x" using walk_up [OF assms(1) a(1) order_refl] by blast
    then have same: "same_ancestor anc a0 a1 (min k0 k1) = Inr True"
      using ancestor_exact [OF assms(1) a(1)] ancestor_exact [OF assms(1) a(2)] shared
      by (simp add: same_ancestor_def anc)
    obtain c where c: "search_ancestor anc a0 a1 (min k0 k1) = Some (Inr c)" "last_common (ht s) (par s) a0 a1 c"
      using search_exact [OF assms(1) a False shared small anc] unfolding last_common_def by blast
    with lev same False top show ?thesis by blast
  qed
qed

lemma no_common_exact:
  assumes "ok s" and k: "ht s h0 = Inr k0" "ht s h1 = Inr k1"
    and common: "\<not> (\<exists>b. has_ancestor (ht s) (par s) h0 b \<and> has_ancestor (ht s) (par s) h1 b)"
    and anc: "\<And>g n. anc g n = nth_loop (ht s) (par s) (exps s) (e g n) g (unat n)"
  shows "\<exists>a0 a1. level_blocks (ht s) anc h0 h1 = Inr (a0, a1, min k0 k1) \<and> a0 \<noteq> a1 \<and>
    same_ancestor anc a0 a1 (min k0 k1) = Inr False"
proof -
  obtain a0 a1 where lev: "level_blocks (ht s) anc h0 h1 = Inr (a0, a1, min k0 k1)"
    and a: "ht s a0 = Inr (min k0 k1)" "ht s a1 = Inr (min k0 k1)"
    and eq: "\<And>c. has_ancestor (ht s) (par s) h0 c \<and> has_ancestor (ht s) (par s) h1 c \<longleftrightarrow>
       has_ancestor (ht s) (par s) a0 c \<and> has_ancestor (ht s) (par s) a1 c"
    using level_exact [OF assms(1) k anc] by blast
  obtain x y where x: "walk (par s) (unat (min k0 k1)) a0 = Inr x" "walk (par s) (unat (min k0 k1)) a1 = Inr y"
    using walk_up [OF assms(1) a(1) order_refl] walk_up [OF assms(1) a(2) order_refl] by blast
  have "has_ancestor (ht s) (par s) a0 x" "has_ancestor (ht s) (par s) a1 y"
    using a x by (auto simp: has_ancestor_def)
  then have "x \<noteq> y" "a0 \<noteq> a1" using eq common by blast+
  moreover have "same_ancestor anc a0 a1 (min k0 k1) = Inr (x = y)"
    using ancestor_exact [OF assms(1) a(1)] ancestor_exact [OF assms(1) a(2)] x by (simp add: same_ancestor_def anc)
  ultimately show ?thesis using lev by simp
qed

end

lemma last_common_ancestor_exact:
  assumes "side_ok A" "fmlookup (block_hash_to_height A) h0 = Some k0" "fmlookup (block_hash_to_height A) h1 = Some k1"
    and small: "unat (min k0 k1) < 2 ^ 31"
  shows "\<exists>r. last_common_ancestor A h0 h1 = Some (Inr r) \<and>
    (case r of Some c \<Rightarrow> last_common (ar_get_height A) (side_parent A) h0 h1 c
     | None \<Rightarrow> \<not> (\<exists>b. has_ancestor (ar_get_height A) (side_parent A) h0 b \<and> has_ancestor (ar_get_height A) (side_parent A) h1 b))"
proof (cases "\<exists>b. has_ancestor (ar_get_height A) (side_parent A) h0 b \<and> has_ancestor (ar_get_height A) (side_parent A) h1 b")
  case True
  then obtain b where b: "has_ancestor (ar_get_height A) (side_parent A) h0 b" "has_ancestor (ar_get_height A) (side_parent A) h1 b"
    by blast
  then obtain a0 a1 c where "level_blocks (ar_get_height A) (get_nth_ancestor A) h0 h1 = Inr (a0, a1, min k0 k1)"
    "last_common (ar_get_height A) (side_parent A) h0 h1 c"
    "a0 = a1 \<and> c = a0 \<or> a0 \<noteq> a1 \<and> same_ancestor (get_nth_ancestor A) a0 a1 (min k0 k1) = Inr True \<and>
       search_ancestor (get_nth_ancestor A) a0 a1 (min k0 k1) = Some (Inr c)"
    using side.common_exact [OF assms(1) _ _ small b get_nth_ancestor_def] assms(2,3) by auto
  then show ?thesis by (auto simp: last_common_ancestor_def)
next
  case False
  then obtain a0 a1 where "level_blocks (ar_get_height A) (get_nth_ancestor A) h0 h1 = Inr (a0, a1, min k0 k1)" "a0 \<noteq> a1"
    "same_ancestor (get_nth_ancestor A) a0 a1 (min k0 k1) = Inr False"
    using side.no_common_exact [OF assms(1) _ _ False get_nth_ancestor_def, of k0 k1] assms(2,3) by auto
  then show ?thesis using False by (auto simp: last_common_ancestor_def)
qed

lemma last_common_main_exact:
  assumes "main_ok A" "fmlookup (main_block_hash_to_height A) m0 = Some k0" "fmlookup (main_block_hash_to_height A) m1 = Some k1"
    and small: "unat (min k0 k1) < 2 ^ 31"
    and b: "has_ancestor (get_main_height A) (main_parent A) m0 b" "has_ancestor (get_main_height A) (main_parent A) m1 b"
  shows "\<exists>c. last_common_main_ancestor A m0 m1 = Some (Inr c) \<and> last_common (get_main_height A) (main_parent A) m0 m1 c"
proof -
  obtain a0 a1 c where "level_blocks (get_main_height A) (get_nth_main_ancestor A) m0 m1 = Inr (a0, a1, min k0 k1)"
    "last_common (get_main_height A) (main_parent A) m0 m1 c"
    "a0 = a1 \<and> c = a0 \<or> a0 \<noteq> a1 \<and> same_ancestor (get_nth_main_ancestor A) a0 a1 (min k0 k1) = Inr True \<and>
       search_ancestor (get_nth_main_ancestor A) a0 a1 (min k0 k1) = Some (Inr c)"
    using mainc.common_exact [OF assms(1) _ _ small b get_nth_main_ancestor_def] assms(2,3) by auto
  then show ?thesis by (auto simp: last_common_main_ancestor_def)
qed

section \<open>Comparing tips\<close>

text \<open>Every stored header builds on a known mainchain block.\<close>

definition anchored :: "'acc Archive \<Rightarrow> bool" where
  "anchored A \<longleftrightarrow>
     (\<forall>h hdr. fmlookup (ar_headers A) h = Some hdr \<longrightarrow> fmlookup (main_block_hash_to_height A) (prev_main_hash hdr) \<noteq> None)"

lemma main_desc_exact:
  assumes "main_ok A" "fmlookup (main_block_hash_to_height A) a = Some i" "fmlookup (main_block_hash_to_height A) d = Some k"
  shows "is_main_descendant A a d = Inr (has_ancestor (get_main_height A) (main_parent A) d a)"
proof (cases "a = d")
  case True
  then show ?thesis using assms(3) mainc.above_self [of A d k] by (simp add: is_main_descendant_def)
next
  case False
  have "get_main_height A d = Inr k" "get_main_height A a = Inr i" using assms by simp_all
  with mainc.descends_exact [OF assms(1) this, of "ArNoMainAncestor d (k - i)"] False
  show ?thesis by (simp only: is_main_descendant_def get_nth_main_ancestor_def and_then_Inr if_False)
qed

lemma side_desc_exact:
  assumes "side_ok A" "fmlookup (block_hash_to_height A) a = Some i" "fmlookup (block_hash_to_height A) d = Some k"
  shows "is_descendant A a d = Inr (has_ancestor (ar_get_height A) (side_parent A) d a)"
proof (cases "a = d")
  case True
  then show ?thesis using assms(3) side.above_self [of A d k] by (simp add: is_descendant_def)
next
  case False
  have "ar_get_height A d = Inr k" "ar_get_height A a = Inr i" using assms by simp_all
  with side.descends_exact [OF assms(1) this, of "ArNoAncestor d (k - i)"] False
  show ?thesis by (simp only: is_descendant_def get_nth_ancestor_def and_then_Inr if_False)
qed

lemma before_fork_exact:
  assumes "main_ok A" "anchored A" "fmlookup (main_block_hash_to_height A) c = Some i" "fmlookup (ar_headers A) h = Some hdr"
  shows "before_fork A c h = Inr (if prev_main_hash hdr \<noteq> c \<and> has_ancestor (get_main_height A) (main_parent A) c (prev_main_hash hdr)
    then Some hdr else None)"
proof -
  obtain j where "fmlookup (main_block_hash_to_height A) (prev_main_hash hdr) = Some j"
    using assms(2,4) by (auto simp: anchored_def)
  from main_desc_exact [OF assms(1) this assms(3)] assms(4) show ?thesis by (auto simp: before_fork_def get_header_def)
qed

lemma height_before_fork_returns:
  assumes "side_ok A" "main_ok A" "anchored A" "fmlookup (main_block_hash_to_height A) c = Some i"
    "fmlookup (block_hash_to_height A) h = Some k"
  shows "\<exists>r. height_before_fork A c h = Inr r"
proof -
  obtain hdr where hdr: "fmlookup (ar_headers A) h = Some hdr" using side_known [OF assms(1,5)] by blast
  show ?thesis using before_fork_exact [OF assms(2-4) hdr] assms(5) by (simp add: height_before_fork_def ar_get_height_def)
qed

lemma work_before_fork_returns:
  assumes "side_ok A" "main_ok A" "anchored A" and c: "fmlookup (main_block_hash_to_height A) c = Some i"
    and k: "fmlookup (block_hash_to_height A) h = Some k"
  shows "\<exists>r. work_before_fork A c i h = Inr r"
proof -
  obtain hdr where hdr: "fmlookup (ar_headers A) h = Some hdr" using side_known [OF assms(1) k] by blast
  obtain j where j: "fmlookup (main_block_hash_to_height A) (prev_main_hash hdr) = Some j"
    using assms(3) hdr by (auto simp: anchored_def)
  show ?thesis
  proof (cases "prev_main_hash hdr \<noteq> c \<and> has_ancestor (get_main_height A) (main_parent A) c (prev_main_hash hdr)")
    case True
    have cj: "get_main_height A c = Inr i" "get_main_height A (prev_main_hash hdr) = Inr j" using c j by simp_all
    have n: "unat (i - (j + 1)) \<le> unat i"
    proof -
      have "j \<le> i" "j \<noteq> i" using mainc.above_height [OF assms(2) cj] True by auto
      then have "j + 1 \<le> i" by (simp add: inc_le less_le)
      then show ?thesis by (simp add: unat_sub)
    qed
    obtain m l where m: "walk (main_parent A) (unat (i - (j + 1))) c = Inr m" "fmlookup (main_block_hash_to_height A) m = Some l"
      using mainc.walk_up [OF assms(2) cj(1) n] by auto
    obtain w where "fmlookup (total_work A) m = Some w"
      using assms(2) m(2) by (cases "fmlookup (total_work A) m") (auto simp: main_ok_def)
    then show ?thesis
      using before_fork_exact [OF assms(2,3) c hdr] True k j m n mainc.ancestor_exact [OF assms(2) cj(1)]
      by (simp add: work_before_fork_def get_total_work_def get_nth_main_ancestor_def ar_get_height_def get_main_height_def)
  next
    case False
    then show ?thesis using before_fork_exact [OF assms(2,3) c hdr] by (auto simp: work_before_fork_def)
  qed
qed

lemma search_returns:
  assumes "side_ok A" "fmlookup (block_hash_to_height A) h = Some k"
    and "\<And>g j. fmlookup (block_hash_to_height A) g = Some j \<Longrightarrow> \<exists>r. f g = Inr r"
  shows "\<exists>r. find_ancestor A f (Some h) = Some (Inr r)"
proof -
  have "\<exists>r. f g = Inr r" if "g \<in> set (lineage A (unat k) h)" for g
    using that lineage_ancestors [OF assms(1,2)] side.above_known [OF assms(1), of h g] assms(3) by auto
  then obtain r where "first_hit f (lineage A (unat k) h) = Inr r" using first_hit_returns by blast
  then show ?thesis using find_ancestor_exact [OF assms(1,2), of f] by simp
qed

text \<open>
  Two tips that can be compared: both blocks and both mainchain blocks are known, and the mainchain
  blocks have a common ancestor.
\<close>

definition comparable :: "'acc Archive \<Rightarrow> Tip \<Rightarrow> Tip \<Rightarrow> bool" where
  "comparable A t0 t1 \<longleftrightarrow> side_ok A \<and> main_ok A \<and> anchored A \<and>
     (\<forall>t \<in> {t0, t1}. fmlookup (block_hash_to_height A) (tip_block_hash t) \<noteq> None \<and>
        (\<exists>k. fmlookup (main_block_hash_to_height A) (tip_main_block_hash t) = Some k \<and> unat k < 2 ^ 31)) \<and>
     (\<exists>b. \<forall>t \<in> {t0, t1}. has_ancestor (get_main_height A) (main_parent A) (tip_main_block_hash t) b)"

lemma comparable_sym: "comparable A t0 t1 \<Longrightarrow> comparable A t1 t0"
  by (auto simp: comparable_def)

lemma comparable_fork:
  assumes "comparable A t0 t1"
  obtains c i where "last_common_main_ancestor A (tip_main_block_hash t0) (tip_main_block_hash t1) = Some (Inr c)"
    "last_common_main_ancestor A (tip_main_block_hash t1) (tip_main_block_hash t0) = Some (Inr c)"
    "fmlookup (main_block_hash_to_height A) c = Some i"
proof -
  let ?m0 = "tip_main_block_hash t0" and ?m1 = "tip_main_block_hash t1"
  obtain k0 k1 b where ok: "main_ok A" and k: "fmlookup (main_block_hash_to_height A) ?m0 = Some k0" "unat k0 < 2 ^ 31"
      "fmlookup (main_block_hash_to_height A) ?m1 = Some k1" "unat k1 < 2 ^ 31"
    and b: "has_ancestor (get_main_height A) (main_parent A) ?m0 b" "has_ancestor (get_main_height A) (main_parent A) ?m1 b"
    using assms by (auto simp: comparable_def)
  have small: "unat (min k0 k1) < 2 ^ 31" "unat (min k1 k0) < 2 ^ 31" using k by (auto simp: min_def)
  obtain c where c: "last_common_main_ancestor A ?m0 ?m1 = Some (Inr c)" "last_common (get_main_height A) (main_parent A) ?m0 ?m1 c"
    using last_common_main_exact [OF ok k(1,3) small(1) b] by blast
  obtain d where d: "last_common_main_ancestor A ?m1 ?m0 = Some (Inr d)" "last_common (get_main_height A) (main_parent A) ?m1 ?m0 d"
    using last_common_main_exact [OF ok k(3,1) small(2) b(2,1)] by blast
  have "last_common (get_main_height A) (main_parent A) ?m0 ?m1 d" using d(2) by (auto simp: last_common_def)
  then have "c = d" using mainc.last_common_unique [OF ok c(2)] by blast
  moreover obtain i where "fmlookup (main_block_hash_to_height A) c = Some i"
    using mainc.above_known [OF ok, of ?m0 c] c(2) by (auto simp: last_common_def)
  ultimately show ?thesis using that c(1) d(1) by blast
qed

lemma comparable_searches:
  assumes "comparable A t0 t1" "fmlookup (main_block_hash_to_height A) c = Some i" "t \<in> {t0, t1}"
  obtains r w where "find_ancestor A (height_before_fork A c) (Some (tip_block_hash t)) = Some (Inr r)"
    "find_ancestor A (work_before_fork A c i) (Some (tip_block_hash t)) = Some (Inr w)"
proof -
  have ok: "side_ok A" "main_ok A" "anchored A" using assms(1) by (simp_all add: comparable_def)
  obtain k where k: "fmlookup (block_hash_to_height A) (tip_block_hash t) = Some k"
    using assms(1,3) by (auto simp: comparable_def)
  have "\<exists>r. find_ancestor A (height_before_fork A c) (Some (tip_block_hash t)) = Some (Inr r)"
    by (rule search_returns [OF ok(1) k]) (rule height_before_fork_returns [OF ok assms(2)])
  moreover have "\<exists>w. find_ancestor A (work_before_fork A c i) (Some (tip_block_hash t)) = Some (Inr w)"
    by (rule search_returns [OF ok(1) k]) (rule work_before_fork_returns [OF ok assms(2)])
  ultimately show ?thesis using that by blast
qed

lemma comparable_values:
  assumes "comparable A t0 t1" "t \<in> {t0, t1}"
  obtains k w where "ar_get_height A (tip_block_hash t) = Inr k" "get_total_work A (tip_main_block_hash t) = Inr w"
proof -
  obtain k m where k: "fmlookup (block_hash_to_height A) (tip_block_hash t) = Some k"
      "fmlookup (main_block_hash_to_height A) (tip_main_block_hash t) = Some m"
    using assms by (auto simp: comparable_def)
  moreover obtain w where "fmlookup (total_work A) (tip_main_block_hash t) = Some w"
    using assms(1) k(2) by (cases "fmlookup (total_work A) (tip_main_block_hash t)") (auto simp: comparable_def main_ok_def)
  ultimately show ?thesis using that by (simp add: ar_get_height_def get_total_work_def)
qed

lemma comparable_lineage:
  assumes "comparable A t0 t1"
  obtains b where "shared_mainchain_lineage A (tip_main_block_hash t0) (tip_main_block_hash t1) = Inr b"
    "shared_mainchain_lineage A (tip_main_block_hash t1) (tip_main_block_hash t0) = Inr b"
proof -
  let ?m0 = "tip_main_block_hash t0" and ?m1 = "tip_main_block_hash t1"
  obtain k0 k1 where ok: "main_ok A" and k: "get_main_height A ?m0 = Inr k0" "get_main_height A ?m1 = Inr k1"
    using assms by (auto simp: comparable_def)
  have swap: "level_blocks (get_main_height A) (get_nth_main_ancestor A) ?m1 ?m0 =
      and_then (level_blocks (get_main_height A) (get_nth_main_ancestor A) ?m0 ?m1) (\<lambda>(a, b, k). Inr (b, a, k))"
    unfolding level_blocks_def k and_then_Inr by (cases k0 k1 rule: linorder_cases) (auto simp: and_then_assoc)
  obtain a0 a1 where "level_blocks (get_main_height A) (get_nth_main_ancestor A) ?m0 ?m1 = Inr (a0, a1, min k0 k1)"
    using mainc.level_exact [OF ok k get_nth_main_ancestor_def] by blast
  then show ?thesis using swap that [of "a0 = a1"] by (auto simp: shared_mainchain_lineage_def)
qed

theorem better_tip_ends:
  assumes "comparable A t0 t1"
  shows "\<exists>r. better_tip A t0 t1 = Some (Inr r) \<and> r \<in> {None, Some t0, Some t1}"
proof -
  obtain k0 w0 where v0: "ar_get_height A (tip_block_hash t0) = Inr k0" "get_total_work A (tip_main_block_hash t0) = Inr w0"
    using comparable_values [OF assms, of t0] by auto
  obtain k1 w1 where v1: "ar_get_height A (tip_block_hash t1) = Inr k1" "get_total_work A (tip_main_block_hash t1) = Inr w1"
    using comparable_values [OF assms, of t1] by auto
  obtain c i where c: "last_common_main_ancestor A (tip_main_block_hash t0) (tip_main_block_hash t1) = Some (Inr c)"
    "fmlookup (main_block_hash_to_height A) c = Some i" using comparable_fork [OF assms] by metis
  then have i: "get_main_height A c = Inr i" by simp
  obtain r0 u0 where s0: "find_ancestor A (height_before_fork A c) (Some (tip_block_hash t0)) = Some (Inr r0)"
    "find_ancestor A (work_before_fork A c i) (Some (tip_block_hash t0)) = Some (Inr u0)"
    using comparable_searches [OF assms c(2), of t0] by auto
  obtain r1 u1 where s1: "find_ancestor A (height_before_fork A c) (Some (tip_block_hash t1)) = Some (Inr r1)"
    "find_ancestor A (work_before_fork A c i) (Some (tip_block_hash t1)) = Some (Inr u1)"
    using comparable_searches [OF assms c(2), of t1] by auto
  obtain b where b: "shared_mainchain_lineage A (tip_main_block_hash t0) (tip_main_block_hash t1) = Inr b"
    using comparable_lineage [OF assms] by metis
  have "\<exists>r. better_equal_tip A t0 t1 = Some (Inr r) \<and> r \<in> {None, Some t0, Some t1}"
    by (simp add: better_equal_tip_def c(1) i s0 s1 Let_def)
  then show ?thesis by (simp add: better_tip_def v0 v1 c(1) i s0 s1 b)
qed

text \<open>Unless both heights and both works are the same, the order of the tips does not matter.\<close>

theorem better_tip_swap:
  assumes "comparable A t0 t1"
    and "ar_get_height A (tip_block_hash t0) \<noteq> ar_get_height A (tip_block_hash t1) \<or>
      get_total_work A (tip_main_block_hash t0) \<noteq> get_total_work A (tip_main_block_hash t1)"
  shows "better_tip A t0 t1 = better_tip A t1 t0"
proof -
  obtain k0 w0 where v0: "ar_get_height A (tip_block_hash t0) = Inr k0" "get_total_work A (tip_main_block_hash t0) = Inr w0"
    using comparable_values [OF assms(1), of t0] by auto
  obtain k1 w1 where v1: "ar_get_height A (tip_block_hash t1) = Inr k1" "get_total_work A (tip_main_block_hash t1) = Inr w1"
    using comparable_values [OF assms(1), of t1] by auto
  obtain c i where c: "last_common_main_ancestor A (tip_main_block_hash t0) (tip_main_block_hash t1) = Some (Inr c)"
    "last_common_main_ancestor A (tip_main_block_hash t1) (tip_main_block_hash t0) = Some (Inr c)"
    "fmlookup (main_block_hash_to_height A) c = Some i" using comparable_fork [OF assms(1)] by metis
  obtain r0 where s0: "find_ancestor A (height_before_fork A c) (Some (tip_block_hash t0)) = Some (Inr r0)"
    using comparable_searches [OF assms(1) c(3), of t0] by auto
  obtain r1 where s1: "find_ancestor A (height_before_fork A c) (Some (tip_block_hash t1)) = Some (Inr r1)"
    using comparable_searches [OF assms(1) c(3), of t1] by auto
  obtain b where b: "shared_mainchain_lineage A (tip_main_block_hash t0) (tip_main_block_hash t1) = Inr b"
    "shared_mainchain_lineage A (tip_main_block_hash t1) (tip_main_block_hash t0) = Inr b"
    using comparable_lineage [OF assms(1)] by metis
  have ne: "t0 \<noteq> t1" "k0 \<noteq> k1 \<or> w0 \<noteq> w1" using assms(2) v0 v1 by auto
  show ?thesis
    unfolding better_tip_def v0 v1 opt_then_simps c(1,2) s0 s1 b
    using ne by (cases k0 k1 rule: linorder_cases; cases w0 w1 rule: linorder_cases) (auto simp: not_less)
qed

end
