(* ===== verification/Archive_Machine.thy ===== *)
theory Archive_Machine
  imports Archive_Compare
begin

text \<open>
  The archive as a state machine: every archive that is reached by its operations from a new one is
  well formed. The operations on the mainchain leave the tables of the sidechain alone and the other
  way round.
\<close>

section \<open>What an operation leaves alone\<close>

definition side_tables ::
  "'acc Archive \<Rightarrow> (BlockHash, u32) db \<times> (BlockHash, Header) db \<times> (BlockHash, BlockHash list) db \<times> (BlockHash option, BlockHash fset) db" where
  "side_tables A = (block_hash_to_height A, ar_headers A, exponential_ancestors A, ar_successors A)"

definition main_tables ::
  "'acc Archive \<Rightarrow> (hash256, u32) db \<times> (hash256, BlockHeaderInfo) db \<times> (hash256, hash256 list) db \<times> (hash256, Work) db" where
  "main_tables A = (main_block_hash_to_height A, main_header_infos A, exponential_main_ancestors A, total_work A)"

lemmas tables_defs = side_tables_def main_tables_def

definition side_good :: "'acc Archive \<Rightarrow> bool" where
  "side_good A \<longleftrightarrow> side_ok A \<and> succ_ok A"

lemma side_good_cong:
  assumes "side_tables A' = side_tables A"
  shows "side_good A' = side_good A"
proof -
  have "ar_get_height A' = ar_get_height A" "side_parent A' = side_parent A" "side_exponentials A' = side_exponentials A"
    using assms by (auto simp: fun_eq_iff tables_defs ar_get_height_def side_parent_def get_header_def side_exponentials_def)
  with assms show ?thesis by (simp add: side_good_def side_ok_def succ_ok_def tables_defs)
qed

lemma main_ok_cong:
  assumes "main_tables A' = main_tables A"
  shows "main_ok A' = main_ok A"
proof -
  have "get_main_height A' = get_main_height A" "main_parent A' = main_parent A" "main_exponentials A' = main_exponentials A"
    using assms by (auto simp: fun_eq_iff tables_defs get_main_height_def main_parent_def get_main_header_info_def main_exponentials_def)
  with assms show ?thesis by (simp add: main_ok_def tables_defs)
qed

lemma put_header_main:
  assumes "put_header X ord hdr A = Inr A'"
  shows "main_tables A' = main_tables A"
  using assms
  by (auto simp: put_header_def Let_def res_simps tables_defs dest!: put_successor_frame put_bmm_frame)

lemma put_main_header_side:
  assumes "put_main_header_info hi A = Inr A'"
  shows "side_tables A' = side_tables A"
  using assms
  by (auto simp: put_main_header_info_def Let_def res_simps tables_defs split: if_splits dest!: put_main_successor_frame)

lemma put_main_info_frame:
  assumes "put_main_block_info ord m info A = Inr A'"
  shows "side_tables A' = side_tables A \<and> main_tables A' = main_tables A"
proof (cases "bmm_commitment info")
  case None
  then show ?thesis using assms by (auto simp: put_main_block_info_def Let_def res_simps tables_defs)
next
  case (Some c)
  then show ?thesis
    using assms by (cases "fmlookup (ar_headers A) c") (auto simp: put_main_block_info_def Let_def res_simps tables_defs)
qed

lemma invalidate_one_main: "main_tables (invalidate_one h A) = main_tables A"
  by (simp add: invalidate_one_def drop_successor_def tables_defs Let_def split: option.splits)

lemma main_tables_successors [simp]: "main_tables (A\<lparr>ar_successors := m\<rparr>) = main_tables A"
  by (simp add: tables_defs)

lemma invalidate_main: "main_tables (invalidate_loop ord stack A) = main_tables A"
proof (induction ord stack A rule: invalidate_loop.induct)
  case (2 ord h stack A)
  then show ?case using invalidate_one_main [of h A] by (simp add: Let_def split: option.splits)
qed simp

lemma try_fold_keeps:
  assumes "try_fold f xs s = Inr s'" and "\<And>x s s'. f x s = Inr s' \<Longrightarrow> g s' = g s"
  shows "g s' = g s"
  using assms(1) by (induction xs arbitrary: s) (auto simp: res_simps dest: assms(2))

lemma try_fold_trans:
  assumes "try_fold f xs s = Inr s'" and "\<And>x s s'. f x s = Inr s' \<Longrightarrow> R s s'"
    and "\<And>s. R s s" "\<And>a b c. R a b \<Longrightarrow> R b c \<Longrightarrow> R a c"
  shows "R s s'"
  using assms(1) by (induction xs arbitrary: s) (auto simp: res_simps assms(3) dest: assms(2) intro: assms(4))

lemma ar_side_frame: "ar_side r A = Inr A' \<Longrightarrow> \<exists>st. A' = A\<lparr>ar_side_tips := st\<rparr>"
  by (auto simp: ar_side_def split: sum.splits)

text \<open>Two archives that differ at most in their sidechain tips.\<close>

definition same_tables :: "'acc Archive \<Rightarrow> 'acc Archive \<Rightarrow> bool" where
  "same_tables A A' \<longleftrightarrow> (\<exists>st. A' = A\<lparr>ar_side_tips := st\<rparr>)"

lemma same_tables_refl [simp]: "same_tables A A"
  unfolding same_tables_def by (rule exI [of _ "ar_side_tips A"]) simp

lemma same_tables_update [simp]: "same_tables A (A\<lparr>ar_side_tips := st\<rparr>)"
  by (auto simp: same_tables_def)

lemma same_tables_trans: "same_tables A B \<Longrightarrow> same_tables B C \<Longrightarrow> same_tables A C"
  by (auto simp: same_tables_def)

lemma same_tablesD:
  assumes "same_tables A A'"
  shows "side_tables A' = side_tables A" "main_tables A' = main_tables A" "ar_bodies A' = ar_bodies A"
    "ar_accumulators A' = ar_accumulators A" "main_block_infos A' = main_block_infos A"
  using assms by (auto simp: same_tables_def tables_defs)

lemma update_side_tips_frame:
  assumes "update_side_tips ord h hdr A = Inr (new, A')"
  shows "same_tables A A'"
proof -
  have step: "same_tables (snd s) (snd s')" if "connect_verification h hdr m s = Inr s'" for m s s'
    using that
    by (cases s) (auto simp: connect_verification_def res_simps split: if_splits dest!: ar_side_frame)
  obtain c where "try_fold (connect_verification h hdr) (verified_in ord A h) (False, A) = Inr (c, A')"
    using assms by (auto simp: update_side_tips_def res_simps split: if_splits)
  from try_fold_trans [OF this, of "\<lambda>s s'. same_tables (snd s) (snd s')"] step show ?thesis
    by (auto intro: same_tables_trans)
qed

lemma tips_loop_frame:
  assumes "tips_loop ord q A = Some r"
  shows "r = Inr A' \<Longrightarrow> same_tables A A'"
proof (induction arbitrary: A' rule: tips_loop.raw_induct [OF _ assms, case_names round])
  case (round loop ord q A r)
  show ?case
  proof (cases q)
    case (Cons h q')
    then obtain new A1 where step: "tips_step ord h A = Inr (new, A1)" and rest: "loop ord (q' @ new) A1 = Some r"
      using round(2,3) by (cases "tips_step ord h A") auto
    have "same_tables A A1"
      using step by (auto simp: tips_step_def res_simps split: if_splits dest: update_side_tips_frame)
    with round(1) [OF rest round(3)] show ?thesis by (blast intro: same_tables_trans)
  qed (use round(2,3) in \<open>auto\<close>)
qed

lemma put_body_tables:
  assumes "put_body ord h body A = Some (Inr A')"
  shows "same_tables (A\<lparr>ar_bodies := fmupd h body (ar_bodies A)\<rparr>) A'"
proof -
  obtain hdr q A1 where u: "update_side_tips ord h hdr (A\<lparr>ar_bodies := fmupd h body (ar_bodies A)\<rparr>) = Inr (q, A1)"
    and "tips_loop ord q A1 = Some (Inr A')"
    using assms by (auto simp: put_body_def res_simps split: sum.splits)
  then show ?thesis using update_side_tips_frame [OF u] tips_loop_frame [OF _ refl] by (blast intro: same_tables_trans)
qed

lemma put_body_frame:
  assumes "put_body ord h body A = Some (Inr A')"
  shows "side_tables A' = side_tables A \<and> main_tables A' = main_tables A"
  using same_tablesD [OF put_body_tables [OF assms]] by (simp add: tables_defs)

lemma discard_frame: "discard_loop ord q A = Inr A' \<Longrightarrow> same_tables A A'"
proof (induction ord q A rule: discard_loop.induct)
  case (2 ord h q A)
  show ?case
  proof (cases "db_has (sidechain_tips (ar_side_tips A)) h")
    case True
    let ?A1 = "A\<lparr>ar_side_tips := disconnect_sidechain_tip h (ar_side_tips A)\<rparr>"
    obtain S where "get_successors ?A1 (Some h) = Inr S" "discard_loop ord (q @ ord S) ?A1 = Inr A'"
      using 2(3) True by (auto simp: Let_def res_simps)
    with 2(1) [OF True refl, of S] show ?thesis by (auto intro: same_tables_trans [of _ ?A1])
  qed (use 2 in simp)
qed simp

lemma delete_body_tables:
  assumes "delete_body ord h A = Inr A'"
  shows "same_tables (A\<lparr>ar_bodies := fmdrop h (ar_bodies A)\<rparr>) A'"
  using discard_frame [OF assms [unfolded delete_body_def]] .

lemma delete_body_frame:
  assumes "delete_body ord h A = Inr A'"
  shows "side_tables A' = side_tables A \<and> main_tables A' = main_tables A"
  using same_tablesD [OF delete_body_tables [OF assms]] by (simp add: tables_defs)

section \<open>Reachable archives\<close>

text \<open>
  The operations that change an archive. A header that is stored twice is the same header (block
  hashes do not collide), and heights stay below the largest \<^verbatim>\<open>u32\<close>.
\<close>

inductive archive_step :: "'acc ext \<Rightarrow> (hash256 fset \<Rightarrow> hash256 list) \<Rightarrow> 'acc Archive \<Rightarrow> 'acc Archive \<Rightarrow> bool" for X ord where
  header: "put_header X ord hdr A = Inr A' \<Longrightarrow> fmlookup (ar_headers A) (header_hash X hdr) \<in> {None, Some hdr} \<Longrightarrow>
    (\<forall>p. prev_side_hash hdr = Some p \<longrightarrow> fmlookup (block_hash_to_height A) p \<noteq> Some (- 1)) \<Longrightarrow> archive_step X ord A A'"
| main_header: "put_main_header_info hi A = Inr A' \<Longrightarrow> fmlookup (main_header_infos A) (bhi_block_hash hi) \<in> {None, Some hi} \<Longrightarrow>
    fmlookup (main_block_hash_to_height A) (bhi_prev_block_hash hi) \<noteq> Some (- 1) \<Longrightarrow> archive_step X ord A A'"
| main_info: "put_main_block_info ord m info A = Inr A' \<Longrightarrow> archive_step X ord A A'"
| accumulator: "archive_step X ord A (put_accumulator h acc A)"
| body: "put_body ord h b A = Some (Inr A') \<Longrightarrow> archive_step X ord A A'"
| discard: "delete_body ord h A = Inr A' \<Longrightarrow> archive_step X ord A A'"
| invalidate: "archive_step X ord A (invalidate_block ord h A)"

inductive archive_reach :: "'acc ext \<Rightarrow> (hash256 fset \<Rightarrow> hash256 list) \<Rightarrow> 'acc Archive \<Rightarrow> bool" for X ord where
  new: "archive_reach X ord Archive_new"
| step: "archive_reach X ord A \<Longrightarrow> archive_step X ord A A' \<Longrightarrow> archive_reach X ord A'"

definition archive_ok :: "'acc Archive \<Rightarrow> bool" where
  "archive_ok A \<longleftrightarrow> side_ok A \<and> succ_ok A \<and> main_ok A"

lemma archive_okI: "side_good A \<Longrightarrow> main_ok A \<Longrightarrow> archive_ok A"
  by (simp add: archive_ok_def side_good_def)

lemma archive_ok_frame:
  "archive_ok A \<Longrightarrow> side_tables A' = side_tables A \<and> main_tables A' = main_tables A \<Longrightarrow> archive_ok A'"
  using side_good_cong [of A' A] main_ok_cong [of A' A] by (simp add: archive_ok_def side_good_def)

lemma step_keeps_ok:
  assumes "archive_step X ord A A'" "order_ok ord" "archive_ok A"
  shows "archive_ok A'"
  using assms
proof cases
  case (header hdr)
  have "side_ok A'" using header assms(3) side_ok_put_header [OF _ header(1) refl] by (simp add: archive_ok_def)
  moreover have "succ_ok A'" using header assms(3) put_header_succ_ok [OF _ _ header(1)] by (simp add: archive_ok_def)
  ultimately show ?thesis using main_ok_cong [OF put_header_main [OF header(1)]] assms(3) by (simp add: archive_ok_def)
next
  case (main_header hi)
  have "main_ok A'" using main_header assms(3) main_ok_put [OF _ main_header(1) refl] by (simp add: archive_ok_def)
  then show ?thesis
    using side_good_cong [OF put_main_header_side [OF main_header(1)]] assms(3) by (simp add: archive_ok_def side_good_def)
next
  case (main_info m info)
  show ?thesis by (rule archive_ok_frame [OF assms(3) put_main_info_frame [OF main_info]])
next
  case (accumulator h acc)
  show ?thesis by (rule archive_ok_frame [OF assms(3)]) (simp add: accumulator put_accumulator_def tables_defs)
next
  case (body h b)
  show ?thesis by (rule archive_ok_frame [OF assms(3) put_body_frame [OF body]])
next
  case (discard h)
  show ?thesis by (rule archive_ok_frame [OF assms(3) delete_body_frame [OF discard]])
next
  case (invalidate h)
  have "side_ok A'" using invalidate_side_ok [of A ord h] assms(2,3) by (simp add: invalidate archive_ok_def)
  moreover have "succ_ok A'"
    using invalidate_block_effect [OF assms(2), of A h] side_ok_parents [of A] assms(3) by (simp add: invalidate archive_ok_def)
  moreover have "main_ok A'"
    using main_ok_cong [of A' A] invalidate_main [of ord "[h]" A] assms(3) by (simp add: invalidate invalidate_block_def archive_ok_def del: invalidate_loop.simps)
  ultimately show ?thesis by (simp add: archive_ok_def)
qed

lemma reach_ok:
  assumes "archive_reach X ord A" "order_ok ord"
  shows "archive_ok A"
  using assms(1)
proof induction
  case new
  then show ?case by (simp add: archive_ok_def side_ok_new succ_ok_new main_ok_new)
next
  case (step A A')
  then show ?case using step_keeps_ok assms(2) by blast
qed

lemma reachD:
  assumes "archive_reach X ord A" "order_ok ord"
  shows "side_ok A" "succ_ok A" "main_ok A"
  using reach_ok [OF assms] by (simp_all add: archive_ok_def)

end
