(* ===== verification/Mempool.thy ===== *)
theory Mempool
  imports Swap_Validation
begin

text \<open>
  The mempool (\<^verbatim>\<open>src/lib/mempool.rs\<close>): transactions by their id, and for every output they spend the
  transaction that spends it. Deleting a transaction deletes its descendants, with a queue.
\<close>

section \<open>The tables and their operations\<close>

record MemPool =
  mp_transactions :: "(Txid, AuthorizedTransaction) db"
  mp_spent_utxos :: "(OutPoint, Txid) db"

datatype MemPoolError = MpUtxoDoubleSpent

definition MemPool_new :: MemPool where
  "MemPool_new = \<lparr>mp_transactions = fmempty, mp_spent_utxos = fmempty\<rparr>"

definition pool_spend :: "Txid \<Rightarrow> OutPoint \<Rightarrow> MemPool \<Rightarrow> MemPoolError + MemPool" where
  "pool_spend t op p =
     (if db_has (mp_spent_utxos p) op then Inl MpUtxoDoubleSpent
      else Inr (p\<lparr>mp_spent_utxos := fmupd op t (mp_spent_utxos p)\<rparr>))"

definition pool_put :: "'acc ext \<Rightarrow> AuthorizedTransaction \<Rightarrow> MemPool \<Rightarrow> MemPoolError + MemPool" where
  "pool_put X at p =
     (let t = txid X (auth_transaction at) in
      and_then (try_fold (pool_spend t) (map fst (inputs (auth_transaction at))) p) (\<lambda>p1.
      Inr (p1\<lparr>mp_transactions := fmupd t at (mp_transactions p1)\<rparr>)))"

text \<open>Removing one transaction, and the transactions that spend its outputs.\<close>

definition pool_remove :: "Txid \<Rightarrow> AuthorizedTransaction \<Rightarrow> MemPool \<Rightarrow> MemPool" where
  "pool_remove t at p =
     \<lparr>mp_transactions = fmdrop t (mp_transactions p),
      mp_spent_utxos = fold fmdrop (map fst (inputs (auth_transaction at))) (mp_spent_utxos p)\<rparr>"

definition pool_children :: "Txid \<Rightarrow> AuthorizedTransaction \<Rightarrow> MemPool \<Rightarrow> Txid list" where
  "pool_children t at p =
     List.map_filter (\<lambda>v. fmlookup (mp_spent_utxos p) (OpRegular t (word_of_nat v)))
       [0..<length (outputs (auth_transaction at))]"

text \<open>The queue of \<open>delete\<close>: the front is taken, children go to the back.\<close>

function delete_loop :: "Txid list \<Rightarrow> MemPool \<Rightarrow> MemPool" where
  "delete_loop [] p = p"
| "delete_loop (t # q) p =
     (case fmlookup (mp_transactions p) t of
        None \<Rightarrow> delete_loop q p
      | Some at \<Rightarrow> let p1 = pool_remove t at p in delete_loop (q @ pool_children t at p1) p1)"
  by pat_completeness auto

termination
  by (relation "measures [\<lambda>(q, p). fcard (fmdom (mp_transactions p)), \<lambda>(q, p). length q]")
    (use fcard_fmdrop in \<open>force simp: pool_remove_def simp del: fmdom_drop\<close>)+

definition pool_delete :: "Txid \<Rightarrow> MemPool \<Rightarrow> MemPool" where
  "pool_delete t p = delete_loop [t] p"

definition pool_take :: "nat \<Rightarrow> MemPool \<Rightarrow> AuthorizedTransaction list" where
  "pool_take n p = take n (map snd (db_iter (mp_transactions p)))"

definition pool_take_all :: "MemPool \<Rightarrow> AuthorizedTransaction list" where
  "pool_take_all p = map snd (db_iter (mp_transactions p))"

definition with_proof :: "UtreexoProof \<Rightarrow> AuthorizedTransaction \<Rightarrow> AuthorizedTransaction" where
  "with_proof pr at = at\<lparr>auth_transaction := (auth_transaction at)\<lparr>utreexo_proof := pr\<rparr>\<rparr>"

definition regenerate_one :: "'acc ext \<Rightarrow> 'acc \<Rightarrow> Txid \<Rightarrow> MemPool \<Rightarrow> MemPool" where
  "regenerate_one X acc t p =
     (case fmlookup (mp_transactions p) t of
        None \<Rightarrow> p
      | Some at \<Rightarrow>
          (case acc_prove X acc (map snd (inputs (auth_transaction at))) of
             Inr pr \<Rightarrow> p\<lparr>mp_transactions := fmupd t (with_proof pr at) (mp_transactions p)\<rparr>
           | Inl _ \<Rightarrow> pool_delete t p))"

definition regenerate_proofs :: "'acc ext \<Rightarrow> 'acc \<Rightarrow> MemPool \<Rightarrow> MemPool" where
  "regenerate_proofs X acc p = fold (regenerate_one X acc) (map fst (db_iter (mp_transactions p))) p"

section \<open>The invariant\<close>

text \<open>An output is recorded as spent by exactly the pooled transactions that have it as an input.\<close>

definition pool_inputs :: "AuthorizedTransaction \<Rightarrow> OutPoint set" where
  "pool_inputs at = fst ` set (inputs (auth_transaction at))"

definition pool_ok :: "MemPool \<Rightarrow> bool" where
  "pool_ok p \<longleftrightarrow>
     (\<forall>op t. fmlookup (mp_spent_utxos p) op = Some t \<longleftrightarrow>
        (\<exists>at. fmlookup (mp_transactions p) t = Some at \<and> op \<in> pool_inputs at))"

text \<open>A transaction and those that depend on it through the outputs they spend.\<close>

inductive_set descendants :: "MemPool \<Rightarrow> Txid \<Rightarrow> Txid set" for p t where
  self: "t \<in> descendants p t"
| child: "a \<in> descendants p t \<Longrightarrow> fmlookup (mp_transactions p) a = Some at \<Longrightarrow>
    v < length (outputs (auth_transaction at)) \<Longrightarrow>
    fmlookup (mp_spent_utxos p) (OpRegular a (word_of_nat v)) = Some c \<Longrightarrow> c \<in> descendants p t"

lemma pool_ok_new: "pool_ok MemPool_new"
  by (simp add: pool_ok_def MemPool_new_def)

lemma pool_okD:
  assumes "pool_ok p"
  shows "fmlookup (mp_spent_utxos p) op = Some t \<longleftrightarrow>
    (\<exists>at. fmlookup (mp_transactions p) t = Some at \<and> op \<in> pool_inputs at)"
  using assms by (simp add: pool_ok_def)

lemma pool_remove_lookup:
  "fmlookup (mp_transactions (pool_remove t at p)) u =
     (if u = t then None else fmlookup (mp_transactions p) u)"
  "fmlookup (mp_spent_utxos (pool_remove t at p)) op =
     (if op \<in> pool_inputs at then None else fmlookup (mp_spent_utxos p) op)"
  by (simp_all add: pool_remove_def lookup_fold_fmdrop pool_inputs_def)

lemma pool_remove_ok:
  assumes ok: "pool_ok p" and at: "fmlookup (mp_transactions p) t = Some at"
  shows "pool_ok (pool_remove t at p)"
proof -
  have own: "op \<in> pool_inputs b \<Longrightarrow> op \<in> pool_inputs at \<Longrightarrow> u = t"
    if "fmlookup (mp_transactions p) u = Some b" for u b op
    using pool_okD [OF ok, of op u] pool_okD [OF ok, of op t] that at by auto
  show ?thesis
    unfolding pool_ok_def
  proof (intro allI)
    fix op u
    show "fmlookup (mp_spent_utxos (pool_remove t at p)) op = Some u \<longleftrightarrow>
        (\<exists>b. fmlookup (mp_transactions (pool_remove t at p)) u = Some b \<and> op \<in> pool_inputs b)"
      using own [of u _ op] pool_okD [OF ok, of op u] at by (auto simp: pool_remove_lookup)
  qed
qed

lemma set_pool_children:
  "c \<in> set (pool_children t at p) \<longleftrightarrow>
     (\<exists>v < length (outputs (auth_transaction at)).
        fmlookup (mp_spent_utxos p) (OpRegular t (word_of_nat v)) = Some c)"
  by (auto simp: pool_children_def set_map_filter)

section \<open>Deletion\<close>

text \<open>
  What the loop keeps, for the pool \<open>p0\<close> and the transaction \<open>t0\<close> it started from: only descendants
  are queued and removed, and the children of what was removed are removed too or wait in the queue.
\<close>

definition deleting :: "MemPool \<Rightarrow> Txid \<Rightarrow> Txid list \<Rightarrow> MemPool \<Rightarrow> bool" where
  "deleting p0 t0 q p \<longleftrightarrow> pool_ok p \<and> set q \<subseteq> descendants p0 t0 \<and>
     (\<forall>u. fmlookup (mp_transactions p) u = fmlookup (mp_transactions p0) u \<or>
        fmlookup (mp_transactions p) u = None \<and> u \<in> descendants p0 t0) \<and>
     (t0 \<in> set q \<or> fmlookup (mp_transactions p) t0 = None) \<and>
     (\<forall>a at v c. fmlookup (mp_transactions p0) a = Some at \<longrightarrow> fmlookup (mp_transactions p) a = None \<longrightarrow>
        v < length (outputs (auth_transaction at)) \<longrightarrow>
        fmlookup (mp_spent_utxos p0) (OpRegular a (word_of_nat v)) = Some c \<longrightarrow>
        c \<in> set q \<or> fmlookup (mp_transactions p) c = None)"

lemma deleting_step:
  assumes d: "deleting p0 t0 (t # q) p" and ok0: "pool_ok p0"
    and at: "fmlookup (mp_transactions p) t = Some at"
  shows "deleting p0 t0 (q @ pool_children t at (pool_remove t at p)) (pool_remove t at p)"
proof -
  let ?p = "pool_remove t at p"
  have ok: "pool_ok p" and t: "t \<in> descendants p0 t0"
    and tx: "\<And>u. fmlookup (mp_transactions p) u = fmlookup (mp_transactions p0) u \<or>
      fmlookup (mp_transactions p) u = None \<and> u \<in> descendants p0 t0"
    using d by (auto simp: deleting_def)
  have kept: "c = t \<or> c \<in> set q \<or> fmlookup (mp_transactions p) c = None"
    if "fmlookup (mp_transactions p0) a = Some b" "fmlookup (mp_transactions p) a = None"
      "v < length (outputs (auth_transaction b))"
      "fmlookup (mp_spent_utxos p0) (OpRegular a (word_of_nat v)) = Some c" for a b v c
    using d that by (auto simp: deleting_def)
  have at0: "fmlookup (mp_transactions p0) t = Some at" using tx [of t] at by auto
  have sub: "fmlookup (mp_spent_utxos p0) op = Some c" if "fmlookup (mp_spent_utxos p) op = Some c" for op c
    using that tx [of c] by (auto simp: pool_okD [OF ok] pool_okD [OF ok0])
  have kids: "set (pool_children t at ?p) \<subseteq> descendants p0 t0"
    using descendants.child [OF t at0] sub by (auto simp: set_pool_children pool_remove_lookup split: if_splits)
  have queued: "c \<in> set (pool_children t at ?p) \<or> fmlookup (mp_transactions ?p) c = None"
    if v: "v < length (outputs (auth_transaction at))"
      and c: "fmlookup (mp_spent_utxos p0) (OpRegular t (word_of_nat v)) = Some c" for v c
  proof (cases "fmlookup (mp_transactions ?p) c")
    case (Some b)
    then have b: "fmlookup (mp_transactions p) c = Some b" "c \<noteq> t"
      by (auto simp: pool_remove_lookup split: if_splits)
    then have "fmlookup (mp_transactions p0) c = Some b" using tx [of c] by auto
    with c have "OpRegular t (word_of_nat v) \<in> pool_inputs b" by (auto simp: pool_okD [OF ok0])
    with Some have "fmlookup (mp_spent_utxos ?p) (OpRegular t (word_of_nat v)) = Some c"
      by (auto simp: pool_okD [OF pool_remove_ok [OF ok at]])
    with v show ?thesis by (auto simp: set_pool_children)
  qed simp
  show ?thesis
    unfolding deleting_def
  proof (intro conjI allI impI)
    show "pool_ok ?p" by (rule pool_remove_ok [OF ok at])
    show "set (q @ pool_children t at ?p) \<subseteq> descendants p0 t0" using d kids by (auto simp: deleting_def)
  next
    fix u
    show "fmlookup (mp_transactions ?p) u = fmlookup (mp_transactions p0) u \<or>
        fmlookup (mp_transactions ?p) u = None \<and> u \<in> descendants p0 t0"
      using tx [of u] t by (auto simp: pool_remove_lookup)
  next
    show "t0 \<in> set (q @ pool_children t at ?p) \<or> fmlookup (mp_transactions ?p) t0 = None"
      using d by (auto simp: deleting_def pool_remove_lookup)
  next
    fix a b v c
    assume "fmlookup (mp_transactions p0) a = Some b" "fmlookup (mp_transactions ?p) a = None"
      "v < length (outputs (auth_transaction b))"
      "fmlookup (mp_spent_utxos p0) (OpRegular a (word_of_nat v)) = Some c"
    then show "c \<in> set (q @ pool_children t at ?p) \<or> fmlookup (mp_transactions ?p) c = None"
      using at0 queued [of v c] kept [of a b v c]
      by (cases "a = t") (auto simp: pool_remove_lookup split: if_splits)
  qed
qed

lemma deleting_skip:
  "deleting p0 t0 (t # q) p \<Longrightarrow> fmlookup (mp_transactions p) t = None \<Longrightarrow> deleting p0 t0 q p"
  by (fastforce simp: deleting_def)

lemma delete_loop_done: "deleting p0 t0 q p \<Longrightarrow> pool_ok p0 \<Longrightarrow> deleting p0 t0 [] (delete_loop q p)"
proof (induction q p rule: delete_loop.induct)
  case (2 t q p)
  then show ?case
    by (cases "fmlookup (mp_transactions p) t") (auto simp: Let_def intro: deleting_skip deleting_step)
qed simp

lemma deleting_end:
  assumes "deleting p0 t0 [] p" "u \<in> descendants p0 t0" 
  shows "fmlookup (mp_transactions p) u = None"
  using assms(2)
proof induction
  case self
  then show ?case using assms(1) by (simp add: deleting_def)
next
  case (child a at v c)
  then show ?case using assms(1) by (auto simp: deleting_def)
qed

lemma pool_delete_effect:
  assumes "pool_ok p"
  shows "pool_ok (pool_delete t p) \<and>
    fmlookup (mp_transactions (pool_delete t p)) u =
      (if u \<in> descendants p t then None else fmlookup (mp_transactions p) u)"
proof -
  have "deleting p t [t] p" using assms by (auto simp: deleting_def intro: descendants.self)
  then have d: "deleting p t [] (pool_delete t p)"
    using assms unfolding pool_delete_def by (rule delete_loop_done)
  then show ?thesis using deleting_end [OF d] by (auto simp: deleting_def)
qed

section \<open>Insertion\<close>

lemma pool_spends:
  "try_fold (pool_spend t) ops p = Inr p' \<longleftrightarrow>
     distinct ops \<and> (\<forall>op \<in> set ops. fmlookup (mp_spent_utxos p) op = None) \<and>
     p' = p\<lparr>mp_spent_utxos := fold (\<lambda>op. fmupd op t) ops (mp_spent_utxos p)\<rparr>"
proof (induction ops arbitrary: p)
  case (Cons op ops)
  show ?case
    by (cases "fmlookup (mp_spent_utxos p) op")
      (auto simp: pool_spend_def [of t op] db_has_def Cons.IH)
qed auto

lemma pool_put_iff:
  "pool_put X at p = Inr p' \<longleftrightarrow>
     (let t = txid X (auth_transaction at); ops = map fst (inputs (auth_transaction at)) in
      distinct ops \<and> (\<forall>op \<in> set ops. fmlookup (mp_spent_utxos p) op = None) \<and>
      p' = \<lparr>mp_transactions = fmupd t at (mp_transactions p),
            mp_spent_utxos = fold (\<lambda>op. fmupd op t) ops (mp_spent_utxos p)\<rparr>)"
  by (cases p) (auto simp: pool_put_def Let_def res_simps pool_spends)

lemma pool_put_ok:
  assumes ok: "pool_ok p" and put: "pool_put X at p = Inr p'"
    and fresh: "fmlookup (mp_transactions p) (txid X (auth_transaction at)) = None"
  shows "pool_ok p'"
proof -
  let ?t = "txid X (auth_transaction at)"
  have p': "p' = \<lparr>mp_transactions = fmupd ?t at (mp_transactions p),
      mp_spent_utxos = fold (\<lambda>op. fmupd op ?t) (map fst (inputs (auth_transaction at))) (mp_spent_utxos p)\<rparr>"
    and new: "\<forall>op \<in> pool_inputs at. fmlookup (mp_spent_utxos p) op = None"
    using put by (auto simp: pool_put_iff Let_def pool_inputs_def)
  have "op \<notin> pool_inputs b" if "fmlookup (mp_transactions p) u = Some b" "op \<in> pool_inputs at" for u b op
    using new that by (metis ok option.distinct(1) pool_okD)
  then show ?thesis
    using fresh new unfolding p' pool_ok_def
    by (auto simp: lookup_fold_fmupd pool_okD [OF ok] pool_inputs_def)
qed

section \<open>Regeneration of proofs\<close>

lemma with_proof_simps [simp]:
  "pool_inputs (with_proof pr at) = pool_inputs at"
  "inputs (auth_transaction (with_proof pr at)) = inputs (auth_transaction at)"
  "outputs (auth_transaction (with_proof pr at)) = outputs (auth_transaction at)"
  by (simp_all add: with_proof_def pool_inputs_def)

text \<open>Two authorized transactions that differ at most in their proof.\<close>

definition alike :: "AuthorizedTransaction \<Rightarrow> AuthorizedTransaction \<Rightarrow> bool" where
  "alike at b \<longleftrightarrow> b = with_proof (utreexo_proof (auth_transaction b)) at"

lemma alike_refl [simp]: "alike at at"
  by (simp add: alike_def with_proof_def)

lemma alike_with_proof [simp]: "alike at (with_proof pr at)"
  by (simp add: alike_def with_proof_def)

lemma alikeD:
  assumes "alike at b"
  shows "pool_inputs b = pool_inputs at" "outputs (auth_transaction b) = outputs (auth_transaction at)"
  by (metis alike_def assms with_proof_simps(1), metis alike_def assms with_proof_simps(3))

text \<open>
  A pool that was thinned out: transactions only change their proofs or are gone, and with a
  transaction its children are gone.
\<close>

definition thinned :: "MemPool \<Rightarrow> MemPool \<Rightarrow> bool" where
  "thinned p0 p \<longleftrightarrow> pool_ok p0 \<and> pool_ok p \<and>
     (\<forall>u b. fmlookup (mp_transactions p) u = Some b \<longrightarrow>
        (\<exists>at. fmlookup (mp_transactions p0) u = Some at \<and> alike at b)) \<and>
     (\<forall>a at v c. fmlookup (mp_transactions p0) a = Some at \<longrightarrow> fmlookup (mp_transactions p) a = None \<longrightarrow>
        v < length (outputs (auth_transaction at)) \<longrightarrow>
        fmlookup (mp_spent_utxos p0) (OpRegular a (word_of_nat v)) = Some c \<longrightarrow>
        fmlookup (mp_transactions p) c = None)"

lemma thinned_tx:
  "thinned p0 p \<Longrightarrow> fmlookup (mp_transactions p) u = Some b \<Longrightarrow>
     \<exists>at. fmlookup (mp_transactions p0) u = Some at \<and> alike at b"
  by (simp add: thinned_def)

lemma thinned_refl: "pool_ok p \<Longrightarrow> thinned p p"
  by (auto simp: thinned_def)

lemma thinned_spent:
  assumes "thinned p0 p"
  shows "fmlookup (mp_spent_utxos p) op = Some c \<longleftrightarrow>
    fmlookup (mp_spent_utxos p0) op = Some c \<and> fmlookup (mp_transactions p) c \<noteq> None"
proof -
  have ok: "pool_ok p0" "pool_ok p" using assms by (simp_all add: thinned_def)
  show ?thesis
  proof (cases "fmlookup (mp_transactions p) c")
    case None
    then show ?thesis by (simp add: pool_okD [OF ok(2)])
  next
    case (Some b)
    then obtain at where "fmlookup (mp_transactions p0) c = Some at" "alike at b"
      using thinned_tx [OF assms] by blast
    with Some show ?thesis by (simp add: alikeD [of at b] pool_okD [OF ok(1)] pool_okD [OF ok(2)])
  qed
qed

lemma thinned_parent:
  assumes "thinned p0 p" "fmlookup (mp_transactions p0) a = Some at"
    and "v < length (outputs (auth_transaction at))"
    and "fmlookup (mp_spent_utxos p0) (OpRegular a (word_of_nat v)) = Some c"
    and "fmlookup (mp_transactions p) c \<noteq> None"
  shows "\<exists>b. fmlookup (mp_transactions p) a = Some b \<and> alike at b"
  using assms by (cases "fmlookup (mp_transactions p) a") (fastforce simp: thinned_def)+

lemma descendants_thinned:
  assumes "thinned p0 p" and "u = t \<or> fmlookup (mp_transactions p) u \<noteq> None"
  shows "u \<in> descendants p t \<longleftrightarrow> u \<in> descendants p0 t"
proof
  assume "u \<in> descendants p t"
  then show "u \<in> descendants p0 t"
  proof induction
    case (child a b v c)
    then obtain at where at: "fmlookup (mp_transactions p0) a = Some at" "alike at b"
      using thinned_tx [OF assms(1)] by blast
    moreover have "fmlookup (mp_spent_utxos p0) (OpRegular a (word_of_nat v)) = Some c"
      using child.hyps thinned_spent [OF assms(1)] by blast
    ultimately show ?case
      using child descendants.child [of a p0 t at v c] alikeD(2) [OF at(2)] by simp
  qed (rule descendants.self)
next
  assume "u \<in> descendants p0 t"
  then show "u \<in> descendants p t" using assms(2)
  proof induction
    case (child a at v c)
    show ?case
    proof (cases "c = t")
      case False
      with child.prems have c: "fmlookup (mp_transactions p) c \<noteq> None" by blast
      then obtain b where a: "fmlookup (mp_transactions p) a = Some b" "alike at b"
        using thinned_parent [OF assms(1) child.hyps(2-4)] by blast
      then have "a \<in> descendants p t" by (intro child.IH) simp
      moreover have "fmlookup (mp_spent_utxos p) (OpRegular a (word_of_nat v)) = Some c"
        using child.hyps(4) c by (simp add: thinned_spent [OF assms(1)])
      ultimately show ?thesis using a child.hyps(3) alikeD(2) [OF a(2)] by (simp add: descendants.child)
    qed (simp add: descendants.self)
  qed (rule descendants.self)
qed

definition provable :: "'acc ext \<Rightarrow> 'acc \<Rightarrow> AuthorizedTransaction \<Rightarrow> bool" where
  "provable X acc at \<longleftrightarrow> forest_prove X (map snd (inputs (auth_transaction at))) acc \<noteq> None"

definition reproved :: "'acc ext \<Rightarrow> 'acc \<Rightarrow> AuthorizedTransaction \<Rightarrow> AuthorizedTransaction" where
  "reproved X acc at = with_proof (the (forest_prove X (map snd (inputs (auth_transaction at))) acc)) at"

text \<open>The transactions that depend on one of \<open>ts\<close> that cannot be proven.\<close>

definition evicted :: "'acc ext \<Rightarrow> 'acc \<Rightarrow> MemPool \<Rightarrow> Txid set \<Rightarrow> Txid set" where
  "evicted X acc p ts =
     {u. \<exists>a \<in> ts. \<exists>at. fmlookup (mp_transactions p) a = Some at \<and> \<not> provable X acc at \<and> u \<in> descendants p a}"

definition regenerating :: "'acc ext \<Rightarrow> 'acc \<Rightarrow> MemPool \<Rightarrow> Txid set \<Rightarrow> MemPool \<Rightarrow> bool" where
  "regenerating X acc p0 ts p \<longleftrightarrow> pool_ok p \<and>
     (\<forall>u. fmlookup (mp_transactions p) u =
        (if u \<in> evicted X acc p0 ts then None
         else if u \<in> ts then map_option (reproved X acc) (fmlookup (mp_transactions p0) u)
         else fmlookup (mp_transactions p0) u))"

lemma regenerating_thinned:
  assumes "pool_ok p0" "regenerating X acc p0 ts p"
  shows "thinned p0 p"
proof -
  have "\<exists>at. fmlookup (mp_transactions p0) u = Some at \<and> alike at b"
    if "fmlookup (mp_transactions p) u = Some b" for u b
    using that assms(2) by (auto simp: regenerating_def reproved_def split: if_splits)
  moreover have "fmlookup (mp_transactions p) c = None"
    if "fmlookup (mp_transactions p0) a = Some at" "fmlookup (mp_transactions p) a = None"
      "v < length (outputs (auth_transaction at))"
      "fmlookup (mp_spent_utxos p0) (OpRegular a (word_of_nat v)) = Some c" for a at v c
  proof -
    have "a \<in> evicted X acc p0 ts" using that assms(2) by (auto simp: regenerating_def split: if_splits)
    then have "c \<in> evicted X acc p0 ts"
      using descendants.child that by (fastforce simp: evicted_def)
    then show ?thesis using assms(2) by (simp add: regenerating_def)
  qed
  ultimately show ?thesis using assms by (auto simp: thinned_def regenerating_def)
qed

lemma evicted_insert:
  "evicted X acc p (insert t ts) = evicted X acc p ts \<union>
     (case fmlookup (mp_transactions p) t of
        Some at \<Rightarrow> if provable X acc at then {} else descendants p t | None \<Rightarrow> {})"
  by (auto simp: evicted_def split: option.splits)

lemma regenerating_step:
  assumes ok0: "pool_ok p0" and r: "regenerating X acc p0 ts p" and t: "t \<notin> ts"
    and at: "fmlookup (mp_transactions p0) t = Some at"
  shows "regenerating X acc p0 (insert t ts) (regenerate_one X acc t p)"
proof -
  have ok: "pool_ok p" and tx: "\<And>u. fmlookup (mp_transactions p) u =
        (if u \<in> evicted X acc p0 ts then None
         else if u \<in> ts then map_option (reproved X acc) (fmlookup (mp_transactions p0) u)
         else fmlookup (mp_transactions p0) u)"
    using r by (simp_all add: regenerating_def)
  have thin: "thinned p0 p" by (rule regenerating_thinned [OF ok0 r])
  consider (gone) "t \<in> evicted X acc p0 ts" | (bad) "t \<notin> evicted X acc p0 ts" "\<not> provable X acc at"
    | (good) "t \<notin> evicted X acc p0 ts" "provable X acc at" by blast
  then show ?thesis
  proof cases
    case gone
    have "descendants p0 t \<subseteq> evicted X acc p0 ts"
    proof
      fix u assume "u \<in> descendants p0 t"
      then show "u \<in> evicted X acc p0 ts"
        using gone by induction (auto simp: evicted_def intro: descendants.child)
    qed
    with gone tx [of t] r show ?thesis
      by (auto simp: regenerate_one_def regenerating_def evicted_insert at)
  next
    case bad
    then have here: "fmlookup (mp_transactions p) t = Some at" using tx [of t] t at by simp
    then have "regenerate_one X acc t p = pool_delete t p"
      using bad(2) by (cases "forest_prove X (map snd (inputs (auth_transaction at))) acc")
        (auto simp: regenerate_one_def provable_def acc_prove_def)
    moreover have "fmlookup (mp_transactions (pool_delete t p)) u =
        (if u \<in> descendants p0 t then None else fmlookup (mp_transactions p) u)" for u
      using pool_delete_effect [OF ok, of t u] descendants_thinned [OF thin, of u t]
      by (cases "fmlookup (mp_transactions p) u") auto
    ultimately show ?thesis
      using pool_delete_effect [OF ok, of t] bad(2) tx
      by (simp add: regenerating_def evicted_insert at descendants.self)
  next
    case good
    then have here: "fmlookup (mp_transactions p) t = Some at" using tx [of t] t at by simp
    then have one: "regenerate_one X acc t p = p\<lparr>mp_transactions := fmupd t (reproved X acc at) (mp_transactions p)\<rparr>"
      using good by (auto simp: regenerate_one_def provable_def acc_prove_def reproved_def)
    have "pool_ok (p\<lparr>mp_transactions := fmupd t (reproved X acc at) (mp_transactions p)\<rparr>)"
      using ok here by (auto simp: pool_ok_def reproved_def)
    with good t tx show ?thesis by (auto simp: one regenerating_def evicted_insert at)
  qed
qed

lemma regenerating_all:
  assumes ok0: "pool_ok p0" and "distinct xs" "\<forall>t \<in> set xs. t \<notin> ts \<and> fmlookup (mp_transactions p0) t \<noteq> None"
    and "regenerating X acc p0 ts p"
  shows "regenerating X acc p0 (ts \<union> set xs) (fold (regenerate_one X acc) xs p)"
  using assms(2-)
proof (induction xs arbitrary: ts p)
  case (Cons t xs)
  then have "regenerating X acc p0 (insert t ts) (regenerate_one X acc t p)"
    by (auto intro: regenerating_step [OF ok0])
  with Cons.prems Cons.IH [of "insert t ts" "regenerate_one X acc t p"] show ?case by auto
qed simp

lemma regenerate_proofs_effect:
  assumes "pool_ok p"
  shows "pool_ok (regenerate_proofs X acc p) \<and>
    fmlookup (mp_transactions (regenerate_proofs X acc p)) u =
      (if u \<in> evicted X acc p UNIV then None
       else map_option (reproved X acc) (fmlookup (mp_transactions p) u))"
proof -
  let ?ts = "fst ` set (db_iter (mp_transactions p))"
  have dom: "t \<in> ?ts \<longleftrightarrow> fmlookup (mp_transactions p) t \<noteq> None" for t
    using set_db_iter [of t _ "mp_transactions p"] by (force simp: image_iff)
  have "regenerating X acc p ({} \<union> set (map fst (db_iter (mp_transactions p)))) (regenerate_proofs X acc p)"
    unfolding regenerate_proofs_def
    by (rule regenerating_all [OF assms]) (use assms dom in \<open>auto simp: regenerating_def evicted_def\<close>)
  then have "regenerating X acc p ?ts (regenerate_proofs X acc p)" by simp
  moreover have "evicted X acc p ?ts = evicted X acc p UNIV"
    unfolding evicted_def using dom by blast
  ultimately show ?thesis by (cases "fmlookup (mp_transactions p) u") (auto simp: regenerating_def dom)
qed

end
