(* ===== verification/Archive_Examples.thy ===== *)
theory Archive_Examples
  imports Archive_Machine Mempool Examples
begin

text \<open>
  A small archive, reached by replaying operations: mainchain blocks 12 and 13 on top of 11, a
  sidechain block 1 with the children 2 and 3, and block 4 on top of 2. And a small mempool.
\<close>

datatype archive_op = PutMain BlockHeaderInfo | PutInfo hash256 BlockInfo | PutSide Header

text \<open>An operation with the conditions of a step.\<close>

definition replay_op ::
  "'acc ext \<Rightarrow> (hash256 fset \<Rightarrow> hash256 list) \<Rightarrow> archive_op \<Rightarrow> 'acc Archive \<Rightarrow> 'acc Archive ares" where
  "replay_op X ord op A =
     (case op of
        PutMain hi \<Rightarrow>
          if (case fmlookup (main_header_infos A) (bhi_block_hash hi) of None \<Rightarrow> True | Some hi' \<Rightarrow> hi' = hi) \<and>
             fmlookup (main_block_hash_to_height A) (bhi_prev_block_hash hi) \<noteq> Some (- 1)
          then put_main_header_info hi A else ar_err ArDbGet
      | PutInfo m info \<Rightarrow> put_main_block_info ord m info A
      | PutSide hdr \<Rightarrow>
          if (case fmlookup (ar_headers A) (header_hash X hdr) of None \<Rightarrow> True | Some hdr' \<Rightarrow> hdr' = hdr) \<and>
             (case prev_side_hash hdr of None \<Rightarrow> True | Some p \<Rightarrow> fmlookup (block_hash_to_height A) p \<noteq> Some (- 1))
          then put_header X ord hdr A else ar_err ArDbGet)"

lemma replay_op_step:
  assumes "replay_op X ord op A = Inr A'"
  shows "archive_step X ord A A'"
proof (cases op)
  case (PutMain hi)
  with assms show ?thesis by (auto simp: replay_op_def split: if_splits option.splits intro: archive_step.main_header)
next
  case (PutInfo m info)
  with assms show ?thesis by (auto simp: replay_op_def intro: archive_step.main_info)
next
  case (PutSide hdr)
  with assms show ?thesis
    by (auto simp: replay_op_def split: if_splits option.splits intro!: archive_step.header)
qed

lemma replay_reach:
  "try_fold (replay_op X ord) ops A = Inr A' \<Longrightarrow> archive_reach X ord A \<Longrightarrow> archive_reach X ord A'"
  by (induction ops arbitrary: A) (auto simp: res_simps dest: replay_op_step intro: archive_reach.step)

definition ex_aext :: "hash256 list ext" where
  "ex_aext = ex_ext\<lparr>borsh_header := (\<lambda>hdr. replicate (unat (merkle_root hdr)) 0)\<rparr>"

definition ex_ord :: "hash256 fset \<Rightarrow> hash256 list" where
  "ex_ord = sorted_list_of_fset"

definition ex_main :: "hash256 \<Rightarrow> hash256 \<Rightarrow> u32 \<Rightarrow> archive_op" where
  "ex_main m p k = PutMain \<lparr>bhi_block_hash = m, bhi_prev_block_hash = p, bhi_height = k, bhi_work = 1\<rparr>"

definition ex_info :: "hash256 \<Rightarrow> BlockHash option \<Rightarrow> archive_op" where
  "ex_info m c = PutInfo m \<lparr>bmm_commitment = c, bi_events = []\<rparr>"

definition ex_side :: "hash256 \<Rightarrow> hash256 option \<Rightarrow> hash256 \<Rightarrow> archive_op" where
  "ex_side n p m = PutSide \<lparr>merkle_root = n, prev_side_hash = p, prev_main_hash = m, roots = []\<rparr>"

definition ex_ops :: "archive_op list" where
  "ex_ops = [ex_main 11 0 0, ex_main 12 11 1, ex_main 13 11 1, ex_info 11 None, ex_info 12 (Some 1), ex_info 13 (Some 1),
     ex_side 1 None 11, ex_side 2 (Some 1) 12, ex_side 3 (Some 1) 12, ex_side 4 (Some 2) 12]"

definition ex_archive :: "hash256 list Archive" where
  "ex_archive = projr (try_fold (replay_op ex_aext ex_ord) ex_ops Archive_new)"

lemma ex_order: "order_ok ex_ord"
  by (simp add: order_ok_def ex_ord_def sorted_list_of_fset.rep_eq)

definition ex_facts :: "'acc Archive \<Rightarrow> bool" where
  "ex_facts A \<longleftrightarrow> map (fmlookup (block_hash_to_height A)) [1, 2, 3, 4] = [Some 0, Some 1, Some 1, Some 2] \<and>
     map (fmlookup (main_block_hash_to_height A)) [11, 12, 13] = [Some 0, Some 1, Some 1] \<and>
     map (walk (main_parent A) 1) [12, 13] = [Inr 11, Inr 11] \<and>
     fmpred (\<lambda>_ hdr. fmlookup (main_block_hash_to_height A) (prev_main_hash hdr) \<noteq> None) (ar_headers A)"

lemma ex_run: "try_fold (replay_op ex_aext ex_ord) ex_ops Archive_new = Inr ex_archive \<and> ex_facts ex_archive"
proof -
  have "case try_fold (replay_op ex_aext ex_ord) ex_ops Archive_new of Inl _ \<Rightarrow> False | Inr A \<Rightarrow> ex_facts A"
    by code_simp
  then show ?thesis by (auto simp: ex_archive_def split: sum.splits)
qed

lemma ex_reach: "archive_reach ex_aext ex_ord ex_archive"
  using ex_run archive_reach.new by (blast intro: replay_reach)

lemma ex_heights:
  "fmlookup (block_hash_to_height ex_archive) 1 = Some 0" "fmlookup (block_hash_to_height ex_archive) 2 = Some 1"
  "fmlookup (block_hash_to_height ex_archive) 3 = Some 1" "fmlookup (block_hash_to_height ex_archive) 4 = Some 2"
  "fmlookup (main_block_hash_to_height ex_archive) 11 = Some 0"
  "fmlookup (main_block_hash_to_height ex_archive) 12 = Some 1"
  "fmlookup (main_block_hash_to_height ex_archive) 13 = Some 1"
  using ex_run by (simp_all add: ex_facts_def)

lemma ex_main_parents: "walk (main_parent ex_archive) 1 12 = Inr 11" "walk (main_parent ex_archive) 1 13 = Inr 11"
  using ex_run by (simp_all add: ex_facts_def)

lemma ex_anchored: "anchored ex_archive"
  using ex_run by (auto simp: ex_facts_def anchored_def fmpred_iff)

lemma ex_comparable:
  "comparable ex_archive \<lparr>tip_block_hash = 4, tip_main_block_hash = 12\<rparr> \<lparr>tip_block_hash = 3, tip_main_block_hash = 13\<rparr>"
proof -
  have "has_ancestor (get_main_height ex_archive) (main_parent ex_archive) m 11" if "m \<in> {12, 13}" for m
    using that ex_heights ex_main_parents unfolding has_ancestor_def by (intro exI [of _ 1]) auto
  then show ?thesis
    using reachD [OF ex_reach ex_order] ex_anchored by (auto simp: comparable_def ex_heights)
qed

section \<open>A mempool\<close>

text \<open>A transaction without a confirmed parent, in the pool with the transaction whose output it spends.\<close>

definition ex_pool_tx :: "OutPoint \<Rightarrow> AuthorizedTransaction" where
  "ex_pool_tx op = \<lparr>auth_transaction = ex_tx\<lparr>inputs := [(op, 1)]\<rparr>, authorizations = []\<rparr>"

definition ex_pool :: MemPool where
  "ex_pool = \<lparr>mp_transactions = fmupd 2 (ex_pool_tx (OpRegular 1 0)) (fmupd 1 (ex_pool_tx ex_op) fmempty),
     mp_spent_utxos = fmupd (OpRegular 1 0) 2 (fmupd ex_op 1 fmempty)\<rparr>"

lemma ex_pool_ok: "pool_ok ex_pool"
  by (auto simp: pool_ok_def ex_pool_def ex_pool_tx_def pool_inputs_def ex_op_def)

end
