(* ===== verification/Archive_Properties.thy ===== *)
theory Archive_Properties
  imports Archive_Examples
begin

text \<open>The properties of the archive and of the mempool.\<close>

section \<open>Archive\<close>

text \<open>C16. Every archive that the operations reach from a new one is well formed: on the sidechain
and on the mainchain a block of positive height has a known parent one below it and a complete table of
exponential ancestors, a header is stored exactly for the blocks with a height, and the successors of a block are exactly
its stored children. The operations store headers, mainchain headers and infos, accumulators and bodies, discard
bodies and invalidate blocks, whatever the iteration order of the hash sets.\<close>

theorem archive_reachable_ok:
  assumes "archive_reach X ord A" "order_ok ord"
  shows "archive_ok A"
  by (rule reach_ok [OF assms])

theorem archive_reachable_ok_witness: "archive_ok ex_archive"
  by (rule archive_reachable_ok [OF ex_reach ex_order])

text \<open>On a reachable archive the lookup of the n-th ancestor through the exponential tables
gives what n single steps to the parent give, and an error exactly when n is larger than the height; on both chains.\<close>

theorem ancestor_lookup_exact:
  assumes "archive_reach X ord A" "order_ok ord"
  shows "(fmlookup (block_hash_to_height A) h = Some k \<longrightarrow>
      get_nth_ancestor A h n = (if n \<le> k then walk (side_parent A) (unat n) h else ar_err (ArNoAncestor h n))) \<and>
    (fmlookup (main_block_hash_to_height A) m = Some j \<longrightarrow>
      get_nth_main_ancestor A m n = (if n \<le> j then walk (main_parent A) (unat n) m else ar_err (ArNoMainAncestor m n)))"
  using side.ancestor_exact [OF reachD(1) [OF assms], of h k] mainc.ancestor_exact [OF reachD(3) [OF assms], of m j]
  by (simp add: get_nth_ancestor_def get_nth_main_ancestor_def word_le_nat_alt)

theorem ancestor_lookup_exact_witness:
  "get_nth_ancestor ex_archive 4 2 = walk (side_parent ex_archive) 2 4 \<and>
   get_nth_main_ancestor ex_archive 12 1 = walk (main_parent ex_archive) 1 12"
  using ancestor_lookup_exact [OF ex_reach ex_order, of 4 2 2] ancestor_lookup_exact [OF ex_reach ex_order, of _ _ 1 12 1]
  by (simp add: ex_heights)

text \<open>On a reachable archive the descendant test of known blocks answers, and says whether the
first block is the second one or an ancestor of it; on both chains.\<close>

theorem descendant_test_exact:
  assumes "archive_reach X ord A" "order_ok ord"
  shows "(fmlookup (block_hash_to_height A) a = Some i \<longrightarrow> fmlookup (block_hash_to_height A) d = Some k \<longrightarrow>
      is_descendant A a d = Inr (has_ancestor (ar_get_height A) (side_parent A) d a)) \<and>
    (fmlookup (main_block_hash_to_height A) b = Some i' \<longrightarrow> fmlookup (main_block_hash_to_height A) e = Some k' \<longrightarrow>
      is_main_descendant A b e = Inr (has_ancestor (get_main_height A) (main_parent A) e b))"
  using side_desc_exact [OF reachD(1) [OF assms]] main_desc_exact [OF reachD(3) [OF assms]] by blast

theorem descendant_test_exact_witness:
  "is_descendant ex_archive 3 4 = Inr (has_ancestor (ar_get_height ex_archive) (side_parent ex_archive) 4 3) \<and>
   is_main_descendant ex_archive 11 12 = Inr (has_ancestor (get_main_height ex_archive) (main_parent ex_archive) 12 11)"
  using descendant_test_exact [OF ex_reach ex_order, of 3 1 4 2 11 0 12 1] by (simp add: ex_heights)

text \<open>C17. On a reachable archive, for known blocks of which one has a height below two to the power
of 31 (the binary search adds two depths in 32 bits), the search for the last common ancestor ends, and gives the common
ancestor that every common ancestor is an ancestor of, or nothing exactly when there is no common ancestor.\<close>

theorem common_ancestor_exact:
  assumes "archive_reach X ord A" "order_ok ord"
    and "fmlookup (block_hash_to_height A) h0 = Some k0" "fmlookup (block_hash_to_height A) h1 = Some k1"
    and "unat (min k0 k1) < 2 ^ 31"
  shows "\<exists>r. last_common_ancestor A h0 h1 = Some (Inr r) \<and>
    (case r of Some c \<Rightarrow> last_common (ar_get_height A) (side_parent A) h0 h1 c
     | None \<Rightarrow> \<not> (\<exists>b. has_ancestor (ar_get_height A) (side_parent A) h0 b \<and> has_ancestor (ar_get_height A) (side_parent A) h1 b))"
  by (rule last_common_ancestor_exact [OF reachD(1) [OF assms(1,2)] assms(3-5)])

theorem common_ancestor_exact_witness:
  "\<exists>r. last_common_ancestor ex_archive 4 3 = Some (Inr r) \<and>
    (case r of Some c \<Rightarrow> last_common (ar_get_height ex_archive) (side_parent ex_archive) 4 3 c
     | None \<Rightarrow> \<not> (\<exists>b. has_ancestor (ar_get_height ex_archive) (side_parent ex_archive) 4 b \<and>
         has_ancestor (ar_get_height ex_archive) (side_parent ex_archive) 3 b))"
  by (rule common_ancestor_exact [OF ex_reach ex_order ex_heights(4,3)]) simp

text \<open>Invalidating a block on a reachable archive removes the headers, heights, exponential
ancestors and bodies of exactly the block and its descendants, marks exactly those as invalid, and leaves
every other block as it was, whatever the order in which successors are visited.\<close>

theorem invalidation_exact:
  assumes "archive_reach X ord A" "order_ok ord"
  shows "fmlookup (ar_headers (invalidate_block ord h A)) g =
      (if g \<in> offspring A h then None else fmlookup (ar_headers A) g) \<and>
    fmlookup (block_hash_to_height (invalidate_block ord h A)) g =
      (if g \<in> offspring A h then None else fmlookup (block_hash_to_height A) g) \<and>
    fmlookup (exponential_ancestors (invalidate_block ord h A)) g =
      (if g \<in> offspring A h then None else fmlookup (exponential_ancestors A) g) \<and>
    fmlookup (ar_bodies (invalidate_block ord h A)) g =
      (if g \<in> offspring A h then None else fmlookup (ar_bodies A) g) \<and>
    fmlookup (invalid_blocks (invalidate_block ord h A)) g =
      (if g \<in> offspring A h then Some () else fmlookup (invalid_blocks A) g)"
  using invalidate_block_effect [OF assms(2) side_ok_parents [OF reachD(1) [OF assms]] reachD(2) [OF assms]] by blast

theorem invalidation_exact_witness:
  "fmlookup (ar_headers (invalidate_block ex_ord 2 ex_archive)) 2 = None"
  using invalidation_exact [OF ex_reach ex_order, of 2 2] by (simp add: offspring.self)

text \<open>The iterator over the ancestors of a known block from a start height upwards, which
fetches headers in batches of at most 32, yields on a reachable archive the ancestors at the heights start, start + 1
and so on up to the block itself, oldest first, each once and with its header.\<close>

theorem ancestors_in_batches:
  assumes "archive_reach X ord A" "order_ok ord" "fmlookup (block_hash_to_height A) h = Some k"
  shows "iter_take (ancestors_rev_next A h) n (rev_new start) =
    Inr (take n (map (item_at A h k) [unat start..<Suc (unat k)]))"
  by (rule ancestors_rev_exact [OF reachD(1) [OF assms(1,2)] assms(3)])

theorem ancestors_in_batches_witness:
  "iter_take (ancestors_rev_next ex_archive 4) 9 (rev_new 1) = Inr (take 9 (map (item_at ex_archive 4 2) [1..<3]))"
  using ancestors_in_batches [OF ex_reach ex_order ex_heights(4), of 9 1] by simp

text \<open>On a reachable archive the search for missing bodies ends, and gives the ancestors of the
block that have no body, oldest first, up to but without the given ancestor.\<close>

theorem missing_bodies_exact:
  assumes "archive_reach X ord A" "order_ok ord" "fmlookup (block_hash_to_height A) h = Some k"
  shows "get_missing_bodies A h anc =
    Some (Inr (rev (filter (\<lambda>g. fmlookup (ar_bodies A) g = None) (takeWhile (\<lambda>g. anc \<noteq> Some g) (lineage A (unat k) h))))) \<and>
    set (lineage A (unat k) h) = {a. has_ancestor (ar_get_height A) (side_parent A) h a}"
  using missing_loop_exact [OF reachD(1) [OF assms(1,2)] assms(3), of anc "[]"] lineage_ancestors [OF reachD(1) [OF assms(1,2)] assms(3)]
  by (simp add: get_missing_bodies_def)

theorem missing_bodies_exact_witness:
  "get_missing_bodies ex_archive 4 (Some 1) =
    Some (Inr (rev (filter (\<lambda>g. fmlookup (ar_bodies ex_archive) g = None)
      (takeWhile (\<lambda>g. Some 1 \<noteq> Some g) (lineage ex_archive 2 4)))))"
  using missing_bodies_exact [OF ex_reach ex_order ex_heights(4), of "Some 1"] by simp

text \<open>Two tips of a well-formed archive whose mainchain blocks have a common ancestor can be
compared: the comparison ends without an error and prefers neither or one of the two. When the tips differ in their
height or in the work of their mainchain block, the outcome does not depend on the order of the arguments.\<close>

theorem better_tip_total:
  assumes "comparable A t0 t1"
  shows "(\<exists>r. better_tip A t0 t1 = Some (Inr r) \<and> r \<in> {None, Some t0, Some t1}) \<and>
    (ar_get_height A (tip_block_hash t0) \<noteq> ar_get_height A (tip_block_hash t1) \<or>
      get_total_work A (tip_main_block_hash t0) \<noteq> get_total_work A (tip_main_block_hash t1) \<longrightarrow>
      better_tip A t0 t1 = better_tip A t1 t0)"
  using better_tip_ends [OF assms] better_tip_swap [OF assms] by blast

theorem better_tip_total_witness:
  "better_tip ex_archive \<lparr>tip_block_hash = 4, tip_main_block_hash = 12\<rparr> \<lparr>tip_block_hash = 3, tip_main_block_hash = 13\<rparr> =
   better_tip ex_archive \<lparr>tip_block_hash = 3, tip_main_block_hash = 13\<rparr> \<lparr>tip_block_hash = 4, tip_main_block_hash = 12\<rparr>"
  using better_tip_total [OF ex_comparable] by (simp add: ar_get_height_def ex_heights)

section \<open>Sidechain tips\<close>

text \<open>While the two tables of tips agree, the best tip is a tip, and no tip is higher, nor of the
same height on a mainchain block with more work.\<close>

theorem best_side_tip_greatest:
  assumes "tips_ok st" "best_side_tip st = Some (h, i)"
  shows "fmlookup (sidechain_tips st) h = Some i \<and>
    (\<forall>g j. fmlookup (sidechain_tips st) g = Some j \<longrightarrow>
       sidechain_height j < sidechain_height i \<or> sidechain_height j = sidechain_height i \<and> sti_work j \<le> sti_work i)"
  using best_side_tip_max [OF assms] by (fastforce simp: tip_key_def)

definition ex_tip :: SidechainTipInfo where
  "ex_tip = \<lparr>sidechain_height = 0, sti_work = 1, sti_main_block_hash = 11\<rparr>"

definition ex_tips :: SideTips where
  "ex_tips = \<lparr>mainchain_tip = \<lparr>cumulative_work = 1, tip_info = Some \<lparr>bhi_block_hash = 11, bhi_prev_block_hash = 0, bhi_height = 0, bhi_work = 1\<rparr>\<rparr>,
     sidechain_tips = fmupd 1 ex_tip fmempty, ordered_sidechain_tips = fmupd (tip_key ex_tip) 1 fmempty\<rparr>"

lemma ex_tips_ok: "tips_ok ex_tips"
  by (auto simp: tips_ok_def ex_tips_def)

lemma ex_tips_best: "best_side_tip ex_tips = Some (1, ex_tip)"
  by (simp add: best_side_tip_def ex_tips_def db_iter_singleton)

theorem best_side_tip_greatest_witness: "fmlookup (sidechain_tips ex_tips) 1 = Some ex_tip"
  using best_side_tip_greatest [OF ex_tips_ok ex_tips_best] by simp

text \<open>C35. Disconnecting the mainchain tip whose block commits to a sidechain tip removes the tip only
from the ordered table; when the same mainchain block is connected again, the tip is found in the other table and is
not put back, so the best tip is another one or none although the block with its commitment is connected. The
hypotheses are those under which the code disconnects and connects: the tables agree, the mainchain parent that is
given is the one that the tip names, at the height below it (none for a block without parent), and the parent of the sidechain
block, if it has one, is a known tip.\<close>

theorem reconnected_tip_lost:
  assumes tip: "fmlookup (sidechain_tips st) h = Some i" "sti_main_block_hash i = bhi_block_hash cur" "tips_ok st"
    and main: "tip_info (mainchain_tip st) = Some cur"
    and parent: "case prev of
        Some p \<Rightarrow> bhi_block_hash p = bhi_prev_block_hash cur \<and> bhi_height p + 1 = bhi_height cur
      | None \<Rightarrow> bhi_prev_block_hash cur = 0"
    and side: "\<And>g. shd_prev_side_hash hdata = Some g \<Longrightarrow> fmlookup (sidechain_tips st) g \<noteq> None"
  shows "\<exists>st1 st2. disconnect_mainchain_tip prev (Some h) st = Inr st1 \<and>
    connect_mainchain_tip cur (Some \<lparr>sidechain_block_hash = h, sidechain_header_data = hdata\<rparr>) st1 = Inr st2 \<and>
    mainchain_tip st2 = mainchain_tip st \<and> fmlookup (sidechain_tips st2) h = Some i \<and>
    (\<forall>j. best_side_tip st2 \<noteq> Some (h, j))"
proof -
  let ?new = "if bhi_prev_block_hash cur = 0 then None else prev"
  let ?st1 = "st\<lparr>ordered_sidechain_tips := fmdrop (tip_key i) (ordered_sidechain_tips st),
    mainchain_tip := \<lparr>cumulative_work = cumulative_work (mainchain_tip st) - bhi_work cur, tip_info = ?new\<rparr>\<rparr>"
  let ?st2 = "?st1\<lparr>mainchain_tip := mainchain_tip st\<rparr>"
  have "previous_tip cur prev = Inr ?new" using parent by (auto simp: previous_tip_def split: option.splits)
  then have "disconnect_mainchain_tip prev (Some h) st = Inr ?st1"
    using tip main tips_okD [OF tip(3), of i h]
    by (simp add: disconnect_mainchain_tip_def drop_commitment_def db_has_def)
  moreover have "connect_mainchain_tip cur (Some \<lparr>sidechain_block_hash = h, sidechain_header_data = hdata\<rparr>) ?st1 = Inr ?st2"
  proof -
    have "mainchain_tip_hash (mainchain_tip ?st1) = bhi_prev_block_hash cur"
      using parent by (auto simp: mainchain_tip_hash_def split: option.splits)
    moreover have "(case tip_info (mainchain_tip ?st1) of Some info \<Rightarrow>
        if bhi_height cur \<noteq> bhi_height info + 1 then Inl (InvalidTipHeight (bhi_height info + 1)) else Inr ()
      | None \<Rightarrow> Inr ()) = Inr ()"
      using parent by (auto split: option.splits)
    moreover have "connect_sidechain_tip m w h hdata ?st1 = Inr ?st1" for m w
      using tip(1) side by (fastforce simp: connect_sidechain_tip_def db_has_def split: option.splits)
    ultimately show ?thesis
      using main by (cases "mainchain_tip st") (simp add: connect_mainchain_tip_def Let_def)
  qed
  moreover have "best_side_tip ?st2 \<noteq> Some (h, j)" for j
  proof
    assume "best_side_tip ?st2 = Some (h, j)"
    from best_side_tip_entry [OF this] tips_okD [OF tip(3), of j h] tip(1) show False
      by (auto split: if_splits)
  qed
  ultimately show ?thesis using tip by (intro exI [of _ ?st1] exI [of _ ?st2]) simp
qed

text \<open>Two mainchain blocks, each with a commitment, the second on top of the first.\<close>

definition ex_main_block :: "nat \<Rightarrow> BlockHeaderInfo" where
  "ex_main_block n = \<lparr>bhi_block_hash = word_of_nat (11 + n), bhi_prev_block_hash = (if n = 0 then 0 else word_of_nat (10 + n)),
     bhi_height = word_of_nat n, bhi_work = 1\<rparr>"

definition ex_second_tip :: SidechainTipInfo where
  "ex_second_tip = \<lparr>sidechain_height = 1, sti_work = 2, sti_main_block_hash = 12\<rparr>"

definition ex_two_tips :: SideTips where
  "ex_two_tips = \<lparr>mainchain_tip = \<lparr>cumulative_work = 2, tip_info = Some (ex_main_block 1)\<rparr>,
     sidechain_tips = fmupd 2 ex_second_tip (fmupd 1 ex_tip fmempty),
     ordered_sidechain_tips = fmupd (tip_key ex_second_tip) 2 (fmupd (tip_key ex_tip) 1 fmempty)\<rparr>"

theorem reconnected_tip_lost_witness:
  "\<exists>st1 st2. disconnect_mainchain_tip (Some (ex_main_block 0)) (Some 2) ex_two_tips = Inr st1 \<and>
    connect_mainchain_tip (ex_main_block 1)
      (Some \<lparr>sidechain_block_hash = 2, sidechain_header_data = \<lparr>shd_prev_side_hash = Some 1, shd_prev_main_hash = 11\<rparr>\<rparr>) st1 = Inr st2 \<and>
    mainchain_tip st2 = mainchain_tip ex_two_tips \<and> fmlookup (sidechain_tips st2) 2 = Some ex_second_tip \<and>
    (\<forall>j. best_side_tip st2 \<noteq> Some (2, j))"
proof (rule reconnected_tip_lost)
  have "ex_second_tip \<noteq> ex_tip" by (simp add: ex_second_tip_def ex_tip_def)
  then show "tips_ok ex_two_tips" by (auto simp: tips_ok_def ex_two_tips_def)
qed (auto simp: ex_two_tips_def ex_second_tip_def ex_main_block_def)

section \<open>Mempool\<close>

text \<open>A transaction is put into the mempool exactly when its inputs are distinct and no pooled
transaction spends one of them; then it is stored and its inputs are recorded as spent by it, and the record of spent
outputs still has exactly the inputs of the pooled transactions.\<close>

theorem mempool_put_exact:
  assumes "pool_ok p" "fmlookup (mp_transactions p) (txid X (auth_transaction at)) = None"
  shows "pool_put X at p = Inr p' \<longleftrightarrow>
      distinct (map fst (inputs (auth_transaction at))) \<and>
      (\<forall>u b. fmlookup (mp_transactions p) u = Some b \<longrightarrow> pool_inputs b \<inter> pool_inputs at = {}) \<and>
      p' = \<lparr>mp_transactions = fmupd (txid X (auth_transaction at)) at (mp_transactions p),
            mp_spent_utxos = fold (\<lambda>op. fmupd op (txid X (auth_transaction at)))
              (map fst (inputs (auth_transaction at))) (mp_spent_utxos p)\<rparr> \<and> pool_ok p'"
proof -
  have "(\<forall>op \<in> set (map fst (inputs (auth_transaction at))). fmlookup (mp_spent_utxos p) op = None) \<longleftrightarrow>
      (\<forall>u b. fmlookup (mp_transactions p) u = Some b \<longrightarrow> pool_inputs b \<inter> pool_inputs at = {})"
  proof -
    have "fmlookup (mp_spent_utxos p) op = None \<longleftrightarrow> (\<forall>u b. fmlookup (mp_transactions p) u = Some b \<longrightarrow> op \<notin> pool_inputs b)" for op
      using pool_okD [OF assms(1), of op] by (metis not_None_eq)
    moreover have "set (map fst (inputs (auth_transaction at))) = pool_inputs at" by (simp add: pool_inputs_def)
    ultimately show ?thesis by (simp only:) blast
  qed
  then show ?thesis using pool_put_ok [OF assms(1) _ assms(2), of p'] unfolding pool_put_iff Let_def by auto
qed

lemma ex_pool_txid: "txid ex_ext t = 8"
  by (simp add: txid_def ex_ext_def)

theorem mempool_put_exact_witness:
  "pool_put ex_ext (ex_pool_tx (OpRegular 3 0)) ex_pool =
    Inr \<lparr>mp_transactions = fmupd 8 (ex_pool_tx (OpRegular 3 0)) (mp_transactions ex_pool),
         mp_spent_utxos = fmupd (OpRegular 3 0) 8 (mp_spent_utxos ex_pool)\<rparr>"
proof -
  have "pool_ok \<lparr>mp_transactions = fmupd 8 (ex_pool_tx (OpRegular 3 0)) (mp_transactions ex_pool),
      mp_spent_utxos = fmupd (OpRegular 3 0) 8 (mp_spent_utxos ex_pool)\<rparr>"
    by (auto simp: pool_ok_def ex_pool_def ex_pool_tx_def pool_inputs_def ex_op_def)
  moreover have "pool_inputs b \<inter> pool_inputs (ex_pool_tx (OpRegular 3 0)) = {}" if "fmlookup (mp_transactions ex_pool) u = Some b" for u b
    using that by (auto simp: ex_pool_def ex_pool_tx_def pool_inputs_def ex_op_def split: if_splits)
  moreover have "fmlookup (mp_transactions ex_pool) 8 = None" "inputs (auth_transaction (ex_pool_tx (OpRegular 3 0))) = [(OpRegular 3 0, 1)]"
    by (simp_all add: ex_pool_def ex_pool_tx_def)
  ultimately show ?thesis
    using mempool_put_exact [OF ex_pool_ok, of ex_ext "ex_pool_tx (OpRegular 3 0)"] by (simp add: ex_pool_txid)
qed

text \<open>Deleting a transaction from the mempool ends, and removes exactly the transaction and those
that depend on it through the outputs they spend; the record of spent outputs still has exactly the
inputs of the transactions that are left.\<close>

theorem mempool_delete_exact:
  assumes "pool_ok p"
  shows "fmlookup (mp_transactions (pool_delete t p)) u = (if u \<in> descendants p t then None else fmlookup (mp_transactions p) u) \<and>
    pool_ok (pool_delete t p)"
  using pool_delete_effect [OF assms, of t u] by simp

theorem mempool_delete_exact_witness: "fmlookup (mp_transactions (pool_delete 1 ex_pool)) 1 = None \<and> pool_ok (pool_delete 1 ex_pool)"
  using mempool_delete_exact [OF ex_pool_ok, of 1] by (simp add: descendants.self)

text \<open>C31. Regenerating the proofs for a new accumulator removes exactly the transactions that
depend on one whose inputs cannot be proven any more, and gives every other one its new proof and nothing else; the order
of the transactions does not matter.\<close>

theorem mempool_regeneration_exact:
  assumes "pool_ok p"
  shows "fmlookup (mp_transactions (regenerate_proofs X acc p)) u =
      (if u \<in> evicted X acc p UNIV then None else map_option (reproved X acc) (fmlookup (mp_transactions p) u)) \<and>
    pool_ok (regenerate_proofs X acc p)"
  using regenerate_proofs_effect [OF assms, of X acc u] by simp

theorem mempool_regeneration_exact_witness:
  "fmlookup (mp_transactions (regenerate_proofs ex_ext [] ex_pool)) 2 = Some (reproved ex_ext [] (ex_pool_tx (OpRegular 1 0)))"
proof -
  have "2 \<notin> evicted ex_ext [] ex_pool UNIV" by (simp add: evicted_def provable_def ex_ext_def)
  then show ?thesis using mempool_regeneration_exact [OF ex_pool_ok, of ex_ext "[]" 2] by (simp add: ex_pool_def)
qed

end
