(* ===== verification/Node.thy ===== *)
theory Node
  imports Archive_Walk Mempool
begin

text \<open>
  The node's handling of tips (\<^verbatim>\<open>src/lib/node/net_task.rs\<close>): the state, the archive and the mempool in
  one environment, a block connected to or disconnected from all three, and the reorganization to
  another tip in write transactions.
\<close>

record 'acc Node =
  nd_state :: "'acc State"
  nd_archive :: "'acc Archive"
  nd_mempool :: MemPool

datatype NodeError =
  NdArchive ArchiveError
| NdMemPool MemPoolError
| NdState Error
| NdPeerInfoRxClosed

type_synonym 'a nres = "NodeError fault + 'a"

definition of_state :: "'a res \<Rightarrow> 'a nres" where
  "of_state r = map_fault NdState r"

definition of_archive :: "'a ares \<Rightarrow> 'a nres" where
  "of_archive r = map_fault NdArchive r"

definition of_mempool :: "MemPoolError + 'a \<Rightarrow> 'a nres" where
  "of_mempool r = (case r of Inl e \<Rightarrow> Inl (Fail (NdMemPool e)) | Inr x \<Rightarrow> Inr x)"

lemma of_eq_Inr [res_simps]:
  "of_state r = Inr x \<longleftrightarrow> r = Inr x" "of_archive q = Inr y \<longleftrightarrow> q = Inr y" "of_mempool p = Inr z \<longleftrightarrow> p = Inr z"
  by (auto simp: of_state_def of_archive_def of_mempool_def res_simps split: sum.splits)

lemma of_Inr [simp]: "of_state (Inr x) = Inr x" "of_archive (Inr y) = Inr y" "of_mempool (Inr z) = Inr z"
  by (simp_all add: res_simps)

section \<open>Connecting a block\<close>

definition connect_state ::
  "'acc ext \<Rightarrow> rpc option \<Rightarrow> Header \<Rightarrow> Body \<Rightarrow> TwoWayPegData \<Rightarrow> 'acc State \<Rightarrow> 'acc State res" where
  "connect_state X rpc hdr body peg s =
     and_then (prevalidate X s hdr body) (\<lambda>pre.
     and_then (connect_prevalidated X hdr body pre s) (\<lambda>(_, s1).
     connect_two_way_peg_data X rpc peg s1))"

definition connect_mempool :: "'acc ext \<Rightarrow> Body \<Rightarrow> 'acc \<Rightarrow> MemPool \<Rightarrow> MemPool" where
  "connect_mempool X body acc p =
     regenerate_proofs X acc (fold (\<lambda>tx. pool_delete (txid X tx)) (transactions body) p)"

definition node_connect_tip ::
  "'acc ext \<Rightarrow> (hash256 fset \<Rightarrow> hash256 list) \<Rightarrow> rpc option \<Rightarrow> Header \<Rightarrow> Body \<Rightarrow> TwoWayPegData \<Rightarrow>
   'acc Node \<Rightarrow> 'acc Node nres option" where
  "node_connect_tip X ord rpc hdr body peg n =
     opt_then (Some (of_state (connect_state X rpc hdr body peg (nd_state n)))) (\<lambda>s.
     let h = header_hash X hdr; acc = get_accumulator X s in
     opt_then (Some (of_archive (put_header X ord hdr (nd_archive n)))) (\<lambda>A1.
     opt_then (map_option of_archive (put_body ord h body A1)) (\<lambda>A2.
     Some (Inr \<lparr>nd_state = s, nd_archive = put_accumulator h acc A2,
                nd_mempool = connect_mempool X body acc (nd_mempool n)\<rparr>))))"

section \<open>Disconnecting the tip\<close>

text \<open>
  The last entry of a table of event blocks with a height below the limit. The tables are iterated in
  the order of their little-endian keys; \<open>height - 1\<close> wraps.
\<close>

definition last_applied :: "u32 \<Rightarrow> (u32, hash256 \<times> u32) db \<Rightarrow> (hash256 \<times> u32) option" where
  "last_applied limit m =
     List.find (\<lambda>(_, k). k < limit) (map snd (rev (sort_key (\<lambda>(k, _). le_bytes 4 (unat k)) (db_iter m))))"

text \<open>The mainchain block after which the events of the tip start.\<close>

definition event_start ::
  "'acc Archive \<Rightarrow> (hash256 \<times> u32) option \<Rightarrow> (hash256 \<times> u32) option \<Rightarrow> hash256 option ares" where
  "event_start A dep wb =
     (case (dep, wb) of
        (None, None) \<Rightarrow> Inr None
      | (Some (b, _), None) \<Rightarrow> Inr (Some b)
      | (None, Some (b, _)) \<Rightarrow> Inr (Some b)
      | (Some (d, dh), Some (w, wh)) \<Rightarrow>
          if dh < wh then Inr (Some w)
          else if dh > wh then Inr (Some d)
          else
            and_then (is_main_descendant A w d) (\<lambda>b.
            if b then Inr (Some w)
            else
              and_then (is_main_descendant A d w) (\<lambda>c.
              if c then Inr (Some d)
              else Inl (Panic ''assertion failed: archive.is_main_descendant''))))"

text \<open>
  The infos of the ancestors of a mainchain block, newest first, up to a stop block; blocks without an
  info are skipped. \<open>keep\<close> is the filter of the caller.
\<close>

partial_function (option) main_infos ::
  "'acc Archive \<Rightarrow> (BlockInfo \<Rightarrow> bool) \<Rightarrow> hash256 option \<Rightarrow> hash256 \<Rightarrow> (hash256 \<times> BlockInfo) list ares option" where
  "main_infos A keep stop m =
     (if m = 0 then Some (Inr [])
      else
        (case get_main_header_info A m of
           Inl e \<Rightarrow> Some (Inl e)
         | Inr hi \<Rightarrow>
             if stop = Some (bhi_block_hash hi) then Some (Inr [])
             else
               opt_then (main_infos A keep stop (bhi_prev_block_hash hi)) (\<lambda>rest.
               Some (Inr (case fmlookup (main_block_infos A) (bhi_block_hash hi) of
                            Some info \<Rightarrow> if keep info then (bhi_block_hash hi, info) # rest else rest
                          | None \<Rightarrow> rest)))))"

declare main_infos.simps [code]

text \<open>\<open>LinkedHashMap\<close>: \<open>insert\<close> moves an existing key to the back, \<open>replace\<close> leaves it in its place.\<close>

definition peg_insert :: "hash256 \<times> BlockInfo \<Rightarrow> TwoWayPegData \<Rightarrow> TwoWayPegData" where
  "peg_insert = (\<lambda>(b, info) d. filter (\<lambda>(c, _). c \<noteq> b) d @ [(b, bi_events info)])"

definition peg_replace :: "hash256 \<times> BlockInfo \<Rightarrow> TwoWayPegData \<Rightarrow> TwoWayPegData" where
  "peg_replace = (\<lambda>(b, info) d.
     if b \<in> fst ` set d then map (\<lambda>(c, e). if c = b then (b, bi_events info) else (c, e)) d
     else d @ [(b, bi_events info)])"

definition disconnect_peg_data :: "Header \<Rightarrow> u32 \<Rightarrow> 'acc Node \<Rightarrow> TwoWayPegData nres option" where
  "disconnect_peg_data hdr h n =
     (let s = nd_state n; A = nd_archive n in
      opt_then (Some (of_archive (event_start A (last_applied (h - 1) (deposit_blocks s))
                  (last_applied (h - 1) (withdrawal_bundle_event_blocks s))))) (\<lambda>start.
      opt_then (map_option of_archive (main_infos A (\<lambda>info. bi_events info \<noteq> []) start (prev_main_hash hdr))) (\<lambda>infos.
      Some (Inr (fold peg_insert (rev infos) [])))))"

text \<open>The accumulator of the new tip comes from the archive.\<close>

definition revert_accumulator :: "'acc Archive \<Rightarrow> 'acc State \<Rightarrow> 'acc State ares" where
  "revert_accumulator A s =
     (case try_get_tip s of
        Some t \<Rightarrow> and_then (ar_get_accumulator A t) (\<lambda>acc. Inr (s\<lparr>utreexo_accumulator := Some acc\<rparr>))
      | None \<Rightarrow> Inr (s\<lparr>utreexo_accumulator := None\<rparr>))"

definition node_disconnect_tip :: "'acc ext \<Rightarrow> 'acc Node \<Rightarrow> 'acc Node nres option" where
  "node_disconnect_tip X n =
     (let s = nd_state n; A = nd_archive n in
      opt_then (Some (of_state (ok_or (Fail NoTip) (try_get_tip s)))) (\<lambda>t.
      opt_then (Some (of_archive (get_header A t))) (\<lambda>hdr.
      opt_then (Some (of_archive (get_body A t))) (\<lambda>body.
      opt_then (Some (of_state (ok_or (Fail NoTip) (try_get_height s)))) (\<lambda>h.
      opt_then (disconnect_peg_data hdr h n) (\<lambda>peg.
      opt_then (Some (of_state (disconnect_two_way_peg_data X peg s))) (\<lambda>s1.
      opt_then (Some (of_state (disconnect_tip X hdr body s1))) (\<lambda>s2.
      opt_then (Some (of_archive (revert_accumulator A s2))) (\<lambda>s3.
      opt_then (Some (ok_or (Panic ''authorized_transactions'') (authorized_transactions body))) (\<lambda>txs.
      opt_then (Some (of_mempool (try_fold (pool_put X) (rev txs) (nd_mempool n)))) (\<lambda>p.
      Some (Inr (n\<lparr>nd_state := s3,
                   nd_mempool := regenerate_proofs X (get_accumulator X s3) p\<rparr>)))))))))))))"

fun disconnect_tips :: "'acc ext \<Rightarrow> nat \<Rightarrow> 'acc Node \<Rightarrow> 'acc Node nres option" where
  "disconnect_tips X 0 n = Some (Inr n)"
| "disconnect_tips X (Suc k) n = opt_then (node_disconnect_tip X n) (disconnect_tips X k)"

section \<open>Reorganization\<close>

fun is_fatal_reorg_error :: "NodeError \<Rightarrow> bool" where
  "is_fatal_reorg_error (NdState _) = False"
| "is_fatal_reorg_error _ = True"

text \<open>A block of the active chain as a tip, with its best verification.\<close>

definition verified_tip :: "(hash256 fset \<Rightarrow> hash256 list) \<Rightarrow> 'acc Archive \<Rightarrow> BlockHash \<Rightarrow> Tip nres" where
  "verified_tip ord A h =
     and_then (of_archive (get_best_main_verification ord A h)) (\<lambda>m.
     Inr \<lparr>tip_block_hash = h, tip_main_block_hash = m\<rparr>)"

definition node_tip :: "(hash256 fset \<Rightarrow> hash256 list) \<Rightarrow> 'acc Node \<Rightarrow> Tip option nres" where
  "node_tip ord n =
     (case try_get_tip (nd_state n) of
        None \<Rightarrow> Inr None
      | Some h \<Rightarrow> and_then (verified_tip ord (nd_archive n) h) (\<lambda>t. Inr (Some t)))"

text \<open>Whether a tip is better than the current one, or there is no current one.\<close>

definition improves :: "'acc Archive \<Rightarrow> Tip option \<Rightarrow> Tip \<Rightarrow> bool nres option" where
  "improves A cur new =
     (case cur of
        None \<Rightarrow> Some (Inr True)
      | Some t \<Rightarrow> opt_then (map_option of_archive (better_tip A t new)) (\<lambda>r. Some (Inr (r = Some new))))"

text \<open>The blocks above the common ancestor, newest first.\<close>

partial_function (option) collect_blocks ::
  "'acc Archive \<Rightarrow> BlockHash option \<Rightarrow> BlockHash option \<Rightarrow> (Header \<times> Body) list ares option" where
  "collect_blocks A stop cur =
     (case cur of
        None \<Rightarrow> Some (Inr [])
      | Some h \<Rightarrow>
          (case get_header A h of
             Inl e \<Rightarrow> Some (Inl e)
           | Inr hdr \<Rightarrow>
               if stop = Some h then Some (Inr [])
               else
                 (case get_body A h of
                    Inl e \<Rightarrow> Some (Inl e)
                  | Inr body \<Rightarrow>
                      opt_then (collect_blocks A stop (prev_side_hash hdr)) (\<lambda>rest.
                      Some (Inr ((hdr, body) # rest))))))"

declare collect_blocks.simps [code]

definition blocks_to_apply ::
  "'acc Archive \<Rightarrow> BlockHash option \<Rightarrow> BlockHash \<Rightarrow> (Header \<times> Body) list ares option" where
  "blocks_to_apply A common h =
     opt_then (Some (get_header A h)) (\<lambda>hdr.
     opt_then (Some (get_body A h)) (\<lambda>body.
     opt_then (collect_blocks A common (prev_side_hash hdr)) (\<lambda>rest.
     Some (Inr ((hdr, body) # rest)))))"

definition disconnects :: "u32 \<Rightarrow> u32 option \<Rightarrow> u32" where
  "disconnects tip_height common_height =
     (case common_height of Some k \<Rightarrow> tip_height - k | None \<Rightarrow> tip_height + 1)"

text \<open>The infos for one block, taken from the oldest ones; the batch is oldest first.\<close>

fun fill_peg :: "hash256 \<Rightarrow> (hash256 \<times> BlockInfo) list \<Rightarrow> TwoWayPegData \<Rightarrow> TwoWayPegData \<times> (hash256 \<times> BlockInfo) list" where
  "fill_peg m [] d = (d, [])"
| "fill_peg m ((b, info) # batch) d =
     (let d1 = peg_replace (b, info) d in if b = m then (d1, batch) else fill_peg m batch d1)"

text \<open>
  The loop that applies the blocks, oldest first. It works on \<open>n\<close> in a write transaction, and \<open>db\<close> is
  what is committed; with an error the committed environment is left.
\<close>

definition discard_invalid ::
  "'acc ext \<Rightarrow> (hash256 fset \<Rightarrow> hash256 list) \<Rightarrow> Header \<Rightarrow> NodeError fault \<Rightarrow> 'acc Node \<Rightarrow> NodeError fault \<times> 'acc Node" where
  "discard_invalid X ord hdr e db =
     (case e of
        Panic _ \<Rightarrow> (e, db)
      | Fail e0 \<Rightarrow>
          if is_fatal_reorg_error e0 then (e, db)
          else
            (case of_archive (delete_body ord (header_hash X hdr) (nd_archive db)) of
               Inl e1 \<Rightarrow> (e1, db)
             | Inr A \<Rightarrow> (e, db\<lparr>nd_archive := A\<rparr>)))"

definition applied_tip :: "(hash256 fset \<Rightarrow> hash256 list) \<Rightarrow> Tip option \<Rightarrow> 'acc Node \<Rightarrow> bool nres option" where
  "applied_tip ord old n =
     opt_then (Some (ok_or (Panic ''called Option::unwrap() on a None value'') (try_get_tip (nd_state n)))) (\<lambda>h.
     opt_then (Some (verified_tip ord (nd_archive n) h)) (\<lambda>t.
     improves (nd_archive n) old t))"

fun apply_blocks ::
  "'acc ext \<Rightarrow> (hash256 fset \<Rightarrow> hash256 list) \<Rightarrow> rpc option \<Rightarrow> Tip option \<Rightarrow> (Header \<times> Body) list \<Rightarrow>
   (hash256 \<times> BlockInfo) list \<Rightarrow> 'acc Node \<Rightarrow> 'acc Node \<Rightarrow> ('acc Node nres \<times> 'acc Node) option" where
  "apply_blocks X ord rpc old [] batch n db = Some (Inr n, db)"
| "apply_blocks X ord rpc old ((hdr, body) # blocks) batch n db =
     (let (peg, batch1) = fill_peg (prev_main_hash hdr) batch [] in
      case node_connect_tip X ord rpc hdr body peg n of
        None \<Rightarrow> None
      | Some (Inl e) \<Rightarrow> (let (e1, db1) = discard_invalid X ord hdr e db in Some (Inl e1, db1))
      | Some (Inr n1) \<Rightarrow>
          (case applied_tip ord old n1 of
             None \<Rightarrow> None
           | Some (Inl e) \<Rightarrow> Some (Inl e, db)
           | Some (Inr better) \<Rightarrow>
               apply_blocks X ord rpc old blocks batch1 n1 (if better then n1 else db)))"

text \<open>What is done before the blocks are applied: the blocks, the batch of infos and the rewound node.\<close>

definition prepare_reorg ::
  "'acc ext \<Rightarrow> Tip option \<Rightarrow> Tip \<Rightarrow> 'acc Node \<Rightarrow>
   ((Header \<times> Body) list \<times> (hash256 \<times> BlockInfo) list \<times> 'acc Node) nres option" where
  "prepare_reorg X old new n =
     (let A = nd_archive n in
      opt_then (case old of
                  Some t \<Rightarrow> map_option of_archive (last_common_ancestor A (tip_block_hash t) (tip_block_hash new))
                | None \<Rightarrow> Some (Inr None)) (\<lambda>common.
      opt_then (map_option of_archive (blocks_to_apply A common (tip_block_hash new))) (\<lambda>blocks.
      opt_then (case try_get_height (nd_state n) of
                  None \<Rightarrow> Some (Inr n)
                | Some tip_height \<Rightarrow>
                    opt_then (Some (case common of
                                      Some c \<Rightarrow> and_then (of_archive (ar_get_height A c)) (\<lambda>k. Inr (Some k))
                                    | None \<Rightarrow> Inr None)) (\<lambda>common_height.
                    disconnect_tips X (unat (disconnects tip_height common_height)) n)) (\<lambda>n1.
      if try_get_tip (nd_state n1) \<noteq> common then Some (Inl (Panic ''assertion failed: tip_hash == common_ancestor''))
      else
        opt_then (Some (case common of
                          Some c \<Rightarrow> and_then (of_archive (get_header A c)) (\<lambda>hdr. Inr (Some (prev_main_hash hdr)))
                        | None \<Rightarrow> Inr None)) (\<lambda>stop.
        opt_then (map_option of_archive (main_infos A (\<lambda>_. True) stop (prev_main_hash (fst (hd blocks))))) (\<lambda>infos.
        Some (Inr (rev blocks, rev infos, n1))))))))"

text \<open>The result, and what is committed when the function returns.\<close>

definition reorg_to_tip ::
  "'acc ext \<Rightarrow> (hash256 fset \<Rightarrow> hash256 list) \<Rightarrow> rpc option \<Rightarrow> Tip \<Rightarrow> 'acc Node \<Rightarrow> (bool nres \<times> 'acc Node) option" where
  "reorg_to_tip X ord rpc new n =
     (case node_tip ord n of
        Inl e \<Rightarrow> Some (Inl e, n)
      | Inr old \<Rightarrow>
          (case improves (nd_archive n) old new of
             None \<Rightarrow> None
           | Some (Inl e) \<Rightarrow> Some (Inl e, n)
           | Some (Inr False) \<Rightarrow> Some (Inr False, n)
           | Some (Inr True) \<Rightarrow>
               (case prepare_reorg X old new n of
                  None \<Rightarrow> None
                | Some (Inl e) \<Rightarrow> Some (Inl e, n)
                | Some (Inr (blocks, batch, n1)) \<Rightarrow>
                    (case apply_blocks X ord rpc old blocks batch n1 n of
                       None \<Rightarrow> None
                     | Some (Inl e, db) \<Rightarrow> Some (Inl e, db)
                     | Some (Inr n2, db) \<Rightarrow>
                         if try_get_tip (nd_state n2) = Some (tip_block_hash new) then Some (Inr True, n2)
                         else Some (Inl (Panic ''assertion failed: tip == Some(new_tip.block_hash)''), db)))))"

text \<open>
  The handler of a tip that is ready: only tips that build on the current mainchain are considered. An
  error of the state does not end the task; the peer that sent the tip is dropped.
\<close>

definition try_new_tip ::
  "'acc ext \<Rightarrow> (hash256 fset \<Rightarrow> hash256 list) \<Rightarrow> rpc option \<Rightarrow> Tip \<Rightarrow> 'acc Node \<Rightarrow> (bool nres \<times> 'acc Node) option" where
  "try_new_tip X ord rpc new n =
     (let A = nd_archive n in
      if \<not> db_has (sidechain_tips (ar_side_tips A)) (tip_block_hash new) then Some (Inr False, n)
      else
        (case is_main_descendant A (tip_main_block_hash new) (mainchain_tip_hash (mainchain_tip (ar_side_tips A))) of
           Inl e \<Rightarrow> Some (of_archive (Inl e), n)
         | Inr False \<Rightarrow> Some (Inr False, n)
         | Inr True \<Rightarrow> reorg_to_tip X ord rpc new n))"

definition new_tip_ready ::
  "'acc ext \<Rightarrow> (hash256 fset \<Rightarrow> hash256 list) \<Rightarrow> rpc option \<Rightarrow> Tip \<Rightarrow> 'peer option \<Rightarrow> 'acc Node \<Rightarrow>
   ((bool \<times> 'peer option) nres \<times> 'acc Node) option" where
  "new_tip_ready X ord rpc new addr n =
     (case try_new_tip X ord rpc new n of
        None \<Rightarrow> None
      | Some (Inr applied, db) \<Rightarrow> Some (Inr (applied, None), db)
      | Some (Inl (Fail e), db) \<Rightarrow>
          if is_fatal_reorg_error e then Some (Inl (Fail e), db) else Some (Inr (False, addr), db)
      | Some (Inl (Panic m), db) \<Rightarrow> Some (Inl (Panic m), db))"

end
