(* ===== verification/Mainchain_Task.thy ===== *)
theory Mainchain_Task
  imports Archive_Walk
begin

text \<open>
  The task that follows the mainchain (\<^verbatim>\<open>src/lib/node/mainchain_task.rs\<close>): it stores mainchain headers
  and infos that are asked for, and keeps the sidechain tips at the mainchain's tip. The client of
  the mainchain node is a parameter; progress counters and logging are left out.
\<close>

section \<open>Requests for ancestors\<close>

text \<open>
  The client's answer to \<open>get_block_infos\<close>: an error, that the block is not available, or a non-empty list
  of infos from the block towards the genesis block.
\<close>

type_synonym block_info_client = "hash256 \<Rightarrow> u32 \<Rightarrow> (BlockHeaderInfo \<times> BlockInfo) list option option"

datatype TaskError =
  TkArchive ArchiveError
| TkMainchain

type_synonym 'a tres = "TaskError fault + 'a"

definition batch_request_size :: u32 where
  "batch_request_size = 20000"

text \<open>The loop of requests; \<open>infos\<close> are the infos so far, newest first.\<close>

partial_function (option) fetch_infos ::
  "block_info_client \<Rightarrow> 'acc Archive \<Rightarrow> hash256 \<Rightarrow> (BlockHeaderInfo \<times> BlockInfo) list \<Rightarrow>
   (BlockHeaderInfo \<times> BlockInfo) list option tres option" where
  "fetch_infos client A cur infos =
     (case client cur (batch_request_size - 1) of
        None \<Rightarrow> Some (Inl (Fail TkMainchain))
      | Some None \<Rightarrow> Some (Inr None)
      | Some (Some resp) \<Rightarrow>
          let next = bhi_prev_block_hash (fst (last resp)); infos1 = infos @ resp in
          if next = 0 \<or> fmlookup (main_header_infos A) next \<noteq> None then Some (Inr (Some infos1))
          else fetch_infos client A next infos1)"

declare fetch_infos.simps [code]

definition store_main_block ::
  "(hash256 fset \<Rightarrow> hash256 list) \<Rightarrow> BlockHeaderInfo \<times> BlockInfo \<Rightarrow> 'acc Archive \<Rightarrow> 'acc Archive ares" where
  "store_main_block ord = (\<lambda>(hi, info) A.
     and_then (put_main_header_info hi A) (put_main_block_info ord (bhi_block_hash hi) info))"

definition request_ancestor_infos ::
  "(hash256 fset \<Rightarrow> hash256 list) \<Rightarrow> block_info_client \<Rightarrow> hash256 \<Rightarrow> 'acc Archive \<Rightarrow> (bool \<times> 'acc Archive) tres option" where
  "request_ancestor_infos ord client m A =
     (if m = 0 \<or> fmlookup (main_header_infos A) m \<noteq> None then Some (Inr (True, A))
      else
        opt_then (fetch_infos client A m []) (\<lambda>r.
        case r of
          None \<Rightarrow> Some (Inr (False, A))
        | Some infos \<Rightarrow>
            Some (and_then (map_fault TkArchive (try_fold (store_main_block ord) (rev infos) A)) (\<lambda>A1.
                  Inr (True, A1)))))"

section \<open>Mainchain blocks\<close>

datatype MainchainEvent =
  ConnectBlock BlockHeaderInfo BlockInfo
| DisconnectBlock hash256

text \<open>
  The commitment of a mainchain block that is handed to the sidechain tips: only to a sidechain block
  whose body is stored, whose parent is a tip, and whose merged mining is verified.
\<close>

definition usable_commitment :: "'acc Archive \<Rightarrow> hash256 \<Rightarrow> BlockInfo \<Rightarrow> BmmCommitment option ares" where
  "usable_commitment A m info =
     (case bmm_commitment info of
        None \<Rightarrow> Inr None
      | Some h \<Rightarrow>
          if \<not> contains_body A h then Inr None
          else
            and_then (get_header A h) (\<lambda>hdr.
            if (case prev_side_hash hdr of
                  Some p \<Rightarrow> \<not> db_has (sidechain_tips (ar_side_tips A)) p | None \<Rightarrow> False) then Inr None
            else
              and_then (get_bmm_result A h m) (\<lambda>r.
              Inr (case r of
                     BmmVerified \<Rightarrow> Some \<lparr>sidechain_block_hash = h, sidechain_header_data = header_data hdr\<rparr>
                   | BmmFailed \<Rightarrow> None))))"

definition connect_main_tip :: "BlockHeaderInfo \<Rightarrow> BlockInfo \<Rightarrow> 'acc Archive \<Rightarrow> 'acc Archive ares" where
  "connect_main_tip hi info A =
     and_then (usable_commitment A (bhi_block_hash hi) info) (\<lambda>bc.
     ar_side (connect_mainchain_tip hi bc (ar_side_tips A)) A)"

definition disconnect_main_tip :: "BlockHeaderInfo \<Rightarrow> 'acc Archive \<Rightarrow> (BlockHeaderInfo option \<times> 'acc Archive) ares" where
  "disconnect_main_tip hi A =
     and_then (main_parent_header_info A hi) (\<lambda>parent.
     and_then (get_main_block_info A (bhi_block_hash hi)) (\<lambda>info.
     and_then (ar_side (disconnect_mainchain_tip parent (bmm_commitment info) (ar_side_tips A)) A) (\<lambda>A1.
     Inr (parent, A1))))"

definition handle_block_event ::
  "(hash256 fset \<Rightarrow> hash256 list) \<Rightarrow> MainchainEvent \<Rightarrow> 'acc Archive \<Rightarrow> 'acc Archive ares" where
  "handle_block_event ord ev A =
     (case ev of
        ConnectBlock hi info \<Rightarrow> and_then (store_main_block ord (hi, info) A) (connect_main_tip hi info)
      | DisconnectBlock m \<Rightarrow>
          and_then (get_main_header_info A m) (\<lambda>hi.
          and_then (get_main_block_info A m) (\<lambda>info.
          and_then (main_parent_header_info A hi) (\<lambda>parent.
          ar_side (disconnect_mainchain_tip parent (bmm_commitment info) (ar_side_tips A)) A))))"

section \<open>Synchronization\<close>

text \<open>The loops carry the info of the current tip, the archive and the events so far.\<close>

type_synonym 'acc sync = "BlockHeaderInfo option \<times> 'acc Archive \<times> MainchainEvent list"

partial_function (option) rewind_main :: "hash256 \<Rightarrow> 'acc sync \<Rightarrow> 'acc sync ares option" where
  "rewind_main common st =
     (case st of (cur, A, evs) \<Rightarrow>
      (case cur of
         None \<Rightarrow> Some (Inr (None, A, evs))
       | Some hi \<Rightarrow>
           if bhi_block_hash hi = common then Some (Inr (Some hi, A, evs))
           else
             (case disconnect_main_tip hi A of
                Inl e \<Rightarrow> Some (Inl e)
              | Inr (parent, A1) \<Rightarrow> rewind_main common (parent, A1, evs @ [DisconnectBlock (bhi_block_hash hi)]))))"

declare rewind_main.simps [code]

definition connect_main :: "BlockHeaderInfo \<Rightarrow> 'acc sync \<Rightarrow> 'acc sync ares" where
  "connect_main hi = (\<lambda>(_, A, evs).
     and_then (get_main_block_info A (bhi_block_hash hi)) (\<lambda>info.
     and_then (connect_main_tip hi info A) (\<lambda>A1.
     Inr (Some hi, A1, evs @ [ConnectBlock hi info]))))"

definition main_tip_hash :: "BlockHeaderInfo option \<Rightarrow> hash256" where
  "main_tip_hash cur = (case cur of None \<Rightarrow> 0 | Some hi \<Rightarrow> bhi_block_hash hi)"

definition sync_batch_size :: nat where
  "sync_batch_size = 32"

definition next_main_batch :: "hash256 \<Rightarrow> 'acc sync \<Rightarrow> BlockHeaderInfo list ares" where
  "next_main_batch m = (\<lambda>(cur, A, _).
     iter_take (main_ancestors_rev_next A m) sync_batch_size
       (rev_new (case cur of None \<Rightarrow> 0 | Some hi \<Rightarrow> bhi_height hi + 1)))"

partial_function (option) advance_main :: "hash256 \<Rightarrow> 'acc sync \<Rightarrow> 'acc sync ares option" where
  "advance_main m st =
     (if main_tip_hash (fst st) = m then Some (Inr st)
      else
        (case and_then (next_main_batch m st) (\<lambda>his. try_fold connect_main his st) of
           Inl e \<Rightarrow> Some (Inl e)
         | Inr st1 \<Rightarrow> advance_main m st1))"

declare advance_main.simps [code]

definition sync_common_ancestor :: "'acc Archive \<Rightarrow> hash256 \<Rightarrow> hash256 ares option" where
  "sync_common_ancestor A m =
     (let cur = mainchain_tip_hash (mainchain_tip (ar_side_tips A)) in
      if cur = 0 \<or> m = 0 then Some (Inr 0) else last_common_main_ancestor A m cur)"

text \<open>The events are sent after the commit.\<close>

definition sync_side_tips_to_tip :: "hash256 \<Rightarrow> 'acc Archive \<Rightarrow> ('acc Archive \<times> MainchainEvent list) ares option" where
  "sync_side_tips_to_tip m A =
     opt_then (sync_common_ancestor A m) (\<lambda>common.
     opt_then (rewind_main common (tip_info (mainchain_tip (ar_side_tips A)), A, [])) (\<lambda>st.
     opt_then (advance_main m st) (\<lambda>(_, A1, evs). Some (Inr (A1, evs)))))"

end
