(* ===== verification/Node_Ops.thy ===== *)
theory Node_Ops
  imports Node Mainchain_Task
begin

text \<open>The operations of the node (\<^verbatim>\<open>src/lib/node/mod.rs\<close>) that read or change more than one component.\<close>

section \<open>Blocks\<close>

partial_function (option) rewind_to :: "'acc ext \<Rightarrow> BlockHash option \<Rightarrow> 'acc Node \<Rightarrow> 'acc Node nres option" where
  "rewind_to X target n =
     (if try_get_tip (nd_state n) = target then Some (Inr n)
      else
        (case node_disconnect_tip X n of
           None \<Rightarrow> None
         | Some (Inl e) \<Rightarrow> Some (Inl e)
         | Some (Inr n1) \<Rightarrow> rewind_to X target n1))"

declare rewind_to.simps [code]

definition node_invalidate_block ::
  "'acc ext \<Rightarrow> (hash256 fset \<Rightarrow> hash256 list) \<Rightarrow> BlockHash \<Rightarrow> 'acc Node \<Rightarrow> 'acc Node nres option" where
  "node_invalidate_block X ord h n =
     (let A = nd_archive n in
      case fmlookup (ar_headers A) h of
        None \<Rightarrow> Some (Inr n)
      | Some hdr \<Rightarrow>
          opt_then (Some (case try_get_tip (nd_state n) of
                            Some t \<Rightarrow> of_archive (is_descendant A h t) | None \<Rightarrow> Inr False)) (\<lambda>active.
          opt_then (if active then rewind_to X (prev_side_hash hdr) n else Some (Inr n)) (\<lambda>n1.
          Some (Inr (n1\<lparr>nd_archive := invalidate_block ord h (nd_archive n1)\<rparr>)))))"

text \<open>\<open>ancestors(tip).nth(k)\<close>: the iterator ends after the genesis block.\<close>

fun nth_ancestor_hash :: "'acc Archive \<Rightarrow> nat \<Rightarrow> BlockHash option \<Rightarrow> BlockHash option ares" where
  "nth_ancestor_hash A k None = Inr None"
| "nth_ancestor_hash A 0 (Some h) = and_then (get_header A h) (\<lambda>_. Inr (Some h))"
| "nth_ancestor_hash A (Suc k) (Some h) =
     and_then (get_header A h) (\<lambda>hdr. nth_ancestor_hash A k (prev_side_hash hdr))"

definition try_get_block_hash :: "u32 \<Rightarrow> 'acc Node \<Rightarrow> BlockHash option ares" where
  "try_get_block_hash h n =
     (case (try_get_tip (nd_state n), try_get_height (nd_state n)) of
        (Some t, Some tip_height) \<Rightarrow>
          if tip_height \<ge> h then nth_ancestor_hash (nd_archive n) (unat (tip_height - h)) (Some t)
          else Inr None
      | _ \<Rightarrow> Inr None)"

text \<open>\<open>Inr None\<close> is the error \<open>NotInCurrentChain\<close>.\<close>

definition node_block_index_events :: "BlockHash \<Rightarrow> 'acc Node \<Rightarrow> BlockIndexEvents option ares" where
  "node_block_index_events h n =
     and_then (ar_get_height (nd_archive n) h) (\<lambda>k.
     and_then (try_get_block_hash k n) (\<lambda>g.
     Inr (if g \<noteq> Some h then None else Some (get_block_index_events k (nd_state n)))))"

definition get_bmm_inclusions :: "(hash256 fset \<Rightarrow> hash256 list) \<Rightarrow> BlockHash \<Rightarrow> 'acc Node \<Rightarrow> hash256 list" where
  "get_bmm_inclusions ord h n = verified_in ord (nd_archive n) h"

section \<open>Transactions\<close>

text \<open>
  The errors whose message contains ``orphaned lock'' or ``corrupted swap'': the message of an input that is
  locked to a swap that does not exist or does not decode.
\<close>

fun names_orphaned_lock :: "Error fault \<Rightarrow> bool" where
  "names_orphaned_lock (Fail (InvalidTransaction (InputLockedOrphan _ _))) = True"
| "names_orphaned_lock _ = False"

text \<open>
  The result, what is committed, and the transaction that is pushed to the peers. A clean-up is
  committed before the transaction is validated again.
\<close>

definition submit_transaction ::
  "'acc ext \<Rightarrow> AuthorizedTransaction \<Rightarrow> 'acc Node \<Rightarrow> AuthorizedTransaction nres \<times> 'acc Node" where
  "submit_transaction X at n =
     (case of_state (regenerate_proof X (nd_state n) (auth_transaction at)) of
        Inl e \<Rightarrow> (Inl e, n)
      | Inr tx \<Rightarrow>
          let at1 = at\<lparr>auth_transaction := tx\<rparr>;
              add = (\<lambda>m. case of_mempool (pool_put X at1 (nd_mempool m)) of
                           Inl e \<Rightarrow> (Inl e, m) | Inr p \<Rightarrow> (Inr at1, m\<lparr>nd_mempool := p\<rparr>)) in
          (case validate_transaction X (nd_state n) at1 of
             Inr _ \<Rightarrow> add n
           | Inl e \<Rightarrow>
               if names_orphaned_lock e then
                 let (cleaned, s1) = cleanup_orphaned_locks (nd_state n) in
                 if cleaned > 0 then
                   let n1 = n\<lparr>nd_state := s1\<rparr> in
                   (case of_state (validate_transaction X s1 at1) of
                      Inr _ \<Rightarrow> add n1
                    | Inl e1 \<Rightarrow> (Inl e1, n1))
                 else (of_state (Inl e), n)
               else (of_state (Inl e), n)))"

text \<open>
  The transactions for a block template. The loop state has the pool, the transactions so far, their
  inputs and their fees.
\<close>

record Template =
  tp_pool :: MemPool
  tp_filled :: "(FilledTransaction \<times> Authorization list) list"
  tp_spent :: "(OutPoint \<times> hash256) set"
  tp_fee :: amount

datatype TemplateError =
  TpState Error
| TpAmountOverflow
| TpAmountUnderflow

definition template_fee :: "FilledTransaction \<Rightarrow> amount \<Rightarrow> TemplateError fault + amount" where
  "template_fee ft fee =
     and_then (ok_or (Fail TpAmountOverflow) (checked_sum (map get_value (spent_utxos ft)))) (\<lambda>value_in.
     and_then (ok_or (Fail TpAmountOverflow) (checked_sum (map get_value (outputs (transaction ft))))) (\<lambda>value_out.
     and_then (ok_or (Fail TpAmountOverflow) (checked_sub value_in value_out)) (\<lambda>f.
     ok_or (Fail TpAmountUnderflow) (checked_add fee f))))"

definition template_step ::
  "'acc ext \<Rightarrow> 'acc State \<Rightarrow> AuthorizedTransaction \<Rightarrow> Template \<Rightarrow> TemplateError fault + Template" where
  "template_step X s at t =
     (let tx = auth_transaction at; drop = t\<lparr>tp_pool := pool_delete (txid X tx) (tp_pool t)\<rparr> in
      if tp_spent t \<inter> set (inputs tx) \<noteq> {} then Inr drop
      else
        (case validate_transaction X s at of
           Inl (Panic m) \<Rightarrow> Inl (Panic m)
         | Inl (Fail _) \<Rightarrow> Inr drop
         | Inr _ \<Rightarrow>
             and_then (map_fault TpState (fill_authorized_transaction s at)) (\<lambda>(ft, auths).
             and_then (template_fee ft (tp_fee t)) (\<lambda>fee.
             Inr (t\<lparr>tp_filled := tp_filled t @ [(ft, auths)], tp_spent := tp_spent t \<union> set (inputs (transaction ft)),
                    tp_fee := fee\<rparr>)))))"

definition get_transactions ::
  "'acc ext \<Rightarrow> nat \<Rightarrow> 'acc Node \<Rightarrow>
   TemplateError fault + ((FilledTransaction \<times> Authorization list) list \<times> amount \<times> 'acc Node)" where
  "get_transactions X k n =
     and_then (try_fold (template_step X (nd_state n)) (pool_take k (nd_mempool n))
                \<lparr>tp_pool = nd_mempool n, tp_filled = [], tp_spent = {}, tp_fee = 0\<rparr>) (\<lambda>t.
     Inr (tp_filled t, tp_fee t, n\<lparr>nd_mempool := tp_pool t\<rparr>))"

definition remove_from_mempool :: "Txid \<Rightarrow> 'acc Node \<Rightarrow> 'acc Node" where
  "remove_from_mempool t n = n\<lparr>nd_mempool := pool_delete t (nd_mempool n)\<rparr>"

section \<open>Submitting a block\<close>

datatype SubmitError =
  SbNode NodeError
| SbMainchainAncestors TaskError

text \<open>Every step commits on its own, so the environment after an error has the steps before it.\<close>

definition submit_header ::
  "'acc ext \<Rightarrow> (hash256 fset \<Rightarrow> hash256 list) \<Rightarrow> block_info_client \<Rightarrow> hash256 \<Rightarrow> Header \<Rightarrow> 'acc Node \<Rightarrow>
   ((bool \<times> 'acc Node) + (SubmitError fault \<times> 'acc Node)) option" where
  "submit_header X ord client m hdr n =
     (if (case prev_side_hash hdr of Some p \<Rightarrow> fmlookup (ar_headers (nd_archive n)) p = None | None \<Rightarrow> False)
      then Some (Inl (False, n))
      else
        (case request_ancestor_infos ord client m (nd_archive n) of
           None \<Rightarrow> None
         | Some (Inl e) \<Rightarrow> Some (Inr (case e of Fail e0 \<Rightarrow> Fail (SbMainchainAncestors e0) | Panic s \<Rightarrow> Panic s, n))
         | Some (Inr (False, A1)) \<Rightarrow> Some (Inl (False, n\<lparr>nd_archive := A1\<rparr>))
         | Some (Inr (True, A1)) \<Rightarrow>
             let n1 = n\<lparr>nd_archive := A1\<rparr> in
             (case and_then (put_header X ord hdr A1) (\<lambda>A2.
                    Inr (n1\<lparr>nd_archive := A2\<rparr>, get_bmm_result A2 (header_hash X hdr) m)) of
                Inl e \<Rightarrow> Some (Inr (case e of Fail e0 \<Rightarrow> Fail (SbNode (NdArchive e0)) | Panic s \<Rightarrow> Panic s, n1))
              | Inr (n2, Inl e) \<Rightarrow> Some (Inr (case e of Fail e0 \<Rightarrow> Fail (SbNode (NdArchive e0)) | Panic s \<Rightarrow> Panic s, n2))
              | Inr (n2, Inr r) \<Rightarrow> Some (Inl (r = BmmVerified, n2)))))"

definition submit_body ::
  "(hash256 fset \<Rightarrow> hash256 list) \<Rightarrow> BlockHash \<Rightarrow> Body \<Rightarrow> 'acc Node \<Rightarrow> (bool \<times> 'acc Node) nres option" where
  "submit_body ord h body n =
     (let A = nd_archive n in
      opt_then (case try_get_tip (nd_state n) of
                  Some t \<Rightarrow> map_option of_archive (last_common_ancestor A t h)
                | None \<Rightarrow> Some (Inr None)) (\<lambda>common.
      opt_then (map_option of_archive (get_missing_bodies A h common)) (\<lambda>missing.
      if missing \<noteq> [] \<and> missing \<noteq> [h] then Some (Inr (False, n))
      else if missing = [h] then
        opt_then (map_option of_archive (put_body ord h body A)) (\<lambda>A1. Some (Inr (True, n\<lparr>nd_archive := A1\<rparr>)))
      else Some (Inr (True, n)))))"

text \<open>
  The net task answers \<open>false\<close> for a rejected tip; a fatal error ends it, and the answer is \<open>false\<close> too.
  The proposal of a pending bundle to the mainchain node after an accepted block is left out.
\<close>

definition submit_block ::
  "'acc ext \<Rightarrow> (hash256 fset \<Rightarrow> hash256 list) \<Rightarrow> block_info_client \<Rightarrow> rpc option \<Rightarrow> hash256 \<Rightarrow> Header \<Rightarrow> Body \<Rightarrow>
   'acc Node \<Rightarrow> ((SubmitError fault + bool) \<times> 'acc Node) option" where
  "submit_block X ord client rpc m hdr body n =
     (case submit_header X ord client m hdr n of
        None \<Rightarrow> None
      | Some (Inr (e, n1)) \<Rightarrow> Some (Inl e, n1)
      | Some (Inl (False, n1)) \<Rightarrow> Some (Inr False, n1)
      | Some (Inl (True, n1)) \<Rightarrow>
          (case submit_body ord (header_hash X hdr) body n1 of
             None \<Rightarrow> None
           | Some (Inl e) \<Rightarrow> Some (map_fault SbNode (Inl e), n1)
           | Some (Inr (False, n2)) \<Rightarrow> Some (Inr False, n2)
           | Some (Inr (True, n2)) \<Rightarrow>
               (case new_tip_ready X ord rpc \<lparr>tip_block_hash = header_hash X hdr, tip_main_block_hash = m\<rparr>
                       (None :: unit option) n2 of
                  None \<Rightarrow> None
                | Some (Inr (applied, _), n3) \<Rightarrow> Some (Inr applied, n3)
                | Some (Inl _, n3) \<Rightarrow> Some (Inr False, n3))))"

end
