(* ===== verification/Node_Position.thy ===== *)
theory Node_Position
  imports Node_Ops Archive_Machine
begin

text \<open>
  The position of a state on the chain, its tip and height: peg data leave it alone, a connected block
  sets it.
\<close>

section \<open>Two-way peg data leave the position alone\<close>

definition position :: "'acc State \<Rightarrow> BlockHash option \<times> u32 option" where
  "position s = (tip s, height s)"

lemma position_simps [simp]:
  "position (s\<lparr>utxos := u\<rparr>) = position s" "position (s\<lparr>stxos := t\<rparr>) = position s"
  "position (s\<lparr>pending_withdrawal_bundle := p\<rparr>) = position s"
  "position (s\<lparr>latest_failed_withdrawal_bundle := f\<rparr>) = position s"
  "position (s\<lparr>withdrawal_bundles := w\<rparr>) = position s"
  "position (s\<lparr>block_index_events := e\<rparr>) = position s"
  "position (s\<lparr>deposit_blocks := d\<rparr>) = position s"
  "position (s\<lparr>withdrawal_bundle_event_blocks := b\<rparr>) = position s"
  "position (s\<lparr>utreexo_accumulator := a\<rparr>) = position s"
  "position (s\<lparr>expired_swaps := x\<rparr>) = position s"
  "position (put_bundle m v s) = position s"
  by (simp_all add: position_def put_bundle_def)

lemma position_frame: "swap_frame s s' \<Longrightarrow> position s' = position s"
  by (simp add: swap_frame_def position_def)

lemma fold_keeps: "(\<And>x s. g (f x s) = g s) \<Longrightarrow> g (fold f xs s) = g s"
  by (induction xs arbitrary: s) simp_all

lemma bundle_folds_position [simp]:
  "position (peg_state (fold (bundle_spend X m) es p)) = position (peg_state p)"
  "position (peg_state (fold (bundle_restore X) es p)) = position (peg_state p)"
  "position (peg_state (confirm_all_utxos X m p)) = position (peg_state p)"
  by (rule fold_keeps [of "\<lambda>p. position (peg_state p)"],
      simp add: bundle_spend_def bundle_restore_def Let_def split: prod.splits)+
    (simp add: confirm_all_utxos_def Let_def, rule fold_keeps [of "\<lambda>p. position (peg_state p)"],
      simp add: Let_def split: prod.splits)

lemma connect_bundle_position:
  assumes "connect_withdrawal_bundle_event X h bh m st p = Inr p'"
  shows "position (peg_state p') = position (peg_state p)"
proof (cases st)
  case Submitted
  then show ?thesis using assms
    by (auto simp: connect_withdrawal_bundle_event_def connect_withdrawal_bundle_submitted_def Let_def
        split: option.splits if_splits)
next
  case Confirmed
  then show ?thesis using assms
    by (auto simp: connect_withdrawal_bundle_event_def connect_withdrawal_bundle_confirmed_def Let_def res_simps
        split: if_splits)
next
  case Failed
  then show ?thesis using assms
    by (auto simp: connect_withdrawal_bundle_event_def connect_withdrawal_bundle_failed_def Let_def res_simps
        split: if_splits WithdrawalBundleInfo.splits)
qed

lemma connect_event_position:
  assumes "connect_event X h ev p = Inr p'"
  shows "position (peg_state p') = position (peg_state p)"
  using assms
  by (cases ev; cases "snd ev") (auto simp: connect_event_def Let_def res_simps dest: connect_bundle_position)

lemma unlock_all_position [simp]: "position (fold unlock_output_from_swap ops s) = position s"
  using swap_frame_fold(1) [of s "\<lambda>_ _. True" ops] by (simp add: position_frame)

lemma process_swap_position:
  assumes "process_swap X rpc h bh sw (revs, s) = Inr (revs', s')"
  shows "position s' = position s"
  using assms
  by (auto simp: process_swap_def expire_swap_def Let_def res_simps split: if_splits option.splits sum.splits
      dest!: swap_frame_save position_frame)

lemma process_coinshift_position:
  assumes "process_coinshift_transactions X rpc h bh s = Inr s'"
  shows "position s' = position s"
proof -
  obtain revs s1 where f: "try_fold (process_swap X rpc h bh) (load_all_swaps s) ([], s) = Inr (revs, s1)"
    and s': "s' = s1 \<or> s' = s1\<lparr>expired_swaps := fmupd h revs (expired_swaps s1)\<rparr>"
    using assms by (auto simp: process_coinshift_transactions_def res_simps split: if_splits)
  have "position s1 = position s"
    using try_fold_keeps [OF f, of "\<lambda>x. position (snd x)"] process_swap_position by fastforce
  with s' show ?thesis by auto
qed

lemma connect_peg_position:
  assumes "connect_two_way_peg_data X rpc d s = Inr s'"
  shows "position s' = position s"
proof -
  obtain h p bh s2 s3 where p: "try_fold (connect_event X h) (peg_event_list d) (peg_start s) = Inr p"
    and s2: "process_coinshift_transactions X rpc h bh (if bi_is_empty (peg_events p) then peg_state p
      else (peg_state p)\<lparr>block_index_events := fmupd h (peg_events p) (block_index_events (peg_state p))\<rparr>) = Inr s2"
    and s3: "collect_pending X h (record_event_blocks h (peg_deposit_block p) (peg_bundle_block p) s2) = Inr s3"
    and s': "apply_accumulator_diff X (peg_diff p) (get_accumulator X s) s3 = Inr s'"
    using assms unfolding connect_two_way_peg_data_def Let_def by (force simp only: and_then_eq_Inr)
  have "position (peg_state p) = position s"
    using try_fold_keeps [OF p, of "\<lambda>p. position (peg_state p)"] connect_event_position by (fastforce simp: peg_start_def)
  moreover have "position s3 = position s2"
    using s3 by (auto simp: collect_pending_def record_event_blocks_def Let_def res_simps split: if_splits option.splits)
  moreover have "position s' = position s3"
    using s' by (auto simp: apply_accumulator_diff_def res_simps split: sum.splits)
  ultimately show ?thesis using process_coinshift_position [OF s2] by (simp split: if_splits)
qed

lemma unsubmit_position:
  assumes "try_fold (unsubmit_output X) es p = Inr p'"
  shows "position (peg_state p') = position (peg_state p)"
  by (rule try_fold_keeps [OF assms, of "\<lambda>p. position (peg_state p)"])
    (auto simp: unsubmit_output_def bundle_restore_def Let_def split: if_splits prod.splits)

lemma unconfirm_position:
  assumes "try_fold (unconfirm_output X) es p = Inr p'"
  shows "position (peg_state p') = position (peg_state p)"
  by (rule try_fold_keeps [OF assms, of "\<lambda>p. position (peg_state p)"])
    (auto simp: unconfirm_output_def Let_def split: if_splits prod.splits)

lemma unfail_position:
  assumes "try_fold (unfail_output X m) es p = Inr p'"
  shows "position (peg_state p') = position (peg_state p)"
  by (rule try_fold_keeps [OF assms, of "\<lambda>p. position (peg_state p)"])
    (auto simp: unfail_output_def Let_def split: if_splits prod.splits)

lemma disconnect_bundle_position:
  assumes "disconnect_withdrawal_bundle_event X h m st p = Inr p'"
  shows "position (peg_state p') = position (peg_state p)"
proof (cases st)
  case Submitted
  then show ?thesis using assms
    by (auto simp: disconnect_withdrawal_bundle_event_def disconnect_withdrawal_bundle_submitted_def Let_def res_simps
        split: option.splits if_splits WithdrawalBundleInfo.splits dest!: unsubmit_position)
next
  case Confirmed
  then show ?thesis using assms
    by (auto simp: disconnect_withdrawal_bundle_event_def disconnect_withdrawal_bundle_confirmed_def res_simps
        split: if_splits WithdrawalBundleInfo.splits dest!: unconfirm_position)
next
  case Failed
  then show ?thesis using assms
    by (auto simp: disconnect_withdrawal_bundle_event_def disconnect_withdrawal_bundle_failed_def res_simps
        split: if_splits WithdrawalBundleInfo.splits dest!: unfail_position)
qed

lemma disconnect_event_position:
  assumes "disconnect_event X h ev p = Inr p'"
  shows "position (peg_state p') = position (peg_state p)"
  using assms
  by (cases ev; cases "snd ev")
    (auto simp: disconnect_event_def Let_def res_simps split: if_splits dest: disconnect_bundle_position)

lemma lock_all_position [simp]: "position (fold (\<lambda>op. lock_output_to_swap op i) ops s) = position s"
  by (simp add: position_frame swap_frame_fold)

lemma save_position: "save_swap X sw s = Inr s' \<Longrightarrow> position s' = position s"
  by (simp add: position_frame swap_frame_save)

lemma restore_expiries_position:
  assumes "restore_expiries X h s = Inr s'"
  shows "position s' = position s"
proof (cases "fmlookup (expired_swaps s) h")
  case (Some revs)
  then obtain s1 where s1: "try_fold (restore_expired X) revs s = Inr s1" and "position s' = position s1"
    using assms by (auto simp: restore_expiries_def res_simps)
  moreover have "position s1 = position s"
    by (rule try_fold_keeps [OF s1])
      (auto simp: restore_expired_def res_simps split: option.splits dest!: save_position)
  ultimately show ?thesis by simp
qed (use assms in \<open>simp add: restore_expiries_def\<close>)

lemma accumulator_position: "apply_accumulator_diff X d acc s = Inr s' \<Longrightarrow> position s' = position s"
  by (auto simp: apply_accumulator_diff_def res_simps)

lemma pop_blocks_position:
  "(case b of None \<Rightarrow> Inr s | Some bh \<Rightarrow> and_then (f bh) (\<lambda>m. Inr (s\<lparr>withdrawal_bundle_event_blocks := m\<rparr>))) = Inr s' \<Longrightarrow>
     position s' = position s"
  "(case b of None \<Rightarrow> Inr s | Some bh \<Rightarrow> and_then (f bh) (\<lambda>m. Inr (s\<lparr>deposit_blocks := m\<rparr>))) = Inr s' \<Longrightarrow>
     position s' = position s"
  by (auto simp: res_simps split: option.splits)

lemma disconnect_events_position:
  assumes "try_fold (disconnect_event X h) evs (peg_start s) = Inr p"
  shows "position (peg_state p) = position s"
  using try_fold_keeps [OF assms, of "\<lambda>p. position (peg_state p)"] disconnect_event_position by (fastforce simp: peg_start_def)

lemma disconnect_peg_position:
  assumes "disconnect_two_way_peg_data X d s = Inr s'"
  shows "position s' = position s"
  using assms unfolding disconnect_two_way_peg_data_def Let_def
  by (clarsimp simp only: and_then_eq_Inr)
    (drule restore_expiries_position disconnect_events_position accumulator_position pop_blocks_position | simp split: if_splits)+

section \<open>Events of another block cannot be disconnected\<close>

text \<open>
  Disconnecting events leaves the record of deposit blocks alone, and remembers that it has met a
  deposit.
\<close>

definition deposits_seen :: "'acc Peg \<Rightarrow> (u32, hash256 \<times> u32) db \<times> hash256 option" where
  "deposits_seen p = (deposit_blocks (peg_state p), peg_deposit_block p)"

lemma unsubmit_deposits:
  assumes "try_fold (unsubmit_output X) es p = Inr p'"
  shows "deposits_seen p' = deposits_seen p"
  by (rule try_fold_keeps [OF assms])
    (auto simp: deposits_seen_def unsubmit_output_def bundle_restore_def Let_def split: if_splits prod.splits)

lemma unconfirm_deposits:
  assumes "try_fold (unconfirm_output X) es p = Inr p'"
  shows "deposits_seen p' = deposits_seen p"
  by (rule try_fold_keeps [OF assms])
    (auto simp: deposits_seen_def unconfirm_output_def Let_def split: if_splits prod.splits)

lemma unfail_deposits:
  assumes "try_fold (unfail_output X m) es p = Inr p'"
  shows "deposits_seen p' = deposits_seen p"
  by (rule try_fold_keeps [OF assms])
    (auto simp: deposits_seen_def unfail_output_def Let_def split: if_splits prod.splits)

lemma disconnect_bundle_deposits:
  assumes "disconnect_withdrawal_bundle_event X h m st p = Inr p'"
  shows "deposits_seen p' = deposits_seen p"
proof -
  have put: "deposits_seen (p\<lparr>peg_state := put_bundle m v (peg_state p)\<rparr>) = deposits_seen p"
      "deposits_seen (p\<lparr>peg_state := (peg_state p)\<lparr>latest_failed_withdrawal_bundle := r\<rparr>\<rparr>) = deposits_seen p"
      "deposits_seen (p\<lparr>peg_state := (peg_state p)\<lparr>withdrawal_bundles := w\<rparr>\<rparr>) = deposits_seen p"
      "deposits_seen (p\<lparr>peg_state := (peg_state p)\<lparr>pending_withdrawal_bundle := q\<rparr>\<rparr>) = deposits_seen p"
      "deposits_seen (p\<lparr>peg_state := (peg_state p)\<lparr>pending_withdrawal_bundle := q, withdrawal_bundles := w\<rparr>\<rparr>) = deposits_seen p"
      "deposits_seen (p\<lparr>peg_state := put_bundle m v ((peg_state p)\<lparr>latest_failed_withdrawal_bundle := r\<rparr>)\<rparr>) = deposits_seen p"
    for p :: "'a Peg" and v r w q by (simp_all add: deposits_seen_def put_bundle_def)
  show ?thesis
  proof (cases st)
    case Submitted
    then show ?thesis using assms
      by (auto simp: disconnect_withdrawal_bundle_event_def disconnect_withdrawal_bundle_submitted_def Let_def res_simps put
          split: option.splits if_splits WithdrawalBundleInfo.splits dest!: unsubmit_deposits)
  next
    case Confirmed
    then show ?thesis using assms
      by (auto simp: disconnect_withdrawal_bundle_event_def disconnect_withdrawal_bundle_confirmed_def res_simps put
          split: if_splits WithdrawalBundleInfo.splits dest!: unconfirm_deposits)
  next
    case Failed
    then show ?thesis using assms
      by (auto simp: disconnect_withdrawal_bundle_event_def disconnect_withdrawal_bundle_failed_def res_simps put
          split: if_splits WithdrawalBundleInfo.splits dest!: unfail_deposits)
  qed
qed

lemma disconnect_event_deposits:
  assumes "disconnect_event X h (bh, ev) p = Inr p'"
  shows "deposit_blocks (peg_state p') = deposit_blocks (peg_state p) \<and>
    (peg_deposit_block p \<noteq> None \<or> (\<exists>dep. ev = EvDeposit dep) \<longrightarrow> peg_deposit_block p' \<noteq> None)"
proof (cases ev)
  case (EvDeposit dep)
  then show ?thesis using assms by (auto simp: disconnect_event_def Let_def split: if_splits)
next
  case (EvBundle m st)
  with assms obtain p1 where "disconnect_withdrawal_bundle_event X h m st p = Inr p1"
      "deposit_blocks (peg_state p') = deposit_blocks (peg_state p1)" "peg_deposit_block p' = peg_deposit_block p1"
    by (auto simp: disconnect_event_def res_simps)
  with disconnect_bundle_deposits show ?thesis using EvBundle by (fastforce simp: deposits_seen_def)
qed

lemma disconnect_events_deposits:
  "try_fold (disconnect_event X h) evs p = Inr p' \<Longrightarrow>
     deposit_blocks (peg_state p') = deposit_blocks (peg_state p) \<and>
     (peg_deposit_block p \<noteq> None \<or> (\<exists>bh dep. (bh, EvDeposit dep) \<in> set evs) \<longrightarrow> peg_deposit_block p' \<noteq> None)"
proof (induction evs arbitrary: p)
  case (Cons e evs)
  obtain bh ev where e: "e = (bh, ev)" by (cases e)
  from Cons.prems obtain p1 where p1: "disconnect_event X h (bh, ev) p = Inr p1"
      "try_fold (disconnect_event X h) evs p1 = Inr p'" by (auto simp: e and_then_eq_Inr)
  from disconnect_event_deposits [OF p1(1)] Cons.IH [OF p1(2)] show ?case by (auto simp: e)
qed simp

lemma restore_expiries_deposits:
  assumes "restore_expiries X h s = Inr s'"
  shows "deposit_blocks s' = deposit_blocks s"
proof (cases "fmlookup (expired_swaps s) h")
  case (Some revs)
  then obtain s1 where s1: "try_fold (restore_expired X) revs s = Inr s1" and "deposit_blocks s' = deposit_blocks s1"
    using assms by (auto simp: restore_expiries_def res_simps)
  moreover have "deposit_blocks t' = deposit_blocks t" if "restore_expired X r t = Inr t'" for r t t'
  proof -
    obtain i st ops where r: "r = (i, st, ops)" by (cases r)
    from that obtain t1 where "t1 = t \<or> (\<exists>sw. save_swap X sw t = Inr t1)" "t' = fold (\<lambda>op. lock_output_to_swap op i) ops t1"
      by (auto simp: r restore_expired_def res_simps split: option.splits)
    then have "swap_frame t t'" by (auto intro: swap_frame_fold swap_frame_trans dest: swap_frame_save)
    then show ?thesis by (simp add: swap_frame_def)
  qed
  then have "deposit_blocks s1 = deposit_blocks s" by (rule try_fold_keeps [OF s1])
  ultimately show ?thesis by simp
qed (use assms in \<open>simp add: restore_expiries_def\<close>)

text \<open>
  A deposit event can be disconnected only at the height at which the last deposit block was applied.
\<close>

lemma foreign_deposit_fails:
  assumes h: "try_get_height s = Some h" and dep: "(bh, EvDeposit dep) \<in> set (peg_event_list d)"
    and last: "seq_last (deposit_blocks s) = Some (i, b, k)" "k \<noteq> h"
  shows "\<exists>e. disconnect_two_way_peg_data X d s = Inl e"
proof (cases "disconnect_two_way_peg_data X d s")
  case (Inr s')
  define clear where "clear = (\<lambda>(s3 :: 'a State) latest. if failure_gap_over h latest \<and>
      (case pending_withdrawal_bundle s3 of Some (_, bh) \<Rightarrow> bh = h | None \<Rightarrow> False)
    then s3\<lparr>pending_withdrawal_bundle := None\<rparr> else s3)"
  from Inr obtain s1 p s3 latest s5 where
      s1: "restore_expiries X h (s\<lparr>block_index_events := fmdrop h (block_index_events s)\<rparr>) = Inr s1"
      and p: "try_fold (disconnect_event X h) (rev (peg_event_list d)) (peg_start s1) = Inr p"
      and s3: "(case peg_bundle_block p of None \<Rightarrow> Inr (peg_state p)
        | Some bh \<Rightarrow> and_then (pop_seq NoWithdrawalBundleEventBlock bh h (withdrawal_bundle_event_blocks (peg_state p)))
            (\<lambda>m. Inr ((peg_state p)\<lparr>withdrawal_bundle_event_blocks := m\<rparr>))) = Inr s3"
      and s5: "(case peg_deposit_block p of None \<Rightarrow> Inr (clear s3 latest)
        | Some bh \<Rightarrow> and_then (pop_seq NoDepositBlock bh h (deposit_blocks (clear s3 latest)))
            (\<lambda>m. Inr ((clear s3 latest)\<lparr>deposit_blocks := m\<rparr>))) = Inr s5"
    unfolding disconnect_two_way_peg_data_def Let_def h clear_def by (force simp only: and_then_eq_Inr ok_or_simps)
  define s4 where "s4 = clear s3 latest"
  have s4: "deposit_blocks s4 = deposit_blocks s3" by (simp add: s4_def clear_def)
  note s5 = s5 [folded s4_def]
  have s3: "deposit_blocks s3 = deposit_blocks (peg_state p)"
    using s3 by (auto simp: res_simps split: option.splits)
  have "deposit_blocks s4 = deposit_blocks s"
    using restore_expiries_deposits [OF s1] disconnect_events_deposits [OF p] s3 s4 by (simp add: peg_start_def)
  moreover from disconnect_events_deposits [OF p] dep obtain bh' where "peg_deposit_block p = Some bh'"
    by auto
  ultimately show ?thesis using s5 last by (auto simp: res_simps pop_seq_def split: if_splits)
qed blast

text \<open>Where the deposits are unspent and nothing else happened, it is this height that is found wrong.\<close>

lemma disconnect_unspent_deposits:
  "distinct (map dep_outpoint deps) \<Longrightarrow>
   \<forall>x \<in> set deps. fmlookup (utxos (peg_state p)) (OpDeposit (dep_outpoint x)) \<noteq> None \<Longrightarrow>
   \<exists>p' u. try_fold (disconnect_event X h) (map (\<lambda>x. (bh, EvDeposit x)) deps) p = Inr p' \<and>
     peg_state p' = (peg_state p)\<lparr>utxos := u\<rparr> \<and> peg_bundle_block p' = peg_bundle_block p \<and>
     peg_deposit_block p' = (if deps = [] \<or> peg_deposit_block p \<noteq> None then peg_deposit_block p else Some bh)"
proof (induction deps arbitrary: p)
  case Nil
  show ?case by (intro exI [of _ p] exI [of _ "utxos (peg_state p)"]) simp
next
  case (Cons x deps)
  let ?op = "OpDeposit (dep_outpoint x)"
  define q where "q = p\<lparr>peg_state := (peg_state p)\<lparr>utxos := fmdrop ?op (utxos (peg_state p))\<rparr>,
    peg_diff := diff_remove (pointed_hash X ?op (dep_output x)) (peg_diff p),
    peg_deposit_block := (if peg_deposit_block p = None then Some bh else peg_deposit_block p)\<rparr>"
  have q: "disconnect_event X h (bh, EvDeposit x) p = Inr q"
    using Cons.prems by (simp add: disconnect_event_def Let_def q_def)
  have "\<forall>y \<in> set deps. fmlookup (utxos (peg_state q)) (OpDeposit (dep_outpoint y)) \<noteq> None"
    using Cons.prems by (auto simp: q_def image_iff)
  with Cons.IH [of q] Cons.prems(1) obtain p' u where
      p': "try_fold (disconnect_event X h) (map (\<lambda>x. (bh, EvDeposit x)) deps) q = Inr p'"
      "peg_state p' = (peg_state q)\<lparr>utxos := u\<rparr>" "peg_bundle_block p' = peg_bundle_block q"
      "peg_deposit_block p' = (if deps = [] \<or> peg_deposit_block q \<noteq> None then peg_deposit_block q else Some bh)"
    by auto
  then show ?case using q by (intro exI [of _ p'] exI [of _ u]) (simp add: q_def)
qed

lemma unspent_deposits_panic:
  assumes "try_get_height s = Some h" "seq_last (deposit_blocks s) = Some (i, d, k)" "k \<noteq> h" "deps \<noteq> []"
    and "distinct (map dep_outpoint deps)" "\<forall>x \<in> set deps. fmlookup (utxos s) (OpDeposit (dep_outpoint x)) \<noteq> None"
    and "fmlookup (expired_swaps s) h = None" "latest_failed_withdrawal_bundle s = None"
  shows "disconnect_two_way_peg_data X [(d, map EvDeposit deps)] s = Inl (Panic ''last event block height'')"
proof -
  let ?s0 = "s\<lparr>block_index_events := fmdrop h (block_index_events s)\<rparr>"
  have ev: "rev (peg_event_list [(d, map EvDeposit deps)]) = map (\<lambda>x. (d, EvDeposit x)) (rev deps)"
    by (simp add: peg_event_list_def rev_map comp_def)
  have "distinct (map dep_outpoint (rev deps))" using assms(5) by (simp flip: rev_map)
  from disconnect_unspent_deposits [OF this, of "peg_start ?s0" X h d] assms(4,6) obtain p u where
      "try_fold (disconnect_event X h) (map (\<lambda>x. (d, EvDeposit x)) (rev deps)) (peg_start ?s0) = Inr p"
      "peg_state p = ?s0\<lparr>utxos := u\<rparr>" "peg_bundle_block p = None" "peg_deposit_block p = Some d"
    by (auto simp: peg_start_def)
  then show ?thesis using assms
    by (auto simp: disconnect_two_way_peg_data_def restore_expiries_def ev
        get_latest_failed_withdrawal_bundle_def pop_seq_def Let_def)
qed

section \<open>Blocks move the position\<close>

lemma locks_position [simp]:
  "position (fold (\<lambda>op s. if P op s then unlock_output_from_swap op s else s) ops s) = position s"
  "position (fold (\<lambda>op s. if P op s then lock_output_to_swap op i s else s) ops s) = position s"
  by (rule fold_keeps, simp add: position_def lock_defs)+

lemma delete_swap_position [simp]:
  "position (delete_swap_unchecked i s) = position s" "position (clear_swap_reservation i s) = position s"
  by (simp_all add: position_def delete_swap_unchecked_def clear_swap_reservation_def unindex_recipient_eq unlock_all_outputs_eq Let_def split: option.splits)

lemma disconnect_swap_position: "disconnect_swap_data X tx s = Inr s' \<Longrightarrow> position s' = position s"
  by (auto simp: disconnect_swap_data_def disconnect_swap_claim_def Let_def res_simps
      split: TxData.splits if_splits dest!: save_position)

lemma delete_outputs_position:
  assumes "try_fold (delete_output X) outs ds = Inr ds'"
  shows "position (snd ds') = position (snd ds)"
proof (rule try_fold_keeps [OF assms, of "\<lambda>x. position (snd x)"])
  fix x and ds ds' :: "AccumulatorDiff \<times> 'a State"
  show "delete_output X x ds = Inr ds' \<Longrightarrow> position (snd ds') = position (snd ds)"
    by (cases x; cases ds) (auto simp: delete_output_def split: if_splits)
qed

lemma unspend_inputs_position:
  assumes "try_fold unspend_input ins ds = Inr ds'"
  shows "position (snd ds') = position (snd ds)"
proof (rule try_fold_keeps [OF assms, of "\<lambda>x. position (snd x)"])
  fix x and ds ds' :: "AccumulatorDiff \<times> 'a State"
  show "unspend_input x ds = Inr ds' \<Longrightarrow> position (snd ds') = position (snd ds)"
    by (cases x; cases ds) (auto simp: unspend_input_def split: option.splits)
qed

lemma disconnect_tx_position:
  assumes "disconnect_tx X tx (d, s) = Inr (d', s')"
  shows "position s' = position s"
proof -
  obtain s1 ds where s1: "disconnect_swap_data X tx s = Inr s1"
    and del: "try_fold (delete_output X) (rev (tx_outputs X tx)) (d, s1) = Inr ds"
    and un: "try_fold unspend_input (rev (inputs tx)) ds = Inr (d', s')"
    using assms by (auto simp: disconnect_tx_def res_simps)
  have "position (snd ds) = position s1" using delete_outputs_position [OF del] by simp
  moreover have "position s' = position (snd ds)" using unspend_inputs_position [OF un] by simp
  ultimately show ?thesis using disconnect_swap_position [OF s1] by simp
qed

text \<open>Where a header's parent is, seen from a height.\<close>

definition height_below :: "Header \<Rightarrow> u32 \<Rightarrow> u32 option" where
  "height_below hdr h = (if prev_side_hash hdr = None then None else Some (h - 1))"

lemma disconnect_tip_position:
  assumes "disconnect_tip X hdr body s = Inr s'" "try_get_height s = Some h"
  shows "position s' = (prev_side_hash hdr, height_below hdr h) \<and> (prev_side_hash hdr = None \<longleftrightarrow> h = 0)"
proof -
  obtain d1 s1 d2 s2 s3 where txs: "try_fold (disconnect_tx X) (rev (transactions body)) (diff_default, s) = Inr (d1, s1)"
    and cb: "try_fold (delete_output X) (rev (coinbase_outputs (merkle_root hdr) (coinbase body))) (d1, s1) = Inr (d2, s2)"
    and rew: "rewind_tip hdr s2 = Inr s3" and "apply_accumulator_diff X d2 (get_accumulator X s) s3 = Inr s'"
    using assms(1) by (auto simp: disconnect_tip_def res_simps Let_def)
  then have "position s' = position s3" by (blast dest: accumulator_position)
  have "position s2 = position s1" using delete_outputs_position [OF cb] by simp
  also have "position s1 = position s"
    using try_fold_keeps [OF txs, of "\<lambda>x. position (snd x)"] disconnect_tx_position by fastforce
  finally have "try_get_height s2 = Some h" using assms(2) by (simp add: position_def try_get_height_def)
  then show ?thesis
    using rew \<open>position s' = position s3\<close>
    by (auto simp: rewind_tip_def set_tip_def position_def height_below_def split: option.splits if_splits)
qed

lemma connect_tx_position:
  assumes "connect_tx X h ft s = Inr s'"
  shows "position s' = position s"
proof -
  obtain t where t: "connect_tx_utxos X (transaction ft) s = Inr t" "connect_swap_data X h ft t = Inr s'"
    using assms by (auto simp: connect_tx_def res_simps)
  have "position t = position s"
    using connect_tx_utxos_frame [OF t(1)] by (metis position_def with_utxos_simps(10,11))
  then show ?thesis using position_frame [OF connect_swap_data_frame [OF t(2)]] by simp
qed

lemma connect_state_position:
  assumes "connect_state X rpc hdr body peg s = Inr s'"
  shows "position s' = (Some (header_hash X hdr), Some (validating_height s)) \<and> prev_side_hash hdr = try_get_tip s"
proof -
  obtain pre mr s1 where pre: "prevalidate X s hdr body = Inr pre"
    and con: "connect_prevalidated X hdr body pre s = Inr (mr, s1)"
    and peg: "connect_two_way_peg_data X rpc peg s1 = Inr s'"
    using assms by (auto simp: connect_state_def res_simps)
  have "position s1 = (Some (header_hash X hdr), Some (next_height pre))"
    using con by (auto simp: connect_prevalidated_def Let_def res_simps set_tip_def position_def apply_accumulator_diff_def split: if_splits)
  moreover have "next_height pre = validating_height s" using pre by (simp add: prevalidate_iff)
  moreover have "prev_side_hash hdr = try_get_tip s"
    using con by (auto simp: connect_prevalidated_def check_prev_side_hash_def res_simps)
  ultimately show ?thesis using connect_peg_position [OF peg] by simp
qed

end
