(* ===== verification/Node_Facts.thy ===== *)
theory Node_Facts
  imports Node_Position "HOL-Library.Multiset"
begin

text \<open>
  Facts on the node: storing a body ends, what connecting a block does to the three components, and
  what a reorganization commits.
\<close>

section \<open>Storing a body ends\<close>

lemma tips_step_children:
  assumes "succ_ok A" "order_ok ord" "tips_step ord h A = Inr (new, A1)"
  shows "side_tables A1 = side_tables A"
    and "c \<in> set new \<Longrightarrow> \<exists>hdr. fmlookup (ar_headers A) c = Some hdr \<and> prev_side_hash hdr = Some h"
proof -
  have "side_tables A1 = side_tables A \<and>
      (new = [] \<or> (\<exists>S. fmlookup (ar_successors A1) (Some h) = Some S \<and> new = ord S))"
  proof (cases "contains_body A h")
    case True
    then obtain hdr where u: "update_side_tips ord h hdr A = Inr (new, A1)"
      using assms(3) by (auto simp: tips_step_def res_simps)
    then have "new = [] \<or> (\<exists>S. get_successors A1 (Some h) = Inr S \<and> new = ord S)"
      by (auto simp: update_side_tips_def res_simps split: if_splits)
    then show ?thesis using same_tablesD [OF update_side_tips_frame [OF u]] by (auto simp: get_successors_def split: option.splits)
  qed (use assms(3) in \<open>simp add: tips_step_def\<close>)
  then show "side_tables A1 = side_tables A"
    and "c \<in> set new \<Longrightarrow> \<exists>hdr. fmlookup (ar_headers A) c = Some hdr \<and> prev_side_hash hdr = Some h"
    using succ_okD(2) [OF assms(1), of "Some h" _ c] assms(2) by (auto simp: tables_defs order_ok_def)
qed

definition depth_left :: "(BlockHash, u32) db \<Rightarrow> BlockHash \<Rightarrow> nat" where
  "depth_left hts h = 2 ^ 32 - unat (the (fmlookup hts h))"

lemma child_depth:
  assumes "side_ok A" "fmlookup (ar_headers A) c = Some hdr" "prev_side_hash hdr = Some h"
  shows "depth_left (block_hash_to_height A) c < depth_left (block_hash_to_height A) h"
proof -
  obtain k where k: "fmlookup (block_hash_to_height A) c = Some k"
    using side_ok_dom [OF assms(1), of c] assms(2) by auto
  from side_known [OF assms(1) k] assms(2,3) obtain j where
    j: "fmlookup (block_hash_to_height A) h = Some j" "unat k = Suc (unat j)" by auto
  have "unat k < 2 ^ LENGTH(32)" by (rule unsigned_less)
  with j k show ?thesis by (simp add: depth_left_def)
qed

theorem tips_loop_ends:
  assumes "side_good A" "order_ok ord"
  shows "\<exists>r. tips_loop ord q A = Some r"
  using assms(1)
proof (induction "image_mset (depth_left (block_hash_to_height A)) (mset q)" arbitrary: q A
    rule: wf_induct_rule [OF wf_mult [OF wf_less_than]])
  case 1
  show ?case
  proof (cases q)
    case (Cons h q')
    show ?thesis
    proof (cases "tips_step ord h A")
      case (Inr p)
      obtain new A1 where p: "p = (new, A1)" by (cases p)
      have ok: "side_ok A" "succ_ok A" using 1(2) by (simp_all add: side_good_def)
      note kids = tips_step_children [OF ok(2) assms(2) Inr [unfolded p]]
      have hts: "block_hash_to_height A1 = block_hash_to_height A" using kids(1) by (simp add: tables_defs)
      let ?f = "depth_left (block_hash_to_height A)"
      have "\<forall>k \<in># image_mset ?f (mset new). \<exists>j \<in># {#?f h#}. (k, j) \<in> less_than"
        using kids(2) child_depth [OF ok(1)] by auto
      then have "(image_mset ?f (mset q') + image_mset ?f (mset new), image_mset ?f (mset q') + {#?f h#}) \<in> mult less_than"
        by (intro one_step_implies_mult) simp_all
      then have "\<exists>r. tips_loop ord (q' @ new) A1 = Some r"
        using 1(1) [of A1 "q' @ new"] side_good_cong [OF kids(1)] 1(2) by (simp add: hts Cons)
      then show ?thesis using Inr p Cons by (subst tips_loop.simps) simp
    qed (subst tips_loop.simps, simp add: Cons)
  qed (subst tips_loop.simps, simp)
qed

lemma put_body_ends:
  assumes "side_good A" "order_ok ord"
  shows "\<exists>r. put_body ord h body A = Some r"
proof (cases "and_then (get_header A h) (\<lambda>hdr. update_side_tips ord h hdr (A\<lparr>ar_bodies := fmupd h body (ar_bodies A)\<rparr>))")
  case (Inr p)
  obtain q A1 where p: "p = (q, A1)" by (cases p)
  have "side_tables A1 = side_tables (A\<lparr>ar_bodies := fmupd h body (ar_bodies A)\<rparr>)"
    using Inr p by (auto simp: res_simps dest: update_side_tips_frame same_tablesD(1))
  then have "side_tables A1 = side_tables A" by (simp add: tables_defs)
  then have "side_good A1" using side_good_cong assms(1) by blast
  then show ?thesis using tips_loop_ends [OF _ assms(2)] Inr p by (simp add: put_body_def)
qed (simp add: put_body_def)

section \<open>The invariant of the node\<close>

text \<open>
  Headers are stored under their hashes, and the archive agrees with the state on the height and on the
  accumulator of the tip.
\<close>

definition headers_keyed :: "'acc ext \<Rightarrow> 'acc Archive \<Rightarrow> bool" where
  "headers_keyed X A \<longleftrightarrow> (\<forall>h hdr. fmlookup (ar_headers A) h = Some hdr \<longrightarrow> header_hash X hdr = h)"

definition synced :: "'acc ext \<Rightarrow> 'acc Archive \<Rightarrow> 'acc State \<Rightarrow> bool" where
  "synced X A s \<longleftrightarrow>
     (case tip s of
        None \<Rightarrow> height s = None
      | Some h \<Rightarrow> (\<exists>k. height s = Some k \<and> fmlookup (block_hash_to_height A) h = Some k) \<and>
          fmlookup (ar_accumulators A) h = Some (get_accumulator X s))"

definition node_ok :: "'acc ext \<Rightarrow> 'acc Node \<Rightarrow> bool" where
  "node_ok X n \<longleftrightarrow> archive_ok (nd_archive n) \<and> headers_keyed X (nd_archive n) \<and> synced X (nd_archive n) (nd_state n)"

lemma node_ok_new:
  "node_ok X \<lparr>nd_state = State_new, nd_archive = Archive_new, nd_mempool = p\<rparr>"
  by (simp add: node_ok_def archive_ok_def side_ok_new succ_ok_new main_ok_new headers_keyed_def synced_def State_new_def)
    (simp add: Archive_new_def)

lemma opt_then_eq_Inr: "opt_then m f = Some (Inr y) \<longleftrightarrow> (\<exists>x. m = Some (Inr x) \<and> f x = Some (Inr y))"
  by (auto simp: opt_then_def split: option.splits sum.splits)

lemma of_archive_option: "map_option of_archive r = Some (Inr x) \<longleftrightarrow> r = Some (Inr x)"
  by (cases r) (simp_all add: res_simps)

lemmas node_simps = opt_then_eq_Inr of_archive_option res_simps

text \<open>The events that the node collects for a disconnection are those of the infos that its walk finds.\<close>

lemma main_infos_lookup:
  assumes "main_infos A keep stop m = Some r"
  shows "r = Inr infos \<Longrightarrow> (b, info) \<in> set infos \<Longrightarrow> fmlookup (main_block_infos A) b = Some info"
proof (induction arbitrary: infos rule: main_infos.raw_induct [OF _ assms, case_names round])
  case (round loop A keep stop m r)
  show ?case
  proof (cases "m = 0")
    case False
    obtain hi where hi: "get_main_header_info A m = Inr hi"
      using round(2,3) False by (cases "get_main_header_info A m") (auto split: if_splits)
    show ?thesis
    proof (cases "stop = Some (bhi_block_hash hi)")
      case go: False
      obtain rest where rest: "loop A keep stop (bhi_prev_block_hash hi) = Some (Inr rest)"
          and infos: "infos = (case fmlookup (main_block_infos A) (bhi_block_hash hi) of
            Some info \<Rightarrow> if keep info then (bhi_block_hash hi, info) # rest else rest | None \<Rightarrow> rest)"
        using round(2,3) False hi go by (auto simp: node_simps split: option.splits sum.splits if_splits)
      show ?thesis
        using round(1) [OF rest refl] round(4) unfolding infos by (auto split: option.splits if_splits)
    qed (use round(2-4) False hi in auto)
  qed (use round(2-4) in auto)
qed

lemma peg_inserts_member:
  assumes "\<And>b i j. (b, i) \<in> set infos \<Longrightarrow> (b, j) \<in> set infos \<Longrightarrow> i = j"
  shows "(b, info) \<in> set infos \<Longrightarrow> (b, bi_events info) \<in> set (fold peg_insert infos d)"
  using assms
proof (induction infos rule: rev_induct)
  case (snoc x infos)
  obtain c i where x: "x = (c, i)" by (cases x)
  show ?case
  proof (cases "b = c")
    case True
    have "info = i" by (rule snoc.prems(2) [of b]) (use snoc.prems(1) True x in simp_all)
    then show ?thesis using True by (simp add: x peg_insert_def)
  next
    case False
    then have "(b, info) \<in> set infos" using snoc.prems(1) x by auto
    moreover have "i = j" if "(b, i) \<in> set infos" "(b, j) \<in> set infos" for b i j
      by (rule snoc.prems(2) [of b]) (use that in simp_all)
    ultimately have "(b, bi_events info) \<in> set (fold peg_insert infos d)" by (rule snoc.IH)
    then show ?thesis using False by (simp add: x peg_insert_def)
  qed
qed simp

lemma disconnect_peg_events:
  assumes "event_start (nd_archive n) (last_applied (h - 1) (deposit_blocks (nd_state n)))
      (last_applied (h - 1) (withdrawal_bundle_event_blocks (nd_state n))) = Inr start"
    and i: "main_infos (nd_archive n) (\<lambda>info. bi_events info \<noteq> []) start (prev_main_hash hdr) = Some (Inr infos)"
    and d: "(b, info) \<in> set infos" "ev \<in> set (bi_events info)"
  shows "\<exists>peg. disconnect_peg_data hdr h n = Some (Inr peg) \<and> (b, ev) \<in> set (peg_event_list peg)"
proof -
  have "(b, bi_events info) \<in> set (fold peg_insert (rev infos) [])"
    using main_infos_lookup [OF i refl] d(1) by (intro peg_inserts_member) (simp_all, metis option.inject)
  then have "(b, ev) \<in> set (peg_event_list (fold peg_insert (rev infos) []))"
    using d(2) by (force simp: peg_event_list_def)
  then show ?thesis using assms(1,2) by (simp add: disconnect_peg_data_def Let_def)
qed

text \<open>The parts of connecting a block.\<close>

lemma node_connect_parts:
  assumes "node_connect_tip X ord rpc hdr body peg n = Some (Inr n')"
  shows "\<exists>s A1 A2. connect_state X rpc hdr body peg (nd_state n) = Inr s \<and>
    put_header X ord hdr (nd_archive n) = Inr A1 \<and> put_body ord (header_hash X hdr) body A1 = Some (Inr A2) \<and>
    n' = \<lparr>nd_state = s, nd_archive = put_accumulator (header_hash X hdr) (get_accumulator X s) A2,
          nd_mempool = connect_mempool X body (get_accumulator X s) (nd_mempool n)\<rparr>"
  using assms by (auto simp: node_connect_tip_def Let_def node_simps)

lemma put_header_parts:
  assumes "put_header X ord hdr A = Inr A'"
  shows "ar_headers A' = fmupd (header_hash X hdr) hdr (ar_headers A)" "ar_bodies A' = ar_bodies A"
    "ar_accumulators A' = ar_accumulators A" "main_block_infos A' = main_block_infos A"
    "fmlookup (block_hash_to_height A') (header_hash X hdr) =
       Some (case prev_side_hash hdr of None \<Rightarrow> 0 | Some p \<Rightarrow> the (fmlookup (block_hash_to_height A) p) + 1)"
  using assms
  by (auto simp: put_header_def Let_def res_simps split: option.splits dest!: put_successor_frame put_bmm_frame)

text \<open>What the archive holds after a block was connected.\<close>

lemma node_connect_archive:
  assumes "node_connect_tip X ord rpc hdr body peg n = Some (Inr n')"
  shows "ar_headers (nd_archive n') = fmupd (header_hash X hdr) hdr (ar_headers (nd_archive n))"
    and "ar_bodies (nd_archive n') = fmupd (header_hash X hdr) body (ar_bodies (nd_archive n))"
    and "ar_accumulators (nd_archive n') =
      fmupd (header_hash X hdr) (get_accumulator X (nd_state n')) (ar_accumulators (nd_archive n))"
    and "fmlookup (block_hash_to_height (nd_archive n')) (header_hash X hdr) =
      Some (case prev_side_hash hdr of None \<Rightarrow> 0 | Some p \<Rightarrow> the (fmlookup (block_hash_to_height (nd_archive n)) p) + 1)"
    and "main_tables (nd_archive n') = main_tables (nd_archive n)"
    and "main_block_infos (nd_archive n') = main_block_infos (nd_archive n)"
proof -
  obtain s A1 A2 where A1: "put_header X ord hdr (nd_archive n) = Inr A1"
    and A2: "put_body ord (header_hash X hdr) body A1 = Some (Inr A2)"
    and n': "nd_state n' = s" "nd_archive n' = put_accumulator (header_hash X hdr) (get_accumulator X s) A2"
    using node_connect_parts [OF assms] by fastforce
  note body = same_tablesD [OF put_body_tables [OF A2]] and hdr = put_header_parts [OF A1] put_header_main [OF A1]
  show "ar_headers (nd_archive n') = fmupd (header_hash X hdr) hdr (ar_headers (nd_archive n))"
    and "ar_bodies (nd_archive n') = fmupd (header_hash X hdr) body (ar_bodies (nd_archive n))"
    and "ar_accumulators (nd_archive n') =
      fmupd (header_hash X hdr) (get_accumulator X (nd_state n')) (ar_accumulators (nd_archive n))"
    and "fmlookup (block_hash_to_height (nd_archive n')) (header_hash X hdr) =
      Some (case prev_side_hash hdr of None \<Rightarrow> 0 | Some p \<Rightarrow> the (fmlookup (block_hash_to_height (nd_archive n)) p) + 1)"
    and "main_tables (nd_archive n') = main_tables (nd_archive n)"
    and "main_block_infos (nd_archive n') = main_block_infos (nd_archive n)"
    using body hdr by (simp_all add: n' put_accumulator_def tables_defs)
qed

lemma node_connect_position:
  assumes "node_connect_tip X ord rpc hdr body peg n = Some (Inr n')"
  shows "tip (nd_state n') = Some (header_hash X hdr)" "height (nd_state n') = Some (validating_height (nd_state n))"
    "prev_side_hash hdr = tip (nd_state n)"
  using node_connect_parts [OF assms] connect_state_position [of X rpc hdr body peg "nd_state n"]
  by (auto simp: position_def try_get_tip_def)

lemma connect_header_step:
  assumes ok: "node_ok X n" and con: "connect_state X rpc hdr body peg (nd_state n) = Inr s"
    and put: "put_header X ord hdr (nd_archive n) = Inr A"
    and new: "fmlookup (ar_headers (nd_archive n)) (header_hash X hdr) \<in> {None, Some hdr}"
    and low: "height (nd_state n) \<noteq> Some (- 1)"
  shows "archive_step X ord (nd_archive n) A"
proof -
  have "prev_side_hash hdr = tip (nd_state n)" using connect_state_position [OF con] by (simp add: try_get_tip_def)
  then show ?thesis
    using archive_step.header [OF put new] ok low by (cases "tip (nd_state n)") (auto simp: node_ok_def synced_def)
qed

lemma node_connect_ok:
  assumes ok: "node_ok X n" "order_ok ord" and con: "node_connect_tip X ord rpc hdr body peg n = Some (Inr n')"
    and new: "fmlookup (ar_headers (nd_archive n)) (header_hash X hdr) \<in> {None, Some hdr}"
    and low: "height (nd_state n) \<noteq> Some (- 1)"
  shows "node_ok X n'"
proof -
  obtain s A1 A2 where s: "connect_state X rpc hdr body peg (nd_state n) = Inr s"
    and A1: "put_header X ord hdr (nd_archive n) = Inr A1"
    and A2: "put_body ord (header_hash X hdr) body A1 = Some (Inr A2)"
    and A': "nd_archive n' = put_accumulator (header_hash X hdr) (get_accumulator X s) A2"
    using node_connect_parts [OF con] by fastforce
  note pos = node_connect_position [OF con] and arch = node_connect_archive [OF con]
  have sync: "synced X (nd_archive n) (nd_state n)" and keyed: "headers_keyed X (nd_archive n)"
    and "archive_ok (nd_archive n)" using ok(1) by (simp_all add: node_ok_def)
  have "archive_step X ord (nd_archive n) A1" by (rule connect_header_step [OF ok(1) s A1 new low])
  then have "archive_ok (nd_archive n')"
    unfolding A' by (meson step_keeps_ok archive_step.body [OF A2] archive_step.accumulator ok(2) \<open>archive_ok (nd_archive n)\<close>)
  moreover have "headers_keyed X (nd_archive n')" using keyed by (simp add: headers_keyed_def arch(1))
  moreover have "synced X (nd_archive n') (nd_state n')"
    using sync pos arch(3,4)
    by (auto simp: synced_def validating_height_def try_get_height_def split: option.splits)
  ultimately show ?thesis by (simp add: node_ok_def)
qed

lemma node_connect_ends:
  assumes "node_ok X n" "order_ok ord"
    and "fmlookup (ar_headers (nd_archive n)) (header_hash X hdr) \<in> {None, Some hdr}" "height (nd_state n) \<noteq> Some (- 1)"
  shows "\<exists>r. node_connect_tip X ord rpc hdr body peg n = Some r"
proof (cases "connect_state X rpc hdr body peg (nd_state n)")
  case (Inr s)
  show ?thesis
  proof (cases "put_header X ord hdr (nd_archive n)")
    case (Inr A)
    have "archive_step X ord (nd_archive n) A" by (rule connect_header_step [OF assms(1) \<open>_ = Inr s\<close> Inr assms(3,4)])
    then have "side_good A" using step_keeps_ok assms(1,2) by (fastforce simp: node_ok_def archive_ok_def side_good_def)
    from put_body_ends [OF this assms(2), of "header_hash X hdr" body] obtain r where "put_body ord (header_hash X hdr) body A = Some r"
      by blast
    then show ?thesis using \<open>_ = Inr s\<close> Inr by (cases r) (simp_all add: node_connect_tip_def Let_def opt_then_def split: sum.splits)
  qed (simp add: node_connect_tip_def Let_def Inr of_archive_def map_fault_def split: sum.splits fault.splits)
qed (simp add: node_connect_tip_def of_state_def map_fault_def split: sum.splits fault.splits)

text \<open>The mempool loses the transactions of the block.\<close>

lemma delete_all:
  "pool_ok p \<Longrightarrow> pool_ok (fold (\<lambda>tx. pool_delete (txid X tx)) txs p) \<and>
    (\<forall>u. fmlookup (mp_transactions p) u = None \<or> u \<in> txid X ` set txs \<longrightarrow>
      fmlookup (mp_transactions (fold (\<lambda>tx. pool_delete (txid X tx)) txs p)) u = None)"
proof (induction txs arbitrary: p)
  case (Cons tx txs)
  have "pool_ok (pool_delete (txid X tx) p)" "fmlookup (mp_transactions (pool_delete (txid X tx) p)) (txid X tx) = None"
    "fmlookup (mp_transactions p) u = None \<Longrightarrow> fmlookup (mp_transactions (pool_delete (txid X tx) p)) u = None" for u
    using pool_delete_effect [OF Cons.prems] by (simp_all add: descendants.self)
  with Cons.IH [of "pool_delete (txid X tx) p"] show ?case by auto
qed simp

lemma connect_mempool_effect:
  assumes "pool_ok p"
  shows "pool_ok (connect_mempool X body acc p) \<and>
    (tx \<in> set (transactions body) \<longrightarrow> fmlookup (mp_transactions (connect_mempool X body acc p)) (txid X tx) = None)"
  using delete_all [OF assms, of X "transactions body"]
    regenerate_proofs_effect [of "fold (\<lambda>tx. pool_delete (txid X tx)) (transactions body) p" X acc]
  by (auto simp: connect_mempool_def)

lemma unat_minus_1: "unat (- 1 :: u32) = 4294967295"
  by (simp add: unsigned_minus_1_eq_mask mask_eq_exp_minus_1)

lemma unat_Suc_eq:
  assumes "unat (k :: u32) = Suc (unat j)"
  shows "k = j + 1"
proof (cases "j = - 1")
  case True
  have "unat k < 2 ^ LENGTH(32)" by (rule unsigned_less)
  then show ?thesis using assms True by (simp add: unat_minus_1)
next
  case False
  then have "unat (j + 1) = unat k" using assms by (simp add: unat_plus_1)
  then show ?thesis by (metis unsigned_word_eqI)
qed

text \<open>A stored block never has the largest height below it, and storing it again changes no header.\<close>

lemma node_connect_stored:
  assumes ok: "node_ok X n" "order_ok ord" and con: "node_connect_tip X ord rpc hdr body peg n = Some (Inr n')"
    and stored: "fmlookup (ar_headers (nd_archive n)) h = Some hdr"
  shows "node_ok X n'" "ar_headers (nd_archive n') = ar_headers (nd_archive n)" "tip (nd_state n') = Some h"
proof -
  have h: "header_hash X hdr = h" using ok(1) stored by (auto simp: node_ok_def headers_keyed_def)
  have side: "side_ok (nd_archive n)" and sync: "synced X (nd_archive n) (nd_state n)"
    using ok(1) by (simp_all add: node_ok_def archive_ok_def)
  obtain k where k: "fmlookup (block_hash_to_height (nd_archive n)) h = Some k"
    using side_ok_dom [OF side, of h] stored by auto
  have "height (nd_state n) \<noteq> Some (- 1)"
  proof
    assume top: "height (nd_state n) = Some (- 1)"
    then obtain p where "tip (nd_state n) = Some p" "fmlookup (block_hash_to_height (nd_archive n)) p = Some (- 1)"
      using sync by (auto simp: synced_def split: option.splits)
    with side_known [OF side k] stored node_connect_position(3) [OF con] have "unat k = Suc (unat (- 1 :: u32))" by auto
    then show False using unat_Suc_eq [of k "- 1"] by simp
  qed
  then show "node_ok X n'" using node_connect_ok [OF ok con] stored h by simp
  show "ar_headers (nd_archive n') = ar_headers (nd_archive n)"
    using node_connect_archive(1) [OF con] stored by (simp add: h) (rule fmap_ext, auto)
  show "tip (nd_state n') = Some h" using node_connect_position(1) [OF con] h by simp
qed

lemma node_disconnect_parts:
  assumes "node_disconnect_tip X n = Some (Inr n')"
  shows "\<exists>t hdr h. tip (nd_state n) = Some t \<and> height (nd_state n) = Some h \<and>
    fmlookup (ar_headers (nd_archive n)) t = Some hdr \<and> nd_archive n' = nd_archive n \<and>
    tip (nd_state n') = prev_side_hash hdr \<and> height (nd_state n') = height_below hdr h \<and>
    (\<forall>p. prev_side_hash hdr = Some p \<longrightarrow>
       fmlookup (ar_accumulators (nd_archive n)) p = Some (get_accumulator X (nd_state n')))"
proof -
  let ?A = "nd_archive n"
  obtain t hdr body h peg s1 s2 s3 where t: "tip (nd_state n) = Some t" and hdr: "fmlookup (ar_headers ?A) t = Some hdr"
    and h: "height (nd_state n) = Some h"
    and s1: "disconnect_two_way_peg_data X peg (nd_state n) = Inr s1"
    and s2: "disconnect_tip X hdr body s1 = Inr s2" and s3: "revert_accumulator ?A s2 = Inr s3"
    and n': "nd_archive n' = ?A" "nd_state n' = s3"
    using assms by (auto simp: node_disconnect_tip_def Let_def node_simps try_get_tip_def try_get_height_def get_header_def)
  have "height s1 = Some h" using disconnect_peg_position [OF s1] h by (simp add: position_def)
  then have "tip s2 = prev_side_hash hdr" "height s2 = height_below hdr h"
    using disconnect_tip_position [OF s2] by (simp_all add: position_def try_get_height_def)
  then show ?thesis
    using s3 t hdr h
    by (cases "prev_side_hash hdr")
      (auto simp: n' revert_accumulator_def try_get_tip_def res_simps ar_get_accumulator_def get_accumulator_def)
qed

lemma node_disconnect_ok:
  assumes ok: "node_ok X n" and dis: "node_disconnect_tip X n = Some (Inr n')"
  shows "node_ok X n'"
proof -
  let ?A = "nd_archive n"
  obtain t hdr h where t: "tip (nd_state n) = Some t" "height (nd_state n) = Some h"
    and hdr: "fmlookup (ar_headers ?A) t = Some hdr" and n': "nd_archive n' = ?A"
    and pos: "tip (nd_state n') = prev_side_hash hdr" "height (nd_state n') = height_below hdr h"
    and acc: "\<And>p. prev_side_hash hdr = Some p \<Longrightarrow>
      fmlookup (ar_accumulators ?A) p = Some (get_accumulator X (nd_state n'))"
    using node_disconnect_parts [OF dis] by blast
  have side: "side_ok ?A" and k: "fmlookup (block_hash_to_height ?A) t = Some h"
    using ok t by (auto simp: node_ok_def archive_ok_def synced_def)
  have "fmlookup (block_hash_to_height ?A) p = Some (h - 1)" if p: "prev_side_hash hdr = Some p" for p
  proof -
    obtain j where "fmlookup (block_hash_to_height ?A) p = Some j" "unat h = Suc (unat j)"
      using side_known [OF side k] hdr p by auto
    then show ?thesis using unat_Suc_eq [of h j] by simp
  qed
  then have "synced X ?A (nd_state n')"
    using pos acc by (auto simp: synced_def height_below_def split: option.splits)
  then show ?thesis using ok n' by (simp add: node_ok_def)
qed

end
