(* ===== verification/Node_Reorg.thy ===== *)
theory Node_Reorg
  imports Node_Facts
begin

text \<open>
  Reorganizations: where the rewinding of the tip ends, which blocks are applied, and what is committed
  on every way out.
\<close>

section \<open>Rewinding\<close>

fun rewound :: "'acc Archive \<Rightarrow> nat \<Rightarrow> BlockHash option \<Rightarrow> BlockHash option" where
  "rewound A 0 t = t"
| "rewound A (Suc j) t = rewound A j (Option.bind t (\<lambda>h. Option.bind (fmlookup (ar_headers A) h) prev_side_hash))"

lemma disconnect_tips_rewind:
  assumes "disconnect_tips X j n = Some (Inr n')"
  shows "tip (nd_state n') = rewound (nd_archive n) j (tip (nd_state n)) \<and> nd_archive n' = nd_archive n"
  using assms
proof (induction j arbitrary: n)
  case (Suc j)
  then obtain n1 where n1: "node_disconnect_tip X n = Some (Inr n1)" "disconnect_tips X j n1 = Some (Inr n')"
    by (auto simp: node_simps)
  with Suc.IH [OF n1(2)] node_disconnect_parts [OF n1(1)] show ?case by auto
qed simp

lemma disconnect_tips_ok:
  assumes "disconnect_tips X j n = Some (Inr n')" "node_ok X n"
  shows "node_ok X n'"
  using assms by (induction j arbitrary: n) (auto simp: node_simps dest: node_disconnect_ok)

lemma rewound_None [simp]: "rewound A j None = None"
  by (induction j) simp_all

lemma rewound_walk: "walk (side_parent A) j h = Inr a \<Longrightarrow> rewound A (j + i) (Some h) = rewound A i (Some a)"
  by (induction j arbitrary: h) (auto simp: node_simps side_parent_eq)

lemma rewound_out:
  assumes "side_ok A" "fmlookup (block_hash_to_height A) h = Some k"
  shows "rewound A (Suc (unat k)) (Some h) = None"
proof -
  obtain a j where a: "walk (side_parent A) (unat k) h = Inr a" "fmlookup (block_hash_to_height A) a = Some j" "unat j = 0"
    using side.walk_up [OF assms(1), of h k "unat k"] assms(2) by auto
  then obtain hdr where "fmlookup (ar_headers A) a = Some hdr" "prev_side_hash hdr = None"
    using side_known [OF assms(1) a(2)] by (auto split: option.splits)
  then show ?thesis using rewound_walk [OF a(1), of 1] by simp
qed

lemma rewind_common:
  assumes ok: "node_ok X n" and t: "tip (nd_state n) = Some t" "height (nd_state n) = Some k" "unat k < 2 ^ 31"
    and g: "fmlookup (block_hash_to_height (nd_archive n)) g = Some i"
    and common: "last_common_ancestor (nd_archive n) t g = Some (Inr c)"
    and ch: "c = None \<and> ch = None \<or> (\<exists>b j. c = Some b \<and> ar_get_height (nd_archive n) b = Inr j \<and> ch = Some j)"
    and rew: "disconnect_tips X (unat (disconnects k ch)) n = Some (Inr n')"
  shows "tip (nd_state n') = c"
proof -
  let ?A = "nd_archive n"
  have side: "side_ok ?A" and kt: "fmlookup (block_hash_to_height ?A) t = Some k"
    using ok t by (auto simp: node_ok_def archive_ok_def synced_def)
  have "unat (min k i) < 2 ^ 31" using t(3) by (auto simp: min_def word_le_nat_alt)
  from last_common_ancestor_exact [OF side kt g this] common
  have top: "case c of Some b \<Rightarrow> last_common (ar_get_height ?A) (side_parent ?A) t g b | None \<Rightarrow> True"
    by (auto split: option.splits)
  show ?thesis
  proof (cases c)
    case None
    have "k \<noteq> - 1" using t(3) by (auto simp: unat_minus_1)
    with None ch have "unat (disconnects k ch) = Suc (unat k)" by (simp add: disconnects_def unat_plus_1)
    then show ?thesis using disconnect_tips_rewind [OF rew] rewound_out [OF side kt] t(1) None by simp
  next
    case (Some b)
    then obtain j where j: "fmlookup (block_hash_to_height ?A) b = Some j" "ch = Some j" using ch by auto
    obtain m where m: "m \<le> unat k" "walk (side_parent ?A) m t = Inr b"
      using top Some kt by (auto simp: last_common_def has_ancestor_def)
    have "unat j = unat k - m" using side.walk_up [OF side, of t k m] m kt j(1) by auto
    moreover from this have "unat (k - j) = unat k - unat j" by (simp add: unat_sub word_le_nat_alt)
    ultimately have "unat (disconnects k ch) = m" using j(2) m(1) by (simp add: disconnects_def)
    then show ?thesis using disconnect_tips_rewind [OF rew] rewound_walk [OF m(2), of 0] t(1) Some by simp
  qed
qed

section \<open>The blocks to apply\<close>

definition blocks_stored :: "'acc ext \<Rightarrow> (BlockHash, Header) db \<Rightarrow> (Header \<times> Body) list \<Rightarrow> bool" where
  "blocks_stored X hs blocks \<longleftrightarrow> list_all (\<lambda>(hdr, _). fmlookup hs (header_hash X hdr) = Some hdr) blocks"

lemma collect_blocks_stored:
  assumes "collect_blocks A stop cur = Some r" "headers_keyed X A"
  shows "r = Inr blocks \<Longrightarrow> blocks_stored X (ar_headers A) blocks"
  using assms(2)
proof (induction arbitrary: blocks rule: collect_blocks.raw_induct [OF _ assms(1), case_names round])
  case (round loop A stop cur r)
  show ?case
  proof (cases cur)
    case (Some h)
    show ?thesis
    proof (cases "get_header A h")
      case (Inr hdr)
      then have hdr: "fmlookup (ar_headers A) (header_hash X hdr) = Some hdr"
        using round(4) by (auto simp: get_header_def res_simps headers_keyed_def)
      show ?thesis
      proof (cases "blocks = []")
        case False
        then obtain body rest where "loop A stop (prev_side_hash hdr) = Some (Inr rest)" "blocks = (hdr, body) # rest"
          using round(2,3) Some Inr by (auto simp: node_simps split: if_splits sum.splits)
        with round(1) [OF _ refl round(4)] hdr show ?thesis by (auto simp: blocks_stored_def)
      qed (simp add: blocks_stored_def)
    qed (use round(2,3) Some in simp)
  qed (use round(2,3) in \<open>simp add: blocks_stored_def\<close>)
qed

lemma blocks_to_apply_stored:
  assumes "blocks_to_apply A c h = Some (Inr blocks)" "headers_keyed X A"
  shows "blocks_stored X (ar_headers A) blocks \<and> blocks \<noteq> [] \<and> header_hash X (fst (hd blocks)) = h"
proof -
  obtain hdr body rest where hdr: "fmlookup (ar_headers A) h = Some hdr"
    and rest: "collect_blocks A c (prev_side_hash hdr) = Some (Inr rest)" and blocks: "blocks = (hdr, body) # rest"
    using assms(1) by (auto simp: blocks_to_apply_def node_simps get_header_def)
  then show ?thesis
    using collect_blocks_stored [OF rest assms(2) refl] assms(2) by (auto simp: blocks_stored_def headers_keyed_def)
qed

text \<open>Which blocks they are: those of the new chain above the common ancestor, newest first.\<close>

definition block_at :: "'acc Archive \<Rightarrow> BlockHash \<Rightarrow> Header \<times> Body" where
  "block_at A h = (the (fmlookup (ar_headers A) h), the (fmlookup (ar_bodies A) h))"

lemma collect_blocks_exact:
  assumes "side_ok A" "fmlookup (block_hash_to_height A) h = Some k"
    and "\<forall>g \<in> set (takeWhile (\<lambda>g. stop \<noteq> Some g) (lineage A (unat k) h)). fmlookup (ar_bodies A) g \<noteq> None"
  shows "collect_blocks A stop (Some h) = Some (Inr (map (block_at A) (takeWhile (\<lambda>g. stop \<noteq> Some g) (lineage A (unat k) h))))"
  using assms
proof (induction rule: lineage_induct)
  case (root h hdr)
  have "collect_blocks A stop None = Some (Inr [])" by (subst collect_blocks.simps) simp
  with root show ?case by (subst collect_blocks.simps) (auto simp: get_header_def get_body_def block_at_def)
next
  case (step h hdr p n)
  show ?case
  proof (cases "stop = Some h")
    case False
    then obtain body where "fmlookup (ar_bodies A) h = Some body" using step(1,2,4) by auto
    with step False show ?thesis by (subst collect_blocks.simps) (auto simp: get_header_def get_body_def block_at_def)
  qed (use step(1) in \<open>subst collect_blocks.simps, simp add: get_header_def\<close>)
qed

lemma blocks_to_apply_exact:
  assumes "side_ok A" "fmlookup (block_hash_to_height A) h = Some k" "c \<noteq> Some h"
    and "\<forall>g \<in> set (takeWhile (\<lambda>g. c \<noteq> Some g) (lineage A (unat k) h)). fmlookup (ar_bodies A) g \<noteq> None"
  shows "blocks_to_apply A c h = Some (Inr (map (block_at A) (takeWhile (\<lambda>g. c \<noteq> Some g) (lineage A (unat k) h))))"
proof -
  obtain hdr where hdr: "fmlookup (ar_headers A) h = Some hdr" using side_known [OF assms(1,2)] by blast
  have "blocks_to_apply A c h = collect_blocks A c (Some h)"
    using assms(3) hdr by (subst collect_blocks.simps) (simp add: blocks_to_apply_def get_header_def split: sum.split)
  then show ?thesis using collect_blocks_exact [OF assms(1,2,4)] by simp
qed

section \<open>Applying blocks\<close>

lemma discard_invalid_ok:
  assumes "node_ok X db" "discard_invalid X ord hdr e db = (e', db')"
  shows "node_ok X db'"
proof (cases "db' = db")
  case False
  then obtain A where A: "delete_body ord (header_hash X hdr) (nd_archive db) = Inr A" and db': "db' = db\<lparr>nd_archive := A\<rparr>"
    using assms(2) by (auto simp: discard_invalid_def res_simps split: fault.splits if_splits sum.splits)
  note same = same_tablesD [OF delete_body_tables [OF A]] delete_body_frame [OF A]
  have "archive_ok A" using archive_ok_frame [OF _ delete_body_frame [OF A]] assms(1) by (simp add: node_ok_def)
  moreover have "ar_headers A = ar_headers (nd_archive db)" "synced X A s \<longleftrightarrow> synced X (nd_archive db) s" for s
    using same by (simp_all add: synced_def tables_defs split: option.split)
  ultimately show ?thesis using assms(1) by (simp add: db' node_ok_def headers_keyed_def)
qed (use assms in simp)

text \<open>The ways one round of the loop goes.\<close>

lemma apply_blocks_round:
  assumes "apply_blocks X ord rpc old ((hdr, body) # blocks) batch n db = Some (r, db')"
  obtains (rejected) peg e e' where "node_connect_tip X ord rpc hdr body peg n = Some (Inl e)"
      "discard_invalid X ord hdr e db = (e', db')" "r = Inl e'"
  | (compare_failed) peg n1 e where "node_connect_tip X ord rpc hdr body peg n = Some (Inr n1)"
      "applied_tip ord old n1 = Some (Inl e)" "r = Inl e" "db' = db"
  | (applied) peg batch1 n1 better where "node_connect_tip X ord rpc hdr body peg n = Some (Inr n1)"
      "applied_tip ord old n1 = Some (Inr better)"
      "apply_blocks X ord rpc old blocks batch1 n1 (if better then n1 else db) = Some (r, db')"
proof -
  obtain peg batch1 where peg: "fill_peg (prev_main_hash hdr) batch [] = (peg, batch1)" by fastforce
  note eq = assms [unfolded apply_blocks.simps peg Let_def prod.case]
  show thesis
  proof (cases "node_connect_tip X ord rpc hdr body peg n")
    case (Some q)
    show thesis
    proof (cases q)
      case (Inl e)
      then show thesis using eq Some rejected by (auto split: prod.splits)
    next
      case (Inr n1)
      note con = Some [unfolded Inr]
      show thesis
      proof (cases "applied_tip ord old n1")
        case (Some q)
        then show thesis using eq con compare_failed [OF con] applied [OF con] by (cases q) auto
      qed (use eq con in simp)
    qed
  qed (use eq in simp)
qed

lemma apply_blocks_ok:
  assumes "apply_blocks X ord rpc old blocks batch n db = Some (r, db')" "order_ok ord"
    "node_ok X n" "node_ok X db" "blocks_stored X (ar_headers (nd_archive n)) blocks"
  shows "node_ok X db' \<and>
    (\<forall>n'. r = Inr n' \<longrightarrow> node_ok X n' \<and> (blocks \<noteq> [] \<longrightarrow> tip (nd_state n') = Some (header_hash X (fst (last blocks)))))"
  using assms
proof (induction blocks arbitrary: batch n db)
  case (Cons block blocks)
  obtain hdr body where block: "block = (hdr, body)" by (cases block)
  have stored: "fmlookup (ar_headers (nd_archive n)) (header_hash X hdr) = Some hdr"
    "blocks_stored X (ar_headers (nd_archive n)) blocks" using Cons.prems(5) by (simp_all add: blocks_stored_def block)
  from Cons.prems(1) [unfolded block] show ?case
  proof (cases rule: apply_blocks_round)
    case (rejected peg e e')
    then show ?thesis using discard_invalid_ok [OF Cons.prems(4)] by simp
  next
    case (compare_failed peg n1 e)
    then show ?thesis using Cons.prems(4) by simp
  next
    case (applied peg batch1 n1 better)
    note con = node_connect_stored [OF Cons.prems(3,2) applied(1) stored(1)]
    have "node_ok X (if better then n1 else db)" using con(1) Cons.prems(4) by simp
    from Cons.IH [OF applied(3) Cons.prems(2) con(1) this] stored(2) con(2,3) applied(3)
    show ?thesis by (cases blocks) (auto simp: block)
  qed
qed auto

text \<open>
  What is committed is the node before the reorganization or a node that was reached while applying and
  whose tip is better; the body of a block that does not connect may be gone.
\<close>

definition committed :: "(hash256 fset \<Rightarrow> hash256 list) \<Rightarrow> Tip option \<Rightarrow> 'acc Node \<Rightarrow> 'acc Node \<Rightarrow> bool" where
  "committed ord old n db \<longleftrightarrow>
     (\<exists>m. (m = n \<or> applied_tip ord old m = Some (Inr True)) \<and> nd_state db = nd_state m \<and> nd_mempool db = nd_mempool m \<and>
        (nd_archive db = nd_archive m \<or> (\<exists>h. delete_body ord h (nd_archive m) = Inr (nd_archive db))))"

lemma discard_invalid_committed:
  assumes "m = n \<or> applied_tip ord old m = Some (Inr True)" "discard_invalid X ord hdr e m = (e', db')"
  shows "committed ord old n db'"
  using assms
  by (auto simp: discard_invalid_def committed_def res_simps split: fault.splits if_splits sum.splits)

lemma apply_blocks_committed:
  assumes "apply_blocks X ord rpc old blocks batch n m = Some (r, db')" "m = n0 \<or> applied_tip ord old m = Some (Inr True)"
  shows "committed ord old n0 db'"
  using assms
proof (induction blocks arbitrary: batch n m)
  case (Cons block blocks)
  obtain hdr body where block: "block = (hdr, body)" by (cases block)
  from Cons.prems(1) [unfolded block] show ?case
  proof (cases rule: apply_blocks_round)
    case (rejected peg e e')
    then show ?thesis using discard_invalid_committed [OF Cons.prems(2)] by blast
  next
    case (compare_failed peg n1 e)
    then show ?thesis using Cons.prems(2) by (auto simp: committed_def)
  next
    case (applied peg batch1 n1 better)
    then show ?thesis using Cons.IH [OF applied(3)] Cons.prems(2) by (cases better) auto
  qed
qed (auto simp: committed_def)

section \<open>The whole reorganization\<close>

lemma prepare_reorg_parts:
  assumes "prepare_reorg X old new n = Some (Inr (blocks, batch, n1))" "node_ok X n"
  shows "node_ok X n1" "nd_archive n1 = nd_archive n" "blocks_stored X (ar_headers (nd_archive n)) blocks"
    "blocks \<noteq> []" "header_hash X (fst (last blocks)) = tip_block_hash new"
proof -
  obtain c bs where bs: "blocks_to_apply (nd_archive n) c (tip_block_hash new) = Some (Inr bs)" and blocks: "blocks = rev bs"
    and n1: "(\<exists>j. disconnect_tips X j n = Some (Inr n1)) \<or> n1 = n"
    using assms(1) by (auto simp: prepare_reorg_def Let_def node_simps split: if_splits option.splits)
  show "node_ok X n1" "nd_archive n1 = nd_archive n" using n1 assms(2) disconnect_tips_ok disconnect_tips_rewind by blast+
  have "blocks_stored X (ar_headers (nd_archive n)) bs \<and> bs \<noteq> [] \<and> header_hash X (fst (hd bs)) = tip_block_hash new"
    using blocks_to_apply_stored [OF bs, of X] assms(2) by (simp add: node_ok_def)
  then show "blocks_stored X (ar_headers (nd_archive n)) blocks" "blocks \<noteq> []"
    "header_hash X (fst (last blocks)) = tip_block_hash new"
    by (auto simp: blocks blocks_stored_def list_all_iff last_rev)
qed

lemma reorg_outcomes:
  assumes "reorg_to_tip X ord rpc new n = Some (r, db)" "node_ok X n" "order_ok ord"
  shows "node_ok X db \<and>
    (case r of
       Inr True \<Rightarrow> tip (nd_state db) = Some (tip_block_hash new)
     | Inr False \<Rightarrow> db = n
     | Inl e \<Rightarrow> db = n \<or> (\<exists>old. node_tip ord n = Inr old \<and> committed ord old n db))"
proof -
  consider (stay) "db = n" "r \<noteq> Inr True"
    | (run) old blocks batch n1 r1 db1 where "node_tip ord n = Inr old"
        "prepare_reorg X old new n = Some (Inr (blocks, batch, n1))"
        "apply_blocks X ord rpc old blocks batch n1 n = Some (r1, db1)"
        "(\<exists>e. r1 = Inl e \<and> r = Inl e \<and> db = db1) \<or> (\<exists>n2. r1 = Inr n2 \<and>
           (if tip (nd_state n2) = Some (tip_block_hash new) then r = Inr True \<and> db = n2 else db = db1 \<and> (\<exists>e. r = Inl e)))"
    using assms(1)
    by (auto simp: reorg_to_tip_def try_get_tip_def split: sum.splits option.splits bool.splits if_splits)
  then show ?thesis
  proof cases
    case stay
    then show ?thesis using assms(2) by (auto split: sum.splits bool.splits)
  next
    case run
    note prep = prepare_reorg_parts [OF run(2) assms(2)]
    have "blocks_stored X (ar_headers (nd_archive n1)) blocks" using prep(2,3) by simp
    note fin = apply_blocks_ok [OF run(3) assms(3) prep(1) assms(2) this]
    have "committed ord old n db1" by (rule apply_blocks_committed [OF run(3)]) simp
    then show ?thesis using run(1,4) fin prep(4,5) by (auto split: if_splits)
  qed
qed

end
