(* ===== verification/Reconstruct.thy ===== *)
theory Reconstruct
  imports Archive_Walk
begin

text \<open>
  The reconstruction of swaps from the stored blocks (\<open>reconstruct_swaps_from_blockchain\<close> of
  \<^verbatim>\<open>src/lib/state/mod.rs\<close>). Errors of the archive are turned into messages.
\<close>

definition archive_failed :: "string \<Rightarrow> 'a ares \<Rightarrow> 'a res" where
  "archive_failed msg r = map_fault (\<lambda>_. InvalidTransaction (TxMsg.ArchiveError msg)) r"

lemma archive_failed_Inr [simp]: "archive_failed msg (Inr x) = Inr x"
  by (simp add: archive_failed_def)

text \<open>The blocks from the tip to the genesis block; the list is consed up, so the genesis block comes first.\<close>

partial_function (option) chain_hashes ::
  "'acc Archive \<Rightarrow> BlockHash option \<Rightarrow> BlockHash list \<Rightarrow> BlockHash list res option" where
  "chain_hashes A cur hashes =
     (case cur of
        None \<Rightarrow> Some (Inr hashes)
      | Some h \<Rightarrow>
          (case archive_failed ''Failed to get header'' (get_header A h) of
             Inl e \<Rightarrow> Some (Inl e)
           | Inr hdr \<Rightarrow> chain_hashes A (prev_side_hash hdr) (h # hashes)))"

declare chain_hashes.simps [code]

definition lock_unlocked :: "SwapId \<Rightarrow> OutPoint \<Rightarrow> 'acc State \<Rightarrow> 'acc State" where
  "lock_unlocked i op s = (if is_output_locked_to_swap op s = None then lock_output_to_swap op i s else s)"

definition reconstruct_tx :: "'acc ext \<Rightarrow> u32 \<Rightarrow> Transaction \<Rightarrow> u32 \<times> 'acc State \<Rightarrow> (u32 \<times> 'acc State) res" where
  "reconstruct_tx X h tx = (\<lambda>(count, s).
     and_then (fill_transaction s tx) (\<lambda>ft.
     case data tx of
       SwapCreate i chain l1tx req l2_recip l2_amt l1_addr l1_amt \<Rightarrow>
         let sw = created_swap i chain l1tx req l2_recip l2_amt l1_addr l1_amt h None ft in
         and_then (save_swap X sw (fold (lock_unlocked i) (escrow_outpoints X i tx) s)) (\<lambda>s1.
         Inr (count + 1, s1))
     | SwapClaim i _ _ \<Rightarrow>
         (case get_swap i s of
            None \<Rightarrow> Inr (count, s)
          | Some sw \<Rightarrow>
              let s1 = fold (\<lambda>op s. if is_output_locked_to_swap op s = Some i
                                    then unlock_output_from_swap op s else s) (map fst (inputs tx)) s in
              and_then (save_swap X (mark_completed sw) s1) (\<lambda>s2. Inr (count, s2)))
     | SwapAccept i who \<Rightarrow>
         Inr (count, if get_swap i s \<noteq> None then reserve_swap i who h s else s)
     | Regular \<Rightarrow> Inr (count, s)))"

definition reconstruct_block ::
  "'acc ext \<Rightarrow> 'acc Archive \<Rightarrow> u32 \<times> BlockHash \<Rightarrow> u32 \<times> 'acc State \<Rightarrow> (u32 \<times> 'acc State) res" where
  "reconstruct_block X A = (\<lambda>(h, bh) cs.
     and_then (archive_failed ''Failed to get header'' (get_header A bh)) (\<lambda>_.
     and_then (archive_failed ''Failed to get body'' (get_body A bh)) (\<lambda>body.
     try_fold (reconstruct_tx X h) (transactions body) cs)))"

definition reconstruct_swaps_from_blockchain ::
  "'acc ext \<Rightarrow> 'acc Archive \<Rightarrow> BlockHash option \<Rightarrow> 'acc State \<Rightarrow> (u32 \<times> 'acc State) res option" where
  "reconstruct_swaps_from_blockchain X A tip_hash s =
     (case (case tip_hash of Some t \<Rightarrow> Some t | None \<Rightarrow> try_get_tip s) of
        None \<Rightarrow> Some (Inr (0, s))
      | Some t \<Rightarrow>
          opt_then (Some (archive_failed ''Failed to get tip height'' (ar_get_height A t))) (\<lambda>_.
          opt_then (chain_hashes A (Some t) []) (\<lambda>hashes.
          Some (try_fold (reconstruct_block X A) (enumerate_u32 hashes) (0, s)))))"

end
