(* ===== verification/Task_Facts.thy ===== *)
theory Task_Facts
  imports Node_Facts Block_Facts Reconstruct
begin

text \<open>
  Facts on the node's tasks: where the synchronization with the mainchain ends, what a block template
  holds, and what the reconstruction of swaps needs.
\<close>

section \<open>Following the mainchain\<close>

text \<open>The loops carry the tip that the sidechain tips have, and they change nothing else.\<close>

definition at_tip :: "'acc sync \<Rightarrow> bool" where
  "at_tip st \<longleftrightarrow> tip_info (mainchain_tip (ar_side_tips (fst (snd st)))) = fst st"

lemma ar_side_eq: "ar_side r A = Inr A' \<longleftrightarrow> (\<exists>st. r = Inr st \<and> A' = A\<lparr>ar_side_tips := st\<rparr>)"
  by (auto simp: ar_side_def split: sum.splits)

lemma connect_main_tip_effect:
  assumes "connect_main_tip hi info A = Inr A'"
  shows "same_tables A A' \<and> tip_info (mainchain_tip (ar_side_tips A')) = Some hi"
  using assms
  by (auto simp: connect_main_tip_def connect_mainchain_tip_def ar_side_eq res_simps Let_def split: if_splits)

lemma disconnect_main_tip_effect:
  assumes "disconnect_main_tip hi A = Inr (parent, A')" "tip_info (mainchain_tip (ar_side_tips A)) = Some hi"
  shows "same_tables A A' \<and> tip_info (mainchain_tip (ar_side_tips A')) = parent"
proof -
  obtain info :: BlockInfo and st where "main_parent_header_info A hi = Inr parent"
    and st: "disconnect_mainchain_tip parent (bmm_commitment info) (ar_side_tips A) = Inr st" "A' = A\<lparr>ar_side_tips := st\<rparr>"
    using assms(1) unfolding disconnect_main_tip_def and_then_eq_Inr ar_side_eq sum.inject prod.inject by blast
  then have "previous_tip hi parent = Inr (tip_info (mainchain_tip st))" 
    using assms(2) by (auto simp: disconnect_mainchain_tip_def res_simps)
  moreover have "parent = None \<longleftrightarrow> bhi_prev_block_hash hi = 0"
    using \<open>main_parent_header_info A hi = Inr parent\<close> by (auto simp: main_parent_header_info_def res_simps split: if_splits)
  ultimately show ?thesis using st(2) by (auto simp: previous_tip_def split: option.splits if_splits)
qed

lemma connect_main_effect:
  assumes "connect_main hi st = Inr st'"
  shows "at_tip st' \<and> same_tables (fst (snd st)) (fst (snd st'))"
  using assms by (cases st) (auto simp: connect_main_def at_tip_def res_simps dest: connect_main_tip_effect)

lemma rewind_main_effect:
  assumes "rewind_main common st = Some r"
  shows "r = Inr st' \<Longrightarrow> at_tip st \<Longrightarrow> at_tip st' \<and> same_tables (fst (snd st)) (fst (snd st'))"
proof (induction arbitrary: st' rule: rewind_main.raw_induct [OF _ assms, case_names round])
  case (round loop common st r)
  obtain cur A evs where st: "st = (cur, A, evs)" by (cases st)
  show ?case
  proof (cases cur)
    case (Some hi)
    show ?thesis
    proof (cases "bhi_block_hash hi = common")
      case False
      then obtain parent A1 where d: "disconnect_main_tip hi A = Inr (parent, A1)"
        and rest: "loop common (parent, A1, evs @ [DisconnectBlock (bhi_block_hash hi)]) = Some r"
        using round(2,3) st Some by (auto split: sum.splits)
      have A1: "same_tables A A1 \<and> tip_info (mainchain_tip (ar_side_tips A1)) = parent"
        using disconnect_main_tip_effect [OF d] round(4) st Some by (simp add: at_tip_def)
      then have "at_tip (parent, A1, evs @ [DisconnectBlock (bhi_block_hash hi)])" by (simp add: at_tip_def)
      from round(1) [OF rest round(3) this] A1 show ?thesis by (auto simp: st intro: same_tables_trans)
    qed (use round(2-4) st Some in auto)
  qed (use round(2-4) st in auto)
qed

lemma connect_mains_effect:
  assumes "try_fold connect_main his st = Inr st'" "at_tip st"
  shows "at_tip st' \<and> same_tables (fst (snd st)) (fst (snd st'))"
  using assms
  by (induction his arbitrary: st) (auto simp: res_simps dest!: connect_main_effect intro: same_tables_trans)

lemma advance_main_effect:
  assumes "advance_main m st = Some r"
  shows "r = Inr st' \<Longrightarrow> at_tip st \<Longrightarrow>
    at_tip st' \<and> same_tables (fst (snd st)) (fst (snd st')) \<and> main_tip_hash (fst st') = m"
proof (induction arbitrary: st' rule: advance_main.raw_induct [OF _ assms, case_names round])
  case (round loop m st r)
  show ?case
  proof (cases "main_tip_hash (fst st) = m")
    case False
    then obtain his st1 where st1: "try_fold connect_main his st = Inr st1" and rest: "loop m st1 = Some r"
      using round(2,3) by (auto simp: res_simps split: sum.splits)
    from connect_mains_effect [OF st1 round(4)] round(1) [OF rest round(3)] show ?thesis
      by (auto intro: same_tables_trans)
  qed (use round(2-4) in auto)
qed

lemma sync_effect:
  assumes "sync_side_tips_to_tip m A = Some (Inr (A', evs))"
  shows "mainchain_tip_hash (mainchain_tip (ar_side_tips A')) = m \<and> same_tables A A'"
proof -
  obtain common st cur where st: "rewind_main common (tip_info (mainchain_tip (ar_side_tips A)), A, []) = Some (Inr st)"
    and fin: "advance_main m st = Some (Inr (cur, A', evs))"
    using assms by (auto simp: sync_side_tips_to_tip_def opt_then_eq_Inr)
  have one: "at_tip st \<and> same_tables A (fst (snd st))" using rewind_main_effect [OF st refl] by (simp add: at_tip_def)
  with advance_main_effect [OF fin refl] show ?thesis
    by (auto simp: at_tip_def main_tip_hash_def mainchain_tip_hash_def intro: same_tables_trans)
qed

section \<open>A commitment to an unknown block\<close>

lemma put_main_block_info_parts:
  assumes "put_main_block_info ord m info A = Inr A'"
  shows "main_header_infos A' = main_header_infos A \<and> main_block_infos A' = fmupd m info (main_block_infos A) \<and>
    ar_bodies A' = ar_bodies A \<and> ar_side_tips A' = ar_side_tips A"
proof (cases "bmm_commitment info")
  case (Some c)
  then show ?thesis
    using assms by (cases "fmlookup (ar_headers A) c") (auto simp: put_main_block_info_def Let_def res_simps)
qed (use assms in \<open>auto simp: put_main_block_info_def Let_def res_simps\<close>)

lemma store_main_block_parts:
  assumes "store_main_block ord (hi, info) A = Inr A'"
  shows "main_header_infos A' = fmupd (bhi_block_hash hi) hi (main_header_infos A) \<and>
    main_block_infos A' = fmupd (bhi_block_hash hi) info (main_block_infos A) \<and>
    ar_bodies A' = ar_bodies A \<and> ar_side_tips A' = ar_side_tips A"
  using assms
  by (auto simp: store_main_block_def put_main_header_info_def Let_def res_simps split: if_splits
      dest!: put_main_successor_frame put_main_block_info_parts)

lemma connect_mainchain_None:
  assumes "connect_mainchain_tip hi None st = Inr st'"
  shows "(\<exists>w. st' = st\<lparr>mainchain_tip := \<lparr>cumulative_work = w, tip_info = Some hi\<rparr>\<rparr>) \<and>
    bhi_prev_block_hash hi = mainchain_tip_hash (mainchain_tip st) \<and>
    (\<forall>p. tip_info (mainchain_tip st) = Some p \<longrightarrow> bhi_height hi = bhi_height p + 1)"
  using assms by (auto simp: connect_mainchain_tip_def Let_def res_simps split: if_splits)

lemma unknown_commitment_stuck:
  assumes con: "handle_block_event ord (ConnectBlock hi info) A = Inr A'"
    and c: "bmm_commitment info = Some h" "\<not> contains_body A h" "fmlookup (sidechain_tips (ar_side_tips A)) h = None"
    and top: "\<forall>p. tip_info (mainchain_tip (ar_side_tips A)) = Some p \<longrightarrow>
      bhi_block_hash p \<noteq> 0 \<and> bhi_block_hash p \<noteq> bhi_block_hash hi \<and>
      fmlookup (main_header_infos A) (bhi_block_hash p) = Some p"
  shows "handle_block_event ord (DisconnectBlock (bhi_block_hash hi)) A' = Inl (Fail (ArSideTips (MissingSidechainTip h)))"
proof -
  obtain A1 where A1: "store_main_block ord (hi, info) A = Inr A1" "connect_main_tip hi info A1 = Inr A'"
    using con by (auto simp: handle_block_event_def res_simps)
  note st = store_main_block_parts [OF A1(1)]
  have "usable_commitment A1 (bhi_block_hash hi) info = Inr None"
    using c(1,2) st by (simp add: usable_commitment_def contains_body_def)
  then obtain st where "connect_mainchain_tip hi None (ar_side_tips A1) = Inr st" "A' = A1\<lparr>ar_side_tips := st\<rparr>"
    using A1(2) by (auto simp: connect_main_tip_def ar_side_eq)
  then obtain w where A': "A' = A1\<lparr>ar_side_tips := (ar_side_tips A)\<lparr>mainchain_tip := \<lparr>cumulative_work = w, tip_info = Some hi\<rparr>\<rparr>\<rparr>"
    and parent: "bhi_prev_block_hash hi = mainchain_tip_hash (mainchain_tip (ar_side_tips A))"
    and ht: "\<forall>p. tip_info (mainchain_tip (ar_side_tips A)) = Some p \<longrightarrow> bhi_height hi = bhi_height p + 1"
    using connect_mainchain_None st by metis
  have infos: "get_main_header_info A' (bhi_block_hash hi) = Inr hi" "get_main_block_info A' (bhi_block_hash hi) = Inr info"
    using st by (simp_all add: A' get_main_header_info_def get_main_block_info_def)
  have prev: "main_parent_header_info A' hi = Inr (tip_info (mainchain_tip (ar_side_tips A)))"
    using st top parent
    by (cases "tip_info (mainchain_tip (ar_side_tips A))")
      (auto simp: A' main_parent_header_info_def mainchain_tip_hash_def get_main_header_info_def)
  have "previous_tip hi (tip_info (mainchain_tip (ar_side_tips A))) = Inr (tip_info (mainchain_tip (ar_side_tips A)))"
    using top parent ht
    by (cases "tip_info (mainchain_tip (ar_side_tips A))") (auto simp: previous_tip_def mainchain_tip_hash_def)
  then show ?thesis
    using infos prev c(1,3) by (simp add: handle_block_event_def A' disconnect_mainchain_tip_def drop_commitment_def ar_side_def)
qed

section \<open>Block templates\<close>

text \<open>
  The chosen transactions come from the pool and are valid, no two spend the same input, and the fee is
  the sum of theirs.
\<close>

definition spends_apart :: "FilledTransaction \<times> 'a \<Rightarrow> FilledTransaction \<times> 'a \<Rightarrow> bool" where
  "spends_apart x y \<longleftrightarrow> set (inputs (transaction (fst x))) \<inter> set (inputs (transaction (fst y))) = {}"

definition chosen :: "'acc ext \<Rightarrow> 'acc State \<Rightarrow> AuthorizedTransaction set \<Rightarrow> FilledTransaction \<times> Authorization list \<Rightarrow> bool" where
  "chosen X s pool = (\<lambda>(ft, auths). let at = \<lparr>auth_transaction = transaction ft, authorizations = auths\<rparr> in
     at \<in> pool \<and> (\<exists>fee. validate_transaction X s at = Inr fee) \<and> fill_transaction s (transaction ft) = Inr ft)"

definition template_ok :: "'acc ext \<Rightarrow> 'acc State \<Rightarrow> AuthorizedTransaction set \<Rightarrow> Template \<Rightarrow> bool" where
  "template_ok X s pool t \<longleftrightarrow>
     list_all (chosen X s pool) (tp_filled t) \<and> sorted_wrt spends_apart (tp_filled t) \<and>
     tp_spent t = (\<Union>x \<in> set (tp_filled t). set (inputs (transaction (fst x)))) \<and>
     unat (tp_fee t) = (\<Sum>x\<leftarrow>tp_filled t. fee_of (fst x)) \<and> pool_ok (tp_pool t)"

lemma template_fee_eq:
  assumes "template_fee ft fee = Inr fee'"
  shows "unat fee' = unat fee + fee_of ft"
  using assms
  by (auto simp: template_fee_def res_simps checked_sum_Some fee_of_def checked_add_Some checked_sub_Some o_def)

lemma template_step_ok:
  assumes "template_ok X s pool t" "template_step X s at t = Inr t'" "at \<in> pool"
  shows "template_ok X s pool t' \<and> length (tp_filled t') \<le> Suc (length (tp_filled t))"
proof (cases "t' = t\<lparr>tp_pool := pool_delete (txid X (auth_transaction at)) (tp_pool t)\<rparr>")
  case True
  then show ?thesis using assms(1) pool_delete_effect by (auto simp: template_ok_def)
next
  case False
  then obtain ft fee fee' where apart: "tp_spent t \<inter> set (inputs (auth_transaction at)) = {}"
    and valid: "validate_transaction X s at = Inr fee" and ft: "fill_transaction s (auth_transaction at) = Inr ft"
    and fee': "template_fee ft (tp_fee t) = Inr fee'"
    and t': "t' = t\<lparr>tp_filled := tp_filled t @ [(ft, authorizations at)],
      tp_spent := tp_spent t \<union> set (inputs (transaction ft)), tp_fee := fee'\<rparr>"
    using assms(2)
    by (auto simp: template_step_def Let_def res_simps fill_authorized_transaction_def split: if_splits sum.splits fault.splits)
  have tx: "transaction ft = auth_transaction at" using ft by (rule fill_transaction_tx)
  then have "chosen X s pool (ft, authorizations at)" using valid ft assms(3) by (cases at) (simp add: chosen_def)
  then show ?thesis
    using assms(1) apart template_fee_eq [OF fee'] tx
    by (auto simp: template_ok_def t' sorted_wrt_append spends_apart_def)
qed

lemma template_loop_ok:
  assumes "try_fold (template_step X s) ats t = Inr t'" "template_ok X s pool t" "set ats \<subseteq> pool"
  shows "template_ok X s pool t' \<and> length (tp_filled t') \<le> length (tp_filled t) + length ats"
  using assms
proof (induction ats arbitrary: t)
  case (Cons at ats)
  then obtain t1 where "template_step X s at t = Inr t1" "try_fold (template_step X s) ats t1 = Inr t'" by (auto simp: res_simps)
  with Cons template_step_ok [of X s pool t at t1] show ?case by fastforce
qed simp

lemma get_transactions_parts:
  assumes "get_transactions X k n = Inr (txs, fee, n')" "pool_ok (nd_mempool n)"
  shows "list_all (chosen X (nd_state n) (set (pool_take_all (nd_mempool n)))) txs \<and> sorted_wrt spends_apart txs \<and>
    unat fee = (\<Sum>x\<leftarrow>txs. fee_of (fst x)) \<and> length txs \<le> k \<and>
    (\<exists>p. n' = n\<lparr>nd_mempool := p\<rparr> \<and> pool_ok p)"
proof -
  let ?pool = "set (pool_take_all (nd_mempool n))"
  obtain t where t: "try_fold (template_step X (nd_state n)) (pool_take k (nd_mempool n))
      \<lparr>tp_pool = nd_mempool n, tp_filled = [], tp_spent = {}, tp_fee = 0\<rparr> = Inr t"
    and res: "txs = tp_filled t" "fee = tp_fee t" "n' = n\<lparr>nd_mempool := tp_pool t\<rparr>"
    using assms(1) by (auto simp: get_transactions_def res_simps)
  have "set (pool_take k (nd_mempool n)) \<subseteq> ?pool" by (auto simp: pool_take_def pool_take_all_def dest: in_set_takeD)
  moreover have "template_ok X (nd_state n) ?pool \<lparr>tp_pool = nd_mempool n, tp_filled = [], tp_spent = {}, tp_fee = 0\<rparr>"
    using assms(2) by (simp add: template_ok_def)
  ultimately have "template_ok X (nd_state n) ?pool t \<and> length (tp_filled t) \<le> length (pool_take k (nd_mempool n))"
    using template_loop_ok [OF t, of ?pool] by simp
  then show ?thesis by (auto simp: template_ok_def res pool_take_def)
qed

section \<open>Reconstruction of swaps\<close>

lemma try_fold_each:
  assumes "try_fold f xs s = Inr s'" and "\<And>x s s'. f x s = Inr s' \<Longrightarrow> g s' = g s \<and> P x (g s)"
  shows "g s' = g s \<and> (\<forall>x \<in> set xs. P x (g s))"
  using assms(1)
proof (induction xs arbitrary: s)
  case (Cons x xs)
  then obtain s1 where "f x s = Inr s1" "try_fold f xs s1 = Inr s'" by (auto simp: res_simps)
  with Cons.IH [of s1] assms(2) [of x s s1] show ?case by simp
qed simp

text \<open>What filling a transaction asks of the unspent outputs.\<close>

definition inputs_unspent :: "Transaction \<Rightarrow> (OutPoint, Output) db \<Rightarrow> bool" where
  "inputs_unspent tx us \<longleftrightarrow> (\<forall>(op, _) \<in> set (inputs tx). fmlookup us op \<noteq> None)"

lemma try_map_lookups:
  "try_map (\<lambda>(op, _). ok_or (e op) (fmlookup m op)) ins = Inr ys \<Longrightarrow> \<forall>(op, _) \<in> set ins. fmlookup m op \<noteq> None"
  by (induction ins arbitrary: ys) (auto simp: res_simps)

lemma fill_needs_utxos: "fill_transaction s tx = Inr ft \<Longrightarrow> inputs_unspent tx (utxos s)"
  by (auto simp: fill_transaction_def res_simps inputs_unspent_def dest!: try_map_lookups)

lemma save_utxos: "save_swap X sw s = Inr s' \<Longrightarrow> utxos s' = utxos s"
  using swap_frame_save [of X sw s s'] by (simp add: swap_frame_def)

lemma lock_unlocked_utxos [simp]: "utxos (fold (lock_unlocked i) ops s) = utxos s"
  by (rule fold_keeps) (simp add: lock_unlocked_def lock_output_to_swap_def)

lemma unlock_utxos [simp]: "utxos (fold (\<lambda>op s. if P op s then unlock_output_from_swap op s else s) ops s) = utxos s"
  using swap_frame_fold(1) [of s P ops] by (simp add: swap_frame_def)

lemma reconstruct_tx_utxos:
  assumes "reconstruct_tx X h tx cs = Inr cs'"
  shows "utxos (snd cs') = utxos (snd cs) \<and> inputs_unspent tx (utxos (snd cs))"
proof -
  obtain c s where cs: "cs = (c, s)" by (cases cs)
  obtain ft where "fill_transaction s tx = Inr ft" using assms by (auto simp: reconstruct_tx_def cs res_simps)
  moreover have "utxos (snd cs') = utxos s"
  proof (cases "data tx")
    case (SwapClaim i who pd)
    then show ?thesis
      using assms
      by (cases "get_swap i s") (auto simp: reconstruct_tx_def cs Let_def res_simps dest!: save_utxos)
  qed (use assms in \<open>auto simp: reconstruct_tx_def cs Let_def res_simps reserve_swap_def dest!: save_utxos\<close>)
  ultimately show ?thesis using fill_needs_utxos by (simp add: cs)
qed

definition block_unspent :: "'acc Archive \<Rightarrow> u32 \<times> BlockHash \<Rightarrow> (OutPoint, Output) db \<Rightarrow> bool" where
  "block_unspent A = (\<lambda>(_, bh) us. \<forall>body. get_body A bh = Inr body \<longrightarrow> (\<forall>tx \<in> set (transactions body). inputs_unspent tx us))"

lemma reconstruct_block_utxos:
  assumes "reconstruct_block X A b cs = Inr cs'"
  shows "utxos (snd cs') = utxos (snd cs) \<and> block_unspent A b (utxos (snd cs))"
proof -
  obtain h bh where b: "b = (h, bh)" by (cases b)
  obtain body where body: "get_body A bh = Inr body" and txs: "try_fold (reconstruct_tx X h) (transactions body) cs = Inr cs'"
    using assms by (auto simp: b reconstruct_block_def archive_failed_def res_simps)
  from try_fold_each [OF txs, of "\<lambda>cs. utxos (snd cs)" inputs_unspent, OF reconstruct_tx_utxos] body
  show ?thesis by (auto simp: b block_unspent_def)
qed

lemma snd_enumerate: "snd ` set (enumerate_u32 xs) = set xs"
  by (metis list.set_map map_snd_enumerate_u32)

lemma reconstruct_success:
  assumes "reconstruct_swaps_from_blockchain X A (Some t) s = Some (Inr (c, s'))"
    and "chain_hashes A (Some t) [] = Some (Inr hashes)" "bh \<in> set hashes"
    and "get_body A bh = Inr body" "tx \<in> set (transactions body)"
  shows "inputs_unspent tx (utxos s)"
proof -
  have "try_fold (reconstruct_block X A) (enumerate_u32 hashes) (0, s) = Inr (c, s')"
    using assms(1,2) by (auto simp: reconstruct_swaps_from_blockchain_def opt_then_eq_Inr)
  from try_fold_each [OF this, of "\<lambda>cs. utxos (snd cs)" "block_unspent A", OF reconstruct_block_utxos]
  have "\<forall>b \<in> set (enumerate_u32 hashes). block_unspent A b (utxos s)" by simp
  moreover obtain h where "(h, bh) \<in> set (enumerate_u32 hashes)" using snd_enumerate [of hashes] assms(3) by force
  ultimately show ?thesis using assms(4,5) by (auto simp: block_unspent_def)
qed

lemma chain_hashes_exact:
  assumes "side_ok A" "fmlookup (block_hash_to_height A) h = Some k"
  shows "chain_hashes A (Some h) acc = Some (Inr (rev (lineage A (unat k) h) @ acc))"
  using assms
proof (induction arbitrary: acc rule: lineage_induct)
  case (root h hdr)
  have "chain_hashes A None acc' = Some (Inr acc')" for acc' by (subst chain_hashes.simps) simp
  with root show ?case by (subst chain_hashes.simps) (auto simp: get_header_def)
next
  case (step h hdr p n)
  then show ?case by (subst chain_hashes.simps) (auto simp: get_header_def)
qed

lemma reconstruct_fails:
  assumes "side_ok A" "fmlookup (block_hash_to_height A) t = Some k"
    and "has_ancestor (ar_get_height A) (side_parent A) t bh" "fmlookup (ar_bodies A) bh = Some body"
    and "tx \<in> set (transactions body)" "(op, x) \<in> set (inputs tx)" "fmlookup (utxos s) op = None"
  shows "\<exists>e. reconstruct_swaps_from_blockchain X A (Some t) s = Some (Inl e)"
proof -
  let ?hs = "rev (lineage A (unat k) t)"
  have hs: "chain_hashes A (Some t) [] = Some (Inr ?hs)" using chain_hashes_exact [OF assms(1,2)] by simp
  then have run: "reconstruct_swaps_from_blockchain X A (Some t) s = Some (try_fold (reconstruct_block X A) (enumerate_u32 ?hs) (0, s))"
    using assms(2) by (simp add: reconstruct_swaps_from_blockchain_def ar_get_height_def)
  have "bh \<in> set ?hs" using lineage_ancestors [OF assms(1,2)] assms(3) by simp
  moreover have "get_body A bh = Inr body" "\<not> inputs_unspent tx (utxos s)"
    using assms(4,6,7) by (simp_all add: get_body_def inputs_unspent_def) force
  ultimately have "try_fold (reconstruct_block X A) (enumerate_u32 ?hs) (0, s) \<noteq> Inr r" for r
    using reconstruct_success [OF _ hs _ _ assms(5), where s' = "snd r" and c = "fst r"] run by auto
  then show ?thesis unfolding run by (metis sum.exhaust)
qed

end
