(* ===== verification/Node_Machine.thy ===== *)
theory Node_Machine
  imports Node_Reorg Task_Facts
begin

text \<open>
  The node as a state machine: in every node that its operations reach from an empty one, the archive
  agrees with the state on the tip.
\<close>

section \<open>Changes of the archive\<close>

lemma synced_cong:
  assumes "synced X A s" "fmlookup (ar_accumulators A') t = fmlookup (ar_accumulators A) t"
    "fmlookup (block_hash_to_height A') t = fmlookup (block_hash_to_height A) t" "tip s = Some t"
  shows "synced X A' s"
  using assms by (simp add: synced_def)

lemma synced_None: "tip s = None \<Longrightarrow> synced X A s \<longleftrightarrow> synced X A' s"
  by (simp add: synced_def)

lemma node_ok_frame:
  assumes "node_ok X n" "archive_ok A" "ar_headers A = ar_headers (nd_archive n)"
    "block_hash_to_height A = block_hash_to_height (nd_archive n)" "ar_accumulators A = ar_accumulators (nd_archive n)"
  shows "node_ok X (n\<lparr>nd_archive := A\<rparr>)"
  using assms synced_cong [of X "nd_archive n" "nd_state n" A] synced_None [of "nd_state n" X "nd_archive n" A]
  by (cases "tip (nd_state n)") (simp_all add: node_ok_def headers_keyed_def)

lemma node_put_body:
  assumes "node_ok X n" "put_body ord h body (nd_archive n) = Some (Inr A)"
  shows "node_ok X (n\<lparr>nd_archive := A\<rparr>)"
proof (rule node_ok_frame [OF assms(1)])
  show "archive_ok A" using archive_ok_frame [OF _ put_body_frame [OF assms(2)]] assms(1) by (simp add: node_ok_def)
qed (use same_tablesD [OF put_body_tables [OF assms(2)]] in \<open>simp_all add: tables_defs\<close>)

lemma node_same_tables:
  assumes "node_ok X n" "same_tables (nd_archive n) A"
  shows "node_ok X (n\<lparr>nd_archive := A\<rparr>)"
proof (rule node_ok_frame [OF assms(1)])
  show "archive_ok A" using archive_ok_frame same_tablesD(1,2) [OF assms(2)] assms(1) by (metis node_ok_def)
qed (use same_tablesD [OF assms(2)] in \<open>simp_all add: tables_defs\<close>)

lemma node_put_header:
  assumes ok: "node_ok X n" "order_ok ord" and put: "put_header X ord hdr (nd_archive n) = Inr A"
    and step: "archive_step X ord (nd_archive n) A"
    and new: "fmlookup (ar_headers (nd_archive n)) (header_hash X hdr) \<in> {None, Some hdr}"
  shows "node_ok X (n\<lparr>nd_archive := A\<rparr>)"
proof -
  let ?A = "nd_archive n" and ?h = "header_hash X hdr"
  have good: "archive_ok ?A" "headers_keyed X ?A" "synced X ?A (nd_state n)" using ok(1) by (simp_all add: node_ok_def)
  note parts = put_header_parts [OF put]
  obtain k where hts: "block_hash_to_height A = fmupd ?h k (block_hash_to_height ?A)"
    using put_header_tables [OF put refl] by auto
  have same: "fmlookup (block_hash_to_height A) ?h = fmlookup (block_hash_to_height ?A) ?h"
    if known: "fmlookup (block_hash_to_height ?A) ?h \<noteq> None"
  proof -
    have side: "side_ok ?A" using good(1) by (simp add: archive_ok_def)
    obtain j where j: "fmlookup (block_hash_to_height ?A) ?h = Some j" using known by blast
    have "fmlookup (ar_headers ?A) ?h = Some hdr" using new j side_ok_dom [OF side, of ?h] by auto
    with side_known [OF side j] have "j = (case prev_side_hash hdr of None \<Rightarrow> 0
        | Some p \<Rightarrow> the (fmlookup (block_hash_to_height ?A) p) + 1)"
      by (auto split: option.splits dest: unat_Suc_eq)
    then show ?thesis using parts(5) j by simp
  qed
  have "synced X A (nd_state n)"
  proof (cases "tip (nd_state n)")
    case (Some t)
    then have "fmlookup (block_hash_to_height ?A) t \<noteq> None" using good(3) by (auto simp: synced_def)
    then have "fmlookup (block_hash_to_height A) t = fmlookup (block_hash_to_height ?A) t"
      using same by (cases "t = ?h") (auto simp: hts)
    then show ?thesis using synced_cong [OF good(3) _ _ Some] parts(3) by simp
  qed (use good(3) synced_None in blast)
  then show ?thesis using step_keeps_ok [OF step ok(2) good(1)] good(2) parts(1) by (simp add: node_ok_def headers_keyed_def)
qed

lemma put_main_header_parts:
  assumes "put_main_header_info hi A = Inr A'"
  shows "ar_accumulators A' = ar_accumulators A"
  using assms by (auto simp: put_main_header_info_def Let_def res_simps split: if_splits dest!: put_main_successor_frame)

lemma put_main_info_accumulators:
  assumes "put_main_block_info ord m info A = Inr A'"
  shows "ar_accumulators A' = ar_accumulators A"
proof (cases "bmm_commitment info")
  case (Some c)
  then show ?thesis
    using assms by (cases "fmlookup (ar_headers A) c") (auto simp: put_main_block_info_def Let_def res_simps)
qed (use assms in \<open>auto simp: put_main_block_info_def Let_def res_simps\<close>)

text \<open>A mainchain block that is stored twice is the same, and heights stay below the largest \<^verbatim>\<open>u32\<close>.\<close>

definition main_fresh :: "'acc Archive \<Rightarrow> BlockHeaderInfo \<Rightarrow> bool" where
  "main_fresh A hi \<longleftrightarrow> fmlookup (main_header_infos A) (bhi_block_hash hi) \<in> {None, Some hi} \<and>
     fmlookup (main_block_hash_to_height A) (bhi_prev_block_hash hi) \<noteq> Some (- 1)"

lemma node_store_main:
  assumes ok: "node_ok X n" "order_ok ord" and put: "store_main_block ord (hi, info) (nd_archive n) = Inr A"
    and new: "main_fresh (nd_archive n) hi"
  shows "node_ok X (n\<lparr>nd_archive := A\<rparr>)"
proof -
  obtain A1 where A1: "put_main_header_info hi (nd_archive n) = Inr A1" and A: "put_main_block_info ord (bhi_block_hash hi) info A1 = Inr A"
    using put by (auto simp: store_main_block_def res_simps)
  have "archive_step X ord (nd_archive n) A1" using archive_step.main_header [OF A1] new by (simp add: main_fresh_def)
  then have "archive_ok A"
    using step_keeps_ok archive_step.main_info [OF A] ok by (metis node_ok_def)
  then show ?thesis
  proof (rule node_ok_frame [OF ok(1)])
    show "ar_headers A = ar_headers (nd_archive n)" "block_hash_to_height A = block_hash_to_height (nd_archive n)"
      using put_main_header_side [OF A1] put_main_info_frame [OF A] by (simp_all add: tables_defs)
    show "ar_accumulators A = ar_accumulators (nd_archive n)"
      using put_main_header_parts [OF A1] put_main_info_accumulators [OF A] by simp
  qed
qed

section \<open>Invalidating a block\<close>

lemma invalidate_one_kept:
  "fmlookup (ar_headers (invalidate_one h A)) g \<noteq> None \<Longrightarrow>
     fmlookup (ar_headers A) g \<noteq> None \<and> fmlookup (ar_accumulators (invalidate_one h A)) g = fmlookup (ar_accumulators A) g"
  by (auto simp: invalidate_one_def drop_successor_def Let_def split: option.splits if_splits)

lemma invalidate_kept:
  "fmlookup (ar_headers (invalidate_loop ord st A)) g \<noteq> None \<Longrightarrow>
     fmlookup (ar_headers A) g \<noteq> None \<and>
     fmlookup (ar_accumulators (invalidate_loop ord st A)) g = fmlookup (ar_accumulators A) g"
proof (induction ord st A rule: invalidate_loop.induct)
  case (2 ord h st A)
  let ?A1 = "invalidate_one h A"
  show ?case
  proof (cases "fmlookup (ar_successors ?A1) (Some h)")
    case None
    then show ?thesis using 2(1) [OF refl None] 2(3) invalidate_one_kept [of h A g] by (simp add: Let_def)
  next
    case (Some S)
    then show ?thesis using 2(2) [OF refl Some] 2(3) invalidate_one_kept [of h A g] by (simp add: Let_def)
  qed
qed simp

lemma offspring_above:
  assumes "side_ok A" "g \<in> offspring A h" "fmlookup (ar_headers A) h \<noteq> None"
  shows "has_ancestor (ar_get_height A) (side_parent A) g h"
  using assms(2)
proof induction
  case self
  then show ?case using side.above_self [of A h] side_ok_dom [OF assms(1), of h] assms(3) by auto
next
  case (child a c hdr)
  obtain k where k: "fmlookup (block_hash_to_height A) c = Some k" using side_ok_dom [OF assms(1), of c] child(2) by auto
  obtain j where j: "fmlookup (block_hash_to_height A) a = Some j" "unat k = Suc (unat j)"
    using side_known [OF assms(1) k] child(2,3) by auto
  obtain m where "m \<le> unat j" "walk (side_parent A) m a = Inr h" using child(4) j(1) by (auto simp: has_ancestor_def)
  moreover have "side_parent A c = Inr a" using child(2,3) by (simp add: side_parent_eq)
  ultimately show ?case using k j(2) by (auto simp: has_ancestor_def intro!: exI [of _ "Suc m"])
qed

lemma parent_not_offspring:
  assumes "side_ok A" "fmlookup (ar_headers A) h = Some hdr" "prev_side_hash hdr = Some p"
  shows "p \<notin> offspring A h"
proof
  assume "p \<in> offspring A h"
  obtain k j where k: "fmlookup (block_hash_to_height A) h = Some k" "fmlookup (block_hash_to_height A) p = Some j" "unat k = Suc (unat j)"
    using side_ok_dom [OF assms(1), of h] side_known [OF assms(1), of h] assms(2,3) by fastforce
  have "has_ancestor (ar_get_height A) (side_parent A) p h" using offspring_above [OF assms(1) \<open>p \<in> offspring A h\<close>] assms(2) by simp
  then have "k \<le> j" using side.above_height [OF assms(1), of p j h k] k(1,2) by simp
  then show False using k(3) by (simp add: word_le_nat_alt)
qed

lemma invalidate_node_ok:
  assumes ok: "node_ok X n" "order_ok ord" and out: "\<And>t. tip (nd_state n) = Some t \<Longrightarrow> t \<notin> offspring (nd_archive n) h"
  shows "node_ok X (n\<lparr>nd_archive := invalidate_block ord h (nd_archive n)\<rparr>)"
proof -
  let ?A = "nd_archive n" and ?B = "invalidate_block ord h (nd_archive n)"
  have good: "archive_ok ?A" "headers_keyed X ?A" "synced X ?A (nd_state n)" using ok(1) by (simp_all add: node_ok_def)
  have side: "side_ok ?A" "succ_ok ?A" using good(1) by (simp_all add: archive_ok_def)
  note eff = invalidate_block_effect [OF ok(2) side_ok_parents [OF side(1)] side(2), of h]
  have "archive_ok ?B" using step_keeps_ok [OF archive_step.invalidate ok(2) good(1)] .
  moreover have "headers_keyed X ?B" using good(2) eff by (simp add: headers_keyed_def split: if_splits)
  moreover have "synced X ?B (nd_state n)"
  proof (cases "tip (nd_state n)")
    case (Some t)
    have "fmlookup (ar_headers ?A) t \<noteq> None" using good(3) Some side_ok_dom [OF side(1), of t] by (auto simp: synced_def)
    then have "fmlookup (ar_headers ?B) t \<noteq> None" using eff out [OF Some] by simp
    then have "fmlookup (ar_accumulators ?B) t = fmlookup (ar_accumulators ?A) t"
      using invalidate_kept [of ord "[h]" ?A t] unfolding invalidate_block_def by blast
    then show ?thesis using synced_cong [OF good(3) _ _ Some] eff out [OF Some] by simp
  qed (use good(3) synced_None in blast)
  ultimately show ?thesis by (simp add: node_ok_def)
qed

lemma rewind_to_ok:
  assumes "rewind_to X target n = Some r"
  shows "r = Inr n' \<Longrightarrow> node_ok X n \<Longrightarrow> node_ok X n' \<and> nd_archive n' = nd_archive n \<and> tip (nd_state n') = target"
proof (induction arbitrary: n' rule: rewind_to.raw_induct [OF _ assms, case_names round])
  case (round loop X target n r)
  show ?case
  proof (cases "try_get_tip (nd_state n) = target")
    case False
    then obtain n1 where n1: "node_disconnect_tip X n = Some (Inr n1)" and rest: "loop X target n1 = Some r"
      using round(2,3) by (auto split: option.splits sum.splits)
    have "nd_archive n1 = nd_archive n" using node_disconnect_parts [OF n1] by blast
    with round(1) [OF rest round(3) node_disconnect_ok [OF round(4) n1]] show ?thesis by simp
  qed (use round(2-4) in \<open>auto simp: try_get_tip_def\<close>)
qed

lemma node_invalidate_ok:
  assumes ok: "node_ok X n" "order_ok ord" and inv: "node_invalidate_block X ord h n = Some (Inr n')"
  shows "node_ok X n'"
proof (cases "fmlookup (ar_headers (nd_archive n)) h")
  case (Some hdr)
  have side: "side_ok (nd_archive n)" using ok(1) by (simp add: node_ok_def archive_ok_def)
  obtain active n1 where active: "(case try_get_tip (nd_state n) of
        Some t \<Rightarrow> of_archive (is_descendant (nd_archive n) h t) | None \<Rightarrow> Inr False) = Inr active"
    and n1: "(if active then rewind_to X (prev_side_hash hdr) n else Some (Inr n)) = Some (Inr n1)"
    and n': "n' = n1\<lparr>nd_archive := invalidate_block ord h (nd_archive n1)\<rparr>"
    using inv Some by (auto simp: node_invalidate_block_def Let_def opt_then_eq_Inr)
  have same: "node_ok X n1 \<and> nd_archive n1 = nd_archive n" using n1 rewind_to_ok [OF _ refl ok(1)] ok(1) by (auto split: if_splits)
  have "t \<notin> offspring (nd_archive n) h" if t: "tip (nd_state n1) = Some t" for t
  proof (cases active)
    case True
    then have "prev_side_hash hdr = Some t" using n1 rewind_to_ok [OF _ refl ok(1)] t by auto
    then show ?thesis by (rule parent_not_offspring [OF side Some])
  next
    case False
    then have "tip (nd_state n) = Some t" "is_descendant (nd_archive n) h t = Inr False"
      using n1 t active by (auto simp: try_get_tip_def res_simps)
    moreover from this obtain k where "fmlookup (block_hash_to_height (nd_archive n)) t = Some k"
      using ok(1) by (auto simp: node_ok_def synced_def)
    moreover obtain i where "fmlookup (block_hash_to_height (nd_archive n)) h = Some i" using side_ok_dom [OF side, of h] Some by auto
    ultimately have "\<not> has_ancestor (ar_get_height (nd_archive n)) (side_parent (nd_archive n)) t h"
      using side_desc_exact [OF side, of h i t k] by simp
    then show ?thesis using offspring_above [OF side, of t h] Some by auto
  qed
  then show ?thesis using invalidate_node_ok [of X n1 ord h] same ok(2) n' by auto
qed (use inv ok in \<open>simp add: node_invalidate_block_def\<close>)

section \<open>Transactions\<close>

lemma cleanup_frame:
  "position (snd (cleanup_orphaned_locks s)) = position s \<and>
   utreexo_accumulator (snd (cleanup_orphaned_locks s)) = utreexo_accumulator s"
proof -
  have "(position (snd x'), utreexo_accumulator (snd x')) = (position s, utreexo_accumulator s)"
    if "x' = fold (\<lambda>(op, i) (n :: u32, s). case get_swap i s of Some _ \<Rightarrow> (n, s) | None \<Rightarrow> (n + 1, unlock_output_from_swap op s)) es (0, s)"
    for x' es
    unfolding that
    by (subst fold_keeps [of "\<lambda>x. (position (snd x), utreexo_accumulator (snd x))"])
      (auto simp: position_def unlock_output_from_swap_def split: option.splits)
  then show ?thesis by (simp add: cleanup_orphaned_locks_def)
qed

lemma node_ok_state:
  assumes "node_ok X n" "nd_archive n' = nd_archive n"
    "position (nd_state n') = position (nd_state n)" "utreexo_accumulator (nd_state n') = utreexo_accumulator (nd_state n)"
  shows "node_ok X n'"
  using assms by (cases "tip (nd_state n)") (auto simp: node_ok_def synced_def position_def get_accumulator_def)

lemma submit_transaction_parts:
  assumes "submit_transaction X at n = (r, n')"
  shows "nd_archive n' = nd_archive n" "nd_state n' = nd_state n \<or> nd_state n' = snd (cleanup_orphaned_locks (nd_state n))"
  using assms
  by (auto simp: submit_transaction_def Let_def split: sum.splits if_splits prod.splits)

lemma submit_transaction_ok:
  assumes "node_ok X n" "submit_transaction X at n = (r, n')"
  shows "node_ok X n'"
  using submit_transaction_parts [OF assms(2)] cleanup_frame [of "nd_state n"]
  by (intro node_ok_state [OF assms(1)]) auto

section \<open>Reachable nodes\<close>

text \<open>
  The operations that change what is committed. Block hashes do not collide, so a header that is stored
  twice is the same header, and heights stay below the largest \<^verbatim>\<open>u32\<close>.
\<close>

inductive node_step :: "'acc ext \<Rightarrow> (hash256 fset \<Rightarrow> hash256 list) \<Rightarrow> 'acc Node \<Rightarrow> 'acc Node \<Rightarrow> bool" for X ord where
  reorg: "reorg_to_tip X ord rpc new n = Some (r, n') \<Longrightarrow> node_step X ord n n'"
| invalidate: "node_invalidate_block X ord h n = Some (Inr n') \<Longrightarrow> node_step X ord n n'"
| header: "put_header X ord hdr (nd_archive n) = Inr A \<Longrightarrow>
    fmlookup (ar_headers (nd_archive n)) (header_hash X hdr) \<in> {None, Some hdr} \<Longrightarrow>
    (\<forall>p. prev_side_hash hdr = Some p \<longrightarrow> fmlookup (block_hash_to_height (nd_archive n)) p \<noteq> Some (- 1)) \<Longrightarrow>
    node_step X ord n (n\<lparr>nd_archive := A\<rparr>)"
| body: "put_body ord h body (nd_archive n) = Some (Inr A) \<Longrightarrow> node_step X ord n (n\<lparr>nd_archive := A\<rparr>)"
| main_block: "store_main_block ord (hi, info) (nd_archive n) = Inr A \<Longrightarrow> main_fresh (nd_archive n) hi \<Longrightarrow>
    node_step X ord n (n\<lparr>nd_archive := A\<rparr>)"
| main_connect: "handle_block_event ord (ConnectBlock hi info) (nd_archive n) = Inr A \<Longrightarrow> main_fresh (nd_archive n) hi \<Longrightarrow>
    node_step X ord n (n\<lparr>nd_archive := A\<rparr>)"
| main_disconnect: "handle_block_event ord (DisconnectBlock m) (nd_archive n) = Inr A \<Longrightarrow> node_step X ord n (n\<lparr>nd_archive := A\<rparr>)"
| main_sync: "sync_side_tips_to_tip m (nd_archive n) = Some (Inr (A, evs)) \<Longrightarrow> node_step X ord n (n\<lparr>nd_archive := A\<rparr>)"
| submit: "submit_transaction X at n = (r, n') \<Longrightarrow> node_step X ord n n'"
| get_template: "get_transactions X k n = Inr (txs, fee, n') \<Longrightarrow> node_step X ord n n'"
| remove: "node_step X ord n (remove_from_mempool t n)"

inductive node_reach :: "'acc ext \<Rightarrow> (hash256 fset \<Rightarrow> hash256 list) \<Rightarrow> 'acc Node \<Rightarrow> bool" for X ord where
  new: "node_reach X ord \<lparr>nd_state = State_new, nd_archive = Archive_new, nd_mempool = MemPool_new\<rparr>"
| step: "node_reach X ord n \<Longrightarrow> node_step X ord n n' \<Longrightarrow> node_reach X ord n'"

lemma node_step_ok:
  assumes "node_step X ord n n'" "node_ok X n" "order_ok ord"
  shows "node_ok X n'"
  using assms(1)
proof cases
  case (reorg rpc new r)
  then show ?thesis using reorg_outcomes assms(2,3) by blast
next
  case (invalidate h)
  then show ?thesis using node_invalidate_ok assms(2,3) by blast
next
  case (header hdr A)
  then show ?thesis using node_put_header [OF assms(2,3) header(2)] archive_step.header [OF header(2,3)] by simp
next
  case (body h b A)
  then show ?thesis using node_put_body [OF assms(2)] by simp
next
  case (main_block hi info A)
  then show ?thesis using node_store_main [OF assms(2,3)] by simp
next
  case (main_connect hi info A)
  then obtain A1 where A1: "store_main_block ord (hi, info) (nd_archive n) = Inr A1" "connect_main_tip hi info A1 = Inr A"
    by (auto simp: handle_block_event_def res_simps)
  have "node_ok X (n\<lparr>nd_archive := A1\<rparr>)" by (rule node_store_main [OF assms(2,3) A1(1) main_connect(3)])
  from node_same_tables [OF this, of A] connect_main_tip_effect [OF A1(2)] show ?thesis by (simp add: main_connect)
next
  case (main_disconnect m A)
  then have "same_tables (nd_archive n) A" by (auto simp: handle_block_event_def res_simps ar_side_eq)
  then show ?thesis using node_same_tables [OF assms(2)] main_disconnect by simp
next
  case (main_sync m A evs)
  then show ?thesis using node_same_tables [OF assms(2)] sync_effect by blast
next
  case (submit at r)
  then show ?thesis using submit_transaction_ok assms(2) by blast
next
  case (get_template k txs fee)
  then show ?thesis by (intro node_ok_state [OF assms(2)]) (auto simp: get_transactions_def res_simps)
next
  case (remove t)
  then show ?thesis by (intro node_ok_state [OF assms(2)]) (auto simp: remove_from_mempool_def)
qed

lemma node_reach_ok:
  assumes "node_reach X ord n" "order_ok ord"
  shows "node_ok X n"
  using assms(1) by induction (use node_ok_new node_step_ok assms(2) in blast)+

end
