(* ===== verification/Node_Examples.thy ===== *)
theory Node_Examples
  imports Node_Machine Archive_Examples
begin

text \<open>
  Small nodes. The mainchain has the blocks 11, 12 and 13, with a deposit in 11; block 12 commits to the
  sidechain block 2. One node has stored block 2 and its body; another one has connected block 2 with the
  deposit, and block 3, which applies nothing, on top of it.
\<close>

datatype node_op = NdMain BlockHeaderInfo BlockInfo | NdHeader Header | NdBody BlockHash Body

text \<open>An operation with the conditions of a step.\<close>

definition replay_node_op ::
  "'acc ext \<Rightarrow> (hash256 fset \<Rightarrow> hash256 list) \<Rightarrow> node_op \<Rightarrow> 'acc Node \<Rightarrow> 'acc Node nres option" where
  "replay_node_op X ord op n =
     (let A = nd_archive n in
      opt_then (case op of
                  NdMain hi info \<Rightarrow>
                    if main_fresh A hi then Some (of_archive (handle_block_event ord (ConnectBlock hi info) A)) else None
                | NdHeader hdr \<Rightarrow>
                    if fmlookup (ar_headers A) (header_hash X hdr) = None \<and>
                       (case prev_side_hash hdr of None \<Rightarrow> True | Some p \<Rightarrow> fmlookup (block_hash_to_height A) p \<noteq> Some (- 1))
                    then Some (of_archive (put_header X ord hdr A)) else None
                | NdBody h body \<Rightarrow> map_option of_archive (put_body ord h body A)) (\<lambda>A1.
      Some (Inr (n\<lparr>nd_archive := A1\<rparr>))))"

fun replay_node ::
  "'acc ext \<Rightarrow> (hash256 fset \<Rightarrow> hash256 list) \<Rightarrow> node_op list \<Rightarrow> 'acc Node \<Rightarrow> 'acc Node nres option" where
  "replay_node X ord [] n = Some (Inr n)"
| "replay_node X ord (op # ops) n = opt_then (replay_node_op X ord op n) (replay_node X ord ops)"

lemma replay_node_step:
  assumes "replay_node_op X ord op n = Some (Inr n')"
  shows "node_step X ord n n'"
proof (cases op)
  case (NdMain hi info)
  with assms show ?thesis
    by (auto simp: replay_node_op_def Let_def opt_then_eq_Inr res_simps split: if_splits intro: node_step.main_connect)
next
  case (NdHeader hdr)
  with assms show ?thesis
    by (auto simp: replay_node_op_def Let_def opt_then_eq_Inr res_simps split: if_splits option.splits intro!: node_step.header)
next
  case (NdBody h body)
  with assms show ?thesis
    by (auto simp: replay_node_op_def Let_def node_simps intro: node_step.body)
qed

lemma replay_node_reach:
  "replay_node X ord ops n = Some (Inr n') \<Longrightarrow> node_reach X ord n \<Longrightarrow> node_reach X ord n'"
  by (induction ops arbitrary: n) (auto simp: opt_then_eq_Inr dest: replay_node_step intro: node_reach.step)

lemma replay_node_mempool: "replay_node X ord ops n = Some (Inr n') \<Longrightarrow> nd_mempool n' = nd_mempool n"
  by (induction ops arbitrary: n) (auto simp: opt_then_eq_Inr replay_node_op_def Let_def)

definition ex_next :: "hash256 list ext" where
  "ex_next = ex_ext\<lparr>borsh_header := (\<lambda>hdr. case prev_side_hash hdr of None \<Rightarrow> [1, 2] | Some _ \<Rightarrow> [1, 2, 3])\<rparr>"

definition ex_deposit :: Deposit where
  "ex_deposit = \<lparr>dep_tx_index = 0, dep_outpoint = (1, 0), dep_output = \<lparr>address = 5, content = Value 10\<rparr>\<rparr>"

definition ex_empty :: Body where
  "ex_empty = \<lparr>coinbase = [], transactions = [], body_authorizations = []\<rparr>"

definition ex_first :: Header where
  "ex_first = \<lparr>merkle_root = 4, prev_side_hash = None, prev_main_hash = 11, roots = []\<rparr>"

definition ex_second :: Header where
  "ex_second = \<lparr>merkle_root = 4, prev_side_hash = Some 2, prev_main_hash = 12, roots = [1]\<rparr>"

lemma ex_hashes [simp]: "header_hash ex_next ex_first = 2" "header_hash ex_next ex_second = 3"
  by (simp_all add: header_hash_def ex_next_def ex_ext_def ex_first_def ex_second_def)

definition ex_deposit_info :: BlockInfo where
  "ex_deposit_info = \<lparr>bmm_commitment = None, bi_events = [EvDeposit ex_deposit]\<rparr>"

definition ex_main_ops :: "node_op list" where
  "ex_main_ops =
     [NdMain \<lparr>bhi_block_hash = 11, bhi_prev_block_hash = 0, bhi_height = 0, bhi_work = 1\<rparr> ex_deposit_info,
      NdMain \<lparr>bhi_block_hash = 12, bhi_prev_block_hash = 11, bhi_height = 1, bhi_work = 1\<rparr> \<lparr>bmm_commitment = Some 2, bi_events = []\<rparr>,
      NdMain \<lparr>bhi_block_hash = 13, bhi_prev_block_hash = 12, bhi_height = 2, bhi_work = 1\<rparr> \<lparr>bmm_commitment = None, bi_events = []\<rparr>]"

definition ex_origin :: "hash256 list Node" where
  "ex_origin = \<lparr>nd_state = State_new, nd_archive = Archive_new, nd_mempool = MemPool_new\<rparr>"

definition node_of :: "'acc Node nres option \<Rightarrow> 'acc Node" where
  "node_of r = projr (the r)"

definition ex_peg :: TwoWayPegData where
  "ex_peg = [(11, [EvDeposit ex_deposit])]"

definition ex_new :: Tip where
  "ex_new = \<lparr>tip_block_hash = 2, tip_main_block_hash = 12\<rparr>"

definition ex_stored :: "hash256 list Node nres option" where
  "ex_stored = replay_node ex_next ex_ord (ex_main_ops @ [NdHeader ex_first, NdBody 2 ex_empty]) ex_origin"

definition succeeds :: "'acc Node nres option \<Rightarrow> ('acc Node \<Rightarrow> bool) \<Rightarrow> bool" where
  "succeeds r P = (case r of Some (Inr n) \<Rightarrow> P n | _ \<Rightarrow> False)"

lemma succeedsD: "succeeds r P \<Longrightarrow> r = Some (Inr (node_of r)) \<and> P (node_of r)"
  by (auto simp: succeeds_def node_of_def split: option.splits sum.splits)


text \<open>The connection of a block after its validation.\<close>

definition connect_from ::
  "'acc ext \<Rightarrow> (hash256 fset \<Rightarrow> hash256 list) \<Rightarrow> rpc option \<Rightarrow> Header \<Rightarrow> Body \<Rightarrow> TwoWayPegData \<Rightarrow> PrevalidatedBlock \<Rightarrow>
   'acc Node \<Rightarrow> 'acc Node nres option" where
  "connect_from X ord rpc hdr body peg pre n =
     opt_then (Some (of_state (and_then (connect_prevalidated X hdr body pre (nd_state n)) (\<lambda>(_, s1).
       connect_two_way_peg_data X rpc peg s1)))) (\<lambda>s.
     let h = header_hash X hdr; acc = get_accumulator X s in
     opt_then (Some (of_archive (put_header X ord hdr (nd_archive n)))) (\<lambda>A1.
     opt_then (map_option of_archive (put_body ord h body A1)) (\<lambda>A2.
     Some (Inr \<lparr>nd_state = s, nd_archive = put_accumulator h acc A2,
                nd_mempool = connect_mempool X body acc (nd_mempool n)\<rparr>))))"

lemma connect_from_eq:
  "prevalidate X (nd_state n) hdr body = Inr pre \<Longrightarrow>
     node_connect_tip X ord rpc hdr body peg n = connect_from X ord rpc hdr body peg pre n"
  by (simp add: node_connect_tip_def connect_state_def connect_from_def)

definition empty_pre :: "u32 \<Rightarrow> PrevalidatedBlock" where
  "empty_pre h = \<lparr>filled_transactions = [], computed_merkle_root = 4, total_fees = 0, coinbase_value = 0,
     next_height = h, accumulator_diff = diff_default\<rparr>"

lemma empty_prevalidates:
  assumes "tip s = prev_side_hash hdr" "merkle_root hdr = 4" "roots hdr = get_accumulator ex_next s" "validating_height s = h" "h \<in> {0, 1}"
  shows "prevalidate ex_next s hdr ex_empty = Inr (empty_pre h)"
proof -
  have "check_limits ex_next h ex_empty = Inr ()"
    using assms(5) by (auto simp: check_limits_def body_sigops_limit_def body_size_limit_def body_limit_def ex_next_def ex_ext_def ex_empty_def)
  moreover have "body_merkle_root ex_next hdr ex_empty [] = Inr 4"
    by (simp add: body_merkle_root_def compute_merkle_root_def assms(2) ex_next_def ex_ext_def ex_empty_def)
  moreover have "check_roots ex_next diff_default (get_accumulator ex_next s) hdr = Inr ()"
    using assms(3) by (simp add: check_roots_def apply_diff_def utreexo_res_def diff_default_def ex_next_def ex_ext_def)
  ultimately show ?thesis
    using assms(1,4)
    by (simp add: prevalidate_def check_prev_side_hash_def try_get_tip_def check_double_spend_def coinbase_total_def
        coinbase_outputs_def output_hashes_def ex_empty_def empty_pre_def check_body_owners_def check_body_authorizations_def
        verify_authorizations_def check_count_def inputs_len_def Let_def ensure_def)
qed

definition stored_facts :: "hash256 list Node \<Rightarrow> bool" where
  "stored_facts n \<longleftrightarrow>
     tip (nd_state n) = None \<and> height (nd_state n) = None \<and> utreexo_accumulator (nd_state n) = None \<and>
     fmlookup (ar_headers (nd_archive n)) 2 = Some ex_first \<and> fmlookup (block_hash_to_height (nd_archive n)) 2 = Some 0 \<and>
     blocks_to_apply (nd_archive n) None 2 = Some (Inr [(ex_first, ex_empty)]) \<and>
     main_infos (nd_archive n) (\<lambda>_. True) None 11 = Some (Inr [(11, ex_deposit_info)]) \<and>
     succeeds (connect_from ex_next ex_ord None ex_first ex_empty ex_peg (empty_pre 0) n) (\<lambda>n1.
       tip (nd_state n1) = Some 2 \<and> height (nd_state n1) = Some 0 \<and> verified_tip ex_ord (nd_archive n1) 2 = Inr ex_new)"

lemma ex_stored_run: "succeeds ex_stored stored_facts"
  by code_simp

definition ex_first_node :: "hash256 list Node nres option" where
  "ex_first_node = opt_then (replay_node ex_next ex_ord ex_main_ops ex_origin)
     (connect_from ex_next ex_ord None ex_first ex_empty ex_peg (empty_pre 0))"

definition ex_second_node :: "hash256 list Node nres option" where
  "ex_second_node = opt_then ex_first_node (connect_from ex_next ex_ord None ex_second ex_empty [] (empty_pre 1))"

definition tip_facts :: "hash256 list Node \<Rightarrow> bool" where
  "tip_facts n \<longleftrightarrow>
     tip (nd_state n) = Some 3 \<and> height (nd_state n) = Some 1 \<and>
     fmlookup (ar_headers (nd_archive n)) 3 = Some ex_second \<and> fmlookup (ar_bodies (nd_archive n)) 3 = Some ex_empty \<and>
     deposit_blocks (nd_state n) = fmupd 0 (11, 0) fmempty \<and> withdrawal_bundle_event_blocks (nd_state n) = fmempty \<and>
     main_infos (nd_archive n) (\<lambda>info. bi_events info \<noteq> []) None 12 = Some (Inr [(11, ex_deposit_info)]) \<and>
     fmlookup (utxos (nd_state n)) (OpDeposit (1, 0)) \<noteq> None \<and> fmlookup (expired_swaps (nd_state n)) 1 = None \<and>
     latest_failed_withdrawal_bundle (nd_state n) = None"

lemma ex_second_run: "succeeds ex_second_node tip_facts"
  by code_simp

text \<open>The two blocks are connected with the node's own function.\<close>

lemma ex_first_run:
  "succeeds (replay_node ex_next ex_ord ex_main_ops ex_origin) (\<lambda>n.
     tip (nd_state n) = None \<and> height (nd_state n) = None \<and> utreexo_accumulator (nd_state n) = None)"
  "succeeds ex_first_node (\<lambda>n. tip (nd_state n) = Some 2 \<and> height (nd_state n) = Some 0 \<and> utreexo_accumulator (nd_state n) = Some [1])"
  by code_simp+

lemma ex_connects:
  "tip (nd_state n) = None \<Longrightarrow> height (nd_state n) = None \<Longrightarrow> utreexo_accumulator (nd_state n) = None \<Longrightarrow>
     node_connect_tip ex_next ord rpc ex_first ex_empty peg n = connect_from ex_next ord rpc ex_first ex_empty peg (empty_pre 0) n"
  "tip (nd_state n) = Some 2 \<Longrightarrow> height (nd_state n) = Some 0 \<Longrightarrow> utreexo_accumulator (nd_state n) = Some [1] \<Longrightarrow>
     node_connect_tip ex_next ord rpc ex_second ex_empty peg n = connect_from ex_next ord rpc ex_second ex_empty peg (empty_pre 1) n"
  by (rule connect_from_eq, rule empty_prevalidates;
      simp add: ex_first_def ex_second_def validating_height_def try_get_height_def get_accumulator_def ex_next_def ex_ext_def)+

lemma ex_first_connected:
  "node_connect_tip ex_next ex_ord None ex_first ex_empty ex_peg (node_of (replay_node ex_next ex_ord ex_main_ops ex_origin)) =
     Some (Inr (node_of ex_first_node))"
  using succeedsD [OF ex_first_run(1)] succeedsD [OF ex_first_run(2)] ex_connects(1) unfolding ex_first_node_def
  by (metis opt_then_simps(3))

lemma ex_second_connected:
  "ex_second_node = opt_then (opt_then (replay_node ex_next ex_ord ex_main_ops ex_origin)
     (node_connect_tip ex_next ex_ord None ex_first ex_empty ex_peg)) (node_connect_tip ex_next ex_ord None ex_second ex_empty [])"
proof -
  note zero = succeedsD [OF ex_first_run(1)] and one = succeedsD [OF ex_first_run(2)]
  have "opt_then (replay_node ex_next ex_ord ex_main_ops ex_origin) (node_connect_tip ex_next ex_ord None ex_first ex_empty ex_peg) =
      ex_first_node"
    using zero ex_connects(1) unfolding ex_first_node_def by (metis opt_then_simps(3))
  then show ?thesis using one ex_connects(2) unfolding ex_second_node_def by (metis opt_then_simps(3))
qed

lemma ex_stored_reach: "node_reach ex_next ex_ord (node_of ex_stored)"
  using succeedsD [OF ex_stored_run] replay_node_reach node_reach.new unfolding ex_stored_def ex_origin_def by blast

text \<open>A reorganization of the node that has stored block 2.\<close>

lemma ex_reorg:
  "\<exists>db. reorg_to_tip ex_next ex_ord None ex_new (node_of ex_stored) = Some (Inr True, db) \<and>
     try_get_tip (nd_state db) = Some 2 \<and> try_get_height (nd_state db) = Some 0"
proof -
  let ?n = "node_of ex_stored"
  have facts: "stored_facts ?n" using succeedsD [OF ex_stored_run] by blast
  then have n: "tip (nd_state ?n) = None" "height (nd_state ?n) = None" "utreexo_accumulator (nd_state ?n) = None"
    "blocks_to_apply (nd_archive ?n) None 2 = Some (Inr [(ex_first, ex_empty)])"
    "main_infos (nd_archive ?n) (\<lambda>_. True) None 11 = Some (Inr [(11, ex_deposit_info)])"
    by (simp_all add: stored_facts_def)
  have "succeeds (connect_from ex_next ex_ord None ex_first ex_empty ex_peg (empty_pre 0) ?n) (\<lambda>n1.
      tip (nd_state n1) = Some 2 \<and> height (nd_state n1) = Some 0 \<and> verified_tip ex_ord (nd_archive n1) 2 = Inr ex_new)"
    using facts by (simp add: stored_facts_def)
  from succeedsD [OF this] obtain n1 where con: "node_connect_tip ex_next ex_ord None ex_first ex_empty ex_peg ?n = Some (Inr n1)"
    and n1: "tip (nd_state n1) = Some 2" "height (nd_state n1) = Some 0" "verified_tip ex_ord (nd_archive n1) 2 = Inr ex_new"
    using ex_connects(1) [OF n(1-3)] by metis
  have peg: "fill_peg (prev_main_hash ex_first) [(11, ex_deposit_info)] [] = (ex_peg, [])"
    by (simp add: ex_first_def ex_deposit_info_def ex_peg_def peg_replace_def)
  have "node_tip ex_ord ?n = Inr None" using n(1) by (simp add: node_tip_def try_get_tip_def)
  moreover have "prepare_reorg ex_next None ex_new ?n = Some (Inr ([(ex_first, ex_empty)], [(11, ex_deposit_info)], ?n))"
    using n by (simp add: prepare_reorg_def ex_new_def try_get_height_def try_get_tip_def ex_first_def)
  moreover have "apply_blocks ex_next ex_ord None None [(ex_first, ex_empty)] [(11, ex_deposit_info)] ?n ?n = Some (Inr n1, n1)"
    using con n1 by (simp add: peg applied_tip_def try_get_tip_def improves_def del: fill_peg.simps)
  ultimately show ?thesis using n1(1,2) by (simp add: reorg_to_tip_def improves_def try_get_tip_def try_get_height_def ex_new_def)
qed

text \<open>The same without the deposit: the second block can be disconnected.\<close>

definition ex_third :: Header where
  "ex_third = ex_second\<lparr>roots := []\<rparr>"

definition ex_plain_start :: "hash256 list Node nres option" where
  "ex_plain_start = replay_node ex_next ex_ord
     [NdMain \<lparr>bhi_block_hash = 11, bhi_prev_block_hash = 0, bhi_height = 0, bhi_work = 1\<rparr> \<lparr>bmm_commitment = None, bi_events = []\<rparr>,
      NdMain \<lparr>bhi_block_hash = 12, bhi_prev_block_hash = 11, bhi_height = 1, bhi_work = 1\<rparr> \<lparr>bmm_commitment = None, bi_events = []\<rparr>]
     ex_origin"

definition ex_plain_first :: "hash256 list Node nres option" where
  "ex_plain_first = opt_then ex_plain_start (connect_from ex_next ex_ord None ex_first ex_empty [] (empty_pre 0))"

definition ex_plain :: "hash256 list Node nres option" where
  "ex_plain = opt_then ex_plain_first (connect_from ex_next ex_ord None ex_third ex_empty [] (empty_pre 1))"

lemma ex_plain_run:
  "succeeds ex_plain_start (\<lambda>n. tip (nd_state n) = None \<and> height (nd_state n) = None \<and> utreexo_accumulator (nd_state n) = None \<and>
     fmlookup (ar_headers (nd_archive n)) 2 = None)"
  "succeeds ex_plain_first (\<lambda>n. tip (nd_state n) = Some 2 \<and> height (nd_state n) = Some 0 \<and>
     utreexo_accumulator (nd_state n) = Some [] \<and> fmlookup (ar_headers (nd_archive n)) 3 = None)"
  "succeeds ex_plain (\<lambda>n. tip (nd_state n) = Some 3 \<and> height (nd_state n) = Some 1 \<and>
     fmlookup (block_hash_to_height (nd_archive n)) 2 = Some 0 \<and> last_common_ancestor (nd_archive n) 3 2 = Some (Inr (Some 2)) \<and>
     succeeds (disconnect_tips ex_next 1 n) (\<lambda>n'. tip (nd_state n') = Some 2))"
  "succeeds ex_plain (\<lambda>n. ar_get_height (nd_archive n) 3 = Inr 1 \<and> lineage (nd_archive n) 1 3 = [3, 2] \<and> contains_body (nd_archive n) 3)"
  by code_simp+

lemma ex_plain_ok: "node_ok ex_next (node_of ex_plain)"
proof -
  note zero = succeedsD [OF ex_plain_run(1)] and one = succeedsD [OF ex_plain_run(2)] and two = succeedsD [OF ex_plain_run(3)]
  have hash: "header_hash ex_next ex_third = 3" by (simp add: header_hash_def ex_next_def ex_ext_def ex_third_def ex_second_def)
  have "prevalidate ex_next (nd_state (node_of ex_plain_first)) ex_third ex_empty = Inr (empty_pre 1)"
    using one by (intro empty_prevalidates)
      (simp_all add: ex_third_def ex_second_def validating_height_def try_get_height_def get_accumulator_def)
  then have con: "node_connect_tip ex_next ex_ord None ex_third ex_empty [] (node_of ex_plain_first) = Some (Inr (node_of ex_plain))"
    using one two connect_from_eq unfolding ex_plain_def by (metis opt_then_simps(3))
  have con0: "node_connect_tip ex_next ex_ord None ex_first ex_empty [] (node_of ex_plain_start) = Some (Inr (node_of ex_plain_first))"
    using zero one ex_connects(1) unfolding ex_plain_first_def by (metis opt_then_simps(3))
  have "node_ok ex_next (node_of ex_plain_start)"
    using zero replay_node_reach node_reach.new node_reach_ok [OF _ ex_order] unfolding ex_plain_start_def ex_origin_def by blast
  then have "node_ok ex_next (node_of ex_plain_first)" using node_connect_ok [OF _ ex_order con0] zero by simp
  then show ?thesis using node_connect_ok [OF _ ex_order con] one hash by simp
qed

lemma ex_sync_run:
  "succeeds ex_stored (\<lambda>n. case sync_side_tips_to_tip 12 (nd_archive n) of Some (Inr _) \<Rightarrow> True | _ \<Rightarrow> False)"
  by code_simp

lemma ex_unknown_run:
  "case handle_block_event ex_ord (ConnectBlock \<lparr>bhi_block_hash = 11, bhi_prev_block_hash = 0, bhi_height = 0, bhi_work = 1\<rparr>
      \<lparr>bmm_commitment = Some 99, bi_events = []\<rparr>) (Archive_new :: hash256 list Archive) of Inl _ \<Rightarrow> False | Inr _ \<Rightarrow> True"
  by code_simp

lemma ex_line:
  "walk (side_parent (ex_archive\<lparr>ar_bodies := fmupd 1 ex_body (ar_bodies ex_archive)\<rparr>)) 2 4 = Inr 1"
proof -
  have "case try_fold (replay_op ex_aext ex_ord) ex_ops Archive_new of Inl _ \<Rightarrow> False
      | Inr A \<Rightarrow> walk (side_parent (A\<lparr>ar_bodies := fmupd 1 ex_body (ar_bodies A)\<rparr>)) 2 4 = Inr 1"
    by code_simp
  then show ?thesis by (simp add: ex_run)
qed

text \<open>A node whose mempool has one valid transaction.\<close>

definition ex_pooled :: AuthorizedTransaction where
  "ex_pooled = \<lparr>auth_transaction = ex_tx, authorizations = body_authorizations ex_body\<rparr>"

definition ex_template_node :: "hash256 list Node" where
  "ex_template_node = \<lparr>nd_state = ex_state, nd_archive = Archive_new,
     nd_mempool = \<lparr>mp_transactions = fmupd 8 ex_pooled fmempty, mp_spent_utxos = fmupd ex_op 8 fmempty\<rparr>\<rparr>"

lemma ex_template_pool: "pool_ok (nd_mempool ex_template_node)"
  by (auto simp: pool_ok_def ex_template_node_def ex_pooled_def pool_inputs_def)

lemma ex_pooled_valid: "validate_transaction ex_ext ex_state ex_pooled = Inr 3"
proof -
  let ?ft = "\<lparr>transaction = ex_tx, spent_utxos = [ex_utxo]\<rparr>"
  have "validate_swap_data ex_ext ex_state ex_tx ?ft = Inr ()"
    by (simp add: validate_swap_data_def validate_no_locked_outputs_def is_output_locked_to_swap_def ex_defs)
  moreover have "check_owner ex_ext c (\<lparr>verifying_key = [5], signature = []\<rparr>, ex_utxo) = Inr ()" for c
    by (simp add: check_owner_def get_address_def ex_defs)
  moreover have "verify_authorized_transaction ex_ext ex_pooled = Inr ()"
    by (simp add: verify_authorized_transaction_def check_count_def ensure_def ex_pooled_def ex_defs)
  moreover have "validate_filled_transaction ex_ext ?ft = Inr 3" by (simp add: validate_filled_iff filled_inputs_def get_value_def pointed_hash_def ex_defs)
  ultimately show ?thesis by (simp add: validate_transaction_def ex_pooled_def ex_filled ex_body_def)
qed

lemma ex_template_run:
  "get_transactions ex_ext 1 ex_template_node =
     Inr ([(\<lparr>transaction = ex_tx, spent_utxos = [ex_utxo]\<rparr>, body_authorizations ex_body)], 3, ex_template_node)"
proof -
  let ?ft = "\<lparr>transaction = ex_tx, spent_utxos = [ex_utxo]\<rparr>"
  have "template_fee ?ft 0 = Inr 3" by (simp add: template_fee_def get_value_def checked_add_def checked_sub_def ex_defs)
  moreover have "pool_take 1 (nd_mempool ex_template_node) = [ex_pooled]"
    by (simp add: pool_take_def ex_template_node_def db_iter_singleton)
  moreover have "nd_state ex_template_node = ex_state" by (simp add: ex_template_node_def)
  ultimately show ?thesis
    by (simp add: get_transactions_def template_step_def ex_pooled_valid fill_authorized_transaction_def)
      (simp add: ex_pooled_def ex_filled)
qed

end
