(* ===== verification/Node_Properties.thy ===== *)
theory Node_Properties
  imports Node_Examples
begin

text \<open>The properties of the node, its tasks and the reconstruction of swaps.\<close>

section \<open>Connecting a block\<close>

text \<open>When the node connects a block, the block is the new tip of the state, one above its
parent; the archive has its header, its body and the accumulator that the state has now; and the mempool has none
of its transactions any more, with its record of spent outputs still right.\<close>

theorem node_connect_effect:
  assumes "node_connect_tip X ord rpc hdr body peg n = Some (Inr n')" "pool_ok (nd_mempool n)"
  shows "try_get_tip (nd_state n') = Some (header_hash X hdr) \<and> prev_side_hash hdr = try_get_tip (nd_state n) \<and>
    try_get_height (nd_state n') = Some (validating_height (nd_state n)) \<and>
    get_header (nd_archive n') (header_hash X hdr) = Inr hdr \<and> get_body (nd_archive n') (header_hash X hdr) = Inr body \<and>
    ar_get_accumulator (nd_archive n') (header_hash X hdr) = Inr (get_accumulator X (nd_state n')) \<and>
    (\<forall>tx \<in> set (transactions body). fmlookup (mp_transactions (nd_mempool n')) (txid X tx) = None) \<and>
    pool_ok (nd_mempool n')"
proof -
  have "nd_mempool n' = connect_mempool X body (get_accumulator X (nd_state n')) (nd_mempool n)"
    using node_connect_parts [OF assms(1)] by auto
  then show ?thesis
    using node_connect_position [OF assms(1)] node_connect_archive [OF assms(1)]
      connect_mempool_effect [OF assms(2), of X body "get_accumulator X (nd_state n')"]
    by (simp add: try_get_tip_def try_get_height_def get_header_def get_body_def ar_get_accumulator_def)
qed

theorem node_connect_effect_witness:
  "try_get_tip (nd_state (node_of ex_first_node)) = Some 2 \<and>
   get_body (nd_archive (node_of ex_first_node)) 2 = Inr ex_empty"
proof -
  have "nd_mempool (node_of (replay_node ex_next ex_ord ex_main_ops ex_origin)) = MemPool_new"
    using succeedsD [OF ex_first_run(1)] replay_node_mempool by (metis Node.select_convs(3) ex_origin_def)
  from node_connect_effect [OF ex_first_connected, unfolded this] show ?thesis by (simp add: pool_ok_new)
qed

text \<open>Connecting a block to a node in order ends, with a result or an error: the loop over
the sidechain tips that storing its body starts goes through blocks of growing height.\<close>

theorem node_connect_returns:
  assumes "node_reach X ord n" "order_ok ord"
    and "fmlookup (ar_headers (nd_archive n)) (header_hash X hdr) \<in> {None, Some hdr}" "try_get_height (nd_state n) \<noteq> Some (- 1)"
  shows "\<exists>r. node_connect_tip X ord rpc hdr body peg n = Some r"
  using node_connect_ends [OF node_reach_ok [OF assms(1,2)] assms(2,3)] assms(4) by (simp add: try_get_height_def)

theorem node_connect_returns_witness: "\<exists>r. node_connect_tip ex_next ex_ord None ex_first ex_body [] (node_of ex_stored) = Some r"
  by (rule node_connect_returns [OF ex_stored_reach ex_order])
    (use succeedsD [OF ex_stored_run] in \<open>simp_all add: stored_facts_def ex_hashes try_get_height_def\<close>)

section \<open>The archive and the state agree\<close>

text \<open>C12. In every node that the operations reach from an empty one - reorganizations with all
their outcomes, invalidated blocks, stored headers, bodies and mainchain blocks, mainchain events and
synchronization, submitted transactions and templates - the archive is well formed, its headers are stored under
their hashes, and it knows the height and the accumulator of the tip as the state has them.\<close>

theorem node_reach_synced:
  assumes "node_reach X ord n" "order_ok ord"
  shows "archive_ok (nd_archive n) \<and>
    (\<forall>h hdr. get_header (nd_archive n) h = Inr hdr \<longrightarrow> header_hash X hdr = h) \<and>
    (case try_get_tip (nd_state n) of
       None \<Rightarrow> try_get_height (nd_state n) = None
     | Some t \<Rightarrow> (\<exists>k. try_get_height (nd_state n) = Some k \<and> ar_get_height (nd_archive n) t = Inr k) \<and>
         ar_get_accumulator (nd_archive n) t = Inr (get_accumulator X (nd_state n)))"
  using node_reach_ok [OF assms]
  by (auto simp: node_ok_def headers_keyed_def synced_def try_get_tip_def try_get_height_def get_header_def res_simps
      ar_get_accumulator_def split: option.splits)

theorem node_reach_synced_witness:
  "\<exists>n. node_reach ex_next ex_ord n \<and> try_get_tip (nd_state n) = Some 2 \<and> ar_get_height (nd_archive n) 2 = Inr 0 \<and>
     try_get_height (nd_state n) = Some 0"
proof -
  obtain db where db: "reorg_to_tip ex_next ex_ord None ex_new (node_of ex_stored) = Some (Inr True, db)"
      and pos: "try_get_tip (nd_state db) = Some 2" "try_get_height (nd_state db) = Some 0" using ex_reorg by blast
  have reach: "node_reach ex_next ex_ord db" using ex_stored_reach db by (blast intro: node_reach.step node_step.reorg)
  from node_reach_synced [OF reach ex_order] pos reach show ?thesis by (intro exI [of _ db]) auto
qed

section \<open>Reorganizations\<close>

text \<open>C14. A reorganization that reports success leaves the state at the new tip, and one that reports
that the tip is not better changes nothing. When it fails, what is committed is the state and the mempool as they
were, or a state whose tip is better than the old one; besides, only one body may have been discarded from the
archive.\<close>

theorem reorg_outcome:
  assumes "node_reach X ord n" "order_ok ord" "reorg_to_tip X ord rpc new n = Some (r, db)"
  shows "case r of
      Inr True \<Rightarrow> try_get_tip (nd_state db) = Some (tip_block_hash new)
    | Inr False \<Rightarrow> db = n
    | Inl e \<Rightarrow> db = n \<or> (\<exists>old m. node_tip ord n = Inr old \<and> (m = n \<or> applied_tip ord old m = Some (Inr True)) \<and>
        nd_state db = nd_state m \<and> nd_mempool db = nd_mempool m \<and>
        (nd_archive db = nd_archive m \<or> (\<exists>h. delete_body ord h (nd_archive m) = Inr (nd_archive db))))"
  using reorg_outcomes [OF assms(3) node_reach_ok [OF assms(1,2)] assms(2)]
  by (auto simp: try_get_tip_def committed_def split: sum.splits bool.splits)

theorem reorg_outcome_witness:
  "\<exists>db. reorg_to_tip ex_next ex_ord None ex_new (node_of ex_stored) = Some (Inr True, db) \<and> try_get_tip (nd_state db) = Some 2"
proof -
  obtain db where db: "reorg_to_tip ex_next ex_ord None ex_new (node_of ex_stored) = Some (Inr True, db)" using ex_reorg by blast
  with reorg_outcome [OF ex_stored_reach ex_order db] show ?thesis by (simp add: ex_new_def)
qed

text \<open>C15. In a node whose archive and state agree, with a tip below height 2 to the power of
31, the number of blocks that a reorganization disconnects leads exactly to the last common ancestor of the old
and the new tip, or to an empty chain when there is none: when the disconnections succeed, the assertion after
them holds.\<close>

theorem reorg_rewinds_to_common:
  assumes "node_ok X n" "try_get_tip (nd_state n) = Some t" "try_get_height (nd_state n) = Some k" "unat k < 2 ^ 31"
    and "ar_get_height (nd_archive n) g = Inr i" "last_common_ancestor (nd_archive n) t g = Some (Inr c)"
    and "c = None \<and> ch = None \<or> (\<exists>b j. c = Some b \<and> ar_get_height (nd_archive n) b = Inr j \<and> ch = Some j)"
    and "disconnect_tips X (unat (disconnects k ch)) n = Some (Inr n')"
  shows "try_get_tip (nd_state n') = c"
  using rewind_common [OF assms(1) _ _ assms(4) _ assms(6-8)] assms(2,3,5)
  by (simp add: try_get_tip_def try_get_height_def)

theorem reorg_rewinds_to_common_witness:
  "try_get_tip (nd_state (node_of (disconnect_tips ex_next 1 (node_of ex_plain)))) = Some 2"
proof -
  have n: "tip (nd_state (node_of ex_plain)) = Some 3" "height (nd_state (node_of ex_plain)) = Some 1"
    "fmlookup (block_hash_to_height (nd_archive (node_of ex_plain))) 2 = Some 0"
    "last_common_ancestor (nd_archive (node_of ex_plain)) 3 2 = Some (Inr (Some 2))"
    "disconnect_tips ex_next 1 (node_of ex_plain) = Some (Inr (node_of (disconnect_tips ex_next 1 (node_of ex_plain))))"
    using succeedsD [OF ex_plain_run(3)] by (auto dest: succeedsD)
  have "disconnect_tips ex_next (unat (disconnects 1 (Some 0))) (node_of ex_plain) =
      Some (Inr (node_of (disconnect_tips ex_next 1 (node_of ex_plain))))"
    using n(5) by (simp add: disconnects_def)
  then show ?thesis
    by (rule reorg_rewinds_to_common [OF ex_plain_ok, rotated -1]) (use n in \<open>simp_all add: try_get_tip_def try_get_height_def\<close>)
qed

text \<open>When the bodies of the new chain above the common ancestor are stored, the blocks that a
reorganization applies are exactly those from the new tip down to, but without, the common ancestor.\<close>

theorem reorg_blocks_exact:
  assumes "archive_ok A" "ar_get_height A h = Inr k" "c \<noteq> Some h"
    and "\<forall>g \<in> set (takeWhile (\<lambda>g. c \<noteq> Some g) (lineage A (unat k) h)). contains_body A g"
  shows "blocks_to_apply A c h = Some (Inr (map (block_at A) (takeWhile (\<lambda>g. c \<noteq> Some g) (lineage A (unat k) h))))"
  using blocks_to_apply_exact [of A h k c] assms by (simp add: archive_ok_def contains_body_def db_has_def)

theorem reorg_blocks_exact_witness:
  "blocks_to_apply (nd_archive (node_of ex_plain)) (Some 2) 3 = Some (Inr [block_at (nd_archive (node_of ex_plain)) 3])"
proof -
  let ?A = "nd_archive (node_of ex_plain)"
  have "ar_get_height ?A 3 = Inr 1" "lineage ?A 1 3 = [3, 2]" "contains_body ?A 3"
    using succeedsD [OF ex_plain_run(4)] by simp_all
  with reorg_blocks_exact [of ?A 3 1 "Some 2"] ex_plain_ok show ?thesis by (simp add: node_ok_def)
qed

section \<open>Peg data of a disconnected tip\<close>

text \<open>C36. When the last deposits so far were applied by the block below the tip, the tip cannot be
disconnected: the search for the last applied event block looks below the height of the tip's parent, so it passes
over the parent's deposits, and the disconnection takes them for deposits of the tip and ends with an error or a panic. This
needs only that the walk back from the tip's mainchain block finds the block of these deposits; other
events among those found, spent deposits and swap expiries change which error it is. In particular, when the
events found are deposits of one mainchain block, all of them still unspent and distinct, no bundle has failed and no swap expired at the tip,
it is the assertion that the last deposit has the tip's height that fails.\<close>

theorem disconnect_after_deposit_fails:
  assumes tip: "try_get_tip (nd_state n) = Some t" "try_get_height (nd_state n) = Some h"
      "get_header (nd_archive n) t = Inr hdr" "get_body (nd_archive n) t = Inr body"
    and applied: "seq_last (deposit_blocks (nd_state n)) = Some (i, d, h - 1)"
    and start: "event_start (nd_archive n) (last_applied (h - 1) (deposit_blocks (nd_state n)))
      (last_applied (h - 1) (withdrawal_bundle_event_blocks (nd_state n))) = Inr start"
    and events: "main_infos (nd_archive n) (\<lambda>info. bi_events info \<noteq> []) start (prev_main_hash hdr) = Some (Inr infos)"
      "(d, info) \<in> set infos" "EvDeposit dep \<in> set (bi_events info)"
  shows "(\<exists>e. node_disconnect_tip X n = Some (Inl e)) \<and>
    (\<forall>deps. infos = [(d, info)] \<and> bi_events info = map EvDeposit deps \<and> distinct (map dep_outpoint deps) \<and>
        (\<forall>x \<in> set deps. fmlookup (utxos (nd_state n)) (OpDeposit (dep_outpoint x)) \<noteq> None) \<and>
        fmlookup (expired_swaps (nd_state n)) h = None \<and> latest_failed_withdrawal_bundle (nd_state n) = None \<longrightarrow>
      node_disconnect_tip X n = Some (Inl (Panic ''last event block height'')))"
proof (intro conjI allI impI)
  obtain peg where peg: "disconnect_peg_data hdr h n = Some (Inr peg)" "(d, EvDeposit dep) \<in> set (peg_event_list peg)"
    using disconnect_peg_events [OF start events] by blast
  obtain e where "disconnect_two_way_peg_data X peg (nd_state n) = Inl e"
    using foreign_deposit_fails [OF tip(2) peg(2) applied] by auto
  then show "\<exists>e. node_disconnect_tip X n = Some (Inl e)"
    using tip peg(1) by (simp add: node_disconnect_tip_def Let_def of_state_def map_fault_def split: fault.splits)
next
  fix deps
  assume calm: "infos = [(d, info)] \<and> bi_events info = map EvDeposit deps \<and> distinct (map dep_outpoint deps) \<and>
    (\<forall>x \<in> set deps. fmlookup (utxos (nd_state n)) (OpDeposit (dep_outpoint x)) \<noteq> None) \<and>
    fmlookup (expired_swaps (nd_state n)) h = None \<and> latest_failed_withdrawal_bundle (nd_state n) = None"
  then have peg: "disconnect_peg_data hdr h n = Some (Inr [(d, map EvDeposit deps)])"
    using start events by (simp add: disconnect_peg_data_def Let_def peg_insert_def)
  have "deps \<noteq> []" using calm events(3) by auto
  with calm have "disconnect_two_way_peg_data X [(d, map EvDeposit deps)] (nd_state n) = Inl (Panic ''last event block height'')"
    by (intro unspent_deposits_panic [OF tip(2) applied]) auto
  then show "node_disconnect_tip X n = Some (Inl (Panic ''last event block height''))"
    using tip peg by (simp add: node_disconnect_tip_def Let_def of_state_def map_fault_def)
qed

theorem disconnect_after_deposit_fails_witness:
  "node_disconnect_tip ex_next (node_of ex_second_node) = Some (Inl (Panic ''last event block height''))"
proof -
  let ?n = "node_of ex_second_node"
  have f: "tip_facts ?n" using succeedsD [OF ex_second_run] by blast
  have none: "last_applied (1 - 1) (deposit_blocks (nd_state ?n)) = None"
      "last_applied (1 - 1) (withdrawal_bundle_event_blocks (nd_state ?n)) = None"
    using f by (simp_all add: tip_facts_def last_applied_def db_iter_singleton db_iter_empty)
  have "(\<exists>e. node_disconnect_tip ex_next ?n = Some (Inl e)) \<and>
    (\<forall>deps. [(11 :: hash256, ex_deposit_info)] = [(11, ex_deposit_info)] \<and> bi_events ex_deposit_info = map EvDeposit deps \<and>
        distinct (map dep_outpoint deps) \<and>
        (\<forall>x \<in> set deps. fmlookup (utxos (nd_state ?n)) (OpDeposit (dep_outpoint x)) \<noteq> None) \<and>
        fmlookup (expired_swaps (nd_state ?n)) 1 = None \<and> latest_failed_withdrawal_bundle (nd_state ?n) = None \<longrightarrow>
      node_disconnect_tip ex_next ?n = Some (Inl (Panic ''last event block height'')))"
    by (rule disconnect_after_deposit_fails [where h = 1 and i = 0 and t = 3 and hdr = ex_second and
          dep = ex_deposit and body = ex_empty and start = None])
      (use f none in \<open>simp_all add: tip_facts_def try_get_tip_def try_get_height_def get_header_def get_body_def ex_second_def
        ex_deposit_info_def seq_last_iff event_start_def\<close>)
  then show ?thesis
    using f by (elim conjE allE [of _ "[ex_deposit]"]) (simp add: tip_facts_def ex_deposit_info_def ex_deposit_def)
qed

section \<open>Following the mainchain\<close>

text \<open>When the synchronization with the mainchain returns without an error, the mainchain tip that
the sidechain tips follow is the block that was asked for, or none for the zero hash, and no other table of the
archive has changed.\<close>

theorem sync_reaches_tip:
  assumes "sync_side_tips_to_tip m A = Some (Inr (A', evs))"
  shows "mainchain_tip_hash (mainchain_tip (ar_side_tips A')) = m \<and> A' = A\<lparr>ar_side_tips := ar_side_tips A'\<rparr>"
  using sync_effect [OF assms] by (auto simp: same_tables_def)

theorem sync_reaches_tip_witness:
  "mainchain_tip_hash (mainchain_tip (ar_side_tips (fst (projr (the (sync_side_tips_to_tip 12 (nd_archive (node_of ex_stored)))))))) = 12"
proof -
  obtain A' evs where "sync_side_tips_to_tip 12 (nd_archive (node_of ex_stored)) = Some (Inr (A', evs))"
    using succeedsD [OF ex_sync_run] by (auto split: option.splits sum.splits)
  with sync_reaches_tip [OF this] show ?thesis by simp
qed

text \<open>C37. A mainchain block that commits to a sidechain block whose body is not stored is
connected, without a sidechain tip. When the same block is disconnected, its commitment is looked up among the
sidechain tips, and the event fails because the tip is missing: the mainchain task cannot follow that
reorganization.\<close>

theorem unknown_commitment_stuck_event:
  assumes "handle_block_event ord (ConnectBlock hi info) A = Inr A'"
    and "bmm_commitment info = Some h" "\<not> contains_body A h" "fmlookup (sidechain_tips (ar_side_tips A)) h = None"
    and "\<forall>p. tip_info (mainchain_tip (ar_side_tips A)) = Some p \<longrightarrow>
      bhi_block_hash p \<noteq> 0 \<and> bhi_block_hash p \<noteq> bhi_block_hash hi \<and>
      get_main_header_info A (bhi_block_hash p) = Inr p"
  shows "handle_block_event ord (DisconnectBlock (bhi_block_hash hi)) A' = Inl (Fail (ArSideTips (MissingSidechainTip h)))"
  by (rule unknown_commitment_stuck [OF assms(1-4)]) (use assms(5) in \<open>auto simp: get_main_header_info_def res_simps\<close>)

theorem unknown_commitment_stuck_event_witness:
  "\<exists>A'. handle_block_event ex_ord (ConnectBlock \<lparr>bhi_block_hash = 11, bhi_prev_block_hash = 0, bhi_height = 0, bhi_work = 1\<rparr>
      \<lparr>bmm_commitment = Some 99, bi_events = []\<rparr>) (Archive_new :: hash256 list Archive) = Inr A' \<and>
    handle_block_event ex_ord (DisconnectBlock 11) A' = Inl (Fail (ArSideTips (MissingSidechainTip 99)))"
proof -
  obtain A' :: "hash256 list Archive" where A': "handle_block_event ex_ord (ConnectBlock \<lparr>bhi_block_hash = 11, bhi_prev_block_hash = 0, bhi_height = 0, bhi_work = 1\<rparr>
      \<lparr>bmm_commitment = Some 99, bi_events = []\<rparr>) Archive_new = Inr A'"
    using ex_unknown_run by (auto split: sum.splits)
  with unknown_commitment_stuck_event [OF A', of 99] show ?thesis
    by (simp add: Archive_new_def contains_body_def db_has_def SideTips_create_def)
qed

section \<open>Block templates\<close>

text \<open>C18. The transactions that the node collects for a block template come from its mempool and are
valid in its state, at most as many as asked for; no two of them have an input in common, and the fee is exactly
the sum of their fees. Only the mempool changes, and its record of spent outputs stays right.\<close>

theorem template_exact:
  assumes "get_transactions X k n = Inr (txs, fee, n')" "pool_ok (nd_mempool n)"
  shows "(\<forall>(ft, auths) \<in> set txs.
        \<lparr>auth_transaction = transaction ft, authorizations = auths\<rparr> \<in> set (pool_take_all (nd_mempool n)) \<and>
        fill_transaction (nd_state n) (transaction ft) = Inr ft \<and>
        (\<exists>v. validate_transaction X (nd_state n) \<lparr>auth_transaction = transaction ft, authorizations = auths\<rparr> = Inr v)) \<and>
    (\<forall>i j. i < j \<longrightarrow> j < length txs \<longrightarrow>
        set (inputs (transaction (fst (txs ! i)))) \<inter> set (inputs (transaction (fst (txs ! j)))) = {}) \<and>
    unat fee = (\<Sum>x\<leftarrow>txs. fee_of (fst x)) \<and> length txs \<le> k \<and>
    n' = n\<lparr>nd_mempool := nd_mempool n'\<rparr> \<and> pool_ok (nd_mempool n')"
  using get_transactions_parts [OF assms]
  by (auto simp: list_all_iff chosen_def sorted_wrt_iff_nth_less spends_apart_def Let_def case_prod_unfold)

theorem template_exact_witness:
  "get_transactions ex_ext 1 ex_template_node =
     Inr ([(\<lparr>transaction = ex_tx, spent_utxos = [ex_utxo]\<rparr>, body_authorizations ex_body)], 3, ex_template_node) \<and>
   pool_ok (nd_mempool ex_template_node)"
  using template_exact [OF ex_template_run ex_template_pool] ex_template_run by blast

text \<open>C38. Reconstructing swaps fills every transaction of the stored chain from the
unspent outputs of the current state. So it fails as soon as one transaction of the chain has an input that is
not unspent any more, which is the case for every input of a connected block that nothing restored.\<close>

theorem reconstruction_needs_unspent:
  assumes "archive_ok A" "ar_get_height A t = Inr k" "has_ancestor (ar_get_height A) (side_parent A) t bh"
    and "get_body A bh = Inr body" "tx \<in> set (transactions body)" "(op, x) \<in> set (inputs tx)" "fmlookup (utxos s) op = None"
  shows "\<exists>e. reconstruct_swaps_from_blockchain X A (Some t) s = Some (Inl e)"
  using reconstruct_fails [of A t k bh body tx op x s] assms by (simp add: archive_ok_def get_body_def res_simps)

theorem reconstruction_needs_unspent_witness:
  "\<exists>e. reconstruct_swaps_from_blockchain ex_ext
     (ex_archive\<lparr>ar_bodies := fmupd 1 ex_body (ar_bodies ex_archive)\<rparr>) (Some 4) State_new = Some (Inl e)"
proof -
  let ?A = "ex_archive\<lparr>ar_bodies := fmupd 1 ex_body (ar_bodies ex_archive)\<rparr>"
  have "archive_ok ?A"
    by (rule archive_ok_frame [OF reach_ok [OF ex_reach ex_order]]) (simp add: tables_defs)
  moreover have "ar_get_height ?A 4 = Inr 2" by (simp add: ar_get_height_def ex_heights)
  moreover have "has_ancestor (ar_get_height ?A) (side_parent ?A) 4 1" using ex_line by (auto simp: has_ancestor_def ex_heights)
  ultimately show ?thesis
    by (rule reconstruction_needs_unspent [where body = ex_body and tx = ex_tx and op = ex_op and x = 1])
      (simp_all add: get_body_def ex_body_def State_new_def)
qed

end
