(* ===== verification/Wallet.thy ===== *)
theory Wallet
  imports Swap_Validation
begin

text \<open>
  The wallet (\<^verbatim>\<open>lib/wallet/mod.rs\<close>, \<^verbatim>\<open>lib/wallet/bip32.rs\<close>) and signing
  (\<^verbatim>\<open>lib/authorization.rs\<close>): addresses derived from a seed, coin selection, the transactions it
  builds, and their authorizations.
\<close>

section \<open>Keys\<close>

datatype ChildIndex = Hardened u32 | NonHardened u32

text \<open>
  What the wallet calls in other crates: HMAC-SHA512, scalars modulo the group order, the derivation of
  extended keys (of type \<open>'x\<close>), signing keys with their public keys and signatures (the first argument
  of \<open>sign_msg\<close> is what the random generator gives), mnemonics; and what the standard library and rayon
  leave open: the order of equal keys in an unstable sort and the iteration order of a \<^verbatim>\<open>HashMap\<close>.
\<close>

record 'x keys =
  hmac_sha512 :: "bytes \<Rightarrow> bytes \<Rightarrow> bytes"
  scalar_mod_order :: "bytes \<Rightarrow> bytes"
  new_master :: "bytes \<Rightarrow> bytes \<Rightarrow> 'x"
  derive_hardened :: "u32 \<Rightarrow> 'x \<Rightarrow> 'x option"
  derive_non_hardened :: "u32 \<Rightarrow> 'x \<Rightarrow> 'x option"
  child_index :: "u32 \<Rightarrow> ChildIndex"
  scalar_key :: "'x \<Rightarrow> bytes option"
  public_key :: "bytes \<Rightarrow> bytes"
  sign_msg :: "bytes \<Rightarrow> bytes \<Rightarrow> bytes \<Rightarrow> bytes"
  mnemonic_seed :: "string \<Rightarrow> bytes option"
  sort_by_value :: "(OutPoint \<times> Output) list \<Rightarrow> (OutPoint \<times> Output) list"
  map_order :: "(OutPoint, Output) fmap \<Rightarrow> (OutPoint \<times> Output) list"

text \<open>Errors of the database, of the file system and of \<open>borsh\<close> do not occur.\<close>

datatype WalletError =
  WAmountOverflow
| WAmountUnderflow
| WBip32
| WAddressNotRecoverable Address u32
| WNoSeed
| WNotEnoughFunds
| WNoTransferDestination
| WNoUtxo
| WParseMnemonic
| WSeedAlreadyExists
| WUtreexo

type_synonym 'a wres = "WalletError fault + 'a"

definition scalar_from_be_bytes :: "'x keys \<Rightarrow> bytes \<Rightarrow> bytes" where
  "scalar_from_be_bytes K bs = scalar_mod_order K (rev bs)"

definition new_master_xpriv :: "'x keys \<Rightarrow> bytes \<Rightarrow> 'x" where
  "new_master_xpriv K seed =
     (let h = hmac_sha512 K (string_bytes ''Bitcoin seed'') seed
      in new_master K (scalar_from_be_bytes K (take 32 h)) (drop 32 h))"

definition this_sidechain :: u8 where
  "this_sidechain = 255"

text \<open>The path \<open>m/43'/1899'/0'/255'/0'/index\<close>.\<close>

definition derive_signing_key :: "'x keys \<Rightarrow> bytes \<Rightarrow> u32 \<Rightarrow> bytes wres" where
  "derive_signing_key K seed i =
     and_then (try_fold (\<lambda>k x. ok_or (Fail WBip32) (derive_hardened K k x)) [43, 1899, 0, ucast this_sidechain, 0]
                (new_master_xpriv K seed)) (\<lambda>x.
     and_then (ok_or (Fail WBip32)
                (case child_index K i of
                   Hardened k \<Rightarrow> derive_hardened K k x | NonHardened k \<Rightarrow> derive_non_hardened K k x)) (\<lambda>x1.
     ok_or (Panic ''expected secret scalar to be non-zero'') (scalar_key K x1)))"

definition signing_key_address :: "'acc ext \<Rightarrow> 'x keys \<Rightarrow> bytes \<Rightarrow> Address" where
  "signing_key_address X K sk = key_address X (public_key K sk)"

definition derive_address_for_index :: "'acc ext \<Rightarrow> 'x keys \<Rightarrow> bytes \<Rightarrow> u32 \<Rightarrow> Address wres" where
  "derive_address_for_index X K seed i =
     and_then (derive_signing_key K seed i) (\<lambda>sk. Inr (signing_key_address X K sk))"

section \<open>Signing\<close>

text \<open>\<open>rng i\<close> is what the random generator gives to the \<open>i\<close>-th signature.\<close>

definition sign :: "'acc ext \<Rightarrow> 'x keys \<Rightarrow> bytes \<Rightarrow> bytes \<Rightarrow> Transaction \<Rightarrow> bytes" where
  "sign X K r sk tx = sign_msg K r sk (borsh_tx X tx)"

definition sign_with :: "'acc ext \<Rightarrow> 'x keys \<Rightarrow> bytes \<Rightarrow> bytes \<Rightarrow> Transaction \<Rightarrow> Authorization" where
  "sign_with X K r sk tx = \<lparr>verifying_key = public_key K sk, signature = sign X K r sk tx\<rparr>"

definition authorize_keys ::
  "'acc ext \<Rightarrow> 'x keys \<Rightarrow> (nat \<Rightarrow> bytes) \<Rightarrow> (Address \<times> bytes) list \<Rightarrow> Transaction \<Rightarrow> (Address \<times> Address) + AuthorizedTransaction" where
  "authorize_keys X K rng keys tx =
     and_then (try_map (\<lambda>(i, a, sk).
                 let b = signing_key_address X K sk in
                 if a \<noteq> b then Inl (a, b) else Inr (sign_with X K (rng i) sk tx)) (enumerate 0 keys)) (\<lambda>auths.
     Inr \<lparr>auth_transaction = tx, authorizations = auths\<rparr>)"

section \<open>The wallet's tables\<close>

text \<open>Indices are stored in big-endian bytes, so the tables are ordered by the number.\<close>

record Wallet =
  w_seed :: "bytes option"
  address_to_index :: "(Address, u32) db"
  index_to_address :: "(u32, Address) db"
  w_utxos :: "(OutPoint, Output) db"
  w_stxos :: "(OutPoint, SpentOutput) db"

text \<open>
  An operation gives a result and the wallet it leaves: every write is committed on its own, so an error
  keeps what was written before it.
\<close>

type_synonym 'a wop = "Wallet \<Rightarrow> 'a wres \<times> Wallet"

definition w_then :: "'a wop \<Rightarrow> ('a \<Rightarrow> 'b wop) \<Rightarrow> 'b wop" where
  "w_then m f w = (case m w of (Inl e, w1) \<Rightarrow> (Inl e, w1) | (Inr x, w1) \<Rightarrow> f x w1)"

definition w_read :: "(Wallet \<Rightarrow> 'a wres) \<Rightarrow> 'a wop" where
  "w_read m w = (m w, w)"

lemma w_then_eq_Inr:
  "w_then m f w = (Inr y, w') \<longleftrightarrow> (\<exists>x w1. m w = (Inr x, w1) \<and> f x w1 = (Inr y, w'))"
  by (auto simp: w_then_def split: prod.splits sum.splits)

lemma w_read_eq_Inr: "w_read m w = (Inr x, w') \<longleftrightarrow> m w = Inr x \<and> w' = w"
  by (auto simp: w_read_def)

lemmas w_simps = w_then_eq_Inr w_read_eq_Inr

definition index_address :: "u32 \<Rightarrow> Address \<Rightarrow> Wallet \<Rightarrow> Wallet" where
  "index_address i a w =
     w\<lparr>index_to_address := fmupd i a (index_to_address w), address_to_index := fmupd a i (address_to_index w)\<rparr>"

definition get_signing_key :: "'x keys \<Rightarrow> u32 \<Rightarrow> Wallet \<Rightarrow> bytes wres" where
  "get_signing_key K i w = and_then (ok_or (Fail WNoSeed) (w_seed w)) (\<lambda>seed. derive_signing_key K seed i)"

definition last_index :: "Wallet \<Rightarrow> (u32 \<times> Address) option" where
  "last_index w = (case rev (db_iter (index_to_address w)) of [] \<Rightarrow> None | e # _ \<Rightarrow> Some e)"

definition adopt_index_zero :: "'acc ext \<Rightarrow> 'x keys \<Rightarrow> unit wop" where
  "adopt_index_zero X K w =
     (if w_seed w = None \<or> last_index w = None \<or> fmlookup (index_to_address w) 0 \<noteq> None then (Inr (), w)
      else
        (case get_signing_key K 0 w of
           Inl e \<Rightarrow> (Inl e, w)
         | Inr sk \<Rightarrow> (Inr (), index_address 0 (signing_key_address X K sk) w)))"

text \<open>Opening a wallet: the tables are created empty, or are those of an earlier run.\<close>

definition Wallet_empty :: Wallet where
  "Wallet_empty = \<lparr>w_seed = None, address_to_index = fmempty, index_to_address = fmempty, w_utxos = fmempty,
     w_stxos = fmempty\<rparr>"

definition Wallet_new :: "'acc ext \<Rightarrow> 'x keys \<Rightarrow> Wallet option \<Rightarrow> unit wres \<times> Wallet" where
  "Wallet_new X K stored = adopt_index_zero X K (case stored of None \<Rightarrow> Wallet_empty | Some w \<Rightarrow> w)"

definition overwrite_seed :: "bytes \<Rightarrow> Wallet \<Rightarrow> Wallet" where
  "overwrite_seed seed w = Wallet_empty\<lparr>w_seed := Some seed\<rparr>"

definition has_seed :: "Wallet \<Rightarrow> bool" where
  "has_seed w = (w_seed w \<noteq> None)"

definition set_seed :: "bytes \<Rightarrow> unit wop" where
  "set_seed seed w =
     (case w_seed w of
        Some cur \<Rightarrow> if cur = seed then (Inr (), w) else (Inl (Fail WSeedAlreadyExists), w)
      | None \<Rightarrow> (Inr (), overwrite_seed seed w))"

definition set_seed_from_mnemonic :: "'x keys \<Rightarrow> string \<Rightarrow> unit wop" where
  "set_seed_from_mnemonic K phrase =
     w_then (w_read (\<lambda>_. and_then (ok_or (Fail WParseMnemonic) (mnemonic_seed K phrase)) (\<lambda>seed.
       if length seed = 64 then Inr seed else Inl (Panic ''called Result::unwrap() on an Err value'')))) set_seed"

section \<open>Addresses\<close>

definition get_new_address :: "'acc ext \<Rightarrow> 'x keys \<Rightarrow> Address wop" where
  "get_new_address X K w =
     (let i = (case last_index w of Some (j, _) \<Rightarrow> j + 1 | None \<Rightarrow> 0) in
      case get_signing_key K i w of
        Inl e \<Rightarrow> (Inl e, w)
      | Inr sk \<Rightarrow> let a = signing_key_address X K sk in (Inr a, index_address i a w))"

definition get_last_address :: "Wallet \<Rightarrow> Address option" where
  "get_last_address w = map_option snd (last_index w)"

definition get_address_or_new :: "'acc ext \<Rightarrow> 'x keys \<Rightarrow> Address wop" where
  "get_address_or_new X K w =
     (case get_last_address w of Some a \<Rightarrow> (Inr a, w) | None \<Rightarrow> get_new_address X K w)"

definition address_received :: "Address \<Rightarrow> Wallet \<Rightarrow> bool" where
  "address_received a w \<longleftrightarrow>
     list_ex (\<lambda>(_, out). address out = a) (db_iter (w_utxos w)) \<or>
     list_ex (\<lambda>(_, sp). address (spent_output sp) = a) (db_iter (w_stxos w))"

definition get_receive_address :: "'acc ext \<Rightarrow> 'x keys \<Rightarrow> Address wop" where
  "get_receive_address X K w =
     (case last_index w of
        Some (_, a) \<Rightarrow> if \<not> address_received a w then (Inr a, w) else get_new_address X K w
      | None \<Rightarrow> get_new_address X K w)"

definition get_num_addresses :: "Wallet \<Rightarrow> u32" where
  "get_num_addresses w = word_of_nat (length (db_iter (index_to_address w)))"

definition get_addresses :: "Wallet \<Rightarrow> Address fset" where
  "get_addresses w = fmran (index_to_address w)"

definition has_address :: "Address \<Rightarrow> Wallet \<Rightarrow> bool" where
  "has_address a w = db_has (address_to_index w) a"

definition max_recovery_index :: u32 where
  "max_recovery_index = 100000"

text \<open>The first index below the limit, from \<open>i\<close> on, whose address is \<open>a\<close>; indices without an address are passed.\<close>

function find_index_from :: "(u32 \<Rightarrow> Address wres) \<Rightarrow> Address \<Rightarrow> u32 \<Rightarrow> u32 option wres" where
  "find_index_from f a i =
     (if i < max_recovery_index then
        (case f i of
           Inr b \<Rightarrow> if b = a then Inr (Some i) else find_index_from f a (i + 1)
         | Inl (Fail _) \<Rightarrow> find_index_from f a (i + 1)
         | Inl (Panic m) \<Rightarrow> Inl (Panic m))
      else Inr None)"
  by auto
termination
  by (relation "measure (\<lambda>(f, a, i). unat max_recovery_index - unat i)")
    (auto simp: max_recovery_index_def word_less_nat_alt unat_word_ariths)

declare find_index_from.simps [simp del]

definition ensure_address_indexed :: "'acc ext \<Rightarrow> 'x keys \<Rightarrow> Address \<Rightarrow> unit wop" where
  "ensure_address_indexed X K a w =
     (if db_has (address_to_index w) a then (Inr (), w)
      else
        (case w_seed w of
           None \<Rightarrow> (Inl (Fail WNoSeed), w)
         | Some seed \<Rightarrow>
             (case find_index_from (derive_address_for_index X K seed) a 0 of
                Inl e \<Rightarrow> (Inl e, w)
              | Inr None \<Rightarrow> (Inl (Fail (WAddressNotRecoverable a max_recovery_index)), w)
              | Inr (Some i) \<Rightarrow> (Inr (), index_address i a w))))"

definition gap_limit :: u32 where
  "gap_limit = 20"

text \<open>The loop over indices, with the current gap and the number of recovered addresses.\<close>

function recover_loop ::
  "'acc ext \<Rightarrow> 'x keys \<Rightarrow> bytes \<Rightarrow> Address fset \<Rightarrow> u32 \<Rightarrow> nat \<Rightarrow> u32 \<Rightarrow> nat wop" where
  "recover_loop X K seed known gap recovered i w =
     (if gap < gap_limit \<and> i < max_recovery_index then
        (case derive_address_for_index X K seed i of
           Inl e \<Rightarrow> (Inl e, w)
         | Inr a \<Rightarrow>
             if a |\<in>| known then
               if db_has (address_to_index w) a then recover_loop X K seed known 0 recovered (i + 1) w
               else recover_loop X K seed known 0 (recovered + 1) (i + 1) (index_address i a w)
             else recover_loop X K seed known (gap + 1) recovered (i + 1) w)
      else (Inr recovered, w))"
  by auto
termination
  by (relation "measure (\<lambda>(X, K, seed, known, gap, recovered, i, w). unat max_recovery_index - unat i)")
    (auto simp: max_recovery_index_def word_less_nat_alt unat_word_ariths)

declare recover_loop.simps [simp del]

definition recover_addresses_from_utxo_set :: "'acc ext \<Rightarrow> 'x keys \<Rightarrow> Address fset \<Rightarrow> nat wop" where
  "recover_addresses_from_utxo_set X K known w =
     (if known = {||} then (Inr 0, w)
      else
        (case w_seed w of
           None \<Rightarrow> (Inr 0, w)
         | Some seed \<Rightarrow> recover_loop X K seed known 0 0 0 w))"

section \<open>Coins\<close>

definition delete_utxos :: "OutPoint list \<Rightarrow> Wallet \<Rightarrow> Wallet" where
  "delete_utxos ops w = w\<lparr>w_utxos := fold fmdrop ops (w_utxos w)\<rparr>"

definition spend_utxo :: "OutPoint \<times> InPoint \<Rightarrow> Wallet \<Rightarrow> Wallet" where
  "spend_utxo = (\<lambda>(op, inp) w.
     case fmlookup (w_utxos w) op of
       None \<Rightarrow> w
     | Some out \<Rightarrow>
         w\<lparr>w_utxos := fmdrop op (w_utxos w),
           w_stxos := fmupd op \<lparr>spent_output = out, inpoint = inp\<rparr> (w_stxos w)\<rparr>)"

definition spend_utxos :: "(OutPoint \<times> InPoint) list \<Rightarrow> Wallet \<Rightarrow> Wallet" where
  "spend_utxos = fold spend_utxo"

definition put_utxos :: "(OutPoint, Output) fmap \<Rightarrow> Wallet \<Rightarrow> Wallet" where
  "put_utxos m w = w\<lparr>w_utxos := fmadd (w_utxos w) m\<rparr>"

record Balance =
  total_balance :: amount
  available_balance :: amount

definition add_balance :: "OutPoint \<times> Output \<Rightarrow> Balance \<Rightarrow> Balance wres" where
  "add_balance = (\<lambda>(_, out) b.
     and_then (ok_or (Fail WAmountOverflow) (checked_add (total_balance b) (get_value out))) (\<lambda>t.
     if \<not> is_withdrawal (content out) then
       and_then (ok_or (Fail WAmountOverflow) (checked_add (available_balance b) (get_value out))) (\<lambda>a.
       Inr \<lparr>total_balance = t, available_balance = a\<rparr>)
     else Inr (b\<lparr>total_balance := t\<rparr>)))"

definition get_balance :: "Wallet \<Rightarrow> Balance wres" where
  "get_balance w = try_fold add_balance (db_iter (w_utxos w)) \<lparr>total_balance = 0, available_balance = 0\<rparr>"

text \<open>The loop over the coins, smallest first: the total so far and the coins that are taken.\<close>

fun select_loop ::
  "(OutPoint \<Rightarrow> bool) \<Rightarrow> amount \<Rightarrow> (OutPoint \<times> Output) list \<Rightarrow> amount \<Rightarrow> (OutPoint, Output) fmap \<Rightarrow>
   (amount \<times> (OutPoint, Output) fmap) wres" where
  "select_loop locked value [] tot sel = Inr (tot, sel)"
| "select_loop locked value ((op, out) # coins) tot sel =
     (if is_withdrawal (content out) \<or> locked op then select_loop locked value coins tot sel
      else if tot \<ge> value then Inr (tot, sel)
      else
        (case checked_add tot (get_value out) of
           None \<Rightarrow> Inl (Fail WAmountOverflow)
         | Some t \<Rightarrow> select_loop locked value coins t (fmupd op out sel)))"

definition select_coins_with_filter ::
  "'x keys \<Rightarrow> amount \<Rightarrow> (OutPoint \<Rightarrow> bool) \<Rightarrow> Wallet \<Rightarrow> (amount \<times> (OutPoint, Output) fmap) wres" where
  "select_coins_with_filter K value locked w =
     and_then (select_loop locked value (sort_by_value K (db_iter (w_utxos w))) 0 fmempty) (\<lambda>(total, sel).
     if total < value then Inl (Fail WNotEnoughFunds) else Inr (total, sel))"

definition select_coins :: "'x keys \<Rightarrow> amount \<Rightarrow> Wallet \<Rightarrow> (amount \<times> (OutPoint, Output) fmap) wres" where
  "select_coins K value w = select_coins_with_filter K value (\<lambda>_. False) w"

section \<open>Transactions\<close>

text \<open>The operator \<open>-\<close> of amounts panics.\<close>

definition amount_minus :: "amount \<Rightarrow> amount \<Rightarrow> amount wres" where
  "amount_minus a b = ok_or (Panic ''Amount subtraction error'') (checked_sub a b)"

definition coin_inputs :: "'acc ext \<Rightarrow> (OutPoint \<times> Output) list \<Rightarrow> (OutPoint \<times> hash256) list" where
  "coin_inputs X coins = map (\<lambda>(op, out). (op, pointed_hash X op out)) coins"

definition prove_inputs :: "'acc ext \<Rightarrow> 'acc \<Rightarrow> (OutPoint \<times> hash256) list \<Rightarrow> UtreexoProof wres" where
  "prove_inputs X acc ins = (case acc_prove X acc (map snd ins) of Inl _ \<Rightarrow> Inl (Fail WUtreexo) | Inr p \<Rightarrow> Inr p)"

definition create_withdrawal ::
  "'acc ext \<Rightarrow> 'x keys \<Rightarrow> 'acc \<Rightarrow> MainAddress \<Rightarrow> amount \<Rightarrow> amount \<Rightarrow> amount \<Rightarrow> (OutPoint \<Rightarrow> bool) \<Rightarrow> Transaction wop" where
  "create_withdrawal X K acc main_address value main_fee fee locked =
     w_then (w_read (\<lambda>w.
       and_then (ok_or (Fail WAmountOverflow) (checked_add value fee)) (\<lambda>t.
       and_then (ok_or (Fail WAmountOverflow) (checked_add t main_fee)) (\<lambda>need.
       and_then (select_coins_with_filter K need locked w) (\<lambda>(total, coins).
       and_then (amount_minus total value) (\<lambda>r1.
       and_then (amount_minus r1 fee) (\<lambda>r2.
       and_then (amount_minus r2 main_fee) (\<lambda>change.
       let ins = coin_inputs X (map_order K coins) in
       and_then (prove_inputs X acc ins) (\<lambda>prf. Inr (change, ins, prf)))))))))) (\<lambda>(change, ins, prf).
     w_then (get_new_address X K) (\<lambda>a1.
     w_then (get_new_address X K) (\<lambda>a2.
     w_read (\<lambda>_. Inr \<lparr>inputs = ins, utreexo_proof = prf,
        outputs = [\<lparr>address = a1, content = Withdrawal value main_fee main_address\<rparr>,
                   \<lparr>address = a2, content = Value change\<rparr>],
        data = Regular\<rparr>))))"

text \<open>
  The code reads the map of coins twice, for its first value and for the inputs. The map does not change in
  between; that it is then iterated in the same order both times is how the standard library's map behaves,
  and the identifier of the swap depends on it.
\<close>

definition create_swap_create_tx ::
  "'acc ext \<Rightarrow> 'x keys \<Rightarrow> 'acc \<Rightarrow> ParentChainType \<Rightarrow> string \<Rightarrow> amount \<Rightarrow> Address option \<Rightarrow> amount \<Rightarrow> u32 option \<Rightarrow> amount \<Rightarrow>
   (OutPoint \<Rightarrow> bool) \<Rightarrow> (Transaction \<times> SwapId) wop" where
  "create_swap_create_tx X K acc chain l1_addr l1_amt l2_recip l2_amt req fee locked =
     w_then (w_read (\<lambda>w.
       and_then (ok_or (Fail WAmountOverflow) (checked_add l2_amt fee)) (\<lambda>need.
       and_then (select_coins_with_filter K need locked w) (\<lambda>(total, coins).
       and_then (amount_minus total l2_amt) (\<lambda>r1.
       and_then (amount_minus r1 fee) (\<lambda>change.
       and_then (case map_order K coins of
                   [] \<Rightarrow> Inl (Panic ''select_coins returned empty HashMap - this should never happen'')
                 | (_, out) # _ \<Rightarrow> Inr (address out)) (\<lambda>sender.
       let ins = coin_inputs X (map_order K coins) in
       and_then (prove_inputs X acc ins) (\<lambda>prf. Inr (sender, change, ins, prf))))))))) (\<lambda>(sender, change, ins, prf).
     let i = from_l2_to_l1 (blake3 X) l1_addr l1_amt sender l2_recip in
     w_then (get_new_address X K) (\<lambda>a.
     w_read (\<lambda>_. Inr (\<lparr>inputs = ins, utreexo_proof = prf,
        outputs = [\<lparr>address = (case l2_recip of Some r \<Rightarrow> r | None \<Rightarrow> sender), content = SwapPending l2_amt i\<rparr>,
                   \<lparr>address = a, content = Value change\<rparr>],
        data = SwapCreate i chain (replicate 32 0)
          (case req of Some n \<Rightarrow> n | None \<Rightarrow> default_confirmations chain) l2_recip l2_amt l1_addr l1_amt\<rparr>, i))))"

definition create_swap_claim_tx ::
  "'acc ext \<Rightarrow> 'acc \<Rightarrow> SwapId \<Rightarrow> Address \<Rightarrow> (OutPoint \<times> Output) list \<Rightarrow> Address option \<Rightarrow> Transaction wres" where
  "create_swap_claim_tx X acc i recipient locked_outputs for_claimer =
     (let ins = coin_inputs X locked_outputs in
      and_then (prove_inputs X acc ins) (\<lambda>prf.
      and_then (ok_or (Fail WAmountOverflow) (checked_sum (map (\<lambda>(_, out). get_value out) locked_outputs))) (\<lambda>total.
      Inr \<lparr>inputs = ins, utreexo_proof = prf, outputs = [\<lparr>address = recipient, content = Value total\<rparr>],
           data = SwapClaim i for_claimer None\<rparr>)))"

text \<open>The coins that can pay for an acceptance.\<close>

definition accept_candidate :: "(OutPoint \<Rightarrow> bool) \<Rightarrow> Address option \<Rightarrow> amount \<Rightarrow> OutPoint \<times> Output \<Rightarrow> bool" where
  "accept_candidate locked for_claimer fee = (\<lambda>(op, out).
     \<not> is_withdrawal (content out) \<and> \<not> is_swap_pending (content out) \<and> \<not> locked op \<and>
     (case for_claimer of None \<Rightarrow> True | Some a \<Rightarrow> address out = a) \<and> get_value out \<ge> fee)"

definition create_swap_accept_tx ::
  "'acc ext \<Rightarrow> 'x keys \<Rightarrow> 'acc \<Rightarrow> SwapId \<Rightarrow> Address option \<Rightarrow> amount \<Rightarrow> (OutPoint \<Rightarrow> bool) \<Rightarrow> Transaction wop" where
  "create_swap_accept_tx X K acc i for_claimer fee locked =
     w_then (w_read (\<lambda>w.
       and_then (case sort_key (\<lambda>(_, out). get_value out)
                        (filter (accept_candidate locked for_claimer fee) (map_order K (w_utxos w))) of
                   [] \<Rightarrow> Inl (Fail WNotEnoughFunds) | c # _ \<Rightarrow> Inr c) (\<lambda>(op, out).
       and_then (ok_or (Fail WAmountUnderflow) (checked_sub (get_value out) fee)) (\<lambda>change.
       let ins = coin_inputs X [(op, out)] in
       and_then (prove_inputs X acc ins) (\<lambda>prf.
       Inr (case for_claimer of Some a \<Rightarrow> a | None \<Rightarrow> address out, change, ins, prf)))))) (\<lambda>(who, change, ins, prf).
     w_then (if change > 0
             then w_then (get_new_address X K) (\<lambda>a. w_read (\<lambda>_. Inr [\<lparr>address = a, content = Value change\<rparr>]))
             else w_read (\<lambda>_. Inr [])) (\<lambda>outs.
     w_read (\<lambda>_. Inr \<lparr>inputs = ins, utreexo_proof = prf, outputs = outs, data = SwapAccept i who\<rparr>)))"

definition create_transaction_many ::
  "'acc ext \<Rightarrow> 'x keys \<Rightarrow> 'acc \<Rightarrow> (Address, amount) db \<Rightarrow> amount \<Rightarrow> (OutPoint \<Rightarrow> bool) \<Rightarrow> Transaction wop" where
  "create_transaction_many X K acc dests fee locked =
     w_then (w_read (\<lambda>w.
       if dests = fmempty then Inl (Fail WNoTransferDestination)
       else
         and_then (ok_or (Fail WAmountOverflow) (checked_sum (map snd (db_iter dests)))) (\<lambda>value.
         and_then (ok_or (Fail WAmountOverflow) (checked_add value fee)) (\<lambda>need.
         and_then (select_coins_with_filter K need locked w) (\<lambda>(total, coins).
         and_then (amount_minus total value) (\<lambda>r1.
         and_then (amount_minus r1 fee) (\<lambda>change.
         let ins = coin_inputs X (map_order K coins) in
         and_then (prove_inputs X acc ins) (\<lambda>prf. Inr (change, ins, prf))))))))) (\<lambda>(change, ins, prf).
     w_then (get_new_address X K) (\<lambda>a.
     w_read (\<lambda>_. Inr \<lparr>inputs = ins, utreexo_proof = prf,
        outputs = map (\<lambda>(b, v). \<lparr>address = b, content = Value v\<rparr>) (db_iter dests) @
                  [\<lparr>address = a, content = Value change\<rparr>],
        data = Regular\<rparr>)))"

definition create_transaction ::
  "'acc ext \<Rightarrow> 'x keys \<Rightarrow> 'acc \<Rightarrow> Address \<Rightarrow> amount \<Rightarrow> amount \<Rightarrow> (OutPoint \<Rightarrow> bool) \<Rightarrow> Transaction wop" where
  "create_transaction X K acc a value fee locked = create_transaction_many X K acc (fmupd a value fmempty) fee locked"

section \<open>Authorization\<close>

text \<open>
  The loop for one input: an address that is not indexed is recovered from the seed, and the loop
  starts again. A claim signs for escrow that is not its own with the key of index 0.
\<close>

partial_function (option) authorize_input ::
  "'acc ext \<Rightarrow> 'x keys \<Rightarrow> bytes \<Rightarrow> Transaction \<Rightarrow> OutPoint \<Rightarrow> Wallet \<Rightarrow> (Authorization wres \<times> Wallet) option" where
  "authorize_input X K r tx op w =
     (case fmlookup (w_utxos w) op of
        None \<Rightarrow> Some (Inl (Fail WNoUtxo), w)
      | Some out \<Rightarrow>
          (case fmlookup (address_to_index w) (address out) of
             Some i \<Rightarrow> Some (and_then (get_signing_key K i w) (\<lambda>sk. Inr (sign_with X K r sk tx)), w)
           | None \<Rightarrow>
               if is_swap_claim (data tx) \<and> is_swap_pending (content out)
               then Some (and_then (get_signing_key K 0 w) (\<lambda>sk. Inr (sign_with X K r sk tx)), w)
               else
                 (case ensure_address_indexed X K (address out) w of
                    (Inl e, w1) \<Rightarrow> Some (Inl e, w1)
                  | (Inr _, w1) \<Rightarrow> authorize_input X K r tx op w1)))"

declare authorize_input.simps [code]

fun authorize_inputs ::
  "'acc ext \<Rightarrow> 'x keys \<Rightarrow> (nat \<Rightarrow> bytes) \<Rightarrow> Transaction \<Rightarrow> (nat \<times> OutPoint \<times> hash256) list \<Rightarrow> Wallet \<Rightarrow>
   (Authorization list wres \<times> Wallet) option" where
  "authorize_inputs X K rng tx [] w = Some (Inr [], w)"
| "authorize_inputs X K rng tx ((i, op, _) # ins) w =
     (case authorize_input X K (rng i) tx op w of
        None \<Rightarrow> None
      | Some (Inl e, w1) \<Rightarrow> Some (Inl e, w1)
      | Some (Inr a, w1) \<Rightarrow>
          (case authorize_inputs X K rng tx ins w1 of
             None \<Rightarrow> None
           | Some (r, w2) \<Rightarrow> Some (and_then r (\<lambda>as. Inr (a # as)), w2)))"

definition authorize ::
  "'acc ext \<Rightarrow> 'x keys \<Rightarrow> (nat \<Rightarrow> bytes) \<Rightarrow> Transaction \<Rightarrow> Wallet \<Rightarrow> (AuthorizedTransaction wres \<times> Wallet) option" where
  "authorize X K rng tx w =
     map_option (\<lambda>(r, w1). (and_then r (\<lambda>as. Inr \<lparr>auth_transaction = tx, authorizations = as\<rparr>), w1))
       (authorize_inputs X K rng tx (enumerate 0 (inputs tx)) w)"

end
