(* ===== verification/Wallet_Facts.thy ===== *)
theory Wallet_Facts
  imports Wallet "HOL-Library.Multiset"
begin

text \<open>
  Facts about the wallet: coin selection, the address book, authorizations, and what makes a
  transaction of the wallet valid in a state.
\<close>

section \<open>Contracts of the parameters\<close>

text \<open>A sort sorts, and iterating over a map gives every entry once.\<close>

definition orders_ok :: "'x keys \<Rightarrow> bool" where
  "orders_ok K \<longleftrightarrow>
     (\<forall>cs. mset (sort_by_value K cs) = mset cs \<and> sorted (map (\<lambda>(_, out). get_value out) (sort_by_value K cs))) \<and>
     (\<forall>m. distinct (map fst (map_order K m)) \<and> map_of (map_order K m) = fmlookup m)"

text \<open>Signatures by the keys whose public keys are given pass the batch verification.\<close>

definition signatures_ok :: "'acc ext \<Rightarrow> 'x keys \<Rightarrow> bool" where
  "signatures_ok X K \<longleftrightarrow>
     (\<forall>items. items \<noteq> [] \<longrightarrow>
        (\<forall>(pk, sig, msg) \<in> set items. \<exists>r sk. pk = public_key K sk \<and> sig = sign_msg K r sk msg) \<longrightarrow>
        batch_verify X items)"

lemma map_order_db_iter: "orders_ok K \<Longrightarrow> mset (map_order K m) = mset (db_iter m)"
proof (rule set_eq_iff_mset_eq_distinct [THEN iffD1])
  assume K: "orders_ok K"
  show "distinct (map_order K m)" "distinct (db_iter m)"
    using K distinct_db_iter [of m] by (auto simp: orders_ok_def distinct_map)
  show "set (map_order K m) = set (db_iter m)"
    using K by (auto simp: set_db_iter orders_ok_def) (metis map_of_eq_Some_iff)+
qed

lemma set_map_order: "orders_ok K \<Longrightarrow> (op, out) \<in> set (map_order K m) \<longleftrightarrow> fmlookup m op = Some out"
  by (metis map_order_db_iter set_db_iter mset_eq_setD)

section \<open>Coin selection\<close>

definition spendable :: "(OutPoint \<Rightarrow> bool) \<Rightarrow> OutPoint \<times> Output \<Rightarrow> bool" where
  "spendable locked = (\<lambda>(op, out). \<not> is_withdrawal (content out) \<and> \<not> locked op)"

abbreviation coin_sum :: "(OutPoint \<times> Output) list \<Rightarrow> nat" where
  "coin_sum cs \<equiv> value_sum (map snd cs)"

text \<open>What the loop takes is the shortest prefix of the spendable coins that covers the value.\<close>

lemma select_loop_prefix:
  "select_loop locked v cs t sel = Inr (t', sel') \<Longrightarrow>
     \<exists>taken rest. filter (spendable locked) cs = taken @ rest \<and> unat t' = unat t + coin_sum taken \<and>
       sel' = fold (\<lambda>(op, out). fmupd op out) taken sel \<and> (rest \<noteq> [] \<longrightarrow> v \<le> t') \<and>
       (taken \<noteq> [] \<longrightarrow> unat t + coin_sum (butlast taken) < unat v)"
proof (induction locked v cs t sel arbitrary: t' sel' rule: select_loop.induct)
  case (1 locked v t sel)
  then show ?case by auto
next
  case (2 locked v op out cs t sel)
  show ?case
  proof (cases "spendable locked (op, out)")
    case False
    then show ?thesis using 2 by (auto simp: spendable_def)
  next
    case free: True
    show ?thesis
    proof (cases "v \<le> t")
      case True
      then show ?thesis using 2(3) free
        by (intro exI [of _ "[]"] exI [of _ "filter (spendable locked) ((op, out) # cs)"] conjI) (auto simp: spendable_def)
    next
      case low: False
      then obtain u where u: "checked_add t (get_value out) = Some u"
          and run: "select_loop locked v cs u (fmupd op out sel) = Inr (t', sel')"
        using 2(3) free by (auto simp: spendable_def split: option.splits)
      from "2.IH"(2) [OF _ low u run] free obtain taken rest where
        *: "filter (spendable locked) cs = taken @ rest" "unat t' = unat u + coin_sum taken"
          "sel' = fold (\<lambda>(op, out). fmupd op out) taken (fmupd op out sel)" "rest \<noteq> [] \<longrightarrow> v \<le> t'"
          "taken \<noteq> [] \<longrightarrow> unat u + coin_sum (butlast taken) < unat v"
        by (auto simp: spendable_def)
      have "unat u = unat t + unat (get_value out)" using u by (simp add: checked_add_Some)
      then show ?thesis using * free low
        by (intro exI [of _ "(op, out) # taken"] exI [of _ rest])
          (auto simp: word_le_nat_alt spendable_def)
    qed
  qed
qed

lemma select_loop_error:
  "select_loop locked v cs t sel = Inl e \<Longrightarrow>
     e = Fail WAmountOverflow \<and> 2 ^ 64 \<le> unat t + coin_sum (filter (spendable locked) cs)"
proof (induction locked v cs t sel rule: select_loop.induct)
  case (2 locked v op out cs t sel)
  show ?case
  proof (cases "spendable locked (op, out)")
    case False
    then show ?thesis using 2 by (auto simp: spendable_def)
  next
    case free: True
    then have low: "\<not> v \<le> t" using 2(3) by (auto simp: spendable_def split: if_splits)
    show ?thesis
    proof (cases "checked_add t (get_value out)")
      case None
      then show ?thesis using 2(3) free low
        by (auto simp: spendable_def checked_add_def split: if_splits)
    next
      case (Some u)
      then have "unat u = unat t + unat (get_value out)" by (simp add: checked_add_Some)
      then show ?thesis using 2 free low Some by (auto simp: spendable_def)
    qed
  qed
qed simp

lemma fold_fmupd_db_iter:
  assumes "distinct (map fst cs)"
  shows "mset (db_iter (fold (\<lambda>(op, out). fmupd op out) cs fmempty)) = mset cs"
proof (rule set_eq_iff_mset_eq_distinct [THEN iffD1])
  let ?m = "fold (\<lambda>(op, out). fmupd op out) cs fmempty"
  have look: "fmlookup (fold (\<lambda>(op, out). fmupd op out) xs m) k =
      (case map_of (rev xs) k of Some v \<Rightarrow> Some v | None \<Rightarrow> fmlookup m k)" for xs m k
    by (induction xs arbitrary: m) (auto simp: map_of_append map_add_def split: option.splits)
  have "map_of (rev cs) = map_of cs" using assms by (simp add: map_of_inject_set rev_map [symmetric])
  then have "fmlookup ?m k = map_of cs k" for k by (auto simp: look split: option.splits)
  then show "set (db_iter ?m) = set cs"
    using assms by (auto simp: set_db_iter)
  show "distinct (db_iter ?m)" "distinct cs" using assms distinct_db_iter [of ?m] by (auto simp: distinct_map)
qed

text \<open>A selection: the coins taken are a shortest prefix of the spendable ones, smallest first.\<close>

lemma select_coins_prefix:
  assumes "orders_ok K" "select_coins_with_filter K v locked w = Inr (t, sel)"
  shows "\<exists>taken rest. mset (filter (spendable locked) (db_iter (w_utxos w))) = mset (taken @ rest) \<and>
     sorted (map (\<lambda>(_, out). get_value out) (taken @ rest)) \<and> mset (db_iter sel) = mset taken \<and>
     unat t = coin_sum taken \<and> v \<le> t \<and> (taken \<noteq> [] \<longrightarrow> coin_sum (butlast taken) < unat v)"
proof -
  let ?cs = "sort_by_value K (db_iter (w_utxos w))"
  have cs: "mset ?cs = mset (db_iter (w_utxos w))" "sorted (map (\<lambda>(_, out). get_value out) ?cs)"
    using assms(1) by (simp_all add: orders_ok_def)
  have run: "select_loop locked v ?cs 0 fmempty = Inr (t, sel)" and enough: "v \<le> t"
    using assms(2) by (auto simp: select_coins_with_filter_def res_simps split: if_splits)
  obtain taken rest where *: "filter (spendable locked) ?cs = taken @ rest" "unat t = coin_sum taken"
      "sel = fold (\<lambda>(op, out). fmupd op out) taken fmempty" "taken \<noteq> [] \<longrightarrow> coin_sum (butlast taken) < unat v"
    using select_loop_prefix [OF run] by (metis add_0 unsigned_0)
  have "distinct (map fst ?cs)"
    using cs(1) distinct_db_iter [of "w_utxos w"] by (metis mset_eq_imp_distinct_iff mset_map)
  then have "distinct (map fst (filter (spendable locked) ?cs))" by (rule distinct_map_filter)
  then have "distinct (map fst taken)" by (simp add: *(1))
  moreover have "mset (filter (spendable locked) (db_iter (w_utxos w))) = mset (taken @ rest)"
    by (metis *(1) cs(1) mset_filter)
  moreover have "sorted (map (\<lambda>(_, out). get_value out) (taken @ rest))"
    using sorted_filter [OF cs(2), of "spendable locked"] unfolding *(1) .
  ultimately show ?thesis using * enough fold_fmupd_db_iter by blast
qed

lemma coin_sum_mset: "mset cs = mset ds \<Longrightarrow> coin_sum cs = coin_sum ds"
  by (metis (no_types, lifting) mset_map sum_mset_sum_list)

lemma select_coins_error:
  assumes "orders_ok K" "select_coins_with_filter K v locked w = Inl e"
  shows "e = Fail WNotEnoughFunds \<and> coin_sum (filter (spendable locked) (db_iter (w_utxos w))) < unat v \<or>
     e = Fail WAmountOverflow \<and> 2 ^ 64 \<le> coin_sum (filter (spendable locked) (db_iter (w_utxos w)))"
proof -
  let ?cs = "sort_by_value K (db_iter (w_utxos w))"
  have "mset ?cs = mset (db_iter (w_utxos w))" using assms(1) by (simp add: orders_ok_def)
  then have sum: "coin_sum (filter (spendable locked) ?cs) = coin_sum (filter (spendable locked) (db_iter (w_utxos w)))"
    by (intro coin_sum_mset) (simp only: mset_filter)
  consider (loop) "select_loop locked v ?cs 0 fmempty = Inl e"
    | (few) t sel where "select_loop locked v ?cs 0 fmempty = Inr (t, sel)" "t < v" "e = Fail WNotEnoughFunds"
    using assms(2) by (auto simp: select_coins_with_filter_def res_simps split: if_splits)
  then show ?thesis
  proof cases
    case loop
    then show ?thesis using select_loop_error [OF loop] sum by simp
  next
    case few
    obtain taken rest where *: "filter (spendable locked) ?cs = taken @ rest" "unat t = coin_sum taken" "rest \<noteq> [] \<longrightarrow> v \<le> t"
      using select_loop_prefix [OF few(1)] by auto
    then have "rest = []" using few(2) by auto
    then show ?thesis using * few(2,3) sum by (simp add: word_less_nat_alt)
  qed
qed

lemma select_coins_known:
  assumes "orders_ok K" "select_coins_with_filter K v locked w = Inr (t, sel)" "fmlookup sel op = Some out"
  shows "fmlookup (w_utxos w) op = Some out" "\<not> is_withdrawal (content out)" "\<not> locked op"
proof -
  obtain taken rest where *: "mset (filter (spendable locked) (db_iter (w_utxos w))) = mset (taken @ rest)"
      "mset (db_iter sel) = mset taken"
    using select_coins_prefix [OF assms(1,2)] by blast
  have "(op, out) \<in> set taken" using assms(3) mset_eq_setD [OF *(2)] set_db_iter by metis
  then have "(op, out) \<in> set (filter (spendable locked) (db_iter (w_utxos w)))" using mset_eq_setD [OF *(1)] by auto
  then show "fmlookup (w_utxos w) op = Some out" "\<not> is_withdrawal (content out)" "\<not> locked op"
    by (auto simp: set_db_iter spendable_def)
qed

lemma select_coins_total:
  assumes "orders_ok K" "select_coins_with_filter K v locked w = Inr (t, sel)"
  shows "unat t = coin_sum (map_order K sel)" "v \<le> t"
proof -
  obtain taken where "mset (db_iter sel) = mset taken" "unat t = coin_sum taken" "v \<le> t"
    using select_coins_prefix [OF assms] by blast
  moreover have "coin_sum (map_order K sel) = coin_sum taken"
    by (rule coin_sum_mset) (simp add: map_order_db_iter [OF assms(1)] calculation(1))
  ultimately show "unat t = coin_sum (map_order K sel)" "v \<le> t" by simp_all
qed

text \<open>Coins that are not taken are at least as large as those that are, and the largest one taken is needed.\<close>

lemma select_coins_smallest:
  assumes "orders_ok K" "select_coins_with_filter K v locked w = Inr (t, sel)" "fmlookup sel op = Some out"
  shows "fmlookup (w_utxos w) op' = Some out' \<Longrightarrow> spendable locked (op', out') \<Longrightarrow> fmlookup sel op' = None \<Longrightarrow>
      get_value out \<le> get_value out'"
    and "(\<And>op' out'. fmlookup sel op' = Some out' \<Longrightarrow> get_value out' \<le> get_value out) \<Longrightarrow>
      unat t < unat v + unat (get_value out)"
proof -
  obtain taken rest where *: "mset (filter (spendable locked) (db_iter (w_utxos w))) = mset (taken @ rest)"
      "sorted (map (\<lambda>(_, out). get_value out) (taken @ rest))" "mset (db_iter sel) = mset taken"
      "unat t = coin_sum taken" "taken \<noteq> [] \<longrightarrow> coin_sum (butlast taken) < unat v"
    using select_coins_prefix [OF assms(1,2)] by blast
  have taken: "(a, b) \<in> set taken \<longleftrightarrow> fmlookup sel a = Some b" for a b
    using mset_eq_setD [OF *(3)] set_db_iter [of a b sel] by auto
  { assume "fmlookup (w_utxos w) op' = Some out'" "spendable locked (op', out')" "fmlookup sel op' = None"
    moreover from this have "(op', out') \<in> set (filter (spendable locked) (db_iter (w_utxos w)))"
      by (simp add: set_db_iter)
    ultimately have "(op', out') \<in> set (taken @ rest)" "(op', out') \<notin> set taken"
      using mset_eq_setD [OF *(1)] taken by (metis, metis option.distinct(1))
    then have "(op', out') \<in> set rest" by simp
    moreover have "(op, out) \<in> set taken" using taken assms(3) by simp
    ultimately show "get_value out \<le> get_value out'" using *(2) by (force simp: sorted_append) }
  { assume max: "\<And>op' out'. fmlookup sel op' = Some out' \<Longrightarrow> get_value out' \<le> get_value out"
    have ne: "taken \<noteq> []" using taken assms(3) by force
    obtain a b where ab: "last taken = (a, b)" by force
    then have "get_value b \<le> get_value out" using max taken last_in_set [OF ne] by metis
    moreover have "coin_sum taken = coin_sum (butlast taken) + unat (get_value b)"
      by (subst append_butlast_last_id [OF ne, symmetric]) (simp add: ab)
    ultimately show "unat t < unat v + unat (get_value out)" using *(4,5) ne by (simp add: word_le_nat_alt) }
qed

end
