(* ===== verification/Wallet_Auth.thy ===== *)
theory Wallet_Auth
  imports Wallet_Facts
begin

text \<open>
  The address book of the wallet as an invariant of all its operations, authorizations, and the validity of
  the transactions that the wallet builds and signs.
\<close>

section \<open>The address book\<close>

text \<open>The two tables agree, and every address is derived from the seed at its index.\<close>

definition book_ok :: "'acc ext \<Rightarrow> 'x keys \<Rightarrow> Wallet \<Rightarrow> bool" where
  "book_ok X K w \<longleftrightarrow>
     (\<forall>a i. fmlookup (address_to_index w) a = Some i \<longrightarrow> fmlookup (index_to_address w) i = Some a) \<and>
     (\<forall>i a. fmlookup (index_to_address w) i = Some a \<longrightarrow> fmlookup (address_to_index w) a \<noteq> None \<and>
        (\<exists>seed. w_seed w = Some seed \<and> derive_address_for_index X K seed i = Inr a))"

lemma index_address_fields [simp]:
  "w_seed (index_address i a w) = w_seed w" "w_utxos (index_address i a w) = w_utxos w"
  "w_stxos (index_address i a w) = w_stxos w"
  "index_to_address (index_address i a w) = fmupd i a (index_to_address w)"
  "address_to_index (index_address i a w) = fmupd a i (address_to_index w)"
  by (simp_all add: index_address_def)

lemma book_empty: "address_to_index w = fmempty \<Longrightarrow> index_to_address w = fmempty \<Longrightarrow> book_ok X K w"
  by (simp add: book_ok_def)

lemma book_cong:
  "book_ok X K w \<Longrightarrow> w_seed w' = w_seed w \<Longrightarrow> index_to_address w' = index_to_address w \<Longrightarrow>
   address_to_index w' = address_to_index w \<Longrightarrow> book_ok X K w'"
  by (simp add: book_ok_def)

text \<open>A derived address that is indexed at another index moves to the new one; this needs no injectivity.\<close>

lemma book_index:
  assumes "book_ok X K w" "w_seed w = Some seed" "derive_address_for_index X K seed i = Inr a"
  shows "book_ok X K (index_address i a w)"
proof -
  have "fmlookup (fmupd i a (index_to_address w)) j = Some b"
    if "fmlookup (fmupd a i (address_to_index w)) b = Some j" for b j
  proof (cases "b = a")
    case False
    then have old: "fmlookup (index_to_address w) j = Some b" using that assms(1) by (simp add: book_ok_def)
    then have "derive_address_for_index X K seed j = Inr b" using assms(1,2) by (auto simp: book_ok_def)
    then have "j \<noteq> i" using assms(3) False by auto
    then show ?thesis using old by simp
  qed (use that in simp)
  then show ?thesis using assms by (auto simp: book_ok_def)
qed

lemma signing_key_derives:
  "get_signing_key K i w = Inr sk \<Longrightarrow>
     \<exists>seed. w_seed w = Some seed \<and> derive_address_for_index X K seed i = Inr (signing_key_address X K sk)"
  by (auto simp: get_signing_key_def derive_address_for_index_def res_simps)

lemma book_new_address:
  assumes "book_ok X K w" "get_new_address X K w = (r, w')"
  shows "book_ok X K w'" "w_utxos w' = w_utxos w" "w_stxos w' = w_stxos w"
  using assms book_index [OF assms(1)] signing_key_derives [of K _ w _ X]
  by (auto simp: get_new_address_def Let_def split: sum.splits) blast

lemma find_index_sound: "find_index_from f a i = Inr (Some j) \<Longrightarrow> f j = Inr a"
  by (induction f a i rule: find_index_from.induct)
    (subst (asm) find_index_from.simps, auto split: if_splits sum.splits fault.splits)

lemma ensure_indexed_effect:
  assumes "book_ok X K w" "ensure_address_indexed X K a w = (r, w')"
  shows "book_ok X K w'" "w_utxos w' = w_utxos w" "w_seed w' = w_seed w" "w_stxos w' = w_stxos w"
    and "r = Inr () \<Longrightarrow> fmlookup (address_to_index w') a \<noteq> None"
  using assms book_index [OF assms(1)]
  by (auto simp: ensure_address_indexed_def db_has_def split: if_splits option.splits sum.splits dest!: find_index_sound)

lemma recover_effect:
  "book_ok X K w \<Longrightarrow> w_seed w = Some seed \<Longrightarrow> recover_loop X K seed known gap n i w = (r, w') \<Longrightarrow>
     book_ok X K w' \<and> w_utxos w' = w_utxos w \<and> w_stxos w' = w_stxos w"
proof (induction X K seed known gap n i w rule: recover_loop.induct)
  case (1 X K seed known gap n i w)
  show ?case
  proof (cases "gap < gap_limit \<and> i < max_recovery_index")
    case go: True
    show ?thesis
    proof (cases "derive_address_for_index X K seed i")
      case (Inl e)
      then show ?thesis using 1(4,5,6) go by (auto simp: recover_loop.simps [of X K seed known gap])
    next
      case (Inr a)
      consider "a |\<notin>| known" | "a |\<in>| known" "db_has (address_to_index w) a" | "a |\<in>| known" "\<not> db_has (address_to_index w) a"
        by blast
      then show ?thesis
      proof cases
        case 1
        then show ?thesis using "1.IH"(3) [OF go Inr] "1.prems" go Inr
          by (simp add: recover_loop.simps [of X K seed known gap])
      next
        case 2
        then show ?thesis using "1.IH"(1) [OF go Inr] "1.prems" go Inr
          by (simp add: recover_loop.simps [of X K seed known gap])
      next
        case 3
        then show ?thesis using "1.IH"(2) [OF go Inr 3] "1.prems" go Inr book_index [OF "1.prems"(1,2) Inr]
          by (simp add: recover_loop.simps [of X K seed known gap])
      qed
    qed
  next
    case False
    then show ?thesis using 1(4,6) by (auto simp: recover_loop.simps [of X K seed known gap])
  qed
qed

section \<open>Authorization\<close>

text \<open>An authorization for an input is a signature, by the owner of the coin or, for a claim, of escrow.\<close>

definition signs_for :: "'acc ext \<Rightarrow> 'x keys \<Rightarrow> Transaction \<Rightarrow> Wallet \<Rightarrow> OutPoint \<Rightarrow> Authorization \<Rightarrow> bool" where
  "signs_for X K tx w op a \<longleftrightarrow>
     (\<exists>out r sk. fmlookup (w_utxos w) op = Some out \<and> a = sign_with X K r sk tx \<and>
        (get_address X a = address out \<or> is_swap_claim (data tx) \<and> is_swap_pending (content out)))"

lemma signs_for_cong: "w_utxos v = w_utxos w \<Longrightarrow> signs_for X K tx v = signs_for X K tx w"
  by (simp add: signs_for_def fun_eq_iff)

text \<open>
  The loop for an input is run at most twice: once the address is recovered, it is indexed.
\<close>

lemma authorize_input_cases:
  assumes "book_ok X K w"
  shows "\<exists>res w'. authorize_input X K r tx op w = Some (res, w') \<and> book_ok X K w' \<and> w_utxos w' = w_utxos w \<and>
     w_stxos w' = w_stxos w \<and> w_seed w' = w_seed w \<and>
     (\<forall>a. res = Inr a \<longrightarrow> signs_for X K tx w op a)"
proof -
  have known: ?thesis
    if "fmlookup (w_utxos v) op = Some out" "fmlookup (address_to_index v) (address out) = Some i" "book_ok X K v"
      "w_utxos v = w_utxos w" "w_stxos v = w_stxos w" "w_seed v = w_seed w"
      "authorize_input X K r tx op w = authorize_input X K r tx op v" for v out i
  proof -
    have look: "fmlookup (index_to_address v) i = Some (address out)" using that(2,3) by (simp add: book_ok_def)
    have own: "get_address X (sign_with X K r sk tx) = address out" if "get_signing_key K i v = Inr sk" for sk
      using signing_key_derives [OF that, of X] look \<open>book_ok X K v\<close>
      by (auto simp: book_ok_def get_address_def sign_with_def signing_key_address_def)
    show ?thesis using that own by (auto simp: authorize_input.simps [of X K r tx op v] res_simps signs_for_def)
  qed
  show ?thesis
  proof (cases "fmlookup (w_utxos w) op")
    case None
    then show ?thesis using assms by (simp add: authorize_input.simps)
  next
    case (Some out)
    show ?thesis
    proof (cases "fmlookup (address_to_index w) (address out)")
      case None
      show ?thesis
      proof (cases "is_swap_claim (data tx) \<and> is_swap_pending (content out)")
        case True
        then show ?thesis using assms Some None by (auto simp: authorize_input.simps res_simps signs_for_def)
      next
        case False
        obtain q v where q: "ensure_address_indexed X K (address out) w = (q, v)" by force
        note v = ensure_indexed_effect [OF assms q]
        show ?thesis
        proof (cases q)
          case (Inl e)
          then show ?thesis using False Some None q v by (auto simp: authorize_input.simps)
        next
          case (Inr u)
          have "authorize_input X K r tx op w = authorize_input X K r tx op v"
            using False Some None q Inr by (auto simp: authorize_input.simps [of X K r tx op w])
          then show ?thesis using known [of v out] v Inr Some by (metis (full_types) not_None_eq old.unit.exhaust)
        qed
      qed
    next
      case Some': (Some i)
      then show ?thesis using known [OF Some Some'] assms by blast
    qed
  qed
qed

lemma authorize_inputs_cases:
  assumes "book_ok X K w"
  shows "\<exists>res w'. authorize_inputs X K rng tx ins w = Some (res, w') \<and> book_ok X K w' \<and> w_utxos w' = w_utxos w \<and>
     w_stxos w' = w_stxos w \<and> w_seed w' = w_seed w \<and>
     (\<forall>as. res = Inr as \<longrightarrow> list_all2 (\<lambda>x a. signs_for X K tx w (fst (snd x)) a) ins as)"
  using assms
proof (induction ins arbitrary: w)
  case Nil
  then show ?case by simp
next
  case (Cons x ins)
  obtain i op h where x: "x = (i, op, h)" by (cases x) auto
  obtain res v where one: "authorize_input X K (rng i) tx op w = Some (res, v)" "book_ok X K v" "w_utxos v = w_utxos w"
      "w_stxos v = w_stxos w" "w_seed v = w_seed w" "\<forall>a. res = Inr a \<longrightarrow> signs_for X K tx w op a"
    using authorize_input_cases [OF Cons.prems] by blast
  show ?case
  proof (cases res)
    case (Inl e)
    then show ?thesis using one x by simp
  next
    case (Inr a)
    from Cons.IH [OF one(2)] obtain res2 v2 where
      rest: "authorize_inputs X K rng tx ins v = Some (res2, v2)" "book_ok X K v2" "w_utxos v2 = w_utxos w" "w_stxos v2 = w_stxos w"
        "w_seed v2 = w_seed w" "\<forall>as. res2 = Inr as \<longrightarrow> list_all2 (\<lambda>x a. signs_for X K tx w (fst (snd x)) a) ins as"
      unfolding one(3-5) signs_for_cong [OF one(3)] by blast
    have run: "authorize_inputs X K rng tx (x # ins) w = Some (and_then res2 (\<lambda>as. Inr (a # as)), v2)"
      using one(1) rest(1) Inr x by simp
    have "list_all2 (\<lambda>x a. signs_for X K tx w (fst (snd x)) a) (x # ins) as"
      if "and_then res2 (\<lambda>as. Inr (a # as)) = Inr as" for as
      using that rest(6) one(6) Inr x by (auto simp: res_simps)
    then show ?thesis unfolding run using rest(2-5) by simp
  qed
qed

lemma list_all2_enumerate: "list_all2 (\<lambda>x y. P (snd x) y) (enumerate n xs) ys \<longleftrightarrow> list_all2 P xs ys"
  by (induction xs arbitrary: n ys) (auto simp: list_all2_Cons1)

lemma authorize_total:
  assumes "book_ok X K w"
  shows "\<exists>res w'. authorize X K rng tx w = Some (res, w') \<and> book_ok X K w' \<and> w_utxos w' = w_utxos w \<and>
    w_stxos w' = w_stxos w \<and> w_seed w' = w_seed w"
proof -
  obtain res w' where "authorize_inputs X K rng tx (enumerate 0 (inputs tx)) w = Some (res, w')" "book_ok X K w'"
      "w_utxos w' = w_utxos w" "w_stxos w' = w_stxos w" "w_seed w' = w_seed w"
    using authorize_inputs_cases [OF assms] by blast
  then show ?thesis by (simp add: authorize_def)
qed

lemma authorize_parts:
  assumes "book_ok X K w" "authorize X K rng tx w = Some (Inr at, w')"
  shows "auth_transaction at = tx" "list_all2 (\<lambda>x. signs_for X K tx w (fst x)) (inputs tx) (authorizations at)"
proof -
  obtain as where as: "authorize_inputs X K rng tx (enumerate 0 (inputs tx)) w = Some (Inr as, w')"
      and at: "at = \<lparr>auth_transaction = tx, authorizations = as\<rparr>"
    using assms(2) by (auto simp: authorize_def res_simps)
  have "list_all2 (\<lambda>x a. signs_for X K tx w (fst (snd x)) a) (enumerate 0 (inputs tx)) as"
    using authorize_inputs_cases [OF assms(1), of rng tx "enumerate 0 (inputs tx)"] as by auto
  then show "list_all2 (\<lambda>x. signs_for X K tx w (fst x)) (inputs tx) (authorizations at)"
    using list_all2_enumerate [of "\<lambda>x. signs_for X K tx w (fst x)" 0 "inputs tx" as] at by auto
  show "auth_transaction at = tx" by (simp add: at)
qed

section \<open>Valid transactions\<close>

lemma wallet_signatures_verify:
  assumes "signatures_ok X K" "book_ok X K w" "authorize X K rng tx w = Some (Inr at, w')"
  shows "verify_authorized_transaction X at = Inr ()"
proof -
  note parts = authorize_parts [OF assms(2,3)]
  have "\<exists>r sk. a = sign_with X K r sk tx" if "a \<in> set (authorizations at)" for a
    using list_all2_right [OF parts(2) that] by (auto simp: signs_for_def)
  then have "batch_verify X (map (\<lambda>a. auth_item a (borsh_tx X tx)) (authorizations at))" if "authorizations at \<noteq> []"
    using that by (intro assms(1) [unfolded signatures_ok_def, rule_format]) (fastforce simp: auth_item_def sign_with_def sign_def)+
  then show ?thesis
    using list_all2_lengthD [OF parts(2)] parts(1) by (simp add: verify_authorized_transaction_def check_count_def)
qed

text \<open>
  A transaction whose inputs are coins that the wallet and the state both have, that pays them out less the fee and
  keeps the rules for its data, is valid once the wallet has signed it.
\<close>

lemma signed_valid:
  assumes keys: "signatures_ok X K" "book_ok X K w" "authorize X K rng tx w = Some (Inr at, w')"
    and coins: "inputs tx = coin_inputs X cs"
      "\<And>op out. (op, out) \<in> set cs \<Longrightarrow> fmlookup (utxos s) op = Some out \<and> fmlookup (w_utxos w) op = Some out \<and>
         \<not> is_withdrawal (content out)"
    and sums: "coin_sum cs = value_sum (outputs tx) + unat fee" "coin_sum cs < 2 ^ 64"
    and rule: "validate_swap_data X s tx \<lparr>transaction = tx, spent_utxos = map snd cs\<rparr> = Inr ()"
  shows "validate_transaction X s at = Inr fee"
proof -
  let ?ft = "\<lparr>transaction = tx, spent_utxos = map snd cs\<rparr>"
  note parts = authorize_parts [OF keys(2,3)]
  have fill: "fill_transaction s tx = Inr ?ft"
    unfolding fill_transaction_iff coins(1) coin_inputs_def
    using coins(2) by (auto simp: list_all2_map1 list_all2_map2 list_all2_same case_prod_unfold)
  have owners: "check_owner X (is_swap_claim (data tx)) p = Inr ()"
    if p: "p \<in> set (zip (authorizations at) (map snd cs))" for p
  proof -
    have pair: "list_all2 (\<lambda>c. signs_for X K tx w (fst c)) cs (authorizations at)"
      using parts(2) by (simp add: coins(1) coin_inputs_def list_all2_map1 case_prod_unfold)
    then have len: "length cs = length (authorizations at)" by (rule list_all2_lengthD)
    obtain i where i: "i < length cs" "p = (authorizations at ! i, snd (cs ! i))"
      using p len by (auto simp: set_zip)
    obtain op out where oo: "cs ! i = (op, out)" by force
    have "fmlookup (w_utxos w) op = Some out" using coins(2) i(1) oo nth_mem by metis
    then show ?thesis using list_all2_nthD [OF pair i(1)] i(2) oo by (auto simp: check_owner_def signs_for_def)
  qed
  have "list_all (\<lambda>u. \<not> is_withdrawal (content u)) (map snd cs)" using coins(2) by (auto simp: list_all_iff)
  moreover have "\<forall>(op, h, out) \<in> set (filled_inputs ?ft). h = pointed_hash X op out"
    by (auto simp: filled_inputs_def coins(1) coin_inputs_def zip_map1 zip_map2 zip_same_conv_map set_zip)
  ultimately have "validate_filled_transaction X ?ft = Inr fee"
    unfolding validate_filled_iff using sums by simp
  then show ?thesis
    using fill rule owners wallet_signatures_verify [OF keys]
    by (simp add: validate_transaction_def Let_def parts(1) and_then_eq_Inr try_fold_checks)
qed

end
