(* ===== verification/Wallet_Valid.thy ===== *)
theory Wallet_Valid
  imports Wallet_Auth
begin

text \<open>
  What the transactions of the wallet look like and that they keep the rules of a state that the wallet agrees
  with; and the wallet as a state machine.
\<close>

section \<open>The transactions of the wallet\<close>

text \<open>The coins of the wallet are unspent in the state, and the filter knows the locked outputs.\<close>

definition in_step :: "'acc State \<Rightarrow> (OutPoint \<Rightarrow> bool) \<Rightarrow> Wallet \<Rightarrow> bool" where
  "in_step s locked w \<longleftrightarrow>
     (\<forall>op out. fmlookup (w_utxos w) op = Some out \<longrightarrow> fmlookup (utxos s) op = Some out) \<and>
     (\<forall>op. locked op \<longleftrightarrow> is_output_locked_to_swap op s \<noteq> None)"

lemma amount_minus_Inr: "amount_minus a b = Inr c \<longleftrightarrow> unat a = unat b + unat c"
  by (simp add: amount_minus_def ok_or_eq_Inr checked_sub_Some)

lemma new_address_effect:
  assumes "book_ok X K w" "get_new_address X K w = (Inr a, w')"
  shows "book_ok X K w'" "w_utxos w' = w_utxos w" "w_stxos w' = w_stxos w" "has_address a w'"
  using book_new_address [OF assms] assms(2)
  by (auto simp: get_new_address_def Let_def has_address_def db_has_def split: sum.splits)

text \<open>The coins of a selection, as the inputs have them.\<close>

lemma selected_coins:
  assumes "orders_ok K" "select_coins_with_filter K v locked w = Inr (t, sel)" "in_step s locked w"
  shows "coin_sum (map_order K sel) = unat t" "unat t < 2 ^ 64" "v \<le> t"
    and "\<And>op out. (op, out) \<in> set (map_order K sel) \<Longrightarrow> fmlookup (utxos s) op = Some out \<and> fmlookup (w_utxos w) op = Some out \<and>
      \<not> is_withdrawal (content out) \<and> is_output_locked_to_swap op s = None"
proof -
  show "unat t < 2 ^ 64" using unsigned_less [of t] by simp
qed (use select_coins_total [OF assms(1,2)] select_coins_known [OF assms(1,2)] assms(3) in
    \<open>auto simp: set_map_order [OF assms(1)] in_step_def\<close>)

lemma spends_coins: "inputs tx = coin_inputs X cs \<Longrightarrow> spends tx = fst ` set cs"
  by (auto simp: spends_def coin_inputs_def image_image case_prod_unfold)

lemma transaction_many_parts:
  assumes "orders_ok K" "book_ok X K w" "in_step s locked w"
    and "create_transaction_many X K acc dests fee locked w = (Inr tx, w')"
  shows "\<exists>cs a change. inputs tx = coin_inputs X cs \<and> data tx = Regular \<and>
     outputs tx = map (\<lambda>(b, v). \<lparr>address = b, content = Value v\<rparr>) (db_iter dests) @ [\<lparr>address = a, content = Value change\<rparr>] \<and>
     has_address a w' \<and> coin_sum cs = value_sum (outputs tx) + unat fee \<and> coin_sum cs < 2 ^ 64 \<and> book_ok X K w' \<and>
     w_utxos w' = w_utxos w \<and>
     (\<forall>(op, out) \<in> set cs. fmlookup (utxos s) op = Some out \<and> fmlookup (w_utxos w) op = Some out \<and>
        \<not> is_withdrawal (content out) \<and> is_output_locked_to_swap op s = None)"
proof -
  obtain v r1 :: amount and need t sel change pf a where
    *: "unat v = (\<Sum>x\<leftarrow>map snd (db_iter dests). unat x)"
      "select_coins_with_filter K need locked w = Inr (t, sel)" "unat t = unat v + unat r1" "unat r1 = unat fee + unat change"
      "get_new_address X K w = (Inr a, w')"
      "tx = \<lparr>inputs = coin_inputs X (map_order K sel), utreexo_proof = pf,
         outputs = map (\<lambda>(b, v). \<lparr>address = b, content = Value v\<rparr>) (db_iter dests) @ [\<lparr>address = a, content = Value change\<rparr>],
         data = Regular\<rparr>"
    using assms(4)
    by (auto simp: create_transaction_many_def w_simps and_then_eq_Inr amount_minus_Inr ok_or_eq_Inr checked_add_Some
        checked_sum_Some Let_def split: if_splits prod.splits)
  note coins = selected_coins [OF assms(1) *(2) assms(3)]
  have "(\<Sum>x\<leftarrow>map snd (db_iter dests). unat x) = value_sum (map (\<lambda>(b, v). \<lparr>address = b, content = Value v\<rparr>) (db_iter dests))"
    by (simp add: comp_def case_prod_unfold get_value_def)
  then have "coin_sum (map_order K sel) = value_sum (outputs tx) + unat fee"
    using *(1,3,4) coins(1) by (simp add: *(6) get_value_def)
  then show ?thesis
    using *(6) coins new_address_effect [OF assms(2) *(5)]
    by (intro exI [of _ "map_order K sel"] exI [of _ a] exI [of _ change]) auto
qed

lemma withdrawal_parts:
  assumes "orders_ok K" "book_ok X K w" "in_step s locked w"
    and "create_withdrawal X K acc m v main_fee fee locked w = (Inr tx, w')"
  shows "\<exists>cs a1 a2 change. inputs tx = coin_inputs X cs \<and> data tx = Regular \<and>
     outputs tx = [\<lparr>address = a1, content = Withdrawal v main_fee m\<rparr>, \<lparr>address = a2, content = Value change\<rparr>] \<and>
     has_address a2 w' \<and> coin_sum cs = value_sum (outputs tx) + unat fee \<and> coin_sum cs < 2 ^ 64 \<and> book_ok X K w' \<and>
     w_utxos w' = w_utxos w \<and>
     (\<forall>(op, out) \<in> set cs. fmlookup (utxos s) op = Some out \<and> fmlookup (w_utxos w) op = Some out \<and>
        \<not> is_withdrawal (content out) \<and> is_output_locked_to_swap op s = None)"
proof -
  obtain r1 r2 :: amount and need t sel change pf a1 w1 a2 where
    *: "select_coins_with_filter K need locked w = Inr (t, sel)" "unat t = unat v + unat r1" "unat r1 = unat fee + unat r2"
      "unat r2 = unat main_fee + unat change"
      "get_new_address X K w = (Inr a1, w1)" "get_new_address X K w1 = (Inr a2, w')"
      "tx = \<lparr>inputs = coin_inputs X (map_order K sel), utreexo_proof = pf,
         outputs = [\<lparr>address = a1, content = Withdrawal v main_fee m\<rparr>, \<lparr>address = a2, content = Value change\<rparr>],
         data = Regular\<rparr>"
    using assms(4)
    by (auto simp: create_withdrawal_def w_simps and_then_eq_Inr amount_minus_Inr ok_or_eq_Inr checked_add_Some
        Let_def split: if_splits prod.splits)
  note coins = selected_coins [OF assms(1) *(1) assms(3)]
  note w1 = new_address_effect [OF assms(2) *(5)]
  note w2 = new_address_effect [OF w1(1) *(6)]
  have "unat v + unat main_fee < 2 ^ 64" using *(2-4) coins(2) by simp
  then have "unat (content_value (Withdrawal v main_fee m)) = unat v + unat main_fee"
    by (auto simp: checked_add_def unat_word_ariths)
  then have "coin_sum (map_order K sel) = value_sum (outputs tx) + unat fee"
    using *(2-4) coins(1) by (simp add: *(7) get_value_def)
  then show ?thesis
    using *(7) coins w1 w2
    by (intro exI [of _ "map_order K sel"] exI [of _ a1] exI [of _ a2] exI [of _ change]) auto
qed

text \<open>A plain transaction over unlocked coins is valid once it is signed.\<close>

lemma regular_valid:
  assumes "signatures_ok X K" "book_ok X K w1" "w_utxos w1 = w_utxos w" "authorize X K rng tx w1 = Some (Inr at, w2)"
    and "inputs tx = coin_inputs X cs" "data tx = Regular"
    and "coin_sum cs = value_sum (outputs tx) + unat fee" "coin_sum cs < 2 ^ 64"
    and coins: "\<forall>(op, out) \<in> set cs. fmlookup (utxos s) op = Some out \<and> fmlookup (w_utxos w) op = Some out \<and>
      \<not> is_withdrawal (content out) \<and> is_output_locked_to_swap op s = None"
  shows "validate_transaction X s at = Inr fee"
proof (rule signed_valid [OF assms(1,2,4,5) _ assms(7,8)])
  show "validate_swap_data X s tx \<lparr>transaction = tx, spent_utxos = map snd cs\<rparr> = Inr ()"
    using coins by (auto simp: validate_swap_data_def assms(6) no_locked_outputs_iff spends_coins [OF assms(5)])
qed (use coins assms(3) in auto)

lemma swap_create_parts:
  assumes "orders_ok K" "book_ok X K w" "in_step s locked w"
    and "create_swap_create_tx X K acc chain l1_addr l1_amt l2_recip l2_amt req fee locked w = (Inr (tx, i), w')"
  shows "\<exists>op out cs a change. inputs tx = coin_inputs X ((op, out) # cs) \<and>
     i = from_l2_to_l1 (blake3 X) l1_addr l1_amt (address out) l2_recip \<and>
     data tx = SwapCreate i chain (replicate 32 0) (case req of Some n \<Rightarrow> n | None \<Rightarrow> default_confirmations chain)
       l2_recip l2_amt l1_addr l1_amt \<and>
     outputs tx = [\<lparr>address = (case l2_recip of Some r \<Rightarrow> r | None \<Rightarrow> address out), content = SwapPending l2_amt i\<rparr>,
       \<lparr>address = a, content = Value change\<rparr>] \<and>
     has_address a w' \<and> coin_sum ((op, out) # cs) = value_sum (outputs tx) + unat fee \<and> coin_sum ((op, out) # cs) < 2 ^ 64 \<and>
     book_ok X K w' \<and> w_utxos w' = w_utxos w \<and>
     (\<forall>(op, out) \<in> set ((op, out) # cs). fmlookup (utxos s) op = Some out \<and> fmlookup (w_utxos w) op = Some out \<and>
        \<not> is_withdrawal (content out) \<and> is_output_locked_to_swap op s = None)"
proof -
  have first: "(case xs of [] \<Rightarrow> Inl e | (_, out) # _ \<Rightarrow> Inr (address out)) = Inr b \<longleftrightarrow>
      (\<exists>op out cs. xs = (op, out) # cs \<and> b = address out)" for xs :: "(OutPoint \<times> Output) list" and e :: "WalletError fault" and b
    by (auto split: list.splits)
  obtain r1 :: amount and need t sel change pf op out cs a where
    *: "select_coins_with_filter K need locked w = Inr (t, sel)"
      "unat t = unat l2_amt + unat r1" "unat r1 = unat fee + unat change" "map_order K sel = (op, out) # cs"
      "get_new_address X K w = (Inr a, w')" "i = from_l2_to_l1 (blake3 X) l1_addr l1_amt (address out) l2_recip"
      "tx = \<lparr>inputs = coin_inputs X (map_order K sel), utreexo_proof = pf,
        outputs = [\<lparr>address = (case l2_recip of Some r \<Rightarrow> r | None \<Rightarrow> address out), content = SwapPending l2_amt i\<rparr>,
                   \<lparr>address = a, content = Value change\<rparr>],
        data = SwapCreate i chain (replicate 32 0)
          (case req of Some n \<Rightarrow> n | None \<Rightarrow> default_confirmations chain) l2_recip l2_amt l1_addr l1_amt\<rparr>"
    using assms(4)
    by (auto simp: create_swap_create_tx_def w_simps and_then_eq_Inr amount_minus_Inr ok_or_eq_Inr checked_add_Some first
        Let_def split: if_splits prod.splits)
  note coins = selected_coins [OF assms(1) *(1) assms(3), unfolded *(4)]
  have "coin_sum ((op, out) # cs) = value_sum (outputs tx) + unat fee"
    using *(2,3) coins(1) by (simp add: *(7) get_value_def)
  then show ?thesis
    using *(4,6,7) coins new_address_effect [OF assms(2) *(5)]
    by (intro exI [of _ op] exI [of _ out] exI [of _ cs] exI [of _ a] exI [of _ change]) auto
qed

lemma swap_accept_parts:
  assumes "orders_ok K" "book_ok X K w" "in_step s locked w"
    and "create_swap_accept_tx X K acc i who fee locked w = (Inr tx, w')"
  shows "\<exists>op out. inputs tx = coin_inputs X [(op, out)] \<and> data tx = SwapAccept i (address out) \<and>
     (\<forall>a. who = Some a \<longrightarrow> address out = a) \<and> unat (get_value out) = value_sum (outputs tx) + unat fee \<and>
     book_ok X K w' \<and> w_utxos w' = w_utxos w \<and>
     fmlookup (utxos s) op = Some out \<and> fmlookup (w_utxos w) op = Some out \<and>
     \<not> is_withdrawal (content out) \<and> is_output_locked_to_swap op s = None"
proof -
  let ?cs = "sort_key (\<lambda>(_, out). get_value out) (filter (accept_candidate locked who fee) (map_order K (w_utxos w)))"
  have first: "(case xs of [] \<Rightarrow> Inl e | c # _ \<Rightarrow> Inr c) = Inr b \<longleftrightarrow> (\<exists>cs. xs = b # cs)"
    for xs :: "(OutPoint \<times> Output) list" and e :: "WalletError fault" and b
    by (auto split: list.splits)
  obtain op out cs change pf outs where
    *: "?cs = (op, out) # cs" "unat (get_value out) = unat fee + unat change"
      "(if change > 0 then w_then (get_new_address X K) (\<lambda>a. w_read (\<lambda>_. Inr [\<lparr>address = a, content = Value change\<rparr>]))
        else w_read (\<lambda>_. Inr [])) w = (Inr outs, w')"
      "tx = \<lparr>inputs = coin_inputs X [(op, out)], utreexo_proof = pf, outputs = outs,
         data = SwapAccept i (case who of Some a \<Rightarrow> a | None \<Rightarrow> address out)\<rparr>"
    using assms(4)
    by (auto simp: create_swap_accept_tx_def w_simps and_then_eq_Inr ok_or_eq_Inr checked_sub_Some first Let_def)
  have "(op, out) \<in> set ?cs" by (simp only: *(1) list.set_intros)
  then have c: "fmlookup (w_utxos w) op = Some out" "accept_candidate locked who fee (op, out)"
    using set_map_order [OF assms(1)] by auto
  have outs: "value_sum outs = unat change \<and> book_ok X K w' \<and> w_utxos w' = w_utxos w"
  proof (cases "change > 0")
    case True
    then obtain a where "get_new_address X K w = (Inr a, w')" "outs = [\<lparr>address = a, content = Value change\<rparr>]"
      using *(3) by (auto simp: w_simps)
    then show ?thesis using new_address_effect [OF assms(2)] by (simp add: get_value_def)
  next
    case False
    then have "change = 0" using word_neq_0_conv by blast
    then show ?thesis using *(3) assms(2) by (simp add: w_simps)
  qed
  have "address out = (case who of Some a \<Rightarrow> a | None \<Rightarrow> address out)" "\<forall>a. who = Some a \<longrightarrow> address out = a"
    using c(2) by (auto simp: accept_candidate_def split: option.splits)
  then show ?thesis
    using *(2,4) c outs assms(3) by (intro exI [of _ op] exI [of _ out]) (auto simp: accept_candidate_def in_step_def)
qed

section \<open>The wallet as a state machine\<close>

definition keeps_book :: "'acc ext \<Rightarrow> 'x keys \<Rightarrow> 'a wop \<Rightarrow> bool" where
  "keeps_book X K m \<longleftrightarrow> (\<forall>w r w'. book_ok X K w \<longrightarrow> m w = (r, w') \<longrightarrow> book_ok X K w')"

lemma keepsD: "keeps_book X K m \<Longrightarrow> m w = (r, w') \<Longrightarrow> book_ok X K w \<Longrightarrow> book_ok X K w'"
  by (auto simp: keeps_book_def)

lemma keeps_read: "keeps_book X K (w_read m)"
  by (simp add: keeps_book_def w_read_def)

lemma keeps_then:
  assumes "keeps_book X K m" "\<And>x. keeps_book X K (f x)"
  shows "keeps_book X K (w_then m f)"
  unfolding keeps_book_def
proof (intro allI impI)
  fix w r w' assume w: "book_ok X K w" and run: "w_then m f w = (r, w')"
  obtain q v where q: "m w = (q, v)" by force
  show "book_ok X K w'"
    using run keepsD [OF assms(1) q w] keepsD [OF assms(2), of _ v r w'] by (cases q) (auto simp: w_then_def q)
qed

lemma keeps_new: "keeps_book X K (get_new_address X K)"
  using book_new_address by (fastforce simp: keeps_book_def)

lemma keeps_creates:
  "keeps_book X K (create_transaction_many X K acc dests fee locked)"
  "keeps_book X K (create_withdrawal X K acc m v main_fee fee locked)"
  "keeps_book X K (create_swap_create_tx X K acc chain l1_addr l1_amt l2_recip l2_amt req fee locked)"
  "keeps_book X K (create_swap_accept_tx X K acc i who fee locked)"
  unfolding create_transaction_many_def create_withdrawal_def create_swap_create_tx_def create_swap_accept_tx_def
  by (auto simp: Let_def intro!: keeps_then keeps_read keeps_new split: prod.split)

lemma keeps_addresses:
  "keeps_book X K (get_address_or_new X K)" "keeps_book X K (get_receive_address X K)"
  "keeps_book X K (adopt_index_zero X K)" "keeps_book X K (ensure_address_indexed X K a)"
  "keeps_book X K (recover_addresses_from_utxo_set X K known)"
proof -
  show "keeps_book X K (get_address_or_new X K)" "keeps_book X K (get_receive_address X K)"
    using keeps_new [of X K]
    by (auto simp: keeps_book_def get_address_or_new_def get_receive_address_def split: option.splits if_splits)
  show "keeps_book X K (ensure_address_indexed X K a)" using ensure_indexed_effect(1) by (auto simp: keeps_book_def)
  show "keeps_book X K (recover_addresses_from_utxo_set X K known)"
    using recover_effect by (fastforce simp: keeps_book_def recover_addresses_from_utxo_set_def split: if_splits option.splits)
  show "keeps_book X K (adopt_index_zero X K)"
    using book_index signing_key_derives
    by (fastforce simp: keeps_book_def adopt_index_zero_def split: if_splits sum.splits)
qed

inductive wallet_step :: "'acc ext \<Rightarrow> 'x keys \<Rightarrow> Wallet \<Rightarrow> Wallet \<Rightarrow> bool" for X K where
  open_wallet: "adopt_index_zero X K w = (r, w') \<Longrightarrow> wallet_step X K w w'"
| overwrite: "wallet_step X K w (overwrite_seed seed w)"
| seed: "set_seed seed w = (r, w') \<Longrightarrow> wallet_step X K w w'"
| new_address: "get_new_address X K w = (r, w') \<Longrightarrow> wallet_step X K w w'"
| address_or_new: "get_address_or_new X K w = (r, w') \<Longrightarrow> wallet_step X K w w'"
| receive_address: "get_receive_address X K w = (r, w') \<Longrightarrow> wallet_step X K w w'"
| ensure: "ensure_address_indexed X K a w = (u, w') \<Longrightarrow> wallet_step X K w w'"
| recover: "recover_addresses_from_utxo_set X K known w = (n, w') \<Longrightarrow> wallet_step X K w w'"
| delete: "wallet_step X K w (delete_utxos ops w)"
| spend: "wallet_step X K w (spend_utxos spent w)"
| put: "wallet_step X K w (put_utxos m w)"
| pay: "create_transaction_many X K acc dests fee locked w = (t, w') \<Longrightarrow> wallet_step X K w w'"
| withdraw: "create_withdrawal X K acc m v main_fee fee locked w = (t, w') \<Longrightarrow> wallet_step X K w w'"
| create_swap: "create_swap_create_tx X K acc chain l1_addr l1_amt l2_recip l2_amt req fee locked w = (ti, w') \<Longrightarrow>
    wallet_step X K w w'"
| accept_swap: "create_swap_accept_tx X K acc i who fee locked w = (t, w') \<Longrightarrow> wallet_step X K w w'"
| authorize: "authorize X K rng tx w = Some (at, w') \<Longrightarrow> wallet_step X K w w'"

inductive wallet_reach :: "'acc ext \<Rightarrow> 'x keys \<Rightarrow> Wallet \<Rightarrow> bool" for X K where
  start: "wallet_reach X K Wallet_empty"
| step: "wallet_reach X K w \<Longrightarrow> wallet_step X K w w' \<Longrightarrow> wallet_reach X K w'"

lemma spend_utxo_fields:
  "w_seed (spend_utxo x w) = w_seed w" "index_to_address (spend_utxo x w) = index_to_address w"
  "address_to_index (spend_utxo x w) = address_to_index w"
  by (auto simp: spend_utxo_def split: prod.splits option.splits)

lemma spend_utxos_fields:
  "w_seed (spend_utxos xs w) = w_seed w" "index_to_address (spend_utxos xs w) = index_to_address w"
  "address_to_index (spend_utxos xs w) = address_to_index w"
  unfolding spend_utxos_def by (induction xs arbitrary: w) (simp_all add: spend_utxo_fields)

lemma step_keeps_book: "wallet_step X K w w' \<Longrightarrow> book_ok X K w \<Longrightarrow> book_ok X K w'"
proof (induction rule: wallet_step.induct)
  case (authorize rng tx w at w')
  then show ?case using authorize_total [OF authorize.prems, of rng tx] by auto
next
  case (seed sd w r w')
  then show ?case
    by (auto simp: set_seed_def overwrite_seed_def Wallet_empty_def split: option.splits if_splits intro: book_empty)
next
  case (overwrite w sd)
  then show ?case by (simp add: overwrite_seed_def Wallet_empty_def book_empty)
next
  case (spend w xs)
  then show ?case by (rule book_cong) (simp_all add: spend_utxos_fields)
next
  case (delete w ops)
  then show ?case by (rule book_cong) (simp_all add: delete_utxos_def)
next
  case (put w m)
  then show ?case by (rule book_cong) (simp_all add: put_utxos_def)
qed (blast intro: keepsD keeps_addresses keeps_creates keeps_new)+

lemma reach_book: "wallet_reach X K w \<Longrightarrow> book_ok X K w"
  by (induction rule: wallet_reach.induct) (auto simp: Wallet_empty_def intro: book_empty step_keeps_book)

section \<open>Recovery\<close>

lemmas recover_unfold = recover_loop.simps [of X K seed known gap] for X K seed known gap

text \<open>Whether the address of an index is among those looked for.\<close>

definition hits :: "'acc ext \<Rightarrow> 'x keys \<Rightarrow> bytes \<Rightarrow> Address fset \<Rightarrow> nat \<Rightarrow> bool" where
  "hits X K seed known m \<longleftrightarrow> (\<exists>a. a |\<in>| known \<and> derive_address_for_index X K seed (word_of_nat m) = Inr a)"

lemma recover_keeps_known:
  "recover_loop X K seed known gap n i w = (r, w') \<Longrightarrow> has_address a w \<Longrightarrow> has_address a w'"
proof (induction X K seed known gap n i w rule: recover_loop.induct)
  case (1 X K seed known gap n i w)
  show ?case
  proof (cases "gap < gap_limit \<and> i < max_recovery_index")
    case go: True
    show ?thesis
    proof (cases "derive_address_for_index X K seed i")
      case (Inl e)
      then show ?thesis using 1(4,5) go by (simp add: recover_unfold)
    next
      case (Inr b)
      then show ?thesis
        using 1(4,5) go "1.IH"(1) [OF go Inr] "1.IH"(2) [OF go Inr] "1.IH"(3) [OF go Inr]
        by (cases "b |\<in>| known"; cases "db_has (address_to_index w) b")
          (auto simp: recover_unfold has_address_def db_has_def)
    qed
  next
    case False
    then show ?thesis using 1(4,5) by (auto simp: recover_unfold split: if_splits)
  qed
qed

text \<open>
  The loop stops at the end of the range or after twenty addresses in a row that are not looked for. So it
  indexes every address before such a gap.
\<close>

lemma recover_complete:
  "recover_loop X K seed known gap n i w = (Inr r, w') \<Longrightarrow>
   (\<And>m. unat i \<le> m + unat gap \<Longrightarrow> m < unat i \<Longrightarrow> \<not> hits X K seed known m) \<Longrightarrow> unat gap \<le> unat i \<Longrightarrow>
   unat i \<le> j \<Longrightarrow> j < unat max_recovery_index \<Longrightarrow>
   (\<And>k. k + 20 \<le> j \<Longrightarrow> \<exists>m. k \<le> m \<and> m < k + 20 \<and> hits X K seed known m) \<Longrightarrow>
   derive_address_for_index X K seed (word_of_nat j) = Inr a \<Longrightarrow> a |\<in>| known \<Longrightarrow> has_address a w'"
proof (induction X K seed known gap n i w rule: recover_loop.induct)
  case (1 X K seed known gap n i w)
  note run = "1.prems"(1) and missed = "1.prems"(2) and le = "1.prems"(3,4) and j = "1.prems"(5) and
    dense = "1.prems"(6) and a = "1.prems"(7,8)
  have max: "unat max_recovery_index = 100000" by (simp add: max_recovery_index_def)
  have i: "i < max_recovery_index" using le j by (simp add: word_less_nat_alt)
  have suc: "unat (i + 1) = unat i + 1" using i max by (simp add: word_less_nat_alt unat_word_ariths)
  have small: "gap < gap_limit"
  proof (rule ccontr)
    assume "\<not> gap < gap_limit"
    then have big: "20 \<le> unat gap" by (simp add: word_less_nat_alt gap_limit_def)
    then obtain m where "unat i - 20 \<le> m" "m < unat i - 20 + 20" "hits X K seed known m"
      using dense [of "unat i - 20"] le by auto
    then show False using missed [of m] big le by simp
  qed
  then have go: "gap < gap_limit \<and> i < max_recovery_index" using i by simp
  have sucg: "unat (gap + 1) = unat gap + 1" using small by (simp add: word_less_nat_alt gap_limit_def unat_word_ariths)
  obtain b where b: "derive_address_for_index X K seed i = Inr b"
    using run go by (auto simp: recover_unfold split: sum.splits)
  have at: "b = a \<and> b |\<in>| known" if "unat i = j" using a b by (auto simp flip: that)
  consider (miss) "b |\<notin>| known" | (old) "b |\<in>| known" "db_has (address_to_index w) b" |
      (new) "b |\<in>| known" "\<not> db_has (address_to_index w) b" by blast
  then show ?case
  proof cases
    case miss
    then have next_i: "unat (i + 1) \<le> j" using at le suc by force
    have "\<not> hits X K seed known (unat i)" using miss b by (auto simp: hits_def)
    then have "\<not> hits X K seed known m" if "unat (i + 1) \<le> m + unat (gap + 1)" "m < unat (i + 1)" for m
      using missed [of m] that suc sucg by (cases "m = unat i") auto
    then show ?thesis
      using "1.IH"(3) [OF go b miss] run go b miss le next_i j dense a suc sucg by (simp add: recover_unfold)
  next
    case old
    have run1: "recover_loop X K seed known 0 n (i + 1) w = (Inr r, w')" using run go b old by (simp add: recover_unfold)
    show ?thesis
    proof (cases "unat i = j")
      case True
      then show ?thesis using at old recover_keeps_known [OF run1] by (auto simp: has_address_def)
    next
      case False
      then show ?thesis using "1.IH"(1) [OF go b old run1] le j dense a suc by simp
    qed
  next
    case new
    have run1: "recover_loop X K seed known 0 (n + 1) (i + 1) (index_address i b w) = (Inr r, w')"
      using run go b new by (simp add: recover_unfold)
    show ?thesis
    proof (cases "unat i = j")
      case True
      then show ?thesis using at new recover_keeps_known [OF run1] by (auto simp: has_address_def db_has_def)
    next
      case False
      then show ?thesis using "1.IH"(2) [OF go b new run1] le j dense a suc by simp
    qed
  qed
qed

end
