(* ===== verification/Wallet_Properties.thy ===== *)
theory Wallet_Properties
  imports Wallet_Valid Examples
begin

text \<open>The properties of the wallet, with a concrete wallet at which they are applied.\<close>

section \<open>A wallet\<close>

text \<open>Keys that hash nothing, sort stably and iterate in the order of the outpoints.\<close>

definition ex_keys :: "bytes keys" where
  "ex_keys =
     \<lparr>hmac_sha512 = (\<lambda>_ m. m), scalar_mod_order = (\<lambda>bs. bs), new_master = (\<lambda>sc _. sc),
      derive_hardened = (\<lambda>_ x. Some x), derive_non_hardened = (\<lambda>_ x. Some x), child_index = NonHardened,
      scalar_key = Some, public_key = (\<lambda>sk. sk), sign_msg = (\<lambda>r _ _. r), mnemonic_seed = (\<lambda>_. None),
      sort_by_value = sort_key (\<lambda>(_, out). get_value out), map_order = db_iter\<rparr>"

definition ex_wallet :: Wallet where
  "ex_wallet = \<lparr>w_seed = Some [7], address_to_index = fmupd 5 0 fmempty, index_to_address = fmupd 0 5 fmempty,
     w_utxos = fmupd ex_op ex_utxo fmempty, w_stxos = fmempty\<rparr>"

lemma ex_orders: "orders_ok ex_keys"
  by (simp add: orders_ok_def ex_keys_def)

lemma ex_signatures: "signatures_ok ex_ext ex_keys"
  by (simp add: signatures_ok_def ex_ext_def)

lemma ex_signing_key: "derive_signing_key ex_keys [7] i = Inr [7]"
  by (simp add: derive_signing_key_def new_master_xpriv_def scalar_from_be_bytes_def ex_keys_def Let_def)

lemma ex_address: "derive_address_for_index ex_ext ex_keys [7] i = Inr 5"
  by (simp add: derive_address_for_index_def ex_signing_key signing_key_address_def ex_ext_def)

lemma ex_book: "book_ok ex_ext ex_keys ex_wallet"
  by (simp add: book_ok_def ex_wallet_def ex_address)

lemma ex_in_step: "in_step ex_state (\<lambda>_. False) ex_wallet"
  by (simp add: in_step_def ex_wallet_def ex_state_def State_new_def is_output_locked_to_swap_def)

lemma ex_selects:
  assumes "0 < v" "v \<le> 10"
  shows "select_coins_with_filter ex_keys v (\<lambda>_. False) ex_wallet = Inr (10, fmupd ex_op ex_utxo fmempty)"
  using assms by (auto simp: select_coins_with_filter_def ex_wallet_def ex_keys_def db_iter_singleton checked_add_def
      get_value_def not_le)

lemma ex_new_address:
  "get_new_address ex_ext ex_keys w = (Inr 5, index_address (case last_index w of Some (j, _) \<Rightarrow> j + 1 | None \<Rightarrow> 0) 5 w)"
  if "w_seed w = Some [7]"
  using that by (simp add: get_new_address_def get_signing_key_def ex_signing_key signing_key_address_def ex_ext_def Let_def)

lemma ex_proof: "prove_inputs ex_ext acc ins = Inr ([], [])"
  by (simp add: prove_inputs_def acc_prove_def ex_ext_def)

lemma ex_coin: "coin_inputs ex_ext [(ex_op, ex_utxo)] = [(ex_op, 1)]"
  by (simp add: coin_inputs_def pointed_hash_def ex_ext_def ex_op_def)

text \<open>Authorizing a transaction that spends the coin.\<close>

lemma ex_authorizes:
  assumes "inputs tx = [(ex_op, h)]" "w_seed w = Some [7]" "w_utxos w = fmupd ex_op ex_utxo fmempty"
    "fmlookup (address_to_index w) 5 = Some i"
  shows "\<exists>at. authorize ex_ext ex_keys rng tx w = Some (Inr at, w)"
  using assms by (simp add: authorize_def authorize_input.simps get_signing_key_def ex_signing_key ex_utxo_def)

section \<open>Coins\<close>

text \<open>C29. Coin selection gives coins of the wallet that are no withdrawals and not locked, with their
exact sum, which covers the value. It takes the smallest ones: a coin that is left is not smaller than one that is taken,
and without the largest coin taken the sum would not be enough. It fails exactly when the coins it may take do not
cover the value, or when adding them up overflows.\<close>

theorem coin_selection_exact:
  assumes "orders_ok K"
  shows "case select_coins_with_filter K v locked w of
      Inr (t, coins) \<Rightarrow>
        (\<forall>op out. fmlookup coins op = Some out \<longrightarrow>
           fmlookup (w_utxos w) op = Some out \<and> \<not> is_withdrawal (content out) \<and> \<not> locked op) \<and>
        unat t = coin_sum (map_order K coins) \<and> v \<le> t \<and>
        (\<forall>op out op' out'. fmlookup coins op = Some out \<and> fmlookup (w_utxos w) op' = Some out' \<and>
           spendable locked (op', out') \<and> fmlookup coins op' = None \<longrightarrow> get_value out \<le> get_value out') \<and>
        (\<forall>op out. fmlookup coins op = Some out \<and> (\<forall>op' out'. fmlookup coins op' = Some out' \<longrightarrow> get_value out' \<le> get_value out) \<longrightarrow>
           unat t < unat v + unat (get_value out))
    | Inl e \<Rightarrow>
        e = Fail WNotEnoughFunds \<and> coin_sum (filter (spendable locked) (db_iter (w_utxos w))) < unat v \<or>
        e = Fail WAmountOverflow \<and> 2 ^ 64 \<le> coin_sum (filter (spendable locked) (db_iter (w_utxos w)))"
proof (cases "select_coins_with_filter K v locked w")
  case (Inl e)
  then show ?thesis using select_coins_error [OF assms Inl] by simp
next
  case (Inr tc)
  obtain t coins where tc: "tc = (t, coins)" by force
  note run = Inr [unfolded tc]
  show ?thesis unfolding run sum.case prod.case
    using select_coins_known [OF assms run] select_coins_total [OF assms run] select_coins_smallest [OF assms run] by blast
qed

theorem coin_selection_exact_witness: "unat (10 :: amount) = coin_sum (map_order ex_keys (fmupd ex_op ex_utxo fmempty))"
  using coin_selection_exact [OF ex_orders, where v = 5 and locked = "\<lambda>_. False" and w = ex_wallet] by (simp add: ex_selects)

section \<open>Transactions\<close>

text \<open>C26. A payment that the wallet builds and signs, with coins that the state has unspent and with the
state's locks as its filter, passes the node's validation with exactly the fee that was asked for; it pays every
destination its amount, and the change goes to an address of the wallet.\<close>

theorem wallet_payment_valid:
  assumes "orders_ok K" "signatures_ok X K" "wallet_reach X K w" "in_step s locked w"
    and "create_transaction_many X K acc dests fee locked w = (Inr tx, w1)" "authorize X K rng tx w1 = Some (Inr at, w2)"
  shows "validate_transaction X s at = Inr fee \<and> auth_transaction at = tx \<and>
    (\<exists>a change. has_address a w1 \<and> outputs tx =
       map (\<lambda>(b, v). \<lparr>address = b, content = Value v\<rparr>) (db_iter dests) @ [\<lparr>address = a, content = Value change\<rparr>])"
proof -
  obtain cs a change where *: "inputs tx = coin_inputs X cs" "data tx = Regular" "has_address a w1"
      "outputs tx = map (\<lambda>(b, v). \<lparr>address = b, content = Value v\<rparr>) (db_iter dests) @ [\<lparr>address = a, content = Value change\<rparr>]"
      "coin_sum cs = value_sum (outputs tx) + unat fee" "coin_sum cs < 2 ^ 64" "book_ok X K w1" "w_utxos w1 = w_utxos w"
      "\<forall>(op, out) \<in> set cs. fmlookup (utxos s) op = Some out \<and> fmlookup (w_utxos w) op = Some out \<and>
         \<not> is_withdrawal (content out) \<and> is_output_locked_to_swap op s = None"
    using transaction_many_parts [OF assms(1) reach_book [OF assms(3)] assms(4,5)] by blast
  have "validate_transaction X s at = Inr fee" by (rule regular_valid [OF assms(2) *(7,8) assms(6) *(1,2,5,6,9)])
  then show ?thesis using * authorize_parts(1) [OF *(7) assms(6)] by blast
qed

definition ex_built :: Wallet where
  "ex_built = index_address 1 5 ex_wallet"

definition ex_payment :: Transaction where
  "ex_payment = \<lparr>inputs = [(ex_op, 1)], utreexo_proof = ([], []),
     outputs = [\<lparr>address = 6, content = Value 4\<rparr>, \<lparr>address = 5, content = Value 5\<rparr>], data = Regular\<rparr>"

lemma ex_last: "last_index ex_wallet = Some (0, 5)"
  by (simp add: last_index_def ex_wallet_def db_iter_singleton)

lemma ex_wallet_reach: "wallet_reach ex_ext ex_keys ex_wallet"
proof -
  let ?w = "Wallet_empty\<lparr>w_seed := Some [7]\<rparr>"
  have "wallet_reach ex_ext ex_keys ?w"
    using wallet_step.overwrite [of ex_ext ex_keys Wallet_empty "[7]"]
    by (auto simp: overwrite_seed_def intro: wallet_reach.step [OF wallet_reach.start])
  moreover have "get_new_address ex_ext ex_keys ?w = (Inr 5, index_address 0 5 ?w)"
    by (simp add: ex_new_address last_index_def Wallet_empty_def)
  ultimately have "wallet_reach ex_ext ex_keys (index_address 0 5 ?w)"
    by (blast intro: wallet_reach.step wallet_step.new_address)
  moreover have "put_utxos (fmupd ex_op ex_utxo fmempty) (index_address 0 5 ?w) = ex_wallet"
    by (simp add: put_utxos_def index_address_def Wallet_empty_def ex_wallet_def)
  ultimately show ?thesis by (metis wallet_reach.step wallet_step.put)
qed

lemma ex_pays: "create_transaction_many ex_ext ex_keys acc (fmupd 6 4 fmempty) 1 (\<lambda>_. False) ex_wallet = (Inr ex_payment, ex_built)"
proof -
  have "fmupd 6 4 fmempty \<noteq> (fmempty :: (Address, amount) db)" by (metis fmempty_lookup fmupd_lookup option.distinct(1))
  moreover have "map_order ex_keys (fmupd ex_op ex_utxo fmempty) = [(ex_op, ex_utxo)]" by (simp add: ex_keys_def db_iter_singleton)
  moreover have "w_seed ex_wallet = Some [7]" by (simp add: ex_wallet_def)
  ultimately show ?thesis
    by (simp add: create_transaction_many_def w_then_def w_read_def db_iter_singleton checked_add_def ex_selects amount_minus_def
        checked_sub_def ex_proof ex_coin Let_def ex_new_address ex_last ex_payment_def ex_built_def)
qed

lemma ex_built_fields: "w_seed ex_built = Some [7]" "w_utxos ex_built = fmupd ex_op ex_utxo fmempty"
  "fmlookup (address_to_index ex_built) 5 = Some 1"
  by (simp_all add: ex_built_def ex_wallet_def)

theorem wallet_payment_valid_witness:
  "\<exists>at. authorize ex_ext ex_keys (\<lambda>_. []) ex_payment ex_built = Some (Inr at, ex_built) \<and> validate_transaction ex_ext ex_state at = Inr 1"
proof -
  have "inputs ex_payment = [(ex_op, 1)]" by (simp add: ex_payment_def)
  then obtain at where at: "authorize ex_ext ex_keys (\<lambda>_. []) ex_payment ex_built = Some (Inr at, ex_built)"
    using ex_authorizes [OF _ ex_built_fields] by blast
  with wallet_payment_valid [OF ex_orders ex_signatures ex_wallet_reach ex_in_step ex_pays at] show ?thesis by blast
qed

text \<open>A withdrawal that the wallet builds and signs passes the node's validation with the fee that
was asked for; its first output withdraws the value with the mainchain fee, and the rest is change.\<close>

theorem wallet_withdrawal_valid:
  assumes "orders_ok K" "signatures_ok X K" "wallet_reach X K w" "in_step s locked w"
    and "create_withdrawal X K acc m v main_fee fee locked w = (Inr tx, w1)" "authorize X K rng tx w1 = Some (Inr at, w2)"
  shows "validate_transaction X s at = Inr fee \<and>
    (\<exists>a1 a2 change. has_address a2 w1 \<and> outputs tx =
       [\<lparr>address = a1, content = Withdrawal v main_fee m\<rparr>, \<lparr>address = a2, content = Value change\<rparr>])"
proof -
  obtain cs a1 a2 change where *: "inputs tx = coin_inputs X cs" "data tx = Regular" "has_address a2 w1"
      "outputs tx = [\<lparr>address = a1, content = Withdrawal v main_fee m\<rparr>, \<lparr>address = a2, content = Value change\<rparr>]"
      "coin_sum cs = value_sum (outputs tx) + unat fee" "coin_sum cs < 2 ^ 64" "book_ok X K w1" "w_utxos w1 = w_utxos w"
      "\<forall>(op, out) \<in> set cs. fmlookup (utxos s) op = Some out \<and> fmlookup (w_utxos w) op = Some out \<and>
         \<not> is_withdrawal (content out) \<and> is_output_locked_to_swap op s = None"
    using withdrawal_parts [OF assms(1) reach_book [OF assms(3)] assms(4,5)] by blast
  have "validate_transaction X s at = Inr fee" by (rule regular_valid [OF assms(2) *(7,8) assms(6) *(1,2,5,6,9)])
  then show ?thesis using * by blast
qed

section \<open>Swaps\<close>

text \<open>C27. A creation that the wallet builds and signs passes the node's validation with the fee
that was asked for, when its amount is not zero and the state has no swap of that identifier: the wallet computes the
identifier from the owner of the first input, as the rule does, and its first output is the escrow.\<close>

theorem wallet_swap_create_valid:
  assumes "orders_ok K" "signatures_ok X K" "wallet_reach X K w" "in_step s locked w"
    and "create_swap_create_tx X K acc chain l1_addr l1_amt l2_recip l2_amt req fee locked w = (Inr (tx, i), w1)"
    and "authorize X K rng tx w1 = Some (Inr at, w2)" "l2_amt \<noteq> 0" "get_swap i s = None"
  shows "validate_transaction X s at = Inr fee \<and> content (hd (outputs tx)) = SwapPending l2_amt i"
proof -
  obtain op out cs a change where *: "inputs tx = coin_inputs X ((op, out) # cs)"
      "i = from_l2_to_l1 (blake3 X) l1_addr l1_amt (address out) l2_recip"
      "data tx = SwapCreate i chain (replicate 32 0) (case req of Some n \<Rightarrow> n | None \<Rightarrow> default_confirmations chain)
         l2_recip l2_amt l1_addr l1_amt"
      "outputs tx = [\<lparr>address = (case l2_recip of Some r \<Rightarrow> r | None \<Rightarrow> address out), content = SwapPending l2_amt i\<rparr>,
         \<lparr>address = a, content = Value change\<rparr>]"
      "coin_sum ((op, out) # cs) = value_sum (outputs tx) + unat fee" "coin_sum ((op, out) # cs) < 2 ^ 64" "book_ok X K w1"
      "w_utxos w1 = w_utxos w"
      "\<forall>(op, out) \<in> set ((op, out) # cs). fmlookup (utxos s) op = Some out \<and> fmlookup (w_utxos w) op = Some out \<and>
         \<not> is_withdrawal (content out) \<and> is_output_locked_to_swap op s = None"
    using swap_create_parts [OF assms(1) reach_book [OF assms(3)] assms(4,5)] by blast
  let ?ft = "\<lparr>transaction = tx, spent_utxos = map snd ((op, out) # cs)\<rparr>"
  have "escrowed tx i = unat l2_amt" by (simp add: escrowed_def escrow_values_def *(4) map_filter_def)
  moreover have "unat l2_amt \<le> coin_sum ((op, out) # cs)" using *(5) by (simp add: *(4) get_value_def)
  ultimately have "create_rule X s tx ?ft i l2_recip l2_amt l1_addr l1_amt"
    using assms(7,8) *(2,4,6,9) unsigned_less [of l2_amt]
    by (auto simp: create_rule_def spends_coins [OF *(1)] unat_gt_0)
  then have "validate_swap_data X s tx ?ft = Inr ()" by (simp add: validate_swap_data_def *(3) create_iff [OF *(3)])
  then have "validate_transaction X s at = Inr fee"
    using *(9) by (intro signed_valid [OF assms(2) *(7) assms(6) *(1) _ *(5,6)]) (auto simp: *(8))
  then show ?thesis by (simp add: *(4))
qed

definition ex_offer :: "Address option \<Rightarrow> Transaction" where
  "ex_offer r = (let i = from_l2_to_l1 (blake3 ex_ext) ''bcrt1'' 20 5 r in
     \<lparr>inputs = [(ex_op, 1)], utreexo_proof = ([], []),
      outputs = [\<lparr>address = (case r of Some a \<Rightarrow> a | None \<Rightarrow> 5), content = SwapPending 4 i\<rparr>, \<lparr>address = 5, content = Value 5\<rparr>],
      data = SwapCreate i Regtest (replicate 32 0) 1 r 4 ''bcrt1'' 20\<rparr>)"

lemma ex_offers:
  "create_swap_create_tx ex_ext ex_keys acc Regtest ''bcrt1'' 20 r 4 (Some 1) 1 (\<lambda>_. False) ex_wallet =
     (Inr (ex_offer r, from_l2_to_l1 (blake3 ex_ext) ''bcrt1'' 20 5 r), ex_built)"
proof -
  have "map_order ex_keys (fmupd ex_op ex_utxo fmempty) = [(ex_op, ex_utxo)]" "w_seed ex_wallet = Some [7]" "address ex_utxo = 5"
    by (simp_all add: ex_keys_def db_iter_singleton ex_wallet_def ex_utxo_def)
  then show ?thesis
    by (simp add: create_swap_create_tx_def w_then_def w_read_def checked_add_def ex_selects amount_minus_def
        checked_sub_def ex_proof ex_coin Let_def ex_new_address ex_last ex_offer_def ex_built_def)
qed

theorem wallet_swap_create_valid_witness:
  "\<exists>at. authorize ex_ext ex_keys (\<lambda>_. []) (ex_offer None) ex_built = Some (Inr at, ex_built) \<and>
     validate_transaction ex_ext ex_state at = Inr 1"
proof -
  have "inputs (ex_offer None) = [(ex_op, 1)]" by (simp add: ex_offer_def Let_def)
  then obtain at where at: "authorize ex_ext ex_keys (\<lambda>_. []) (ex_offer None) ex_built = Some (Inr at, ex_built)"
    using ex_authorizes [OF _ ex_built_fields] by blast
  have "get_swap i ex_state = None" for i by (simp add: get_swap_def ex_state_def State_new_def)
  with wallet_swap_create_valid [OF ex_orders ex_signatures ex_wallet_reach ex_in_step ex_offers at] at show ?thesis by auto
qed

text \<open>An acceptance that the wallet builds and signs for an open swap that has not expired and is not
reserved passes the node's validation with the fee that was asked for, and reserves the swap for the address of
the coin it spends, or the address that was asked for.\<close>

theorem wallet_accept_valid:
  assumes "orders_ok K" "signatures_ok X K" "wallet_reach X K w" "in_step s locked w"
    and "create_swap_accept_tx X K acc i who fee locked w = (Inr tx, w1)" "authorize X K rng tx w1 = Some (Inr at, w2)"
    and "get_swap i s = Some sw" "l2_recipient sw = None" "\<forall>e. expires_at_height sw = Some e \<longrightarrow> validating_height s < e"
      "\<forall>r. get_swap_reservation i s = Some r \<longrightarrow> \<not> is_live_at r (parent_chain sw) (validating_height s)"
  shows "validate_transaction X s at = Inr fee \<and> (\<exists>a. data tx = SwapAccept i a \<and> (\<forall>b. who = Some b \<longrightarrow> a = b))"
proof -
  obtain op out where *: "inputs tx = coin_inputs X [(op, out)]" "data tx = SwapAccept i (address out)"
      "\<forall>a. who = Some a \<longrightarrow> address out = a" "unat (get_value out) = value_sum (outputs tx) + unat fee" "book_ok X K w1"
      "w_utxos w1 = w_utxos w" "fmlookup (utxos s) op = Some out" "fmlookup (w_utxos w) op = Some out"
      "\<not> is_withdrawal (content out)" "is_output_locked_to_swap op s = None"
    using swap_accept_parts [OF assms(1) reach_book [OF assms(3)] assms(4,5)] by blast
  have "accept_rule s tx \<lparr>transaction = tx, spent_utxos = map snd [(op, out)]\<rparr> i (address out)"
    using assms(7-10) *(10) by (simp add: accept_rule_def spends_coins [OF *(1)])
  then have "validate_swap_data X s tx \<lparr>transaction = tx, spent_utxos = map snd [(op, out)]\<rparr> = Inr ()"
    by (simp add: validate_swap_data_def *(2) accept_iff [OF *(2)])
  moreover have "unat (get_value out) < 2 ^ 64" using unsigned_less [of "get_value out"] by simp
  ultimately have "validate_transaction X s at = Inr fee"
    using *(4,6-9) by (intro signed_valid [OF assms(2) *(5) assms(6) *(1)]) auto
  then show ?thesis using *(2,3) by blast
qed

text \<open>The open swap of the examples, without its reservation and with the coin of the wallet.\<close>

definition ex_open_state :: "hash256 list State" where
  "ex_open_state = ex_swap_state\<lparr>swap_reservations := fmempty, utxos := fmupd ex_op ex_utxo (utxos ex_swap_state)\<rparr>"

definition ex_locked :: "OutPoint \<Rightarrow> bool" where
  "ex_locked op \<longleftrightarrow> op = ex_lock_op"

definition ex_accept_tx :: Transaction where
  "ex_accept_tx = \<lparr>inputs = [(ex_op, 1)], utreexo_proof = ([], []), outputs = [\<lparr>address = 5, content = Value 9\<rparr>],
     data = SwapAccept 77 5\<rparr>"

lemma ex_accepts: "create_swap_accept_tx ex_ext ex_keys acc 77 None 1 ex_locked ex_wallet = (Inr ex_accept_tx, ex_built)"
proof -
  have "filter (accept_candidate ex_locked None 1) (map_order ex_keys (w_utxos ex_wallet)) = [(ex_op, ex_utxo)]"
    by (simp add: ex_keys_def ex_wallet_def db_iter_singleton accept_candidate_def ex_locked_def ex_op_def ex_lock_op_def get_value_def)
  moreover have "w_seed ex_wallet = Some [7]" "address ex_utxo = 5" "get_value ex_utxo = 10"
    by (simp_all add: ex_wallet_def ex_utxo_def get_value_def)
  ultimately show ?thesis
    by (simp add: create_swap_accept_tx_def w_then_def w_read_def checked_sub_def ex_proof ex_coin Let_def ex_new_address ex_last
        ex_accept_tx_def ex_built_def)
qed

theorem wallet_accept_valid_witness:
  "\<exists>at. authorize ex_ext ex_keys (\<lambda>_. []) ex_accept_tx ex_built = Some (Inr at, ex_built) \<and>
     validate_transaction ex_ext ex_open_state at = Inr 1"
proof -
  have "inputs ex_accept_tx = [(ex_op, 1)]" by (simp add: ex_accept_tx_def)
  then obtain at where at: "authorize ex_ext ex_keys (\<lambda>_. []) ex_accept_tx ex_built = Some (Inr at, ex_built)"
    using ex_authorizes [OF _ ex_built_fields] by blast
  have "in_step ex_open_state ex_locked ex_wallet"
    by (auto simp: in_step_def ex_open_state_def ex_locked_def ex_wallet_def ex_swap_state_def is_output_locked_to_swap_def)
  moreover have "get_swap 77 ex_open_state = Some ex_swap" "get_swap_reservation 77 ex_open_state = None"
      "validating_height ex_open_state = 0"
    by (simp_all add: ex_open_state_def get_swap_def ex_swap_state_def get_swap_reservation_def State_new_def validating_height_def
        try_get_height_def)
  ultimately show ?thesis
    using wallet_accept_valid [OF ex_orders ex_signatures ex_wallet_reach _ ex_accepts at] at by auto
qed

text \<open>C28. A claim that the wallet builds from the escrow of a swap and signs passes the node's mempool
rule, when the swap is ready, an open one has been filled, the recipient is the entitled claimer and the escrow covers
the amount. It pays the whole escrow to the recipient, without a fee.\<close>

theorem wallet_claim_valid:
  assumes "signatures_ok X K" "wallet_reach X K w"
    and "create_swap_claim_tx X acc i recipient cs declared = Inr tx" "authorize X K rng tx w = Some (Inr at, w')"
    and coins: "cs \<noteq> []" "\<forall>(op, out) \<in> set cs. fmlookup (utxos s) op = Some out \<and> fmlookup (w_utxos w) op = Some out \<and>
      \<not> is_withdrawal (content out) \<and> is_output_locked_to_swap op s = Some i"
    and swap: "get_swap i s = Some sw" "sw_state sw = ReadyToClaim" "l2_recipient sw = None \<longrightarrow> \<not> is_zero_txid (l1_txid sw)"
      "entitled_claimer_at sw (validating_height s) s = Some recipient" "declared \<in> {None, Some recipient}"
      "unat (l2_amount sw) \<le> coin_sum cs"
  shows "validate_transaction X s at = Inr 0 \<and> (\<exists>v. outputs tx = [\<lparr>address = recipient, content = Value v\<rparr>] \<and> unat v = coin_sum cs)"
proof -
  obtain pf v where tx: "tx = \<lparr>inputs = coin_inputs X cs, utreexo_proof = pf, outputs = [\<lparr>address = recipient, content = Value v\<rparr>],
        data = SwapClaim i declared None\<rparr>" and v: "unat v = coin_sum cs"
    using assms(3) by (auto simp: create_swap_claim_tx_def Let_def and_then_eq_Inr ok_or_eq_Inr checked_sum_Some comp_def case_prod_unfold)
  have ins: "inputs tx = coin_inputs X cs" and dat: "data tx = SwapClaim i declared None" by (simp_all add: tx)
  have "unat v < 2 ^ 64" using unsigned_less [of v] by simp
  then have small: "coin_sum cs < 2 ^ 64" by (simp only: v)
  obtain op out where "(op, out) \<in> set cs" using coins(1) by (metis list.set_sel(1) surj_pair)
  then have "op \<in> spends tx" by (force simp: spends_coins [OF ins])
  moreover have "\<forall>op \<in> spends tx. is_output_locked_to_swap op s = Some i" using coins(2) by (auto simp: spends_coins [OF ins])
  moreover have "paid_to tx recipient = coin_sum cs" using v by (simp add: paid_to_def tx get_value_def)
  ultimately have "claim_rule s tx i declared"
    unfolding claim_rule_def using swap small by (intro conjI exI [of _ sw] exI [of _ recipient]) auto
  then have "validate_swap_data X s tx \<lparr>transaction = tx, spent_utxos = map snd cs\<rparr> = Inr ()"
    using swap(1-3) by (simp add: validate_swap_data_def dat claim_iff [OF dat])
  moreover have "coin_sum cs = value_sum (outputs tx) + unat (0 :: amount)" using v by (simp add: tx get_value_def)
  ultimately have "validate_transaction X s at = Inr 0"
    using coins(2) small by (intro signed_valid [OF assms(1) reach_book [OF assms(2)] assms(4) ins]) auto
  then show ?thesis using v by (auto simp: tx)
qed

definition ex_ready_state :: "hash256 list State" where
  "ex_ready_state = ex_swap_state\<lparr>swaps := fmupd 77 (Decodes (ex_swap\<lparr>sw_state := ReadyToClaim, l1_txid := Hash32 (replicate 32 1)\<rparr>)) fmempty\<rparr>"

definition ex_claim_wallet :: Wallet where
  "ex_claim_wallet = put_utxos (fmupd ex_lock_op ex_escrow fmempty) ex_wallet"

theorem wallet_claim_valid_witness:
  "\<exists>tx at. create_swap_claim_tx ex_ext ([] :: hash256 list) 77 5 [(ex_lock_op, ex_escrow)] (Some 5) = Inr tx \<and>
     authorize ex_ext ex_keys (\<lambda>_. []) tx ex_claim_wallet = Some (Inr at, ex_claim_wallet) \<and>
     validate_transaction ex_ext ex_ready_state at = Inr 0"
proof -
  let ?sw = "ex_swap\<lparr>sw_state := ReadyToClaim, l1_txid := Hash32 (replicate 32 1)\<rparr>"
  obtain tx where tx: "create_swap_claim_tx ex_ext ([] :: hash256 list) 77 5 [(ex_lock_op, ex_escrow)] (Some 5) = Inr tx"
    by (auto simp: create_swap_claim_tx_def ex_proof checked_add_def Let_def get_value_def ex_escrow_def)
  then have ins: "inputs tx = coin_inputs ex_ext [(ex_lock_op, ex_escrow)]" "data tx = SwapClaim 77 (Some 5) None"
    by (auto simp: create_swap_claim_tx_def Let_def and_then_eq_Inr)
  have look: "fmlookup (w_utxos ex_claim_wallet) ex_lock_op = Some ex_escrow" "fmlookup (address_to_index ex_claim_wallet) 6 = None"
      "w_seed ex_claim_wallet = Some [7]"
    by (simp_all add: ex_claim_wallet_def put_utxos_def ex_wallet_def)
  obtain at where at: "authorize ex_ext ex_keys (\<lambda>_. []) tx ex_claim_wallet = Some (Inr at, ex_claim_wallet)"
    using ins look by (auto simp: authorize_def coin_inputs_def authorize_input.simps get_signing_key_def ex_signing_key ex_escrow_def)
  have reach: "wallet_reach ex_ext ex_keys ex_claim_wallet"
    unfolding ex_claim_wallet_def by (rule wallet_reach.step [OF ex_wallet_reach wallet_step.put])
  have state: "get_swap 77 ex_ready_state = Some ?sw" "fmlookup (utxos ex_ready_state) ex_lock_op = Some ex_escrow"
      "is_output_locked_to_swap ex_lock_op ex_ready_state = Some 77"
      "entitled_claimer_at ?sw (validating_height ex_ready_state) ex_ready_state = Some 5"
    by (simp_all add: ex_ready_state_def ex_swap_state_def State_new_def get_swap_def is_output_locked_to_swap_def
        entitled_claimer_at_def get_swap_reservation_def validating_height_def try_get_height_def ex_live)
  have "validate_transaction ex_ext ex_ready_state at = Inr 0"
    using wallet_claim_valid [OF ex_signatures reach tx at, of ex_ready_state ?sw] state look(1)
    by (simp add: ex_escrow_def get_value_def)
  then show ?thesis using tx at by blast
qed

text \<open>The escrow of a swap with a fixed recipient is an output of the recipient. Once its lock
is gone, because the swap expired or was cancelled, a transaction that is no claim can spend it only with a
signature of the recipient: it does not go back to the creator, and the recipient gets it without having paid.\<close>

theorem escrow_spender_is_recipient:
  assumes "create_swap_create_tx X K acc chain l1_addr l1_amt (Some r) l2_amt req fee locked w = (Inr (tx, i), w1)"
    and "fmlookup (utxos s) (OpRegular (txid X tx) 0) = Some (hd (outputs tx))"
    and "validate_transaction X s at = Inr f" "\<not> is_swap_claim (data (auth_transaction at))"
      "OpRegular (txid X tx) 0 \<in> spends (auth_transaction at)"
  shows "\<exists>a \<in> set (authorizations at). get_address X a = r"
proof -
  let ?op = "OpRegular (txid X tx) 0" and ?tx = "auth_transaction at"
  have owner: "address (hd (outputs tx)) = r"
    using assms(1) by (auto simp: create_swap_create_tx_def w_simps Let_def split: prod.splits)
  obtain ft where ft: "fill_transaction s ?tx = Inr ft"
      and owners: "\<forall>p \<in> set (zip (authorizations at) (spent_utxos ft)). check_owner X False p = Inr ()"
      and verified: "verify_authorized_transaction X at = Inr ()"
    using assms(3,4)
    by (auto simp: validate_transaction_def Let_def and_then_eq_Inr try_fold_checks split: sum.splits)
  have pair: "list_all2 (\<lambda>(op, _) out. fmlookup (utxos s) op = Some out) (inputs ?tx) (spent_utxos ft)"
    using ft by (simp add: fill_transaction_iff)
  have len: "length (authorizations at) = length (inputs ?tx)"
    using verified by (auto simp: verify_authorized_transaction_def check_count_def and_then_eq_Inr split: if_splits)
  obtain k where k: "k < length (inputs ?tx)" "fst (inputs ?tx ! k) = ?op"
    using assms(5) by (auto simp: spends_def in_set_conv_nth)
  have "spent_utxos ft ! k = hd (outputs tx)"
    using list_all2_nthD [OF pair k(1)] k(2) assms(2) by (auto simp: case_prod_unfold)
  moreover have "(authorizations at ! k, spent_utxos ft ! k) \<in> set (zip (authorizations at) (spent_utxos ft))"
    using k(1) len list_all2_lengthD [OF pair] by (auto simp: set_zip)
  ultimately have "get_address X (authorizations at ! k) = r"
    using owners owner by (auto simp: check_owner_def split: if_splits)
  then show ?thesis using k(1) len by (metis nth_mem)
qed

definition ex_refund :: AuthorizedTransaction where
  "ex_refund = \<lparr>auth_transaction = \<lparr>inputs = [(OpRegular 8 0, 3)], utreexo_proof = ([], []),
       outputs = [\<lparr>address = 5, content = Value 1\<rparr>], data = Regular\<rparr>,
     authorizations = [\<lparr>verifying_key = [7], signature = []\<rparr>]\<rparr>"

definition ex_refund_state :: "hash256 list State" where
  "ex_refund_state = State_new\<lparr>utxos := fmupd (OpRegular 8 0) (hd (outputs (ex_offer (Some 5)))) fmempty\<rparr>"

theorem escrow_spender_is_recipient_witness:
  "validate_transaction ex_ext ex_refund_state ex_refund = Inr 3 \<and> (\<exists>a \<in> set (authorizations ex_refund). get_address ex_ext a = 5)"
proof -
  let ?out = "hd (outputs (ex_offer (Some 5)))"
  have out: "address ?out = 5" "content ?out = SwapPending 4 (from_l2_to_l1 (blake3 ex_ext) ''bcrt1'' 20 5 (Some 5))"
    by (simp_all add: ex_offer_def Let_def)
  have "validate_filled_transaction ex_ext \<lparr>transaction = auth_transaction ex_refund, spent_utxos = [?out]\<rparr> = Inr 3"
    by (simp add: validate_filled_iff filled_inputs_def ex_refund_def get_value_def out pointed_hash_def ex_ext_def)
  then have valid: "validate_transaction ex_ext ex_refund_state ex_refund = Inr 3"
    by (simp add: validate_transaction_def Let_def fill_transaction_def ex_refund_state_def ex_refund_def State_new_def
        validate_swap_data_def validate_no_locked_outputs_def is_output_locked_to_swap_def check_owner_def get_address_def out
        verify_authorized_transaction_def check_count_def ex_ext_def)
  have id: "txid ex_ext tx = 8" for tx by (simp add: txid_def ex_ext_def)
  have "\<exists>a \<in> set (authorizations ex_refund). get_address ex_ext a = 5"
    by (rule escrow_spender_is_recipient [OF ex_offers _ valid])
      (simp_all add: id ex_refund_state_def ex_refund_def spends_def)
  then show ?thesis using valid by blast
qed

text \<open>Asked for a swap of no value and without a fee, the wallet selects no coin and panics, because it
takes the sender from the first coin: no guard comes before the selection.\<close>

theorem zero_swap_panics:
  assumes "orders_ok K"
  shows "create_swap_create_tx X K acc chain l1_addr l1_amt l2_recip 0 req 0 locked w =
    (Inl (Panic ''select_coins returned empty HashMap - this should never happen''), w)"
proof -
  have "select_loop locked 0 cs 0 fmempty = Inr (0, fmempty)" for cs
    by (induction cs) auto
  moreover have "map_order K fmempty = []" using map_order_db_iter [OF assms, of fmempty] by simp
  ultimately show ?thesis
    by (simp add: create_swap_create_tx_def w_then_def w_read_def select_coins_with_filter_def checked_add_def amount_minus_def
        checked_sub_def)
qed

theorem zero_swap_panics_witness:
  "fst (create_swap_create_tx ex_ext ex_keys [] Regtest ''bcrt1'' 20 None 0 None 0 (\<lambda>_. False) ex_wallet) =
     Inl (Panic ''select_coins returned empty HashMap - this should never happen'')"
  using zero_swap_panics [OF ex_orders, of ex_ext "[]" Regtest "''bcrt1''" 20 None None "\<lambda>_. False" ex_wallet] by simp

section \<open>Addresses\<close>

text \<open>C30. In every wallet that the operations reach - seeds, new and recovered addresses, coins, built and
signed transactions, with all their errors - the two tables of addresses agree: an address is known exactly when it
is listed, the index of a known address leads back to it, and every listed address is the one derived from the
seed at its index.\<close>

theorem address_book_exact:
  assumes "wallet_reach X K w"
  shows "(\<forall>a. has_address a w \<longleftrightarrow> a |\<in>| get_addresses w) \<and>
    (\<forall>a i. fmlookup (address_to_index w) a = Some i \<longrightarrow> fmlookup (index_to_address w) i = Some a) \<and>
    (\<forall>i a. fmlookup (index_to_address w) i = Some a \<longrightarrow>
       (\<exists>seed. w_seed w = Some seed \<and> derive_address_for_index X K seed i = Inr a))"
  using reach_book [OF assms] by (fastforce simp: book_ok_def has_address_def get_addresses_def db_has_def fmlookup_ran_iff)

theorem address_book_exact_witness:
  "wallet_reach ex_ext ex_keys ex_wallet \<and> has_address 5 ex_wallet \<and> 5 |\<in>| get_addresses ex_wallet"
proof -
  have "has_address 5 ex_wallet" by (simp add: has_address_def db_has_def ex_wallet_def)
  then show ?thesis using address_book_exact [OF ex_wallet_reach] ex_wallet_reach by blast
qed

text \<open>C32. Authorizing a transaction ends: the loop for an input starts again only after its address has
been recovered, and then finds it. Whether it succeeds or not, it changes nothing of the wallet but the two tables of
addresses, not the seed, the unspent outputs or the spent ones, and the tables stay consistent.\<close>

theorem authorize_returns:
  assumes "wallet_reach X K w"
  shows "\<exists>r w'. authorize X K rng tx w = Some (r, w') \<and> book_ok X K w' \<and>
    w' = w\<lparr>address_to_index := address_to_index w', index_to_address := index_to_address w'\<rparr>"
proof -
  obtain r w' where "authorize X K rng tx w = Some (r, w')" "book_ok X K w'"
      "w_utxos w' = w_utxos w" "w_stxos w' = w_stxos w" "w_seed w' = w_seed w"
    using authorize_total [OF reach_book [OF assms]] by blast
  then show ?thesis by (intro exI [of _ r] exI [of _ w']) (auto intro: Wallet.equality)
qed

theorem authorize_returns_witness:
  "\<exists>r w'. authorize ex_ext ex_keys (\<lambda>_. []) ex_tx ex_wallet = Some (r, w') \<and> w_seed w' = Some [7]"
proof -
  obtain r w' where a: "authorize ex_ext ex_keys (\<lambda>_. []) ex_tx ex_wallet = Some (r, w')"
      and w': "w' = ex_wallet\<lparr>address_to_index := address_to_index w', index_to_address := index_to_address w'\<rparr>"
    using authorize_returns [OF ex_wallet_reach] by blast
  have "w_seed w' = w_seed ex_wallet" by (subst w') simp
  then show ?thesis using a by (simp add: ex_wallet_def)
qed

text \<open>Recovering the addresses of a restored wallet from the addresses with unspent outputs indexes
every such address below the limit, provided no twenty derived addresses in a row before it are without unspent
outputs.\<close>

theorem recovery_complete:
  assumes "recover_addresses_from_utxo_set X K known w = (Inr n, w')" "w_seed w = Some seed"
    and "derive_address_for_index X K seed (word_of_nat j) = Inr a" "a |\<in>| known" "j < unat max_recovery_index"
    and "\<forall>k. k + 20 \<le> j \<longrightarrow> (\<exists>m. k \<le> m \<and> m < k + 20 \<and> hits X K seed known m)"
  shows "has_address a w'"
proof -
  have "known \<noteq> {||}" using assms(4) by auto
  then have "recover_loop X K seed known 0 0 0 w = (Inr n, w')"
    using assms(1,2) by (simp add: recover_addresses_from_utxo_set_def)
  then show ?thesis by (rule recover_complete) (use assms in auto)
qed

text \<open>Keys of which only the first one has the address 5.\<close>

definition ex_few_keys :: "bytes keys" where
  "ex_few_keys = ex_keys\<lparr>derive_non_hardened := (\<lambda>k x. Some (if k = 0 then [7] else []))\<rparr>"

definition ex_few_ext :: "hash256 list ext" where
  "ex_few_ext = ex_ext\<lparr>key_address := (\<lambda>sk. if sk = [7] then 5 else 9)\<rparr>"

lemma ex_few_address: "derive_address_for_index ex_few_ext ex_few_keys [7] i = Inr (if i = 0 then 5 else 9)"
  by (simp add: derive_address_for_index_def derive_signing_key_def new_master_xpriv_def scalar_from_be_bytes_def ex_few_keys_def
      ex_keys_def Let_def signing_key_address_def ex_few_ext_def ex_ext_def)

lemma ex_recovers:
  "recover_addresses_from_utxo_set ex_few_ext ex_few_keys {|5|} (Wallet_empty\<lparr>w_seed := Some [7]\<rparr>) =
     (Inr 1, index_address 0 5 (Wallet_empty\<lparr>w_seed := Some [7]\<rparr>))"
  by (simp add: recover_addresses_from_utxo_set_def recover_loop.simps ex_few_address gap_limit_def max_recovery_index_def
      Wallet_empty_def db_has_def)

theorem recovery_complete_witness: "has_address 5 (index_address 0 5 (Wallet_empty\<lparr>w_seed := Some [7]\<rparr>))"
  by (rule recovery_complete [OF ex_recovers, where seed = "[7]" and j = 0])
    (simp_all add: ex_few_address max_recovery_index_def)

end
