(* ===== verification/Peer.thy ===== *)
theory Peer
  imports Node
begin

text \<open>
  The protocol between two nodes (\<^verbatim>\<open>src/lib/net/peer\<close>): messages (\<^verbatim>\<open>message.rs\<close>), the queue of requests
  (\<^verbatim>\<open>request_queue.rs\<close>) and the task of one connection (\<^verbatim>\<open>task.rs\<close>), which answers requests and decides
  what to ask for when the peer announces a tip. The transport and the rate limiter are left out; a send
  on a channel does not fail.
\<close>

section \<open>Messages\<close>

datatype Network = Betanet | Regtest | Signet

fun network_identifier :: "Network \<Rightarrow> u8" where
  "network_identifier Regtest = 0"
| "network_identifier Signet = 1"
| "network_identifier Betanet = 4"

definition magic_bytes :: "Network \<Rightarrow> bytes" where
  "magic_bytes net = [0x2d, 0x0c, 0xd8, or 0 (network_identifier net)]"

record Version =
  major :: u64
  minor :: u64
  patch :: u64

record TipInfo =
  ti_block_height :: u32
  ti_tip :: Tip
  ti_total_work :: Work

record PeerState =
  ps_tip_info :: "TipInfo option"
  ps_version :: Version

type_synonym PeerStateId = hash256

text \<open>Sets of hashes are sent as hash sets; the fields from \<open>descendant_tip\<close> and \<open>height\<close> on are not sent.\<close>

record GetBlockRequest =
  gb_block_hash :: BlockHash
  gb_descendant_tip :: "Tip option"
  gb_ancestor :: "BlockHash option"
  gb_peer_state_id :: "PeerStateId option"

record GetHeadersRequest =
  gh_start :: "BlockHash fset"
  gh_end :: BlockHash
  gh_height :: "u32 option"
  gh_peer_state_id :: "PeerStateId option"

datatype Request =
  GetBlock GetBlockRequest
| GetHeaders GetHeadersRequest
| PushTransaction AuthorizedTransaction

datatype RequestMessage = HeartbeatMsg PeerState | RequestMsg Request

datatype ResponseMessage =
  BlockRsp Header Body
| HeadersRsp "Header list"
| NoBlock BlockHash
| NoHeader BlockHash
| TransactionAccepted Txid
| TransactionRejected Txid

text \<open>What is sent of a request, and what the peer reads: skipped fields are \<open>None\<close>.\<close>

fun wire_request :: "Request \<Rightarrow> Request" where
  "wire_request (GetBlock r) = GetBlock (r\<lparr>gb_descendant_tip := None, gb_ancestor := None, gb_peer_state_id := None\<rparr>)"
| "wire_request (GetHeaders r) = GetHeaders (r\<lparr>gh_height := None, gh_peer_state_id := None\<rparr>)"
| "wire_request (PushTransaction at) = PushTransaction at"

definition checked_mul :: "'n::len word \<Rightarrow> 'n word \<Rightarrow> 'n word option" where
  "checked_mul a b = (if unat a * unat b < 2 ^ LENGTH('n) then Some (a * b) else None)"

text \<open>The limit on the bytes of a response; \<^verbatim>\<open>usize\<close> has 64 bits.\<close>

fun read_response_limit :: "Request \<Rightarrow> 'e fault + u64" where
  "read_response_limit (GetBlock _) = Inr (10 * 1024 * 1024)"
| "read_response_limit (GetHeaders r) =
     and_then (ok_or (Panic ''GetHeaders height should always be Some in an outbound request'') (gh_height r)) (\<lambda>k.
     ok_or (Panic ''called Option::unwrap() on a None value'') (checked_mul (ucast k + 1) 2048))"
| "read_response_limit (PushTransaction _) = Inr 256"

definition min_read_response_timeout :: u64 where
  "min_read_response_timeout = 5"

text \<open>Seconds.\<close>

definition response_read_timeout :: "u64 \<Rightarrow> u64" where
  "response_read_timeout limit = saturating_add min_read_response_timeout (limit div (64 * 1024))"

fun request_cost :: "Request \<Rightarrow> u32" where
  "request_cost (GetBlock _) = 1000"
| "request_cost (GetHeaders _) = 10000"
| "request_cost (PushTransaction _) = 10"

text \<open>The hash of the borsh bytes of a peer state and of a request, without the skipped fields.\<close>

record hashes =
  hash_state :: "PeerState \<Rightarrow> PeerStateId"
  hash_wire :: "Request \<Rightarrow> hash256"

definition request_hash :: "hashes \<Rightarrow> Request \<Rightarrow> hash256" where
  "request_hash H r = hash_wire H (wire_request r)"

section \<open>The queue of requests\<close>

record RequestQueue =
  rq_hashes :: "hash256 fset"
  rq_requests :: "Request list"

definition RequestQueue_new :: RequestQueue where
  "RequestQueue_new = \<lparr>rq_hashes = {||}, rq_requests = []\<rparr>"

definition send_request :: "hashes \<Rightarrow> Request \<Rightarrow> RequestQueue \<Rightarrow> bool \<times> RequestQueue" where
  "send_request H r q =
     (if request_hash H r |\<notin>| rq_hashes q
      then (True, \<lparr>rq_hashes = finsert (request_hash H r) (rq_hashes q), rq_requests = rq_requests q @ [r]\<rparr>)
      else (False, q))"

definition send_requests :: "hashes \<Rightarrow> Request list \<Rightarrow> RequestQueue \<Rightarrow> RequestQueue" where
  "send_requests H rs q = fold (\<lambda>r q. snd (send_request H r q)) rs q"

section \<open>The tip of a peer\<close>

datatype BanReason =
  BmmVerificationFailed Tip
| IncorrectTotalWork Tip Work

datatype PeerTaskError =
  PtArchive ArchiveError
| PtState Error
| PtBan BanReason

type_synonym 'a pres = "PeerTaskError fault + 'a"

definition peer_archive :: "'a ares \<Rightarrow> 'a pres" where
  "peer_archive r = map_fault PtArchive r"

lemma peer_archive_eq_Inr [res_simps]: "peer_archive r = Inr x \<longleftrightarrow> r = Inr x"
  by (simp add: peer_archive_def res_simps)

lemma peer_archive_Inr [simp]: "peer_archive (Inr x) = Inr x"
  by (simp add: res_simps)

text \<open>
  \<open>Some True\<close>: the tip is better and its header is stored. \<open>Some False\<close>: it is better or may be, and its
  headers are asked for; the request comes with the verdict. \<open>None\<close>: it is not better.
\<close>

type_synonym verdict = "bool option \<times> Request list"

definition headers_request :: "TipInfo \<Rightarrow> PeerStateId \<Rightarrow> BlockHash list \<Rightarrow> Request" where
  "headers_request peer i start =
     GetHeaders \<lparr>gh_start = fset_of_list start, gh_end = tip_block_hash (ti_tip peer),
       gh_height = Some (ti_block_height peer), gh_peer_state_id = Some i\<rparr>"

text \<open>The headers of the peer's tip are asked for, after the blocks of the own locator, unless they are stored.\<close>

definition with_headers ::
  "'acc Archive \<Rightarrow> TipInfo \<Rightarrow> TipInfo \<Rightarrow> PeerStateId \<Rightarrow> verdict ares option \<Rightarrow> verdict ares option" where
  "with_headers A own peer i stored =
     (if fmlookup (ar_headers A) (tip_block_hash (ti_tip peer)) = None then
        Some (and_then (get_block_locator A (tip_block_hash (ti_tip own))) (\<lambda>locator.
              Inr (Some False, [headers_request peer i locator])))
      else stored)"

definition better_verdict :: "verdict ares option" where
  "better_verdict = Some (Inr (Some True, []))"

definition worse_verdict :: "verdict ares option" where
  "worse_verdict = Some (Inr (None, []))"

text \<open>Same work and same height.\<close>

definition check_equal_tip :: "'acc Archive \<Rightarrow> TipInfo \<Rightarrow> TipInfo \<Rightarrow> PeerStateId \<Rightarrow> verdict ares option" where
  "check_equal_tip A own peer i =
     (if tip_block_hash (ti_tip peer) = tip_block_hash (ti_tip own) then worse_verdict
      else
        with_headers A own peer i
          (opt_then (last_common_main_ancestor A (tip_main_block_hash (ti_tip own)) (tip_main_block_hash (ti_tip peer)))
             (\<lambda>main_anc.
           opt_then (Some (get_main_height A main_anc)) (\<lambda>mh.
           opt_then (find_ancestor A (work_before_fork A main_anc mh) (Some (tip_block_hash (ti_tip own)))) (\<lambda>r0.
           opt_then (find_ancestor A (work_before_fork A main_anc mh) (Some (tip_block_hash (ti_tip peer)))) (\<lambda>r1.
           let (k0, w0) = (map_option fst r0, map_option snd r0); (k1, w1) = (map_option fst r1, map_option snd r1) in
           if k0 > k1 \<or> k0 = k1 \<and> w0 \<le> w1 then worse_verdict else better_verdict))))))"

text \<open>The two cases in which one tip has more work and the other is higher.\<close>

definition check_crossed_tip :: "'acc Archive \<Rightarrow> TipInfo \<Rightarrow> TipInfo \<Rightarrow> PeerStateId \<Rightarrow> verdict ares option" where
  "check_crossed_tip A own peer i =
     (let common = last_common_main_ancestor A (tip_main_block_hash (ti_tip own)) (tip_main_block_hash (ti_tip peer)) in
      if ti_total_work own < ti_total_work peer then
        opt_then common (\<lambda>main_anc.
        opt_then (find_ancestor A (height_before_fork A main_anc) (Some (tip_block_hash (ti_tip own)))) (\<lambda>r.
        if r \<ge> Some (ti_block_height peer) then worse_verdict else with_headers A own peer i better_verdict))
      else
        with_headers A own peer i
          (opt_then common (\<lambda>main_anc.
           opt_then (find_ancestor A (height_before_fork A main_anc) (Some (tip_block_hash (ti_tip peer)))) (\<lambda>r.
           if r < Some (ti_block_height own) then worse_verdict else better_verdict))))"

text \<open>Whether the mainchain block of the peer's tip is known and in the current mainchain.\<close>

definition peer_main_active :: "'acc Archive \<Rightarrow> TipInfo \<Rightarrow> bool ares" where
  "peer_main_active A peer =
     (let m = tip_main_block_hash (ti_tip peer) in
      case (fmlookup (main_header_infos A) m, tip_info (mainchain_tip (ar_side_tips A))) of
        (Some _, Some cur) \<Rightarrow> is_main_descendant A m (bhi_block_hash cur)
      | _ \<Rightarrow> Inr False)"

definition compare_peer_tip :: "'acc Archive \<Rightarrow> TipInfo \<Rightarrow> TipInfo \<Rightarrow> PeerStateId \<Rightarrow> verdict ares option" where
  "compare_peer_tip A own peer i =
     (let w0 = ti_total_work own; w1 = ti_total_work peer; k0 = ti_block_height own; k1 = ti_block_height peer in
      if w0 \<le> w1 \<and> k0 < k1 then with_headers A own peer i better_verdict
      else if w0 \<ge> w1 \<and> k0 > k1 then worse_verdict
      else if k0 = k1 \<and> w0 \<noteq> w1 then
        opt_then (Some (shared_mainchain_lineage A (tip_main_block_hash (ti_tip own)) (tip_main_block_hash (ti_tip peer))))
          (\<lambda>shared.
        if shared = (w0 < w1) then worse_verdict else with_headers A own peer i better_verdict)
      else if k0 = k1 then check_equal_tip A own peer i
      else check_crossed_tip A own peer i)"

definition check_peer_tip_and_request_headers ::
  "'acc Archive \<Rightarrow> TipInfo option \<Rightarrow> TipInfo \<Rightarrow> PeerStateId \<Rightarrow> verdict ares option" where
  "check_peer_tip_and_request_headers A own peer i =
     opt_then (Some (peer_main_active A peer)) (\<lambda>active.
     if \<not> active then worse_verdict
     else
       (case own of
          None \<Rightarrow>
            if fmlookup (ar_headers A) (tip_block_hash (ti_tip peer)) = None
            then Some (Inr (Some False, [headers_request peer i []]))
            else better_verdict
        | Some t \<Rightarrow> compare_peer_tip A t peer i))"

section \<open>Missing bodies\<close>

text \<open>\<open>iter_missing_bodies\<close>: the next ancestor whose body is not stored, oldest first.\<close>

partial_function (option) missing_next ::
  "'acc Archive \<Rightarrow> BlockHash \<Rightarrow> (BlockHash \<times> Header) RevIter \<Rightarrow>
   (BlockHash option \<times> (BlockHash \<times> Header) RevIter) ares option" where
  "missing_next A h it =
     (case ancestors_rev_next A h it of
        Inl e \<Rightarrow> Some (Inl e)
      | Inr (None, it1) \<Rightarrow> Some (Inr (None, it1))
      | Inr (Some (a, _), it1) \<Rightarrow>
          if fmlookup (ar_bodies A) a = None then Some (Inr (Some a, it1)) else missing_next A h it1)"

declare missing_next.simps [code]

text \<open>\<open>iter_missing_bodies(..).take(n).collect()\<close>.\<close>

fun missing_take ::
  "'acc Archive \<Rightarrow> BlockHash \<Rightarrow> nat \<Rightarrow> (BlockHash \<times> Header) RevIter \<Rightarrow> BlockHash list ares option" where
  "missing_take A h 0 it = Some (Inr [])"
| "missing_take A h (Suc n) it =
     opt_then (missing_next A h it) (\<lambda>(x, it1).
     case x of
       None \<Rightarrow> Some (Inr [])
     | Some a \<Rightarrow> opt_then (missing_take A h n it1) (\<lambda>rest. Some (Inr (a # rest))))"

section \<open>The state of a peer\<close>

text \<open>What the connection tells the net task.\<close>

datatype Info =
  NeedMainchainAncestors hash256 PeerStateId
| NewTipReady Tip
| NewTransaction AuthorizedTransaction
| Response ResponseMessage Request

text \<open>The own tip as it is announced to peers; the two places that compute it panic with their own message.\<close>

definition tip_info_of :: "string \<Rightarrow> (hash256 fset \<Rightarrow> hash256 list) \<Rightarrow> 'acc Node \<Rightarrow> TipInfo option pres" where
  "tip_info_of msg ord n =
     (case try_get_tip (nd_state n) of
        None \<Rightarrow> Inr None
      | Some t \<Rightarrow>
          and_then (ok_or (Panic msg) (try_get_height (nd_state n))) (\<lambda>k.
          and_then (peer_archive (get_best_main_verification ord (nd_archive n) t)) (\<lambda>m.
          and_then (peer_archive (get_total_work (nd_archive n) m)) (\<lambda>w.
          Inr (Some \<lparr>ti_block_height = k, ti_tip = \<lparr>tip_block_hash = t, tip_main_block_hash = m\<rparr>, ti_total_work = w\<rparr>)))))"

definition own_tip_info :: "(hash256 fset \<Rightarrow> hash256 list) \<Rightarrow> 'acc Node \<Rightarrow> TipInfo option pres" where
  "own_tip_info = tip_info_of ''Height should be known for tip''"

text \<open>The claims of the peer about a mainchain block that is known: its work and its commitment.\<close>

definition check_claims :: "'acc Archive \<Rightarrow> TipInfo \<Rightarrow> unit pres" where
  "check_claims A peer =
     (let t = ti_tip peer in
      and_then (peer_archive (get_total_work A (tip_main_block_hash t))) (\<lambda>w.
      if ti_total_work peer \<noteq> w then Inl (Fail (PtBan (IncorrectTotalWork t (ti_total_work peer))))
      else
        and_then (peer_archive (get_main_block_info A (tip_main_block_hash t))) (\<lambda>info.
        if bmm_commitment info \<noteq> Some (tip_block_hash t) then Inl (Fail (PtBan (BmmVerificationFailed t)))
        else Inr ())))"

definition max_block_requests :: nat where
  "max_block_requests = 100"

definition block_request :: "Tip \<Rightarrow> BlockHash option \<Rightarrow> PeerStateId \<Rightarrow> BlockHash \<Rightarrow> Request" where
  "block_request t ancestor i h =
     GetBlock \<lparr>gb_block_hash = h, gb_descendant_tip = Some t, gb_ancestor = ancestor, gb_peer_state_id = Some i\<rparr>"

text \<open>The last common ancestor with the peer's tip, and the bodies that are missing from its height on.\<close>

definition bodies_to_request ::
  "'acc Archive \<Rightarrow> TipInfo option \<Rightarrow> TipInfo \<Rightarrow> (BlockHash option \<times> BlockHash list) ares option" where
  "bodies_to_request A own peer =
     (let h = tip_block_hash (ti_tip peer) in
      opt_then (case own of
                  Some t \<Rightarrow> last_common_ancestor A (tip_block_hash (ti_tip t)) h | None \<Rightarrow> Some (Inr None)) (\<lambda>common.
      opt_then (Some (case common of Some c \<Rightarrow> ar_get_height A c | None \<Rightarrow> Inr 0)) (\<lambda>start.
      opt_then (missing_take A h max_block_requests (rev_new start)) (\<lambda>missing. Some (Inr (common, missing))))))"

text \<open>What is sent, requests to the peer and infos to the net task, is sent at the end of a branch.\<close>

definition handle_peer_state ::
  "hashes \<Rightarrow> (hash256 fset \<Rightarrow> hash256 list) \<Rightarrow> 'acc Node \<Rightarrow> PeerState \<Rightarrow> (Request list \<times> Info list) pres option" where
  "handle_peer_state H ord n ps =
     (let A = nd_archive n; i = hash_state H ps in
      case ps_tip_info ps of
        None \<Rightarrow> Some (Inr ([], []))
      | Some peer \<Rightarrow>
          opt_then (Some (own_tip_info ord n)) (\<lambda>own.
          if fmlookup (main_header_infos A) (tip_main_block_hash (ti_tip peer)) = None
          then Some (Inr ([], [NeedMainchainAncestors (tip_main_block_hash (ti_tip peer)) i]))
          else
            opt_then (Some (check_claims A peer)) (\<lambda>_.
            opt_then (map_option peer_archive (check_peer_tip_and_request_headers A own peer i)) (\<lambda>(v, reqs).
            if v \<noteq> Some True then Some (Inr (reqs, []))
            else if try_get_bmm_result A (tip_block_hash (ti_tip peer)) (tip_main_block_hash (ti_tip peer)) \<noteq> Some BmmVerified
            then Some (Inl (Fail (PtBan (BmmVerificationFailed (ti_tip peer)))))
            else
              opt_then (map_option peer_archive (bodies_to_request A own peer)) (\<lambda>(common, missing).
              if missing = [] then Some (Inr ([], [NewTipReady (ti_tip peer)]))
              else Some (Inr (map (block_request (ti_tip peer) common i) missing, [])))))))"

section \<open>Requests of the peer\<close>

definition handle_get_block :: "'acc Archive \<Rightarrow> BlockHash \<Rightarrow> ResponseMessage" where
  "handle_get_block A h =
     (case (fmlookup (ar_headers A) h, fmlookup (ar_bodies A) h) of
        (Some hdr, Some body) \<Rightarrow> BlockRsp hdr body
      | _ \<Rightarrow> NoBlock h)"

text \<open>The ancestors of a block, newest first, up to the first block of a set.\<close>

partial_function (option) headers_until ::
  "'acc Archive \<Rightarrow> BlockHash fset \<Rightarrow> BlockHash option \<Rightarrow> Header list ares option" where
  "headers_until A start cur =
     (case cur of
        None \<Rightarrow> Some (Inr [])
      | Some h \<Rightarrow>
          (case get_header A h of
             Inl e \<Rightarrow> Some (Inl e)
           | Inr hdr \<Rightarrow>
               if h |\<in>| start then Some (Inr [])
               else opt_then (headers_until A start (prev_side_hash hdr)) (\<lambda>rest. Some (Inr (hdr # rest)))))"

declare headers_until.simps [code]

definition handle_get_headers :: "'acc Archive \<Rightarrow> BlockHash fset \<Rightarrow> BlockHash \<Rightarrow> ResponseMessage ares option" where
  "handle_get_headers A start stop =
     (if fmlookup (ar_headers A) stop \<noteq> None
      then opt_then (headers_until A start (Some stop)) (\<lambda>headers. Some (Inr (HeadersRsp (rev headers))))
      else Some (Inr (NoHeader stop)))"

text \<open>The response, the result of the handler, and the infos.\<close>

definition handle_push_tx ::
  "'acc ext \<Rightarrow> 'acc State \<Rightarrow> AuthorizedTransaction \<Rightarrow> ResponseMessage \<times> Error fault option \<times> Info list" where
  "handle_push_tx X s at =
     (let t = txid X (auth_transaction at) in
      case validate_transaction X s at of
        Inl e \<Rightarrow> (TransactionRejected t, Some e, [])
      | Inr _ \<Rightarrow> (TransactionAccepted t, None, [NewTransaction at]))"

section \<open>The task of a connection\<close>

text \<open>The errors of the handlers; \<open>Net_Task\<close> has those of the transport.\<close>

datatype ConnectionTaskError =
  CtArchive ArchiveError
| CtState Error
| CtTask PeerTaskError
| CtMissingPeerState PeerStateId

text \<open>
  The state of the task: the id of the peer's current state, the states seen, the queue of requests, the
  blocking tasks, each of them \<open>handle_peer_state\<close> for one state, and what was sent to the net task.
\<close>

record Conn =
  cn_peer_state :: "PeerStateId option"
  cn_peer_states :: "(PeerStateId, PeerState) fmap"
  cn_queue :: RequestQueue
  cn_tasks :: "PeerState list"
  cn_infos :: "Info list"

definition Conn_new :: Conn where
  "Conn_new = \<lparr>cn_peer_state = None, cn_peer_states = fmempty, cn_queue = RequestQueue_new, cn_tasks = [], cn_infos = []\<rparr>"

type_synonym 'a cres = "ConnectionTaskError fault + 'a"

text \<open>The response, if there is one, the result, and the task.\<close>

definition handle_peer_request ::
  "'acc ext \<Rightarrow> hashes \<Rightarrow> 'acc Node \<Rightarrow> RequestMessage \<Rightarrow> Conn \<Rightarrow> (ResponseMessage option \<times> unit cres \<times> Conn) option" where
  "handle_peer_request X H n msg cn =
     (case msg of
        HeartbeatMsg ps \<Rightarrow>
          let i = hash_state H ps; cn1 = cn\<lparr>cn_peer_states := fmupd i ps (cn_peer_states cn)\<rparr> in
          Some (None, Inr (), if cn_peer_state cn \<noteq> Some i
                              then cn1\<lparr>cn_tasks := cn_tasks cn @ [ps], cn_peer_state := Some i\<rparr> else cn1)
      | RequestMsg (GetBlock r) \<Rightarrow> Some (Some (handle_get_block (nd_archive n) (gb_block_hash r)), Inr (), cn)
      | RequestMsg (GetHeaders r) \<Rightarrow>
          (case handle_get_headers (nd_archive n) (gh_start r) (gh_end r) of
             None \<Rightarrow> None
           | Some (Inl e) \<Rightarrow> Some (None, map_fault CtArchive (Inl e), cn)
           | Some (Inr resp) \<Rightarrow> Some (Some resp, Inr (), cn))
      | RequestMsg (PushTransaction at) \<Rightarrow>
          (case handle_push_tx X (nd_state n) at of
             (resp, e, infos) \<Rightarrow>
               Some (Some resp, case e of Some e0 \<Rightarrow> map_fault CtState (Inl e0) | None \<Rightarrow> Inr (),
                     cn\<lparr>cn_infos := cn_infos cn @ infos\<rparr>)))"

datatype InternalMessage =
  BmmVerification bool PeerStateId
| BmmVerificationError
| ForwardRequest Request
| MainchainAncestors PeerStateId
| MainchainAncestorsError
| HeadersAvailable PeerStateId
| BodiesAvailable PeerStateId

text \<open>A known peer state is handled again.\<close>

definition requeue_state :: "PeerStateId \<Rightarrow> Conn \<Rightarrow> Conn cres" where
  "requeue_state i cn =
     (case fmlookup (cn_peer_states cn) i of
        None \<Rightarrow> Inl (Fail (CtMissingPeerState i))
      | Some ps \<Rightarrow> Inr (cn\<lparr>cn_tasks := cn_tasks cn @ [ps]\<rparr>))"

fun handle_internal_message :: "hashes \<Rightarrow> InternalMessage \<Rightarrow> Conn \<Rightarrow> Conn cres" where
  "handle_internal_message H (ForwardRequest r) cn = Inr (cn\<lparr>cn_queue := snd (send_request H r (cn_queue cn))\<rparr>)"
| "handle_internal_message H (BmmVerification found i) cn = (if \<not> found then Inr cn else requeue_state i cn)"
| "handle_internal_message H BmmVerificationError cn = Inr cn"
| "handle_internal_message H MainchainAncestorsError cn = Inr cn"
| "handle_internal_message H (MainchainAncestors i) cn = requeue_state i cn"
| "handle_internal_message H (HeadersAvailable i) cn = requeue_state i cn"
| "handle_internal_message H (BodiesAvailable i) cn = requeue_state i cn"

text \<open>The queue of blocking tasks runs one task after the other.\<close>

definition run_blocking_task ::
  "hashes \<Rightarrow> (hash256 fset \<Rightarrow> hash256 list) \<Rightarrow> 'acc Node \<Rightarrow> Conn \<Rightarrow> Conn cres option" where
  "run_blocking_task H ord n cn =
     (case cn_tasks cn of
        [] \<Rightarrow> Some (Inr cn)
      | ps # rest \<Rightarrow>
          opt_then (map_option (map_fault CtTask) (handle_peer_state H ord n ps)) (\<lambda>(reqs, infos).
          Some (Inr (cn\<lparr>cn_tasks := rest, cn_queue := send_requests H reqs (cn_queue cn),
                        cn_infos := cn_infos cn @ infos\<rparr>))))"

text \<open>The announcement that is sent every second.\<close>

definition heartbeat :: "(hash256 fset \<Rightarrow> hash256 list) \<Rightarrow> Version \<Rightarrow> 'acc Node \<Rightarrow> RequestMessage pres" where
  "heartbeat ord version n =
     and_then (tip_info_of ''Height for tip should be known'' ord n) (\<lambda>t. Inr (HeartbeatMsg \<lparr>ps_tip_info = t, ps_version = version\<rparr>))"

text \<open>A response that was read is passed on with its request.\<close>

definition forward_response :: "ResponseMessage \<Rightarrow> Request \<Rightarrow> Conn \<Rightarrow> Conn" where
  "forward_response resp r cn = cn\<lparr>cn_infos := cn_infos cn @ [Response resp r]\<rparr>"

end
