(* ===== verification/Net.thy ===== *)
theory Net
  imports Peer
begin

text \<open>
  Addresses of peers (\<^verbatim>\<open>src/lib/types/net.rs\<close>) and the set of peers (\<^verbatim>\<open>src/lib/net/mod.rs\<close>): the
  connections that are active, with the messages queued for their tasks, and the addresses that are known in
  the database. The QUIC endpoint, name resolution and timers are parameters.
\<close>

section \<open>Addresses\<close>

datatype IpAddr = V4 u32 | V6 "128 word"

record SocketAddr =
  sa_ip :: IpAddr
  sa_port :: u16

datatype Host = HostDomain string | HostIp IpAddr

record SeedAddress =
  sd_host :: Host
  sd_port :: u16

definition default_port :: u16 where
  "default_port = 4000 + 255"

definition socket_addr :: "SeedAddress \<Rightarrow> SocketAddr option" where
  "socket_addr a = (case sd_host a of HostDomain _ \<Rightarrow> None | HostIp ip \<Rightarrow> Some \<lparr>sa_ip = ip, sa_port = sd_port a\<rparr>)"

text \<open>\<open>str::rsplit_once\<close>.\<close>

definition rsplit_once :: "char \<Rightarrow> string \<Rightarrow> (string \<times> string) option" where
  "rsplit_once c s =
     (if c \<in> set s then Some (rev (drop 1 (dropWhile (\<lambda>x. x \<noteq> c) (rev s))), rev (takeWhile (\<lambda>x. x \<noteq> c) (rev s)))
      else None)"

text \<open>\<open>u16::from_str\<close>: decimal digits after an optional plus sign.\<close>

definition parse_u16 :: "string \<Rightarrow> u16 option" where
  "parse_u16 s =
     (let ds = (case s of c # rest \<Rightarrow> if c = CHR ''+'' then rest else s | [] \<Rightarrow> []);
          n = foldl (\<lambda>a c. 10 * a + (of_char c - 48)) (0 :: nat) ds in
      if ds \<noteq> [] \<and> list_all (\<lambda>c. 48 \<le> (of_char c :: nat) \<and> of_char c \<le> (57 :: nat)) ds \<and> n < 2 ^ 16
      then Some (word_of_nat n) else None)"

text \<open>\<open>url::Host::parse\<close> is a parameter.\<close>

definition SeedAddress_from_str :: "(string \<Rightarrow> Host option) \<Rightarrow> string \<Rightarrow> SeedAddress option" where
  "SeedAddress_from_str parse_host s =
     (case rsplit_once (CHR '':'') s of
        Some (h, p) \<Rightarrow>
          (case parse_u16 p of
             None \<Rightarrow> None
           | Some port \<Rightarrow> map_option (\<lambda>host. \<lparr>sd_host = host, sd_port = port\<rparr>) (parse_host h))
      | None \<Rightarrow> map_option (\<lambda>host. \<lparr>sd_host = host, sd_port = default_port\<rparr>) (parse_host s))"

text \<open>A resolved address; the addresses of a domain are a non-empty list in reverse order.\<close>

datatype ResolvedSeedAddress =
  ResolvedDomain string u16 IpAddr "IpAddr list"
| ResolvedStatic SocketAddr

fun resolved_host :: "ResolvedSeedAddress \<Rightarrow> Host" where
  "resolved_host (ResolvedDomain d _ _ _) = HostDomain d"
| "resolved_host (ResolvedStatic a) = HostIp (sa_ip a)"

fun resolved_port :: "ResolvedSeedAddress \<Rightarrow> u16" where
  "resolved_port (ResolvedDomain _ p _ _) = p"
| "resolved_port (ResolvedStatic a) = sa_port a"

definition as_seed_address :: "ResolvedSeedAddress \<Rightarrow> SeedAddress" where
  "as_seed_address r = \<lparr>sd_host = resolved_host r, sd_port = resolved_port r\<rparr>"

fun first_ip_addr :: "ResolvedSeedAddress \<Rightarrow> IpAddr" where
  "first_ip_addr (ResolvedDomain _ _ x xs) = last (x # xs)"
| "first_ip_addr (ResolvedStatic a) = sa_ip a"

fun pop_first_ip_addr :: "ResolvedSeedAddress \<Rightarrow> IpAddr \<times> ResolvedSeedAddress option" where
  "pop_first_ip_addr (ResolvedDomain d p x xs) =
     (if xs = [] then (x, None) else (last xs, Some (ResolvedDomain d p x (butlast xs))))"
| "pop_first_ip_addr (ResolvedStatic a) = (sa_ip a, None)"

fun ip_addrs :: "ResolvedSeedAddress \<Rightarrow> IpAddr list" where
  "ip_addrs (ResolvedDomain _ _ x xs) = rev (x # xs)"
| "ip_addrs (ResolvedStatic a) = [sa_ip a]"

definition is_unspecified :: "IpAddr \<Rightarrow> bool" where
  "is_unspecified ip \<longleftrightarrow> ip = V4 0 \<or> ip = V6 0"

datatype ResolveError = DnsFailed | NoIpAddrs string

text \<open>\<open>lookup\<close> is the resolver's answer for a name.\<close>

definition resolve_seed_address :: "(string \<Rightarrow> IpAddr list option) \<Rightarrow> SeedAddress \<Rightarrow> ResolveError + ResolvedSeedAddress" where
  "resolve_seed_address lookup a =
     (case sd_host a of
        HostIp ip \<Rightarrow> Inr (ResolvedStatic \<lparr>sa_ip = ip, sa_port = sd_port a\<rparr>)
      | HostDomain d \<Rightarrow>
          and_then (ok_or DnsFailed (lookup d)) (\<lambda>found.
          let addrs = filter (\<lambda>ip. \<not> is_unspecified ip) found in
          if addrs = [] then Inl (NoIpAddrs d)
          else Inr (ResolvedDomain d (sd_port a) (last addrs) (rev (butlast addrs)))))"

section \<open>Peers\<close>

text \<open>A connection: whether a message was received, whether it is established, and the messages for its task.\<close>

record PeerHandle =
  ph_received :: bool
  ph_connected :: bool
  ph_messages :: "InternalMessage list"

record Net =
  active_peers :: "(SocketAddr, PeerHandle) fmap"
  known_peers :: "SocketAddr fset"

text \<open>Errors of the database and of the endpoint's configuration are left out.\<close>

datatype NetError =
  AlreadyConnected SocketAddr
| UnspecfiedPeerIP IpAddr
| InvalidRemoteAddress SocketAddr
| ConnectError

definition add_active_peer :: "SocketAddr \<Rightarrow> PeerHandle \<Rightarrow> Net \<Rightarrow> NetError + Net" where
  "add_active_peer a h net =
     (if fmlookup (active_peers net) a \<noteq> None then Inl (AlreadyConnected a)
      else Inr (net\<lparr>active_peers := fmupd a h (active_peers net)\<rparr>))"

definition remove_active_peer :: "SocketAddr \<Rightarrow> Net \<Rightarrow> Net" where
  "remove_active_peer a net = net\<lparr>active_peers := fmdrop a (active_peers net)\<rparr>"

definition push_internal_message :: "InternalMessage \<Rightarrow> SocketAddr \<Rightarrow> Net \<Rightarrow> bool \<times> Net" where
  "push_internal_message msg a net =
     (case fmlookup (active_peers net) a of
        None \<Rightarrow> (False, net)
      | Some h \<Rightarrow> (True, net\<lparr>active_peers := fmupd a (h\<lparr>ph_messages := ph_messages h @ [msg]\<rparr>) (active_peers net)\<rparr>))"

text \<open>The transaction goes to every established connection outside the set.\<close>

definition push_tx :: "SocketAddr fset \<Rightarrow> AuthorizedTransaction \<Rightarrow> Net \<Rightarrow> Net" where
  "push_tx exclude at net =
     net\<lparr>active_peers := fmmap_keys (\<lambda>a h.
       if a |\<notin>| exclude \<and> ph_connected h
       then h\<lparr>ph_messages := ph_messages h @ [ForwardRequest (PushTransaction at)]\<rparr> else h) (active_peers net)\<rparr>"

definition forget_peer :: "SocketAddr \<Rightarrow> Net \<Rightarrow> bool \<times> Net" where
  "forget_peer a net = (a |\<in>| known_peers net, net\<lparr>known_peers := known_peers net |-| {|a|}\<rparr>)"

section \<open>Dialing\<close>

text \<open>The endpoint's answer to a connection attempt with a server name.\<close>

datatype QuicConnect = Connecting | QuicInvalidRemoteAddress | QuicError

definition server_name :: "ResolvedSeedAddress \<Rightarrow> string" where
  "server_name r = (case resolved_host r of HostDomain d \<Rightarrow> d | HostIp _ \<Rightarrow> ''localhost'')"

definition current_addr :: "ResolvedSeedAddress \<Rightarrow> SocketAddr" where
  "current_addr r = \<lparr>sa_ip = first_ip_addr r, sa_port = resolved_port r\<rparr>"

fun rest_size :: "ResolvedSeedAddress \<Rightarrow> nat" where
  "rest_size (ResolvedDomain _ _ _ xs) = length xs"
| "rest_size (ResolvedStatic _) = 0"

text \<open>The addresses are tried in turn; an address that the endpoint calls invalid is dropped.\<close>

function dial_loop ::
  "(SocketAddr \<Rightarrow> string \<Rightarrow> QuicConnect) \<Rightarrow> ResolvedSeedAddress \<Rightarrow> NetError + (SocketAddr \<times> ResolvedSeedAddress)" where
  "dial_loop quic r =
     (let a = current_addr r in
      if is_unspecified (sa_ip a) then Inl (UnspecfiedPeerIP (sa_ip a))
      else
        (case quic a (server_name r) of
           Connecting \<Rightarrow> Inr (a, r)
         | QuicError \<Rightarrow> Inl ConnectError
         | QuicInvalidRemoteAddress \<Rightarrow>
             (case snd (pop_first_ip_addr r) of None \<Rightarrow> Inl (InvalidRemoteAddress a) | Some r1 \<Rightarrow> dial_loop quic r1)))"
  by auto
termination
proof (relation "measure (\<lambda>(quic, r). rest_size r)")
  fix r r1 assume "snd (pop_first_ip_addr r) = Some r1"
  then have "rest_size r1 < rest_size r" by (cases r) (auto split: if_splits)
  then show "\<And>quic. ((quic, r1), quic :: SocketAddr \<Rightarrow> string \<Rightarrow> QuicConnect, r) \<in> measure (\<lambda>(quic, r). rest_size r)" by simp
qed simp

declare dial_loop.simps [simp del]

text \<open>The result, and the peers: the database is written before the connection is added.\<close>

definition connect_peer ::
  "(SocketAddr \<Rightarrow> string \<Rightarrow> QuicConnect) \<Rightarrow> ResolvedSeedAddress \<Rightarrow> Net \<Rightarrow> (NetError + unit) \<times> Net" where
  "connect_peer quic r net =
     (case find (\<lambda>a. fmlookup (active_peers net) a \<noteq> None) (map (\<lambda>ip. \<lparr>sa_ip = ip, sa_port = resolved_port r\<rparr>) (ip_addrs r)) of
        Some a \<Rightarrow> (Inl (AlreadyConnected a), net)
      | None \<Rightarrow>
          (case dial_loop quic r of
             Inl e \<Rightarrow> (Inl e, net)
           | Inr (a, r1) \<Rightarrow>
               let net1 = (case r1 of ResolvedStatic b \<Rightarrow> net\<lparr>known_peers := finsert b (known_peers net)\<rparr> | _ \<Rightarrow> net) in
               (case add_active_peer a \<lparr>ph_received = False, ph_connected = False, ph_messages = []\<rparr> net1 of
                  Inl e \<Rightarrow> (Inl e, net1)
                | Inr net2 \<Rightarrow> (Inr (), net2))))"

text \<open>An incoming connection; \<open>closed\<close> says that the peer has closed it already.\<close>

definition accept_incoming :: "SocketAddr \<Rightarrow> bool \<Rightarrow> Net \<Rightarrow> (NetError + SocketAddr option) \<times> Net" where
  "accept_incoming a closed net =
     (if fmlookup (active_peers net) a \<noteq> None \<or> closed then (Inr None, net)
      else
        let net1 = net\<lparr>known_peers := finsert a (known_peers net)\<rparr> in
        (case add_active_peer a \<lparr>ph_received = False, ph_connected = True, ph_messages = []\<rparr> net1 of
           Inl e \<Rightarrow> (Inl e, net1)
         | Inr net2 \<Rightarrow> (Inr (Some a), net2)))"

definition dial_known_peer :: "(SocketAddr \<Rightarrow> string \<Rightarrow> QuicConnect) \<Rightarrow> SocketAddr \<Rightarrow> Net \<Rightarrow> (NetError + bool) \<times> Net" where
  "dial_known_peer quic a net =
     (if fmlookup (active_peers net) a \<noteq> None then (Inr False, net)
      else (case connect_peer quic (ResolvedStatic a) net of (Inl e, net1) \<Rightarrow> (Inl e, net1) | (Inr _, net1) \<Rightarrow> (Inr True, net1)))"

text \<open>The number of connections that started; \<open>order\<close> is the order of the keys in the database.\<close>

definition dial_known_peers ::
  "(SocketAddr fset \<Rightarrow> SocketAddr list) \<Rightarrow> (SocketAddr \<Rightarrow> string \<Rightarrow> QuicConnect) \<Rightarrow> Net \<Rightarrow> nat \<times> Net" where
  "dial_known_peers order quic net =
     fold (\<lambda>a (dialed, net). case dial_known_peer quic a net of
             (Inr True, net1) \<Rightarrow> (dialed + 1, net1) | (_, net1) \<Rightarrow> (dialed, net1))
       (order (known_peers net)) (0, net)"

text \<open>One round of the loop that dials again, after its sleep: the next delay in seconds, and the flag.\<close>

definition redial_round ::
  "(SocketAddr fset \<Rightarrow> SocketAddr list) \<Rightarrow> (SocketAddr \<Rightarrow> string \<Rightarrow> QuicConnect) \<Rightarrow> nat \<Rightarrow> nat \<Rightarrow>
   nat \<times> bool \<times> Net \<Rightarrow> nat \<times> bool \<times> Net" where
  "redial_round order quic min_delay max_delay = (\<lambda>(delay, no_peers, net).
     if active_peers net \<noteq> fmempty then (min_delay, False, net)
     else if \<not> no_peers then (delay, True, net)
     else (min (2 * delay) max_delay, no_peers, snd (dial_known_peers order quic net)))"

section \<open>Start\<close>

fun seed_node_addrs :: "Network \<Rightarrow> SeedAddress list" where
  "seed_node_addrs Betanet = [\<lparr>sd_host = HostDomain ''seed.beta.ecash.eu.com'', sd_port = default_port\<rparr>]"
| "seed_node_addrs Regtest = []"
| "seed_node_addrs Signet =
     [\<lparr>sd_host = HostIp (V4 (word_of_nat (((172 * 256 + 105) * 256 + 148) * 256 + 135))), sd_port = default_port\<rparr>,
      \<lparr>sd_host = HostIp (V4 (word_of_nat (((95 * 256 + 217) * 256 + 243) * 256 + 12))), sd_port = default_port\<rparr>]"

definition add_seed_peers :: "Network \<Rightarrow> SocketAddr fset \<Rightarrow> SocketAddr fset" where
  "add_seed_peers network known = known |\<union>| fset_of_list (List.map_filter socket_addr (seed_node_addrs network))"

text \<open>Every known peer is dialed; an address that the endpoint calls invalid is forgotten.\<close>

definition dial_at_start :: "(SocketAddr \<Rightarrow> string \<Rightarrow> QuicConnect) \<Rightarrow> SocketAddr \<Rightarrow> Net \<Rightarrow> Net" where
  "dial_at_start quic a net =
     (case connect_peer quic (ResolvedStatic a) net of
        (Inl (InvalidRemoteAddress _), net1) \<Rightarrow> snd (forget_peer a net1)
      | (_, net1) \<Rightarrow> net1)"

text \<open>The peers after the start, and the names that are dialed in tasks of their own.\<close>

definition Net_new ::
  "(SocketAddr fset \<Rightarrow> SocketAddr list) \<Rightarrow> (SocketAddr \<Rightarrow> string \<Rightarrow> QuicConnect) \<Rightarrow> Network \<Rightarrow> SeedAddress list \<Rightarrow>
   SocketAddr fset \<Rightarrow> Net \<times> SeedAddress fset" where
  "Net_new order quic network add_peers stored =
     (let known = add_seed_peers network stored |\<union>| fset_of_list (List.map_filter socket_addr add_peers) in
      (fold (dial_at_start quic) (order known) \<lparr>active_peers = fmempty, known_peers = known\<rparr>,
       fset_of_list (filter (\<lambda>a. socket_addr a = None) (seed_node_addrs network @ add_peers))))"

end
