(* ===== verification/Net_Task.thy ===== *)
theory Net_Task
  imports Net Node_Ops
begin

text \<open>
  The net task (\<^verbatim>\<open>src/lib/node/net_task.rs\<close>): it handles what the connections tell it, the answers of peers
  to requests, and the events of the mainchain task. Channels are lists; a send on them does not fail.
\<close>

section \<open>State\<close>

text \<open>
  The node, the peers, the tips that wait for the body of a block with the peers that announced them, the
  peers that wait for mainchain ancestors, and the queues: tips that are ready, requests to forward, requests to the
  mainchain task, and peers to connect to again.
\<close>

record 'acc NetTask =
  nt_node :: "'acc Node"
  nt_net :: Net
  nt_descendants :: "(BlockHash, (Tip, SocketAddr fset) fmap) fmap"
  nt_sources :: "(hash256, (SocketAddr \<times> PeerStateId) fset) fmap"
  nt_new_tips :: "(Tip \<times> SocketAddr option) list"
  nt_forward :: "(hash256 \<times> SocketAddr \<times> PeerStateId) list"
  nt_main_requests :: "hash256 list"
  nt_reconnect :: "ResolvedSeedAddress list"

text \<open>The iteration orders of the hash maps and sets.\<close>

record orders =
  ord_hash :: "hash256 fset \<Rightarrow> hash256 list"
  ord_tips :: "Tip fset \<Rightarrow> Tip list"
  ord_addrs :: "SocketAddr fset \<Rightarrow> SocketAddr list"
  ord_sources :: "(SocketAddr \<times> PeerStateId) fset \<Rightarrow> (SocketAddr \<times> PeerStateId) list"

text \<open>An operation gives its result and the state it leaves, or does not end.\<close>

type_synonym ('acc, 'a) top = "'acc NetTask \<Rightarrow> ('a nres \<times> 'acc NetTask) option"

definition t_then :: "('acc, 'a) top \<Rightarrow> ('a \<Rightarrow> ('acc, 'b) top) \<Rightarrow> ('acc, 'b) top" where
  "t_then m f t = (case m t of None \<Rightarrow> None | Some (Inl e, t1) \<Rightarrow> Some (Inl e, t1) | Some (Inr x, t1) \<Rightarrow> f x t1)"

definition t_read :: "('acc NetTask \<Rightarrow> 'a nres option) \<Rightarrow> ('acc, 'a) top" where
  "t_read f t = map_option (\<lambda>r. (r, t)) (f t)"

definition t_write :: "('acc NetTask \<Rightarrow> 'acc NetTask) \<Rightarrow> ('acc, unit) top" where
  "t_write f t = Some (Inr (), f t)"

fun t_each :: "('x \<Rightarrow> ('acc, unit) top) \<Rightarrow> 'x list \<Rightarrow> ('acc, unit) top" where
  "t_each f [] = t_write id"
| "t_each f (x # xs) = t_then (f x) (\<lambda>_. t_each f xs)"

definition nt_archive :: "'acc NetTask \<Rightarrow> 'acc Archive" where
  "nt_archive t = nd_archive (nt_node t)"

definition drop_peer :: "SocketAddr \<Rightarrow> 'acc NetTask \<Rightarrow> 'acc NetTask" where
  "drop_peer a t = t\<lparr>nt_net := remove_active_peer a (nt_net t)\<rparr>"

definition tell_peer :: "InternalMessage \<Rightarrow> SocketAddr \<Rightarrow> 'acc NetTask \<Rightarrow> 'acc NetTask" where
  "tell_peer msg a t = t\<lparr>nt_net := snd (push_internal_message msg a (nt_net t))\<rparr>"

definition tip_ready :: "Tip \<Rightarrow> SocketAddr \<Rightarrow> 'acc NetTask \<Rightarrow> 'acc NetTask" where
  "tip_ready new a t = t\<lparr>nt_new_tips := nt_new_tips t @ [(new, Some a)]\<rparr>"

section \<open>A block from a peer\<close>

text \<open>The first body that is missing above a height, up to a block.\<close>

definition first_missing :: "'acc Archive \<Rightarrow> BlockHash \<Rightarrow> u32 option \<Rightarrow> BlockHash option nres option" where
  "first_missing A h low =
     opt_then (map_option of_archive (missing_next A h (rev_new (case low of Some k \<Rightarrow> k + 1 | None \<Rightarrow> 0))))
       (\<lambda>(x, _). Some (Inr x))"

text \<open>A tip waits for a body, on behalf of some peers.\<close>

definition await_body :: "BlockHash \<Rightarrow> Tip \<Rightarrow> SocketAddr fset \<Rightarrow> 'acc NetTask \<Rightarrow> 'acc NetTask" where
  "await_body missing new peers t =
     (let tips = (case fmlookup (nt_descendants t) missing of Some m \<Rightarrow> m | None \<Rightarrow> fmempty);
          old = (case fmlookup tips new of Some ps \<Rightarrow> ps | None \<Rightarrow> {||}) in
      t\<lparr>nt_descendants := fmupd missing (fmupd new (old |\<union>| peers) tips) (nt_descendants t)\<rparr>)"

definition store_body :: "orders \<Rightarrow> BlockHash \<Rightarrow> Body \<Rightarrow> ('acc, unit) top" where
  "store_body Q h body t =
     (case put_body (ord_hash Q) h body (nt_archive t) of
        None \<Rightarrow> None
      | Some (Inl e) \<Rightarrow> Some (of_archive (Inl e), t)
      | Some (Inr A) \<Rightarrow> Some (Inr (), t\<lparr>nt_node := (nt_node t)\<lparr>nd_archive := A\<rparr>\<rparr>))"

text \<open>The connection is told when no body is missing up to the block.\<close>

definition report_bodies :: "BlockHash \<Rightarrow> Tip \<Rightarrow> BlockHash option \<Rightarrow> PeerStateId \<Rightarrow> SocketAddr \<Rightarrow> ('acc, unit) top" where
  "report_bodies h dt ancestor i a =
     t_then (t_read (\<lambda>t. Some (case ancestor of
                Some g \<Rightarrow> and_then (of_archive (ar_get_height (nt_archive t) g)) (\<lambda>k. Inr (Some k))
              | None \<Rightarrow> Inr None))) (\<lambda>low.
     t_then (t_read (\<lambda>t. first_missing (nt_archive t) h low)) (\<lambda>missing.
     t_write (case missing of Some g \<Rightarrow> await_body g dt {|a|} | None \<Rightarrow> tell_peer (BodiesAvailable i) a)))"

text \<open>The first mainchain block that verifies the sidechain block and is an ancestor of another.\<close>

fun verification_below :: "'acc Archive \<Rightarrow> BlockHash \<Rightarrow> hash256 \<Rightarrow> hash256 list \<Rightarrow> hash256 option ares" where
  "verification_below A h m [] = Inr None"
| "verification_below A h m (b # bs) =
     (if try_get_bmm_result A h b = Some BmmVerified then
        and_then (is_main_descendant A b m) (\<lambda>d. if d then Inr (Some b) else verification_below A h m bs)
      else verification_below A h m bs)"

text \<open>The tip that can be applied for a tip that waited: itself, or the parent of the first missing body.\<close>

definition next_tip :: "orders \<Rightarrow> 'acc Archive \<Rightarrow> Tip \<Rightarrow> BlockHash option \<Rightarrow> Tip option nres" where
  "next_tip Q A dt missing =
     (case missing of
        None \<Rightarrow> Inr (Some dt)
      | Some g \<Rightarrow>
          and_then (of_archive (get_header A g)) (\<lambda>hdr.
          case prev_side_hash hdr of
            None \<Rightarrow> Inr None
          | Some p \<Rightarrow> and_then (verified_tip (ord_hash Q) A p) (\<lambda>t. Inr (Some t))))"

definition common_height :: "'acc Archive \<Rightarrow> Tip option \<Rightarrow> Tip \<Rightarrow> u32 option nres option" where
  "common_height A cur dt =
     (case cur of
        None \<Rightarrow> Some (Inr None)
      | Some c \<Rightarrow>
          opt_then (map_option of_archive (last_common_ancestor A (tip_block_hash dt) (tip_block_hash c))) (\<lambda>common.
          case common of
            None \<Rightarrow> Some (Inr None)
          | Some g \<Rightarrow> Some (and_then (of_archive (ar_get_height A g)) (\<lambda>k. Inr (Some k)))))"

text \<open>One tip that waited for the block, with the peers that announced it.\<close>

definition waiting_tip :: "orders \<Rightarrow> Tip option \<Rightarrow> Tip \<times> SocketAddr fset \<Rightarrow> ('acc, unit) top" where
  "waiting_tip Q cur = (\<lambda>(dt, peers).
     t_then (t_read (\<lambda>t. common_height (nt_archive t) cur dt)) (\<lambda>low.
     t_then (t_read (\<lambda>t. first_missing (nt_archive t) (tip_block_hash dt) low)) (\<lambda>missing.
     t_then (t_write (case missing of Some g \<Rightarrow> await_body g dt peers | None \<Rightarrow> id)) (\<lambda>_.
     t_then (t_read (\<lambda>t. Some (next_tip Q (nt_archive t) dt missing))) (\<lambda>next.
     case next of
       None \<Rightarrow> t_write id
     | Some new \<Rightarrow>
         t_then (t_read (\<lambda>t. improves (nt_archive t) cur new)) (\<lambda>better.
         t_write (\<lambda>t. if better then fold (tip_ready new) (ord_addrs Q peers) t else t)))))))"

text \<open>The tips that waited for the block are taken out of the map before they are handled.\<close>

definition waiting_tips :: "orders \<Rightarrow> Tip option \<Rightarrow> BlockHash \<Rightarrow> ('acc, unit) top" where
  "waiting_tips Q cur h t =
     (case fmlookup (nt_descendants t) h of
        None \<Rightarrow> Some (Inr (), t)
      | Some tips \<Rightarrow>
          t_each (waiting_tip Q cur) (map (\<lambda>dt. (dt, the (fmlookup tips dt))) (ord_tips Q (fmdom tips)))
            (t\<lparr>nt_descendants := fmdrop h (nt_descendants t)\<rparr>))"

definition handle_block_response ::
  "'acc ext \<Rightarrow> orders \<Rightarrow> SocketAddr \<Rightarrow> BlockHash \<Rightarrow> Tip \<Rightarrow> BlockHash option \<Rightarrow> PeerStateId \<Rightarrow> Header \<Rightarrow> Body \<Rightarrow>
   ('acc, unit) top" where
  "handle_block_response X Q a h dt ancestor i hdr body =
     (if header_hash X hdr \<noteq> h then t_write (drop_peer a)
      else
        t_then (store_body Q h body) (\<lambda>_.
        t_then (report_bodies h dt ancestor i a) (\<lambda>_.
        t_then (t_read (\<lambda>t. Some (node_tip (ord_hash Q) (nt_node t)))) (\<lambda>cur.
        t_then (t_read (\<lambda>t. Some (and_then (of_archive (verification_below (nt_archive t) h (tip_main_block_hash dt)
                              (ord_hash Q (fmdom (get_bmm_results (nt_archive t) h))))) (\<lambda>m.
                  ok_or (Panic ''called Option::unwrap() on a None value'') m)))) (\<lambda>m.
        t_then (t_write (\<lambda>t. if prev_side_hash hdr = map_option tip_block_hash cur
                             then tip_ready \<lparr>tip_block_hash = h, tip_main_block_hash = m\<rparr> a t else t)) (\<lambda>_.
        waiting_tips Q cur h))))))"

section \<open>Headers from a peer\<close>

fun headers_linked :: "'acc ext \<Rightarrow> 'acc Archive \<Rightarrow> BlockHash option \<Rightarrow> Header list \<Rightarrow> bool" where
  "headers_linked X A prev [] = True"
| "headers_linked X A prev (hdr # hdrs) \<longleftrightarrow>
     prev_side_hash hdr = prev \<and> \<not> invalidated_block A (header_hash X hdr) \<and> headers_linked X A (Some (header_hash X hdr)) hdrs"

text \<open>Whether headers answer a request; the heights wrap.\<close>

definition check_headers :: "'acc ext \<Rightarrow> 'acc Archive \<Rightarrow> BlockHash fset \<Rightarrow> BlockHash \<Rightarrow> u32 \<Rightarrow> Header list \<Rightarrow> bool ares" where
  "check_headers X A start stop want hdrs =
     (case hdrs of
        [] \<Rightarrow> Inr False
      | first # _ \<Rightarrow>
          let prev = prev_side_hash first; n = word_of_nat (length hdrs) in
          if header_hash X (last hdrs) \<noteq> stop then Inr False
          else if (case prev of Some p \<Rightarrow> p |\<notin>| start | None \<Rightarrow> False) then Inr False
          else
            and_then (case prev of
                        Some p \<Rightarrow> and_then (ar_get_height A p) (\<lambda>k. Inr (k + n)) | None \<Rightarrow> Inr (n - 1)) (\<lambda>end_height.
            Inr (end_height = want \<and> headers_linked X A prev hdrs)))"

text \<open>Headers that are not stored yet are stored, up to one whose parent is not known.\<close>

fun store_headers ::
  "'acc ext \<Rightarrow> (hash256 fset \<Rightarrow> hash256 list) \<Rightarrow> Header list \<Rightarrow> 'acc Archive \<Rightarrow> 'acc Archive ares" where
  "store_headers X ord [] A = Inr A"
| "store_headers X ord (hdr # hdrs) A =
     (if fmlookup (ar_headers A) (header_hash X hdr) \<noteq> None then store_headers X ord hdrs A
      else if (case prev_side_hash hdr of Some p \<Rightarrow> fmlookup (ar_headers A) p = None | None \<Rightarrow> False) then Inr A
      else and_then (put_header X ord hdr A) (store_headers X ord hdrs))"

definition handle_headers_response ::
  "'acc ext \<Rightarrow> orders \<Rightarrow> SocketAddr \<Rightarrow> BlockHash fset \<Rightarrow> BlockHash \<Rightarrow> u32 \<Rightarrow> PeerStateId \<Rightarrow> Header list \<Rightarrow> ('acc, unit) top" where
  "handle_headers_response X Q a start stop want i hdrs =
     t_then (t_read (\<lambda>t. Some (of_archive (check_headers X (nt_archive t) start stop want hdrs)))) (\<lambda>ok.
     if \<not> ok then t_write (drop_peer a)
     else
       t_then (t_read (\<lambda>t. Some (of_archive (store_headers X (ord_hash Q) hdrs (nt_archive t))))) (\<lambda>A.
       t_write (\<lambda>t. tell_peer (HeadersAvailable i) a (t\<lparr>nt_node := (nt_node t)\<lparr>nd_archive := A\<rparr>\<rparr>))))"

section \<open>Responses\<close>

definition handle_response :: "'acc ext \<Rightarrow> orders \<Rightarrow> SocketAddr \<Rightarrow> ResponseMessage \<Rightarrow> Request \<Rightarrow> ('acc, unit) top" where
  "handle_response X Q a resp req =
     (case (req, resp) of
        (GetBlock r, BlockRsp hdr body) \<Rightarrow>
          (case (gb_descendant_tip r, gb_peer_state_id r) of
             (Some dt, Some i) \<Rightarrow> handle_block_response X Q a (gb_block_hash r) dt (gb_ancestor r) i hdr body
           | _ \<Rightarrow> t_write (drop_peer a))
      | (GetBlock r, NoBlock h) \<Rightarrow>
          if gb_descendant_tip r \<noteq> None \<and> gb_peer_state_id r \<noteq> None \<and> gb_block_hash r = h then t_write id
          else t_write (drop_peer a)
      | (GetHeaders r, HeadersRsp hdrs) \<Rightarrow>
          (case (gh_height r, gh_peer_state_id r) of
             (Some k, Some i) \<Rightarrow> handle_headers_response X Q a (gh_start r) (gh_end r) k i hdrs
           | _ \<Rightarrow> t_write (drop_peer a))
      | (GetHeaders r, NoHeader h) \<Rightarrow> if gh_end r = h then t_write id else t_write (drop_peer a)
      | (PushTransaction _, TransactionAccepted _) \<Rightarrow> t_write id
      | (PushTransaction _, TransactionRejected _) \<Rightarrow> t_write id
      | _ \<Rightarrow> t_write (drop_peer a))"

section \<open>The mainchain\<close>

text \<open>Tips of the state that are no sidechain tips are disconnected from the state, in one write transaction.\<close>

partial_function (option) rewind_untracked :: "'acc ext \<Rightarrow> 'acc Node \<Rightarrow> 'acc Node nres option" where
  "rewind_untracked X n =
     (case try_get_tip (nd_state n) of
        None \<Rightarrow> Some (Inr n)
      | Some t \<Rightarrow>
          if db_has (sidechain_tips (ar_side_tips (nd_archive n))) t then Some (Inr n)
          else
            (case and_then (of_archive (get_header (nd_archive n) t)) (\<lambda>hdr.
                  and_then (of_archive (get_body (nd_archive n) t)) (\<lambda>body.
                  of_state (disconnect_tip X hdr body (nd_state n)))) of
               Inl e \<Rightarrow> Some (Inl e)
             | Inr s \<Rightarrow> rewind_untracked X (n\<lparr>nd_state := s\<rparr>)))"

declare rewind_untracked.simps [code]

definition handle_mainchain_block_event ::
  "'acc ext \<Rightarrow> (hash256 fset \<Rightarrow> hash256 list) \<Rightarrow> rpc option \<Rightarrow> 'acc Node \<Rightarrow> (unit nres \<times> 'acc Node) option" where
  "handle_mainchain_block_event X ord rpc n =
     (case rewind_untracked X n of
        None \<Rightarrow> None
      | Some (Inl e) \<Rightarrow> Some (Inl e, n)
      | Some (Inr n1) \<Rightarrow>
          (case best_side_tip (ar_side_tips (nd_archive n1)) of
             None \<Rightarrow> Some (Inr (), n1)
           | Some (h, info) \<Rightarrow>
               (case reorg_to_tip X ord rpc \<lparr>tip_block_hash = h, tip_main_block_hash = sti_main_block_hash info\<rparr> n1 of
                  None \<Rightarrow> None
                | Some (Inl e, n2) \<Rightarrow> Some (Inl e, n2)
                | Some (Inr _, n2) \<Rightarrow> Some (Inr (), n2))))"

text \<open>The answer of the mainchain task to a request for ancestors: an error, or whether the block is available.\<close>

definition handle_mainchain_task_response :: "orders \<Rightarrow> hash256 \<Rightarrow> bool option \<Rightarrow> 'acc NetTask \<Rightarrow> 'acc NetTask" where
  "handle_mainchain_task_response Q m res t =
     (case fmlookup (nt_sources t) m of
        None \<Rightarrow> t
      | Some sources \<Rightarrow>
          fold (\<lambda>(a, i). tell_peer (if res = Some True then MainchainAncestors i else MainchainAncestorsError) a)
            (ord_sources Q sources) (t\<lparr>nt_sources := fmdrop m (nt_sources t)\<rparr>))"

section \<open>Connections\<close>

text \<open>
  Errors of a connection. The chain of sources of an error may have an error of the QUIC library, which
  \<open>ReadMagic\<close>, \<open>ReadToEnd\<close> and the remaining errors carry.
\<close>

datatype QuinnError = TimedOut | ApplicationClosed u64 bytes | QuinnOther

datatype Receive =
  BadMagic bytes
| Bincode
| ReceiveConnection QuinnError
| ReadMagic "QuinnError option"
| ReadToEnd "QuinnError option"
| ReceiveTimeout

datatype MailboxError =
  HeartbeatTimeout
| ReceiveRequest Receive
| MailboxOther "QuinnError option"

datatype ConnectionError =
  Connection QuinnError
| Mailbox MailboxError
| ReceiveResponse Receive
| OtherError "QuinnError option"

fun receive_source :: "Receive \<Rightarrow> QuinnError option" where
  "receive_source (ReceiveConnection q) = Some q"
| "receive_source (ReadMagic q) = q"
| "receive_source (ReadToEnd q) = q"
| "receive_source _ = None"

fun quinn_source :: "ConnectionError \<Rightarrow> QuinnError option" where
  "quinn_source (Connection q) = Some q"
| "quinn_source (Mailbox (ReceiveRequest r)) = receive_source r"
| "quinn_source (Mailbox (MailboxOther q)) = q"
| "quinn_source (Mailbox HeartbeatTimeout) = None"
| "quinn_source (ReceiveResponse r) = receive_source r"
| "quinn_source (OtherError q) = q"

definition is_connect_timeout :: "ConnectionError \<Rightarrow> bool" where
  "is_connect_timeout e \<longleftrightarrow> e = Connection TimedOut"

definition is_duplicate_connection :: "ConnectionError \<Rightarrow> bool" where
  "is_duplicate_connection e \<longleftrightarrow> quinn_source e = Some (ApplicationClosed 1 (string_bytes ''already connected''))"

fun is_bad_magic :: "ConnectionError \<Rightarrow> bool" where
  "is_bad_magic (Mailbox (ReceiveRequest (BadMagic _))) = True"
| "is_bad_magic (ReceiveResponse (BadMagic _)) = True"
| "is_bad_magic _ = False"

text \<open>A connection failed. Some peers are dialed again after a while, a peer of another network is forgotten.\<close>

definition handle_peer_error :: "SocketAddr \<Rightarrow> ConnectionError \<Rightarrow> ResolvedSeedAddress \<Rightarrow> 'acc NetTask \<Rightarrow> 'acc NetTask" where
  "handle_peer_error a e resolved t =
     (let again = (\<lambda>r t. t\<lparr>nt_reconnect := nt_reconnect t @ [r]\<rparr>);
          next_addr = (\<lambda>t. case snd (pop_first_ip_addr resolved) of Some r \<Rightarrow> again r t | None \<Rightarrow> t) in
      if e = Mailbox HeartbeatTimeout then
        (case fmlookup (active_peers (nt_net t)) a of
           None \<Rightarrow> t
         | Some h \<Rightarrow> if ph_received h then again resolved (drop_peer a t) else next_addr (drop_peer a t))
      else
        let t1 = drop_peer a t;
            t2 = (if is_duplicate_connection e \<or> is_connect_timeout e then again resolved t1
                  else if \<not> is_bad_magic e then next_addr t1 else t1) in
        if is_bad_magic e then t2\<lparr>nt_net := snd (forget_peer a (nt_net t2))\<rparr> else t2)"

text \<open>A transaction from a peer is validated again, put into the pool and sent to the other peers.\<close>

definition handle_new_transaction :: "'acc ext \<Rightarrow> SocketAddr \<Rightarrow> AuthorizedTransaction \<Rightarrow> ('acc, unit) top" where
  "handle_new_transaction X a at t =
     (let n = nt_node t in
      case and_then (regenerate_proof X (nd_state n) (auth_transaction at)) (\<lambda>tx.
           let at1 = at\<lparr>auth_transaction := tx\<rparr> in
           and_then (validate_transaction X (nd_state n) at1) (\<lambda>_. Inr at1)) of
        Inl (Panic m) \<Rightarrow> Some (Inl (Panic m), t)
      | Inl (Fail _) \<Rightarrow> Some (Inr (), drop_peer a t)
      | Inr at1 \<Rightarrow>
          (case pool_put X at1 (nd_mempool n) of
             Inr p \<Rightarrow> Some (Inr (), t\<lparr>nt_node := n\<lparr>nd_mempool := p\<rparr>, nt_net := push_tx {|a|} at1 (nt_net t)\<rparr>)
           | Inl MpUtxoDoubleSpent \<Rightarrow> Some (Inr (), t)))"

section \<open>The mailbox\<close>

datatype PeerInfo =
  PeerError ConnectionError ResolvedSeedAddress
| PeerTold Info

datatype MailboxItem =
  AcceptConnection SocketAddr bool
| ForwardMainchainTaskRequest hash256 SocketAddr PeerStateId
| MainchainBlock
| MainchainResponse hash256 "bool option"
| NewTip Tip "SocketAddr option"
| PeerInfoClosed
| PeerClosed SocketAddr
| PeerInfoItem SocketAddr PeerInfo
| ReconnectPeer ResolvedSeedAddress

text \<open>Errors of a response handler drop the peer; only a panic ends the task.\<close>

definition guarded :: "SocketAddr \<Rightarrow> ('acc, unit) top \<Rightarrow> ('acc, unit) top" where
  "guarded a m t =
     (case m t of Some (Inl (Fail _), t1) \<Rightarrow> Some (Inr (), drop_peer a t1) | r \<Rightarrow> r)"

definition handle_info :: "'acc ext \<Rightarrow> orders \<Rightarrow> SocketAddr \<Rightarrow> Info \<Rightarrow> ('acc, unit) top" where
  "handle_info X Q a info =
     (case info of
        NeedMainchainAncestors m i \<Rightarrow> t_write (\<lambda>t. t\<lparr>nt_forward := nt_forward t @ [(m, a, i)]\<rparr>)
      | NewTipReady new \<Rightarrow> t_write (tip_ready new a)
      | NewTransaction at \<Rightarrow> handle_new_transaction X a at
      | Response resp req \<Rightarrow> guarded a (handle_response X Q a resp req))"

text \<open>
  One item of the mailbox. \<open>takes\<close> says whether the mainchain task takes a request. An error ends the task. The loop
  that dials known peers ends only on an error of the database, so there is no item for it.
\<close>

definition mailbox_step ::
  "'acc ext \<Rightarrow> orders \<Rightarrow> rpc option \<Rightarrow> (SocketAddr \<Rightarrow> string \<Rightarrow> QuicConnect) \<Rightarrow> (hash256 \<Rightarrow> bool) \<Rightarrow> MailboxItem \<Rightarrow>
   ('acc, unit) top" where
  "mailbox_step X Q rpc quic takes item =
     (case item of
        AcceptConnection a closed \<Rightarrow> t_write (\<lambda>t. t\<lparr>nt_net := snd (accept_incoming a closed (nt_net t))\<rparr>)
      | ForwardMainchainTaskRequest m a i \<Rightarrow>
          t_write (\<lambda>t. if takes m then
              t\<lparr>nt_main_requests := nt_main_requests t @ [m],
                nt_sources := fmupd m (finsert (a, i) (case fmlookup (nt_sources t) m of Some s \<Rightarrow> s | None \<Rightarrow> {||}))
                  (nt_sources t)\<rparr> else t)
      | MainchainBlock \<Rightarrow>
          (\<lambda>t. map_option (\<lambda>(r, n). (r, t\<lparr>nt_node := n\<rparr>)) (handle_mainchain_block_event X (ord_hash Q) rpc (nt_node t)))
      | MainchainResponse m res \<Rightarrow> t_write (handle_mainchain_task_response Q m res)
      | NewTip new a \<Rightarrow>
          (\<lambda>t. case new_tip_ready X (ord_hash Q) rpc new a (nt_node t) of
                 None \<Rightarrow> None
               | Some (Inl e, n) \<Rightarrow> Some (Inl e, t\<lparr>nt_node := n\<rparr>)
               | Some (Inr (_, None), n) \<Rightarrow> Some (Inr (), t\<lparr>nt_node := n\<rparr>)
               | Some (Inr (_, Some b), n) \<Rightarrow> Some (Inr (), drop_peer b (t\<lparr>nt_node := n\<rparr>)))
      | PeerInfoClosed \<Rightarrow> t_read (\<lambda>_. Some (Inl (Fail NdPeerInfoRxClosed)))
      | PeerClosed a \<Rightarrow> t_write (drop_peer a)
      | PeerInfoItem a (PeerError e r) \<Rightarrow> t_write (handle_peer_error a e r)
      | PeerInfoItem a (PeerTold info) \<Rightarrow> handle_info X Q a info
      | ReconnectPeer r \<Rightarrow> t_write (\<lambda>t. t\<lparr>nt_net := snd (connect_peer quic r (nt_net t))\<rparr>))"

end
