(* ===== verification/Peer_Facts.thy ===== *)
theory Peer_Facts
  imports Net_Task Node_Machine
begin

text \<open>
  Facts about the protocol between peers: the bodies that are missing, the judgement on a peer's tip against the
  comparison of tips, what a connection asks for, and headers sent and received.
\<close>

section \<open>Missing bodies\<close>

lemma missing_next_rest:
  assumes ok: "side_ok A" and h: "fmlookup (block_hash_to_height A) h = Some k"
  shows "iter_rest A h k it ys \<Longrightarrow>
    \<exists>it'. missing_next A h it =
        Some (Inr (find (\<lambda>g. fmlookup (ar_bodies A) g = None) (map fst ys), it')) \<and>
      iter_rest A h k it' (drop 1 (dropWhile (\<lambda>(g, _). fmlookup (ar_bodies A) g \<noteq> None) ys))"
proof (induction ys arbitrary: it)
  case Nil
  obtain it' where "ancestors_rev_next A h it = Inr (None, it')" "iter_rest A h k it' []"
    using rev_next_rest [OF ok h Nil] by auto
  then show ?case by (subst missing_next.simps) auto
next
  case (Cons y ys)
  obtain a hdr where y: "y = (a, hdr)" by (cases y)
  obtain it' where step: "ancestors_rev_next A h it = Inr (Some y, it')" "iter_rest A h k it' ys"
    using rev_next_rest [OF ok h Cons.prems] by auto
  then show ?case
    using Cons.IH [OF step(2)] by (subst missing_next.simps) (auto simp: y)
qed

lemma find_filter: "find P xs = (case filter P xs of [] \<Rightarrow> None | x # _ \<Rightarrow> Some x)"
  by (induction xs) auto

lemma filter_after_find:
  "filter P (map f xs) = y # ys \<Longrightarrow> filter P (map f (drop 1 (dropWhile (\<lambda>x. \<not> P (f x)) xs))) = ys"
  by (induction xs) (auto split: if_splits)

lemma missing_take_rest:
  assumes "side_ok A" "fmlookup (block_hash_to_height A) h = Some k"
  shows "iter_rest A h k it ys \<Longrightarrow>
    missing_take A h n it = Some (Inr (take n (filter (\<lambda>g. fmlookup (ar_bodies A) g = None) (map fst ys))))"
proof (induction n arbitrary: it ys)
  case (Suc n)
  let ?P = "\<lambda>g. fmlookup (ar_bodies A) g = None"
  let ?rest = "drop 1 (dropWhile (\<lambda>(g, _). fmlookup (ar_bodies A) g \<noteq> None) ys)"
  obtain it' where step: "missing_next A h it = Some (Inr (find ?P (map fst ys), it'))" and rest: "iter_rest A h k it' ?rest"
    using missing_next_rest [OF assms Suc.prems] by blast
  show ?case
  proof (cases "filter ?P (map fst ys)")
    case Nil
    with step show ?thesis by (simp add: find_filter)
  next
    case (Cons x xs)
    have "filter ?P (map fst ?rest) = xs"
      using filter_after_find [OF Cons] by (simp add: case_prod_unfold)
    with step Suc.IH [OF rest] Cons show ?thesis by (simp add: find_filter)
  qed
qed simp

text \<open>The blocks from a height up to a block, oldest first.\<close>

definition segment :: "'acc Archive \<Rightarrow> BlockHash \<Rightarrow> u32 \<Rightarrow> u32 \<Rightarrow> BlockHash list" where
  "segment A h k start = map (\<lambda>j. fst (item_at A h k j)) [unat start..<Suc (unat k)]"

lemma missing_exact:
  assumes "side_ok A" "fmlookup (block_hash_to_height A) h = Some k"
  shows "missing_take A h n (rev_new start) =
      Some (Inr (take n (filter (\<lambda>g. fmlookup (ar_bodies A) g = None) (segment A h k start))))"
    and "\<exists>it. missing_next A h (rev_new start) =
      Some (Inr (find (\<lambda>g. fmlookup (ar_bodies A) g = None) (segment A h k start), it))"
proof -
  have rest: "iter_rest A h k (rev_new start) (map (item_at A h k) [unat start..<Suc (unat k)])"
    by (auto simp: iter_rest_def rev_new_def)
  have seg: "map fst (map (item_at A h k) [unat start..<Suc (unat k)]) = segment A h k start" by (simp add: segment_def)
  show "missing_take A h n (rev_new start) =
      Some (Inr (take n (filter (\<lambda>g. fmlookup (ar_bodies A) g = None) (segment A h k start))))"
    using missing_take_rest [OF assms rest, of n] by (simp only: seg)
  show "\<exists>it. missing_next A h (rev_new start) =
      Some (Inr (find (\<lambda>g. fmlookup (ar_bodies A) g = None) (segment A h k start), it))"
    using missing_next_rest [OF assms rest] by (metis seg)
qed

context chain_store
begin

lemma above_linear:
  assumes "ok s" "has_ancestor (ht s) (par s) h a" "has_ancestor (ht s) (par s) h b" "ht s a = Inr i" "ht s b = Inr j" "j \<le> i"
  shows "has_ancestor (ht s) (par s) a b"
proof -
  obtain k where k: "ht s h = Inr k" using assms(2) by (auto simp: has_ancestor_def)
  have a: "i \<le> k" "walk (par s) (unat k - unat i) h = Inr a" using above_height [OF assms(1) k assms(4)] assms(2) by simp_all
  have b: "j \<le> k" "walk (par s) (unat k - unat j) h = Inr b" using above_height [OF assms(1) k assms(5)] assms(3) by simp_all
  have "unat k - unat j = (unat k - unat i) + (unat i - unat j)" using a(1) assms(6) by (simp add: word_le_nat_alt)
  then have "walk (par s) (unat i - unat j) a = Inr b" using a(2) b(2) walk_add [of "par s" "unat k - unat i" "unat i - unat j" h] by simp
  then show ?thesis using above_height [OF assms(1,4,5)] assms(6) by simp
qed

end

lemma set_segment:
  assumes "side_ok A" "fmlookup (block_hash_to_height A) h = Some k"
  shows "g \<in> set (segment A h k start) \<longleftrightarrow>
    has_ancestor (ar_get_height A) (side_parent A) h g \<and> (\<exists>j. fmlookup (block_hash_to_height A) g = Some j \<and> start \<le> j)"
proof
  assume "g \<in> set (segment A h k start)"
  then obtain j where j: "unat start \<le> j" "j \<le> unat k" and g: "g = fst (item_at A h k j)" by (auto simp: segment_def)
  have walk: "walk (side_parent A) (unat k - j) h = Inr g" using item_at_props(1) [OF assms j(2)] g by simp
  obtain i where "fmlookup (block_hash_to_height A) g = Some i" "unat i = unat k - (unat k - j)"
    using side.walk_up [OF assms(1), of h k "unat k - j"] assms(2) walk by auto
  then show "has_ancestor (ar_get_height A) (side_parent A) h g \<and>
      (\<exists>j. fmlookup (block_hash_to_height A) g = Some j \<and> start \<le> j)"
    using walk j assms(2) by (auto simp: has_ancestor_def word_le_nat_alt intro!: exI [of _ "unat k - j"])
next
  assume "has_ancestor (ar_get_height A) (side_parent A) h g \<and>
      (\<exists>j. fmlookup (block_hash_to_height A) g = Some j \<and> start \<le> j)"
  then obtain j where j: "has_ancestor (ar_get_height A) (side_parent A) h g" "fmlookup (block_hash_to_height A) g = Some j" "start \<le> j"
    by blast
  then have w: "j \<le> k" "walk (side_parent A) (unat k - unat j) h = Inr g"
    using side.above_height [OF assms(1), of h k g j] assms(2) by simp_all
  then have "g = fst (item_at A h k (unat j))" using item_at_props(1) [OF assms, of "unat j"] by (simp add: word_le_nat_alt)
  then show "g \<in> set (segment A h k start)" using j(3) w(1) by (auto simp: segment_def word_le_nat_alt simp del: upt_Suc)
qed

section \<open>The judgement on a peer's tip\<close>

definition truthful :: "'acc Archive \<Rightarrow> TipInfo \<Rightarrow> bool" where
  "truthful A t \<longleftrightarrow> ar_get_height A (tip_block_hash (ti_tip t)) = Inr (ti_block_height t) \<and>
     get_total_work A (tip_main_block_hash (ti_tip t)) = Inr (ti_total_work t)"

lemma with_headers_stored:
  "fmlookup (ar_headers A) (tip_block_hash (ti_tip peer)) \<noteq> None \<Longrightarrow> with_headers A own peer i v = v"
  by (auto simp: with_headers_def)

lemma compare_agrees:
  assumes cmp: "comparable A (ti_tip own) (ti_tip peer)" and truth: "truthful A own" "truthful A peer"
    and deep: "ti_block_height own \<noteq> 0" "ti_block_height peer \<noteq> 0"
  shows "compare_peer_tip A own peer i =
    Some (Inr (if better_tip A (ti_tip own) (ti_tip peer) = Some (Inr (Some (ti_tip peer))) then Some True else None, []))"
proof -
  let ?t0 = "ti_tip own" and ?t1 = "ti_tip peer"
  have side: "side_ok A" using cmp by (simp add: comparable_def)
  have "fmlookup (block_hash_to_height A) (tip_block_hash ?t1) \<noteq> None" using cmp by (auto simp: comparable_def)
  then have hdr: "fmlookup (ar_headers A) (tip_block_hash ?t1) \<noteq> None" using side_ok_dom [OF side, of "tip_block_hash ?t1"] by simp
  obtain c j where c: "last_common_main_ancestor A (tip_main_block_hash ?t0) (tip_main_block_hash ?t1) = Some (Inr c)"
    "fmlookup (main_block_hash_to_height A) c = Some j" using comparable_fork [OF cmp] by metis
  then have j: "get_main_height A c = Inr j" by simp
  obtain r0 u0 where s0: "find_ancestor A (height_before_fork A c) (Some (tip_block_hash ?t0)) = Some (Inr r0)"
    "find_ancestor A (work_before_fork A c j) (Some (tip_block_hash ?t0)) = Some (Inr u0)"
    using comparable_searches [OF cmp c(2), of ?t0] by auto
  obtain r1 u1 where s1: "find_ancestor A (height_before_fork A c) (Some (tip_block_hash ?t1)) = Some (Inr r1)"
    "find_ancestor A (work_before_fork A c j) (Some (tip_block_hash ?t1)) = Some (Inr u1)"
    using comparable_searches [OF cmp c(2), of ?t1] by auto
  obtain b where b: "shared_mainchain_lineage A (tip_main_block_hash ?t0) (tip_main_block_hash ?t1) = Inr b"
    using comparable_lineage [OF cmp] by metis
  note truths = truth [unfolded truthful_def]
  show ?thesis
  proof (cases "?t0 = ?t1")
    case True
    then have "ti_block_height own = ti_block_height peer" "ti_total_work own = ti_total_work peer" using truths by auto
    with True show ?thesis by (simp add: compare_peer_tip_def check_equal_tip_def worse_verdict_def better_tip_def Let_def)
  next
    case False
    then have ne: "?t1 \<noteq> ?t0" by metis
    show ?thesis
      unfolding better_tip_def better_equal_tip_def compare_peer_tip_def check_equal_tip_def check_crossed_tip_def
        with_headers_stored [OF hdr] better_verdict_def worse_verdict_def
      by (cases "ti_block_height own" "ti_block_height peer" rule: linorder_cases;
          cases "ti_total_work own" "ti_total_work peer" rule: linorder_cases)
        (simp_all add: Let_def c(1) j s0 s1 b truths deep False ne not_less not_le less_imp_le,
         auto simp: not_less not_le dest: order.strict_trans order.asym)
  qed
qed

section \<open>The answer of the handler\<close>

lemma ready_parts:
  assumes "handle_peer_state H ord n ps = Some (Inr (reqs, infos))" "NewTipReady t \<in> set infos"
  shows "\<exists>peer own common rq. ps_tip_info ps = Some peer \<and> t = ti_tip peer \<and> own_tip_info ord n = Inr own \<and>
    fmlookup (main_header_infos (nd_archive n)) (tip_main_block_hash t) \<noteq> None \<and>
    check_claims (nd_archive n) peer = Inr () \<and>
    check_peer_tip_and_request_headers (nd_archive n) own peer (hash_state H ps) = Some (Inr (Some True, rq)) \<and>
    try_get_bmm_result (nd_archive n) (tip_block_hash t) (tip_main_block_hash t) = Some BmmVerified \<and>
    bodies_to_request (nd_archive n) own peer = Some (Inr (common, []))"
  using assms
  by (auto simp: handle_peer_state_def Let_def opt_then_eq_Inr res_simps split: option.splits if_splits prod.splits)

lemma active_peer_main:
  assumes "check_peer_tip_and_request_headers A own peer i = Some (Inr (Some v, rq))"
  shows "\<exists>cur. tip_info (mainchain_tip (ar_side_tips A)) = Some cur \<and>
    is_main_descendant A (tip_main_block_hash (ti_tip peer)) (bhi_block_hash cur) = Inr True"
  using assms
  by (auto simp: check_peer_tip_and_request_headers_def peer_main_active_def Let_def opt_then_eq_Inr worse_verdict_def
      split: option.splits if_splits)

text \<open>No body is missing above the last common ancestor with the own tip.\<close>

lemma bodies_complete:
  assumes ok: "side_ok A" and h: "fmlookup (block_hash_to_height A) (tip_block_hash (ti_tip peer)) = Some k"
    and own: "\<And>t. own = Some t \<Longrightarrow> \<exists>j. fmlookup (block_hash_to_height A) (tip_block_hash (ti_tip t)) = Some j"
    and small: "unat k < 2 ^ 31" and none: "bodies_to_request A own peer = Some (Inr (common, []))"
    and g: "has_ancestor (ar_get_height A) (side_parent A) (tip_block_hash (ti_tip peer)) g"
    and new: "\<And>t. own = Some t \<Longrightarrow> \<not> has_ancestor (ar_get_height A) (side_parent A) (tip_block_hash (ti_tip t)) g"
  shows "fmlookup (ar_bodies A) g \<noteq> None"
proof -
  let ?h = "tip_block_hash (ti_tip peer)"
  obtain start where common: "(case own of Some t \<Rightarrow> last_common_ancestor A (tip_block_hash (ti_tip t)) ?h | None \<Rightarrow> Some (Inr None)) =
      Some (Inr common)"
    and start: "(case common of Some c \<Rightarrow> ar_get_height A c | None \<Rightarrow> Inr 0) = Inr start"
    and missing: "missing_take A ?h max_block_requests (rev_new start) = Some (Inr [])"
    using none by (auto simp: bodies_to_request_def Let_def opt_then_eq_Inr)
  have "filter (\<lambda>g. fmlookup (ar_bodies A) g = None) (segment A ?h k start) = []"
    using missing missing_exact(1) [OF ok h, of max_block_requests start] by (simp add: max_block_requests_def)
  then have bodies: "fmlookup (ar_bodies A) g \<noteq> None" if "g \<in> set (segment A ?h k start)" using that by (auto simp: filter_empty_conv)
  obtain j where j: "fmlookup (block_hash_to_height A) g = Some j" using side.above_known [OF ok g] by auto
  have "start \<le> j"
  proof (cases common)
    case (Some c)
    then obtain t where t: "own = Some t" "last_common_ancestor A (tip_block_hash (ti_tip t)) ?h = Some (Inr (Some c))"
      using common by (auto split: option.splits)
    obtain i where i: "fmlookup (block_hash_to_height A) (tip_block_hash (ti_tip t)) = Some i" using own [OF t(1)] by blast
    have "unat (min i k) < 2 ^ 31" using small by (auto simp: min_def word_le_nat_alt)
    then have lc: "last_common (ar_get_height A) (side_parent A) (tip_block_hash (ti_tip t)) ?h c"
      using last_common_ancestor_exact [OF ok i h] t(2) by auto
    show ?thesis
    proof (rule ccontr)
      assume "\<not> start \<le> j"
      then have "has_ancestor (ar_get_height A) (side_parent A) c g"
        using side.above_linear [OF ok _ g, of c start j] lc start Some j by (auto simp: last_common_def)
      then show False using new [OF t(1)] side.above_trans [OF ok, of "tip_block_hash (ti_tip t)" c g] lc by (auto simp: last_common_def)
    qed
  qed (use start in simp)
  then show ?thesis using bodies set_segment [OF ok h, of g start] g j by auto
qed

section \<open>Headers\<close>

lemma headers_until_exact:
  assumes "side_ok A" "fmlookup (block_hash_to_height A) h = Some k"
  shows "headers_until A start (Some h) =
    Some (Inr (map (\<lambda>g. the (fmlookup (ar_headers A) g)) (takeWhile (\<lambda>g. g |\<notin>| start) (lineage A (unat k) h))))"
  using assms
proof (induction rule: lineage_induct)
  case (root h hdr)
  have "headers_until A start None = Some (Inr [])" by (subst headers_until.simps) simp
  with root show ?case by (subst headers_until.simps) (auto simp: get_header_def)
next
  case (step h hdr p n)
  then show ?case by (subst headers_until.simps) (auto simp: get_header_def)
qed

text \<open>The induction over ancestors, with their heights.\<close>

lemma height_induct [consumes 2, case_names root step]:
  assumes ok: "side_ok A" "fmlookup (block_hash_to_height A) h = Some k"
    and root: "\<And>h hdr. fmlookup (ar_headers A) h = Some hdr \<Longrightarrow> prev_side_hash hdr = None \<Longrightarrow>
      fmlookup (block_hash_to_height A) h = Some 0 \<Longrightarrow> P h 0"
    and step: "\<And>h hdr p i j. fmlookup (ar_headers A) h = Some hdr \<Longrightarrow> prev_side_hash hdr = Some p \<Longrightarrow>
      fmlookup (block_hash_to_height A) h = Some i \<Longrightarrow> fmlookup (block_hash_to_height A) p = Some j \<Longrightarrow>
      unat i = Suc (unat j) \<Longrightarrow> P p (unat j) \<Longrightarrow> P h (Suc (unat j))"
  shows "P h (unat k)"
proof -
  have "P h (unat k) \<and> (\<exists>i. fmlookup (block_hash_to_height A) h = Some i \<and> unat i = unat k)"
    using ok
  proof (induction rule: lineage_induct)
    case (root h hdr)
    then have "fmlookup (block_hash_to_height A) h = Some 0" using ok(1) by (auto simp: side_ok_def)
    with assms(3) [OF root] show ?case by simp
  next
    case (step h hdr p n)
    then obtain j where j: "fmlookup (block_hash_to_height A) p = Some j" "unat j = n" by blast
    obtain i where i: "fmlookup (block_hash_to_height A) h = Some i" using side_ok_dom [OF ok(1), of h] step(1) by auto
    then have "unat i = Suc (unat j)" using side_known [OF ok(1) i] step(1,2) j by auto
    with assms(4) [OF step(1,2) i j(1)] step(3) i j(2) show ?case by auto
  qed
  then show ?thesis by blast
qed

lemma headers_linked_snoc:
  "headers_linked X A prev (hdrs @ [hdr]) \<longleftrightarrow> headers_linked X A prev hdrs \<and>
     prev_side_hash hdr = (if hdrs = [] then prev else Some (header_hash X (last hdrs))) \<and>
     \<not> invalidated_block A (header_hash X hdr)"
  by (induction hdrs arbitrary: prev) auto

text \<open>The headers that a node sends for a block, oldest first.\<close>

definition sent_headers :: "'acc Archive \<Rightarrow> BlockHash fset \<Rightarrow> nat \<Rightarrow> BlockHash \<Rightarrow> Header list" where
  "sent_headers A start k h =
     rev (map (\<lambda>g. the (fmlookup (ar_headers A) g)) (takeWhile (\<lambda>g. g |\<notin>| start) (lineage A k h)))"

lemma sent_headers_shape:
  assumes "side_ok S" "fmlookup (block_hash_to_height S) h = Some k" and keyed: "headers_keyed X S"
    and valid: "\<And>g. fmlookup (ar_headers S) g \<noteq> None \<Longrightarrow> \<not> invalidated_block C g"
  shows "h |\<notin>| start \<Longrightarrow> sent_headers S start (unat k) h \<noteq> [] \<and>
    header_hash X (last (sent_headers S start (unat k) h)) = h \<and>
    headers_linked X C (prev_side_hash (hd (sent_headers S start (unat k) h))) (sent_headers S start (unat k) h) \<and>
    (case prev_side_hash (hd (sent_headers S start (unat k) h)) of
       None \<Rightarrow> length (sent_headers S start (unat k) h) = Suc (unat k)
     | Some p \<Rightarrow> p |\<in>| start \<and> (\<exists>i. fmlookup (block_hash_to_height S) p = Some i \<and>
         unat i + length (sent_headers S start (unat k) h) = unat k))"
  using assms(1,2)
proof (induction rule: height_induct)
  case (root h hdr)
  then have "header_hash X hdr = h" using keyed by (simp add: headers_keyed_def)
  with root show ?case using valid [of h] by (simp add: sent_headers_def)
next
  case (step h hdr p i j)
  have key: "header_hash X hdr = h" "\<not> invalidated_block C h" using step keyed valid [of h] by (simp_all add: headers_keyed_def)
  show ?case
  proof (cases "p |\<in>| start")
    case True
    then have "sent_headers S start (Suc (unat j)) h = [hdr]"
      using step by (cases "unat j") (simp_all add: sent_headers_def)
    with True step key show ?thesis by simp
  next
    case False
    have "sent_headers S start (Suc (unat j)) h = sent_headers S start (unat j) p @ [hdr]" using step by (simp add: sent_headers_def)
    with step(6) [OF False] key step show ?thesis by (auto simp: headers_linked_snoc split: option.splits)
  qed
qed

text \<open>Two archives that agree on the headers they share agree on the heights.\<close>

definition agree :: "'acc Archive \<Rightarrow> 'acc Archive \<Rightarrow> bool" where
  "agree S C \<longleftrightarrow> (\<forall>g hdr hdr'. fmlookup (ar_headers S) g = Some hdr \<longrightarrow> fmlookup (ar_headers C) g = Some hdr' \<longrightarrow> hdr = hdr')"

lemma agreeD: "agree S C \<Longrightarrow> fmlookup (ar_headers S) g = Some hdr \<Longrightarrow> fmlookup (ar_headers C) g = Some hdr' \<Longrightarrow> hdr' = hdr"
  unfolding agree_def by blast

lemma agree_heights:
  assumes "side_ok S" "fmlookup (block_hash_to_height S) h = Some k" and C: "side_ok C" and "agree S C"
  shows "fmlookup (block_hash_to_height C) h = Some j \<Longrightarrow> unat j = unat k"
  using assms(1,2)
proof (induction arbitrary: j rule: height_induct)
  case (root h hdr)
  obtain hdr' where "fmlookup (ar_headers C) h = Some hdr'" using side_known [OF C root(4)] by blast
  then show ?case using side_known [OF C root(4)] root(2) agreeD [OF assms(4) root(1)] by auto
next
  case (step h hdr p i l)
  obtain hdr' where "fmlookup (ar_headers C) h = Some hdr'" using side_known [OF C step(7)] by blast
  then obtain m where "fmlookup (block_hash_to_height C) p = Some m" "unat j = Suc (unat m)"
    using side_known [OF C step(7)] step(2) agreeD [OF assms(4) step(1)] by auto
  with step(6) show ?case by simp
qed

lemma honest_headers:
  assumes S: "side_ok S" "headers_keyed X S" "fmlookup (block_hash_to_height S) h = Some k"
    and C: "side_ok C" "agree S C" "\<And>g. g |\<in>| start \<Longrightarrow> fmlookup (ar_headers C) g \<noteq> None"
    and valid: "\<And>g. fmlookup (ar_headers S) g \<noteq> None \<Longrightarrow> \<not> invalidated_block C g" and new: "h |\<notin>| start"
  shows "handle_get_headers S start h = Some (Inr (HeadersRsp (sent_headers S start (unat k) h)))"
    and "check_headers X C start h k (sent_headers S start (unat k) h) = Inr True"
proof -
  let ?L = "sent_headers S start (unat k) h"
  have "fmlookup (ar_headers S) h \<noteq> None" using side_ok_dom [OF S(1), of h] S(3) by simp
  then show "handle_get_headers S start h = Some (Inr (HeadersRsp ?L))"
    using headers_until_exact [OF S(1,3)] by (auto simp: handle_get_headers_def sent_headers_def)
  note shape = sent_headers_shape [OF S(1,3,2) valid new]
  then obtain first rest where L: "?L = first # rest" by (cases ?L) auto
  show "check_headers X C start h k ?L = Inr True"
  proof (cases "prev_side_hash first")
    case None
    then have "length ?L = Suc (unat k)" using shape L by simp
    then have "word_of_nat (length ?L) - 1 = k" by simp
    then show ?thesis using None shape L by (simp add: check_headers_def)
  next
    case (Some p)
    then obtain i where i: "p |\<in>| start" "fmlookup (block_hash_to_height S) p = Some i" "unat i + length ?L = unat k"
      using shape L by auto
    obtain j where j: "fmlookup (block_hash_to_height C) p = Some j" using C(3) [OF i(1)] side_ok_dom [OF C(1), of p] by auto
    then have "j = i" using agree_heights [OF S(1) i(2) C(1,2)] by (simp add: unsigned_word_eqI)
    moreover have "i + word_of_nat (length ?L) = k" using arg_cong [OF i(3), of "word_of_nat :: nat \<Rightarrow> u32"] by simp
    ultimately show ?thesis using Some shape L i(1) j by (simp add: check_headers_def ar_get_height_def)
  qed
qed

section \<open>The queue of requests\<close>

text \<open>The requests sent so far have distinct hashes, and those hashes are remembered.\<close>

definition queue_ok :: "hashes \<Rightarrow> RequestQueue \<Rightarrow> bool" where
  "queue_ok H q \<longleftrightarrow> fset (rq_hashes q) = request_hash H ` set (rq_requests q) \<and> distinct (map (request_hash H) (rq_requests q))"

lemma send_request_ok: "queue_ok H q \<Longrightarrow> queue_ok H (snd (send_request H r q))"
  by (auto simp: queue_ok_def send_request_def)

lemma send_requests_ok: "queue_ok H q \<Longrightarrow> queue_ok H (send_requests H rs q)"
  unfolding send_requests_def by (induction rs arbitrary: q) (auto simp: send_request_ok)

text \<open>What a connection does, with any node and any peer.\<close>

inductive conn_step :: "'acc ext \<Rightarrow> hashes \<Rightarrow> (hash256 fset \<Rightarrow> hash256 list) \<Rightarrow> Conn \<Rightarrow> Conn \<Rightarrow> bool" for X H ord where
  request: "handle_peer_request X H n msg cn = Some (resp, r, cn') \<Longrightarrow> conn_step X H ord cn cn'"
| internal: "handle_internal_message H msg cn = Inr cn' \<Longrightarrow> conn_step X H ord cn cn'"
| task: "run_blocking_task H ord (n :: 'acc Node) cn = Some (Inr cn') \<Longrightarrow> conn_step X H ord cn cn'"
| response: "conn_step X H ord cn (forward_response resp req cn)"

lemma conn_step_queue:
  assumes "conn_step X H ord cn cn'" "queue_ok H (cn_queue cn)"
  shows "queue_ok H (cn_queue cn')"
  using assms(1)
proof cases
  case (request n msg resp r)
  then have "cn_queue cn' = cn_queue cn"
    by (auto simp: handle_peer_request_def Let_def split: RequestMessage.splits Request.splits option.splits sum.splits prod.splits if_splits)
  with assms(2) show ?thesis by simp
next
  case (internal msg)
  then show ?thesis using assms(2)
    by (cases msg) (auto simp: requeue_state_def send_request_ok split: if_splits option.splits)
next
  case (task n)
  then show ?thesis using assms(2)
    by (auto simp: run_blocking_task_def opt_then_eq_Inr send_requests_ok split: list.splits)
next
  case (response resp req)
  with assms(2) show ?thesis by (simp add: forward_response_def)
qed

inductive conn_reach :: "'acc ext \<Rightarrow> hashes \<Rightarrow> (hash256 fset \<Rightarrow> hash256 list) \<Rightarrow> Conn \<Rightarrow> bool" for X H ord where
  new: "conn_reach X H ord Conn_new"
| step: "conn_reach X H ord cn \<Longrightarrow> conn_step X H ord cn cn' \<Longrightarrow> conn_reach X H ord cn'"

lemma conn_reach_queue: "conn_reach X H ord cn \<Longrightarrow> queue_ok H (cn_queue cn)"
proof (induction rule: conn_reach.induct)
  case new
  show ?case by (simp add: queue_ok_def Conn_new_def RequestQueue_new_def)
qed (rule conn_step_queue)

end
