(* ===== verification/Net_Facts.thy ===== *)
theory Net_Facts
  imports Peer_Facts
begin

text \<open>
  The net task keeps the node's archive and state in step, whatever the peers send; what headers from a peer
  change; mainchain events; and the order in which addresses are dialed.
\<close>

section \<open>Operations that keep the node\<close>

definition keeps_node :: "('acc Node \<Rightarrow> bool) \<Rightarrow> ('acc, 'a) top \<Rightarrow> bool" where
  "keeps_node P m \<longleftrightarrow> (\<forall>t r t'. m t = Some (r, t') \<longrightarrow> P (nt_node t) \<longrightarrow> P (nt_node t'))"

lemma keeps_nodeD: "keeps_node P m \<Longrightarrow> m t = Some (r, t') \<Longrightarrow> P (nt_node t) \<Longrightarrow> P (nt_node t')"
  unfolding keeps_node_def by blast

named_theorems keeps

lemma keeps_t_read [keeps]: "keeps_node P (t_read f)"
  by (auto simp: keeps_node_def t_read_def)

lemma keeps_t_write [keeps]: "(\<And>t. nt_node (f t) = nt_node t) \<Longrightarrow> keeps_node P (t_write f)"
  by (auto simp: keeps_node_def t_write_def)

lemma keeps_t_then [keeps]:
  assumes "keeps_node P m" "\<And>x. keeps_node P (f x)"
  shows "keeps_node P (t_then m f)"
  unfolding keeps_node_def
proof (intro allI impI)
  fix t r t' assume "t_then m f t = Some (r, t')" "P (nt_node t)"
  then show "P (nt_node t')" using assms(1) assms(2)
    by (auto simp: t_then_def keeps_node_def split: option.splits sum.splits)
qed

lemma keeps_t_each [keeps]: "(\<And>x. keeps_node P (f x)) \<Longrightarrow> keeps_node P (t_each f xs)"
  by (induction xs) (auto intro!: keeps)

lemma node_frames [simp]:
  "nt_node (drop_peer a t) = nt_node t" "nt_node (tell_peer msg a t) = nt_node t" "nt_node (tip_ready new a t) = nt_node t"
  "nt_node (await_body g new peers t) = nt_node t"
  by (simp_all add: drop_peer_def tell_peer_def tip_ready_def await_body_def Let_def)

lemma fold_tip_ready [simp]: "nt_node (fold (tip_ready new) as t) = nt_node t"
  by (induction as arbitrary: t) simp_all

lemma keeps_report: "keeps_node P (report_bodies h dt ancestor i a)"
  unfolding report_bodies_def by (intro keeps) (auto split: option.splits)

lemma keeps_waiting_tip: "keeps_node P (waiting_tip Q cur e)"
  unfolding waiting_tip_def by (cases e) (auto intro!: keeps split: option.splits)

lemma keeps_waiting: "keeps_node P (waiting_tips Q cur h)"
  unfolding keeps_node_def
proof (intro allI impI)
  fix t r t' assume run: "waiting_tips Q cur h t = Some (r, t')" and P: "P (nt_node t)"
  show "P (nt_node t')"
  proof (cases "fmlookup (nt_descendants t) h")
    case (Some tips)
    have "keeps_node P (t_each (waiting_tip Q cur) xs)" for xs by (intro keeps keeps_waiting_tip)
    from keeps_nodeD [OF this] Some run P show ?thesis by (fastforce simp: waiting_tips_def)
  qed (use run P in \<open>simp add: waiting_tips_def\<close>)
qed

lemma keeps_store_body:
  assumes "\<And>n A. P n \<Longrightarrow> put_body (ord_hash Q) h body (nd_archive n) = Some (Inr A) \<Longrightarrow> P (n\<lparr>nd_archive := A\<rparr>)"
  shows "keeps_node P (store_body Q h body)"
  using assms by (auto simp: keeps_node_def store_body_def nt_archive_def split: option.splits sum.splits)

lemma keeps_block_response:
  assumes "\<And>n A. P n \<Longrightarrow> put_body (ord_hash Q) h body (nd_archive n) = Some (Inr A) \<Longrightarrow> P (n\<lparr>nd_archive := A\<rparr>)"
  shows "keeps_node P (handle_block_response X Q a h dt ancestor i hdr body)"
proof -
  have "keeps_node P (store_body Q h body)" by (rule keeps_store_body) (rule assms)
  then show ?thesis unfolding handle_block_response_def by (auto intro!: keeps keeps_report keeps_waiting)
qed

section \<open>Headers\<close>

text \<open>There is room for more heights.\<close>

definition room :: "'acc Archive \<Rightarrow> nat \<Rightarrow> bool" where
  "room A m \<longleftrightarrow> (\<forall>h k. fmlookup (block_hash_to_height A) h = Some k \<longrightarrow> unat k + m < 2 ^ 32 - 1)"

lemma roomD: "room A m \<Longrightarrow> fmlookup (block_hash_to_height A) h = Some k \<Longrightarrow> unat k + m < 2 ^ 32 - 1"
  by (simp add: room_def)

lemma u32_max: "unat (- 1 :: u32) = 2 ^ 32 - 1"
  by (simp add: unsigned_minus_1_eq_mask mask_eq_exp_minus_1)

lemma room_put:
  assumes "room A (Suc m)" "m < 2 ^ 32 - 1" "put_header X ord hdr A = Inr A'"
  shows "room A' m"
proof -
  obtain k where hts: "block_hash_to_height A' = fmupd (header_hash X hdr) k (block_hash_to_height A)"
    using put_header_tables [OF assms(3) refl] by auto
  have "unat k + m < 2 ^ 32 - 1"
  proof (cases "prev_side_hash hdr")
    case None
    then have "k = 0" using put_header_parts(5) [OF assms(3)] hts by simp
    then show ?thesis using assms(2) by simp
  next
    case (Some p)
    then obtain j where "fmlookup (block_hash_to_height A) p = Some j" "k = j + 1"
      using put_header_tables [OF assms(3) refl] put_header_parts(5) [OF assms(3)] hts by auto
    moreover from this have "unat j + Suc m < 2 ^ 32 - 1" using assms(1) by (simp add: room_def)
    moreover from this have "unat (j + 1) = Suc (unat j)" by (intro unat_plus_1) (auto simp: u32_max)
    ultimately show ?thesis by simp
  qed
  moreover have "unat j + m < 2 ^ 32 - 1" if "fmlookup (block_hash_to_height A) h = Some j" for h j
    using roomD [OF assms(1) that] by simp
  ultimately show ?thesis by (auto simp: room_def hts)
qed

lemma room_mono: "room A m \<Longrightarrow> l \<le> m \<Longrightarrow> room A l"
  by (fastforce simp: room_def)

lemma store_headers_ok:
  assumes "order_ok ord" "length hdrs < 2 ^ 32"
  shows "node_ok X n \<Longrightarrow> room (nd_archive n) (length hdrs) \<Longrightarrow> store_headers X ord hdrs (nd_archive n) = Inr A' \<Longrightarrow>
    node_ok X (n\<lparr>nd_archive := A'\<rparr>)"
  using assms(2)
proof (induction hdrs arbitrary: n)
  case (Cons hdr hdrs)
  let ?A = "nd_archive n"
  consider (known) "fmlookup (ar_headers ?A) (header_hash X hdr) \<noteq> None" "store_headers X ord hdrs ?A = Inr A'" | (stop) "A' = ?A"
    | (put) A1 where "fmlookup (ar_headers ?A) (header_hash X hdr) = None" "put_header X ord hdr ?A = Inr A1"
        "store_headers X ord hdrs A1 = Inr A'"
    using Cons.prems(3) by (auto simp: res_simps split: if_splits)
  then show ?case
  proof cases
    case known
    then show ?thesis using Cons room_mono [OF Cons.prems(2), of "length hdrs"] by simp
  next
    case put
    have "archive_step X ord ?A A1"
      using archive_step.header [OF put(2)] put(1) roomD [OF Cons.prems(2), of _ "- 1"] u32_max by fastforce
    then have ok: "node_ok X (n\<lparr>nd_archive := A1\<rparr>)" using node_put_header [OF Cons.prems(1) assms(1) put(2)] put(1) by simp
    have "room A1 (length hdrs)" using room_put [OF _ _ put(2)] Cons.prems(2,4) by simp
    with Cons.IH [of "n\<lparr>nd_archive := A1\<rparr>"] ok put(3) Cons.prems(4) show ?thesis by simp
  qed (use Cons.prems(1) in simp)
qed auto

text \<open>Headers that follow each other from a known block, or from the start of the chain, are all stored.\<close>

lemma store_headers_kept:
  "store_headers X ord hdrs A = Inr A' \<Longrightarrow> fmlookup (ar_headers A) g \<noteq> None \<Longrightarrow> fmlookup (ar_headers A') g \<noteq> None"
proof (induction hdrs arbitrary: A)
  case (Cons hdr hdrs)
  show ?case
  proof (cases "store_headers X ord hdrs A = Inr A' \<or> A' = A")
    case False
    then obtain A1 where A1: "put_header X ord hdr A = Inr A1" "store_headers X ord hdrs A1 = Inr A'"
      using Cons.prems(1) by (auto simp: res_simps split: if_splits)
    then show ?thesis using Cons.IH [OF A1(2)] put_header_parts(1) [OF A1(1)] Cons.prems(2) by simp
  qed (use Cons in auto)
qed simp

lemma store_headers_all:
  "headers_linked X B prev hdrs \<Longrightarrow> (\<And>p. prev = Some p \<Longrightarrow> fmlookup (ar_headers A) p \<noteq> None) \<Longrightarrow>
   store_headers X ord hdrs A = Inr A' \<Longrightarrow> hdr \<in> set hdrs \<Longrightarrow> fmlookup (ar_headers A') (header_hash X hdr) \<noteq> None"
proof (induction hdrs arbitrary: A prev)
  case (Cons h hdrs)
  have link: "prev_side_hash h = prev" "headers_linked X B (Some (header_hash X h)) hdrs" using Cons.prems(1) by simp_all
  obtain A1 where A1: "store_headers X ord hdrs A1 = Inr A'" "fmlookup (ar_headers A1) (header_hash X h) \<noteq> None"
    using Cons.prems(2,3) link(1) put_header_parts(1) [of X ord h A]
    by (cases "fmlookup (ar_headers A) (header_hash X h)") (auto simp: res_simps split: option.splits if_splits)
  show ?case
  proof (cases "hdr = h")
    case True
    then show ?thesis using store_headers_kept [OF A1] by simp
  next
    case False
    then show ?thesis using Cons.IH [OF link(2) _ A1(1)] A1(2) Cons.prems(4) by simp
  qed
qed simp

lemma check_headers_iff:
  "check_headers X A start stop want hdrs = Inr True \<longleftrightarrow>
     hdrs \<noteq> [] \<and> header_hash X (last hdrs) = stop \<and> headers_linked X A (prev_side_hash (hd hdrs)) hdrs \<and>
     (case prev_side_hash (hd hdrs) of
        None \<Rightarrow> want = word_of_nat (length hdrs) - 1
      | Some p \<Rightarrow> p |\<in>| start \<and> (\<exists>k. fmlookup (block_hash_to_height A) p = Some k \<and> want = k + word_of_nat (length hdrs)))"
  by (cases hdrs) (auto simp: check_headers_def Let_def res_simps split: option.splits)

text \<open>What headers from a peer change.\<close>

lemma headers_response_cases:
  "handle_headers_response X Q a start stop want i hdrs t =
     Some (case check_headers X (nt_archive t) start stop want hdrs of
        Inl e \<Rightarrow> (of_archive (Inl e), t)
      | Inr False \<Rightarrow> (Inr (), drop_peer a t)
      | Inr True \<Rightarrow>
          (case store_headers X (ord_hash Q) hdrs (nt_archive t) of
             Inl e \<Rightarrow> (of_archive (Inl e), t)
           | Inr A \<Rightarrow> (Inr (), tell_peer (HeadersAvailable i) a (t\<lparr>nt_node := (nt_node t)\<lparr>nd_archive := A\<rparr>\<rparr>))))"
  by (auto simp: handle_headers_response_def t_then_def t_read_def t_write_def of_archive_def map_fault_def
      split: sum.splits fault.splits bool.splits)

lemma headers_response_keeps:
  assumes "order_ok (ord_hash Q)" "length hdrs < 2 ^ 32" "room (nt_archive t) (length hdrs)" "node_ok X (nt_node t)"
    "handle_headers_response X Q a start stop want i hdrs t = Some (r, t')"
  shows "node_ok X (nt_node t')"
  using assms store_headers_ok [OF assms(1,2,4)]
  by (auto simp: headers_response_cases nt_archive_def split: sum.splits bool.splits)

section \<open>The mainchain\<close>

text \<open>The tip of the state is among the sidechain tips.\<close>

definition tracked :: "'acc Node \<Rightarrow> bool" where
  "tracked n \<longleftrightarrow> (\<forall>t. tip (nd_state n) = Some t \<longrightarrow> db_has (sidechain_tips (ar_side_tips (nd_archive n))) t)"

lemma rewind_tracked: "tracked n \<Longrightarrow> rewind_untracked X n = Some (Inr n)"
  by (subst rewind_untracked.simps) (auto simp: tracked_def try_get_tip_def split: option.splits)

lemma block_event_ok:
  assumes "node_ok X n" "order_ok ord" "tracked n" "handle_mainchain_block_event X ord rpc n = Some (r, n')"
  shows "node_ok X n'"
  using assms(4) node_step.reorg [of X ord rpc _ n _ n'] node_step_ok [OF _ assms(1,2)] assms(1)
  by (auto simp: handle_mainchain_block_event_def rewind_tracked [OF assms(3)] split: option.splits sum.splits)

lemma new_tip_ok:
  assumes "node_ok X n" "order_ok ord" "new_tip_ready X ord rpc new a n = Some (r, n')"
  shows "node_ok X n'"
proof -
  have "n' = n \<or> (\<exists>q. reorg_to_tip X ord rpc new n = Some (q, n'))"
    using assms(3) by (auto simp: new_tip_ready_def try_new_tip_def Let_def of_archive_def map_fault_def
        split: option.splits sum.splits fault.splits if_splits bool.splits)
  then show ?thesis using node_step.reorg node_step_ok assms(1,2) by blast
qed

lemma disconnect_keeps_tips:
  assumes "disconnect_mainchain_tip prev bc st = Inr st'"
  shows "sidechain_tips st' = sidechain_tips st"
proof -
  have "sidechain_tips st1 = sidechain_tips st" if "drop_commitment m h st = Inr st1" for m h st1
    using that by (auto simp: drop_commitment_def split: option.split_asm if_split_asm)
  then show ?thesis using assms by (cases bc) (auto simp: disconnect_mainchain_tip_def res_simps)
qed

lemma disconnect_event_tracked:
  assumes "handle_block_event ord (DisconnectBlock m) (nd_archive n) = Inr A" "tracked n"
  shows "tracked (n\<lparr>nd_archive := A\<rparr>)"
  using assms disconnect_keeps_tips by (auto simp: handle_block_event_def res_simps ar_side_eq tracked_def)

section \<open>Every item of the mailbox\<close>

fun answered_headers :: "MailboxItem \<Rightarrow> Header list" where
  "answered_headers (PeerInfoItem _ (PeerTold (Response (HeadersRsp hdrs) _))) = hdrs"
| "answered_headers _ = []"

lemma response_keeps:
  assumes ok: "order_ok (ord_hash Q)" "node_ok X (nt_node t)"
    and hdrs: "\<And>hdrs. resp = HeadersRsp hdrs \<Longrightarrow> length hdrs < 2 ^ 32 \<and> room (nt_archive t) (length hdrs)"
    and run: "handle_response X Q a resp req t = Some (r, t')"
  shows "node_ok X (nt_node t')"
proof -
  have block: "keeps_node (node_ok X) (handle_block_response X Q a h dt ancestor i hdr body)" for h dt ancestor i hdr body
    by (rule keeps_block_response) (rule node_put_body)
  have id: "nt_node t' = nt_node t" if "t_write f t = Some (r, t')" "\<And>t. nt_node (f t) = nt_node t" for f
    using that by (auto simp: t_write_def)
  show ?thesis
    using run ok keeps_nodeD [OF block _ ok(2)] headers_response_keeps [OF ok(1) _ _ ok(2)] hdrs
    by (auto simp: handle_response_def split: Request.splits ResponseMessage.splits option.splits if_splits dest!: id)
qed

lemma guarded_node:
  "guarded a m t = Some (r, t') \<Longrightarrow> \<exists>q t1. m t = Some (q, t1) \<and> nt_node t' = nt_node t1"
  by (auto simp: guarded_def split: option.splits sum.splits fault.splits prod.splits)

lemma new_transaction_ok:
  assumes "node_ok X (nt_node t)" "handle_new_transaction X a at t = Some (r, t')"
  shows "node_ok X (nt_node t')"
proof -
  have "nd_archive (nt_node t') = nd_archive (nt_node t)" "nd_state (nt_node t') = nd_state (nt_node t)"
    using assms(2) by (auto simp: handle_new_transaction_def Let_def split: sum.splits fault.splits MemPoolError.splits)
  then show ?thesis by (intro node_ok_state [OF assms(1)]) simp_all
qed

lemma error_node: "nt_node (handle_peer_error a e resolved t) = nt_node t"
  by (auto simp: handle_peer_error_def Let_def split: option.splits)

lemma task_response_node:
  fixes t :: "'acc NetTask"
  shows "nt_node (handle_mainchain_task_response Q m res t) = nt_node t"
proof -
  have "nt_node (fold (\<lambda>(a, i). tell_peer (f i) a) xs u) = nt_node u" for f xs and u :: "'acc NetTask"
    by (induction xs arbitrary: u) auto
  from this [of "\<lambda>i. if res = Some True then MainchainAncestors i else MainchainAncestorsError"]
  show ?thesis by (simp add: handle_mainchain_task_response_def split: option.splits)
qed

lemma mailbox_keeps:
  assumes ok: "order_ok (ord_hash Q)" "node_ok X (nt_node t)"
    and hdrs: "length (answered_headers item) < 2 ^ 32" "room (nt_archive t) (length (answered_headers item))"
    and main: "item = MainchainBlock \<Longrightarrow> tracked (nt_node t)"
    and run: "mailbox_step X Q rpc quic takes item t = Some (r, t')"
  shows "node_ok X (nt_node t')"
proof (cases item)
  case MainchainBlock
  then show ?thesis using run block_event_ok [OF ok(2,1) main] by (auto simp: mailbox_step_def)
next
  case (NewTip new a)
  then show ?thesis using run new_tip_ok [OF ok(2,1)] by (auto simp: mailbox_step_def split: option.splits sum.splits)
next
  case (PeerInfoItem a p)
  show ?thesis
  proof (cases p)
    case (PeerTold info)
    show ?thesis
    proof (cases info)
      case (NewTransaction at)
      then show ?thesis using run new_transaction_ok [OF ok(2)] PeerInfoItem PeerTold by (auto simp: mailbox_step_def handle_info_def)
    next
      case (Response resp req)
      then obtain q t1 where "handle_response X Q a resp req t = Some (q, t1)" "nt_node t' = nt_node t1"
        using run guarded_node PeerInfoItem PeerTold by (fastforce simp: mailbox_step_def handle_info_def)
      moreover have "length hs < 2 ^ 32 \<and> room (nt_archive t) (length hs)" if "resp = HeadersRsp hs" for hs
        using hdrs PeerInfoItem PeerTold Response that by simp
      ultimately show ?thesis using response_keeps [OF ok] by metis
    qed (use run ok PeerInfoItem PeerTold in \<open>auto simp: mailbox_step_def handle_info_def t_write_def\<close>)
  qed (use run ok PeerInfoItem in \<open>auto simp: mailbox_step_def t_write_def error_node\<close>)
qed (use run ok in \<open>auto simp: mailbox_step_def t_write_def t_read_def task_response_node\<close>)

section \<open>Which headers are stored\<close>

lemma store_headers_from:
  "store_headers X ord hdrs A = Inr A' \<Longrightarrow> fmlookup (ar_headers A') g = Some hdr \<Longrightarrow>
   fmlookup (ar_headers A) g = Some hdr \<or> hdr \<in> set hdrs \<and> g = header_hash X hdr"
proof (induction hdrs arbitrary: A)
  case (Cons h hdrs)
  show ?case
  proof (cases "store_headers X ord hdrs A = Inr A' \<or> A' = A")
    case False
    then obtain A1 where A1: "put_header X ord h A = Inr A1" "store_headers X ord hdrs A1 = Inr A'"
      using Cons.prems(1) by (auto simp: res_simps split: if_splits)
    then show ?thesis using Cons.IH [OF A1(2) Cons.prems(2)] put_header_parts(1) [OF A1(1)] by (auto split: if_splits)
  qed (use Cons in auto)
qed simp

lemma store_headers_heights:
  "store_headers X ord hdrs A = Inr A' \<Longrightarrow> fmlookup (ar_headers A) p \<noteq> None \<Longrightarrow> fmlookup (block_hash_to_height A) p = Some k \<Longrightarrow>
   fmlookup (block_hash_to_height A') p = Some k"
proof (induction hdrs arbitrary: A)
  case (Cons h hdrs)
  show ?case
  proof (cases "store_headers X ord hdrs A = Inr A' \<or> A' = A")
    case False
    then obtain A1 where A1: "fmlookup (ar_headers A) (header_hash X h) = None" "put_header X ord h A = Inr A1"
        "store_headers X ord hdrs A1 = Inr A'"
      using Cons.prems(1) by (auto simp: res_simps split: if_splits)
    then have "p \<noteq> header_hash X h" using Cons.prems(2) by auto
    moreover obtain j where "block_hash_to_height A1 = fmupd (header_hash X h) j (block_hash_to_height A)"
      using put_header_tables [OF A1(2) refl] by auto
    ultimately show ?thesis using Cons.IH [OF A1(3)] put_header_parts(1) [OF A1(2)] Cons.prems(2,3) by simp
  qed (use Cons in auto)
qed simp

text \<open>No two of the headers that are sent or stored have the same hash.\<close>

definition no_collision :: "'acc ext \<Rightarrow> 'acc Archive \<Rightarrow> Header list \<Rightarrow> bool" where
  "no_collision X A hdrs \<longleftrightarrow> inj_on (header_hash X) (set hdrs \<union> {hdr. \<exists>g. fmlookup (ar_headers A) g = Some hdr})"

lemma stored_exact:
  assumes "headers_keyed X A" "no_collision X A hdrs" "headers_linked X B prev hdrs"
    "\<And>p. prev = Some p \<Longrightarrow> fmlookup (ar_headers A) p \<noteq> None" "store_headers X ord hdrs A = Inr A'" "hdr \<in> set hdrs"
  shows "fmlookup (ar_headers A') (header_hash X hdr) = Some hdr"
proof -
  obtain hdr' where hdr': "fmlookup (ar_headers A') (header_hash X hdr) = Some hdr'"
    using store_headers_all [OF assms(3-6)] by blast
  from store_headers_from [OF assms(5) this] have "header_hash X hdr' = header_hash X hdr"
    using assms(1) by (auto simp: headers_keyed_def)
  moreover from store_headers_from [OF assms(5) hdr'] have "hdr' \<in> set hdrs \<union> {hdr. \<exists>g. fmlookup (ar_headers A) g = Some hdr}"
    by auto
  ultimately show ?thesis using assms(2,6) hdr' unfolding no_collision_def inj_on_def by blast
qed

lemma linked_height:
  assumes "side_ok A"
  shows "headers_linked X B (Some p) hdrs \<Longrightarrow> (\<And>hdr. hdr \<in> set hdrs \<Longrightarrow> fmlookup (ar_headers A) (header_hash X hdr) = Some hdr) \<Longrightarrow>
    fmlookup (block_hash_to_height A) p = Some k \<Longrightarrow>
    fmlookup (block_hash_to_height A) (if hdrs = [] then p else header_hash X (last hdrs)) = Some (k + word_of_nat (length hdrs))"
proof (induction hdrs arbitrary: p k)
  case (Cons hdr hdrs)
  have hdr: "fmlookup (ar_headers A) (header_hash X hdr) = Some hdr" "prev_side_hash hdr = Some p" using Cons.prems by simp_all
  then obtain i where i: "fmlookup (block_hash_to_height A) (header_hash X hdr) = Some i"
    using side_ok_dom [OF assms, of "header_hash X hdr"] by auto
  then have "unat i = Suc (unat k)" using side_known [OF assms i] hdr Cons.prems(3) by auto
  from arg_cong [OF this, of "word_of_nat :: nat \<Rightarrow> u32"] have "i = k + 1" by (simp add: add.commute)
  with Cons.IH [of "header_hash X hdr" i] Cons.prems i show ?case by (auto simp: algebra_simps split: if_splits)
qed simp

lemma answer_height:
  assumes ok: "side_ok A" and link: "headers_linked X B (prev_side_hash (hd hdrs)) hdrs" "hdrs \<noteq> []"
    and stored: "\<And>hdr. hdr \<in> set hdrs \<Longrightarrow> fmlookup (ar_headers A) (header_hash X hdr) = Some hdr"
    and want: "case prev_side_hash (hd hdrs) of None \<Rightarrow> want = word_of_nat (length hdrs) - 1
      | Some p \<Rightarrow> \<exists>k. fmlookup (block_hash_to_height A) p = Some k \<and> want = k + word_of_nat (length hdrs)"
  shows "fmlookup (block_hash_to_height A) (header_hash X (last hdrs)) = Some want"
proof (cases "prev_side_hash (hd hdrs)")
  case None
  obtain hdr rest where hdrs: "hdrs = hdr # rest" using link(2) by (cases hdrs) auto
  with stored have "fmlookup (ar_headers A) (header_hash X hdr) = Some hdr" by simp
  then have "fmlookup (block_hash_to_height A) (header_hash X hdr) = Some 0" using ok None hdrs by (auto simp: side_ok_def)
  with linked_height [OF ok, of X B "header_hash X hdr" rest 0] link stored hdrs want None show ?thesis by (auto split: if_splits)
next
  case (Some p)
  then show ?thesis using linked_height [OF ok, of X B p hdrs] link stored want by auto
qed

section \<open>Verdicts and the own tip\<close>

lemma better_is_stored:
  assumes "check_peer_tip_and_request_headers A own peer i = Some (Inr (Some True, rq))"
  shows "fmlookup (ar_headers A) (tip_block_hash (ti_tip peer)) \<noteq> None"
proof -
  note defs = check_peer_tip_and_request_headers_def compare_peer_tip_def check_equal_tip_def check_crossed_tip_def
    with_headers_def better_verdict_def worse_verdict_def Let_def opt_then_eq_Inr
  have "fmlookup (ar_headers A) (tip_block_hash (ti_tip peer)) \<noteq> None" if "compare_peer_tip A t peer i = Some (Inr (Some True, rq))" for t
    using that by (auto simp: defs res_simps split: if_splits)
  then show ?thesis using assms by (auto simp: check_peer_tip_and_request_headers_def worse_verdict_def opt_then_eq_Inr split: option.splits if_splits)
qed

lemma own_tip_hash: "own_tip_info ord n = Inr (Some t) \<Longrightarrow> tip (nd_state n) = Some (tip_block_hash (ti_tip t))"
  by (auto simp: own_tip_info_def tip_info_of_def try_get_tip_def res_simps split: option.splits)

lemma own_tip_none: "own_tip_info ord n = Inr None \<longleftrightarrow> tip (nd_state n) = None"
  by (auto simp: own_tip_info_def tip_info_of_def try_get_tip_def res_simps split: option.splits)

section \<open>Dialing\<close>

lemma rev_last: "xs \<noteq> [] \<Longrightarrow> rev xs = last xs # rev (butlast xs)"
  by (metis append_butlast_last_id rev.simps(2) rev_append rev_singleton_conv append_Cons append_Nil)

lemma dial_order:
  "dial_loop quic r = Inr (a, r1) \<Longrightarrow>
   \<exists>xs ys. map (\<lambda>ip. \<lparr>sa_ip = ip, sa_port = resolved_port r\<rparr>) (ip_addrs r) = xs @ a # ys \<and>
     (\<forall>b \<in> set xs. quic b (server_name r) = QuicInvalidRemoteAddress) \<and> quic a (server_name r) = Connecting \<and>
     map (\<lambda>ip. \<lparr>sa_ip = ip, sa_port = resolved_port r1\<rparr>) (ip_addrs r1) = a # ys"
proof (induction quic r rule: dial_loop.induct)
  case (1 quic r)
  have split: "ip_addrs r = first_ip_addr r # (case snd (pop_first_ip_addr r) of None \<Rightarrow> [] | Some r' \<Rightarrow> ip_addrs r')"
    by (cases r) (auto simp: rev_last)
  show ?case
  proof (cases "quic (current_addr r) (server_name r)")
    case Connecting
    then show ?thesis using "1.prems" split
      by (subst (asm) dial_loop.simps) (auto simp: Let_def current_addr_def split: if_splits intro!: exI [of _ "[]"])
  next
    case QuicInvalidRemoteAddress
    then obtain r' where r': "snd (pop_first_ip_addr r) = Some r'" "dial_loop quic r' = Inr (a, r1)" "\<not> is_unspecified (sa_ip (current_addr r))"
      using "1.prems" by (subst (asm) dial_loop.simps) (auto simp: Let_def split: if_splits option.splits)
    then have same: "resolved_port r' = resolved_port r" "server_name r' = server_name r"
      by (cases r; auto simp: server_name_def split: if_splits)+
    from "1.IH" [OF refl r'(3) QuicInvalidRemoteAddress r'(1,2)] obtain xs ys where
      "map (\<lambda>ip. \<lparr>sa_ip = ip, sa_port = resolved_port r\<rparr>) (ip_addrs r') = xs @ a # ys"
      "\<forall>b \<in> set xs. quic b (server_name r) = QuicInvalidRemoteAddress" "quic a (server_name r) = Connecting"
      "map (\<lambda>ip. \<lparr>sa_ip = ip, sa_port = resolved_port r1\<rparr>) (ip_addrs r1) = a # ys" unfolding same by auto
    then show ?thesis using split r'(1) QuicInvalidRemoteAddress
      by (intro exI [of _ "current_addr r # xs"] exI [of _ ys]) (auto simp: current_addr_def)
  next
    case QuicError
    then show ?thesis using "1.prems" by (subst (asm) dial_loop.simps) (auto simp: Let_def split: if_splits)
  qed
qed

text \<open>The delay between two rounds of dialing stays between its bounds.\<close>

lemma redial_delay_bounds:
  assumes "redial_round order quic low high (delay, no_peers, net) = (delay', no_peers', net')" "low \<le> delay" "delay \<le> high"
  shows "low \<le> delay' \<and> delay' \<le> high"
  using assms by (auto simp: redial_round_def split: if_splits)

text \<open>The part of a bracketed address after its last colon is no port.\<close>

lemma bracketed_needs_port: "SeedAddress_from_str parse_host ''[::1]'' = None"
  by (simp add: SeedAddress_from_str_def rsplit_once_def parse_u16_def Let_def)

end
