(* ===== verification/Net_Properties.thy ===== *)
theory Net_Properties
  imports Net_Facts Node_Examples
begin

text \<open>
  Theorems about the protocol between peers and the net task, each with an instance on small nodes.
\<close>

section \<open>Examples\<close>

text \<open>The archive of \<open>Archive_Examples\<close> with a mainchain tip.\<close>

definition ex_current :: "hash256 \<Rightarrow> 'acc Archive \<Rightarrow> 'acc Archive" where
  "ex_current m A = A\<lparr>ar_side_tips := SideTips_create\<lparr>mainchain_tip :=
     \<lparr>cumulative_work = 2, tip_info = Some \<lparr>bhi_block_hash = m, bhi_prev_block_hash = 11, bhi_height = 1, bhi_work = 1\<rparr>\<rparr>\<rparr>\<rparr>"

definition ex_own :: TipInfo where
  "ex_own = \<lparr>ti_block_height = 1, ti_tip = \<lparr>tip_block_hash = 3, tip_main_block_hash = 13\<rparr>, ti_total_work = 2\<rparr>"

definition ex_peer :: TipInfo where
  "ex_peer = \<lparr>ti_block_height = 2, ti_tip = \<lparr>tip_block_hash = 4, tip_main_block_hash = 12\<rparr>, ti_total_work = 2\<rparr>"

lemma ex_peers:
  "truthful (ex_current 12 ex_archive) ex_own" "truthful (ex_current 12 ex_archive) ex_peer"
  "peer_main_active (ex_current 12 ex_archive) ex_peer = Inr True"
proof -
  have "case try_fold (replay_op ex_aext ex_ord) ex_ops Archive_new of Inl _ \<Rightarrow> False
    | Inr A \<Rightarrow> truthful (ex_current 12 A) ex_own \<and> truthful (ex_current 12 A) ex_peer \<and>
        peer_main_active (ex_current 12 A) ex_peer = Inr True"
    by code_simp
  then show "truthful (ex_current 12 ex_archive) ex_own" "truthful (ex_current 12 ex_archive) ex_peer"
    "peer_main_active (ex_current 12 ex_archive) ex_peer = Inr True"
    by (simp_all add: ex_run)
qed

lemma ex_current_comparable: "comparable (ex_current 12 ex_archive) (ti_tip ex_own) (ti_tip ex_peer)"
proof -
  let ?A = "ex_current 12 ex_archive"
  have cmp: "comparable ex_archive (ti_tip ex_own) (ti_tip ex_peer)"
    using comparable_sym [OF ex_comparable] by (simp add: ex_own_def ex_peer_def)
  have "archive_ok ex_archive" using reachD [OF ex_reach ex_order] by (simp add: archive_ok_def)
  then have "archive_ok ?A" by (rule archive_ok_frame) (simp add: ex_current_def tables_defs)
  moreover have "get_main_height ?A = get_main_height ex_archive" "main_parent ?A = main_parent ex_archive"
    by (auto simp: fun_eq_iff ex_current_def get_main_height_def main_parent_def get_main_header_info_def)
  ultimately show ?thesis using cmp by (simp add: comparable_def archive_ok_def) (simp add: ex_current_def anchored_def)
qed

text \<open>What a peer announces to the node that has stored block 2, and a net task.\<close>

definition ex_announced :: PeerState where
  "ex_announced = \<lparr>ps_tip_info = Some \<lparr>ti_block_height = 0, ti_tip = ex_new, ti_total_work = 2\<rparr>,
     ps_version = \<lparr>major = 0, minor = 1, patch = 0\<rparr>\<rparr>"

definition ex_hasher :: hashes where
  "ex_hasher = \<lparr>hash_state = (\<lambda>_. 7), hash_wire = (\<lambda>r. case r of GetBlock b \<Rightarrow> gb_block_hash b | _ \<Rightarrow> 0)\<rparr>"

definition ex_orders :: orders where
  "ex_orders = \<lparr>ord_hash = ex_ord, ord_tips = (\<lambda>_. []), ord_addrs = (\<lambda>_. []), ord_sources = (\<lambda>_. [])\<rparr>"

definition ex_addr :: SocketAddr where
  "ex_addr = \<lparr>sa_ip = V4 1, sa_port = 4255\<rparr>"

definition ex_task :: "'acc Node \<Rightarrow> 'acc NetTask" where
  "ex_task n = \<lparr>nt_node = n, nt_net = \<lparr>active_peers = fmupd ex_addr \<lparr>ph_received = True, ph_connected = True, ph_messages = []\<rparr> fmempty,
       known_peers = {||}\<rparr>,
     nt_descendants = fmempty, nt_sources = fmempty, nt_new_tips = [], nt_forward = [], nt_main_requests = [], nt_reconnect = []\<rparr>"

text \<open>A node that knows the mainchain and no sidechain block.\<close>

definition ex_bare :: "hash256 list Node nres option" where
  "ex_bare = replay_node ex_next ex_ord ex_main_ops ex_origin"

lemma ex_bare_run: "succeeds ex_bare (\<lambda>n. ar_headers (nd_archive n) = fmempty \<and> block_hash_to_height (nd_archive n) = fmempty \<and>
  (case store_headers ex_next ex_ord [ex_first] (nd_archive n) of Inr _ \<Rightarrow> True | Inl _ \<Rightarrow> False) \<and> \<not> invalidated_block (nd_archive n) 2)"
  by code_simp

definition ready_facts :: "hash256 list Node \<Rightarrow> bool" where
  "ready_facts n \<longleftrightarrow> (let A = nd_archive n; peer = the (ps_tip_info ex_announced) in
     ar_headers A = fmupd 2 ex_first fmempty \<and> fmlookup (block_hash_to_height A) 2 = Some 0 \<and>
     tip (nd_state n) = None \<and> fmlookup (main_header_infos A) 12 \<noteq> None \<and> check_claims A peer = Inr () \<and>
     check_peer_tip_and_request_headers A None peer 7 = Some (Inr (Some True, [])) \<and>
     try_get_bmm_result A 2 12 = Some BmmVerified \<and> fmlookup (ar_bodies A) 2 \<noteq> None)"

lemma ex_ready_run: "succeeds ex_stored ready_facts"
  by code_simp

lemma ex_ready: "handle_peer_state ex_hasher ex_ord (node_of ex_stored) ex_announced = Some (Inr ([], [NewTipReady ex_new]))"
proof -
  let ?A = "nd_archive (node_of ex_stored)"
  have facts: "ready_facts (node_of ex_stored)" using succeedsD [OF ex_ready_run] by blast
  then have h: "fmlookup (block_hash_to_height ?A) 2 = Some 0" by (simp add: ready_facts_def Let_def)
  have ok: "side_ok ?A" using node_reach_ok [OF ex_stored_reach ex_order] by (simp add: node_ok_def archive_ok_def)
  have "segment ?A 2 0 0 = [2]" using item_at_props(1) [OF ok h, of 0] by (simp add: segment_def)
  then have "missing_take ?A 2 max_block_requests (rev_new 0) = Some (Inr [])"
    using missing_exact(1) [OF ok h, of max_block_requests 0] facts by (auto simp: ready_facts_def Let_def)
  then show ?thesis using facts
    by (simp add: ready_facts_def handle_peer_state_def own_tip_info_def tip_info_of_def try_get_tip_def bodies_to_request_def ex_announced_def
      ex_hasher_def ex_new_def Let_def)
qed

lemma ex_bare_reach: "node_reach ex_next ex_ord (node_of ex_bare)"
  using succeedsD [OF ex_bare_run] replay_node_reach node_reach.new unfolding ex_bare_def ex_origin_def by blast

text \<open>The node with block 2 connected, after the mainchain blocks 13 and 12 are disconnected.\<close>

lemma ex_undone_run:
  "succeeds ex_first_node (\<lambda>n. case handle_block_event ex_ord (DisconnectBlock 13) (nd_archive n) of Inl _ \<Rightarrow> False
     | Inr A \<Rightarrow> tip (nd_state n) = Some 2 \<and> db_has (sidechain_tips (ar_side_tips A)) 2 \<and>
       (case handle_block_event ex_ord (DisconnectBlock 12) A of Inl _ \<Rightarrow> False
        | Inr A' \<Rightarrow> best_side_tip (ar_side_tips A') = None))"
  by code_simp

section \<open>The tip of a peer\<close>

text \<open>C21. The task of a connection judges a peer's tip by what the peer says of it. When both tips are stored, the
mainchain block of the peer's tip is in the current mainchain and the heights and the work are right and the heights
are not zero, its verdict is the one of the archive's comparison of tips: the peer's tip is taken exactly when the
comparison prefers it, and no headers are asked for.\<close>

theorem peer_check_agrees:
  assumes "peer_main_active A peer = Inr True" "comparable A (ti_tip own) (ti_tip peer)" "truthful A own" "truthful A peer"
    "ti_block_height own \<noteq> 0" "ti_block_height peer \<noteq> 0"
  shows "check_peer_tip_and_request_headers A (Some own) peer i =
    Some (Inr (if better_tip A (ti_tip own) (ti_tip peer) = Some (Inr (Some (ti_tip peer))) then Some True else None, []))"
  using compare_agrees [OF assms(2-6)] assms(1) by (simp add: check_peer_tip_and_request_headers_def)

theorem peer_check_agrees_witness:
  "check_peer_tip_and_request_headers (ex_current 12 ex_archive) (Some ex_own) ex_peer 7 =
     Some (Inr (if better_tip (ex_current 12 ex_archive) (ti_tip ex_own) (ti_tip ex_peer) = Some (Inr (Some (ti_tip ex_peer)))
                then Some True else None, []))"
  by (rule peer_check_agrees [OF ex_peers(3) ex_current_comparable ex_peers(1,2)]) (simp_all add: ex_own_def ex_peer_def)

text \<open>C20. When a connection reports that a peer's tip is ready, then in a well formed node: the peer told the right
total work, the mainchain block commits to the sidechain block, which is verified by it, that mainchain block is in
the current mainchain, and the bodies of all ancestors of the tip that are not ancestors of the own tip are
stored, when the tip is below height 2 to the power of 31.\<close>

theorem peer_tip_ready_sound:
  assumes "node_ok X n" "handle_peer_state H ord n ps = Some (Inr (reqs, infos))" "NewTipReady t \<in> set infos"
    and "\<And>k. ar_get_height (nd_archive n) (tip_block_hash t) = Inr k \<Longrightarrow> unat k < 2 ^ 31"
  shows "(\<exists>peer. ps_tip_info ps = Some peer \<and> ti_tip peer = t \<and>
      get_total_work (nd_archive n) (tip_main_block_hash t) = Inr (ti_total_work peer)) \<and>
    (\<exists>info. get_main_block_info (nd_archive n) (tip_main_block_hash t) = Inr info \<and> bmm_commitment info = Some (tip_block_hash t)) \<and>
    try_get_bmm_result (nd_archive n) (tip_block_hash t) (tip_main_block_hash t) = Some BmmVerified \<and>
    is_main_descendant (nd_archive n) (tip_main_block_hash t) (mainchain_tip_hash (mainchain_tip (ar_side_tips (nd_archive n)))) = Inr True \<and>
    (\<forall>g. has_ancestor (ar_get_height (nd_archive n)) (side_parent (nd_archive n)) (tip_block_hash t) g \<and>
       (\<forall>s. try_get_tip (nd_state n) = Some s \<longrightarrow> \<not> has_ancestor (ar_get_height (nd_archive n)) (side_parent (nd_archive n)) s g) \<longrightarrow>
       contains_body (nd_archive n) g)"
proof -
  let ?A = "nd_archive n"
  obtain peer own common rq where peer: "ps_tip_info ps = Some peer" "t = ti_tip peer" and own: "own_tip_info ord n = Inr own"
    and claims: "check_claims ?A peer = Inr ()"
    and verdict: "check_peer_tip_and_request_headers ?A own peer (hash_state H ps) = Some (Inr (Some True, rq))"
    and bmm: "try_get_bmm_result ?A (tip_block_hash t) (tip_main_block_hash t) = Some BmmVerified"
    and bodies: "bodies_to_request ?A own peer = Some (Inr (common, []))"
    using ready_parts [OF assms(2,3)] by blast
  have ok: "side_ok ?A" "synced X ?A (nd_state n)" using assms(1) by (simp_all add: node_ok_def archive_ok_def)
  obtain k where k: "fmlookup (block_hash_to_height ?A) (tip_block_hash (ti_tip peer)) = Some k"
    using better_is_stored [OF verdict] side_ok_dom [OF ok(1), of "tip_block_hash (ti_tip peer)"] by auto
  have known: "\<exists>j. fmlookup (block_hash_to_height ?A) (tip_block_hash (ti_tip u)) = Some j" if "own = Some u" for u
    using own_tip_hash [of ord n u] own that ok(2) by (auto simp: synced_def)
  have "contains_body ?A g" if "has_ancestor (ar_get_height ?A) (side_parent ?A) (tip_block_hash t) g"
      "\<forall>s. try_get_tip (nd_state n) = Some s \<longrightarrow> \<not> has_ancestor (ar_get_height ?A) (side_parent ?A) s g" for g
    using bodies_complete [OF ok(1) k known _ bodies, of g] that own_tip_hash own assms(4) k
    by (fastforce simp: peer(2) try_get_tip_def contains_body_def db_has_def ar_get_height_def)
  moreover obtain cur where "tip_info (mainchain_tip (ar_side_tips ?A)) = Some cur"
      "is_main_descendant ?A (tip_main_block_hash t) (bhi_block_hash cur) = Inr True"
    using active_peer_main [OF verdict] peer(2) by blast
  ultimately show ?thesis using claims bmm peer
    by (auto simp: check_claims_def Let_def res_simps mainchain_tip_hash_def split: if_splits)
qed

theorem peer_tip_ready_sound_witness: "contains_body (nd_archive (node_of ex_stored)) 2"
proof -
  let ?A = "nd_archive (node_of ex_stored)"
  note facts = succeedsD [OF ex_ready_run, THEN conjunct2, unfolded ready_facts_def Let_def]
  have "has_ancestor (ar_get_height ?A) (side_parent ?A) 2 2" using facts by (auto simp: has_ancestor_def ar_get_height_def)
  then show ?thesis
    using peer_tip_ready_sound [OF node_reach_ok [OF ex_stored_reach ex_order] ex_ready, of ex_new] facts
    by (simp add: ex_new_def ar_get_height_def try_get_tip_def)
qed

section \<open>Headers\<close>

text \<open>C22. Headers from a peer, when the handler returns without an error and no two of the headers sent
and stored have the same hash. When they start at the beginning of the chain or after a known block that the request
named, each names the one before it, none is invalidated, the last one is the block asked for and its height is
the announced one, then they are all stored, the block asked for at that height, and the connection is told.
Otherwise the peer is dropped and nothing else changes.\<close>

theorem headers_answer_stored:
  assumes "order_ok (ord_hash Q)" "node_ok X (nt_node t)" "length hdrs < 2 ^ 32" "room (nt_archive t) (length hdrs)"
    "no_collision X (nt_archive t) hdrs" "handle_headers_response X Q a start stop want i hdrs t = Some (Inr (), t')"
  shows "if hdrs \<noteq> [] \<and> header_hash X (last hdrs) = stop \<and> headers_linked X (nt_archive t) (prev_side_hash (hd hdrs)) hdrs \<and>
       (case prev_side_hash (hd hdrs) of
          None \<Rightarrow> want = word_of_nat (length hdrs) - 1
        | Some p \<Rightarrow> p |\<in>| start \<and> (\<exists>k. ar_get_height (nt_archive t) p = Inr k \<and> want = k + word_of_nat (length hdrs)))
     then (\<forall>hdr \<in> set hdrs. get_header (nt_archive t') (header_hash X hdr) = Inr hdr) \<and>
       ar_get_height (nt_archive t') stop = Inr want \<and>
       nt_net t' = snd (push_internal_message (HeadersAvailable i) a (nt_net t))
     else t' = drop_peer a t"
proof (cases "check_headers X (nt_archive t) start stop want hdrs = Inr True")
  case True
  let ?A = "nt_archive t"
  obtain A' where A': "store_headers X (ord_hash Q) hdrs ?A = Inr A'"
    and t': "t' = tell_peer (HeadersAvailable i) a (t\<lparr>nt_node := (nt_node t)\<lparr>nd_archive := A'\<rparr>\<rparr>)"
    using assms(6) True by (auto simp: headers_response_cases of_archive_def map_fault_def split: sum.splits fault.splits)
  note valid = True [unfolded check_headers_iff]
  have ok: "side_ok A'" using store_headers_ok [OF assms(1,3,2)] assms(4) A' by (simp add: nt_archive_def node_ok_def archive_ok_def)
  have old: "side_ok ?A" using assms(2) by (simp add: nt_archive_def node_ok_def archive_ok_def)
  have parent: "fmlookup (ar_headers ?A) p \<noteq> None" if "prev_side_hash (hd hdrs) = Some p" for p
    using valid that side_ok_dom [OF old, of p] by auto
  have stored: "fmlookup (ar_headers A') (header_hash X hdr) = Some hdr" if "hdr \<in> set hdrs" for hdr
    using stored_exact [OF _ assms(5) _ parent A' that] assms(2) valid by (auto simp: nt_archive_def node_ok_def)
  have "fmlookup (block_hash_to_height A') stop = Some want"
    using answer_height [OF ok, of X ?A hdrs want] stored valid store_headers_heights [OF A' parent]
    by (auto split: option.splits)
  then show ?thesis using stored valid t'
    by (auto simp: get_header_def ar_get_height_def nt_archive_def tell_peer_def res_simps split: option.splits)
next
  case False
  then have "t' = drop_peer a t"
    using assms(6) by (auto simp: headers_response_cases of_archive_def map_fault_def split: sum.splits fault.splits bool.splits)
  moreover have "\<not> (hdrs \<noteq> [] \<and> header_hash X (last hdrs) = stop \<and> headers_linked X (nt_archive t) (prev_side_hash (hd hdrs)) hdrs \<and>
       (case prev_side_hash (hd hdrs) of
          None \<Rightarrow> want = word_of_nat (length hdrs) - 1
        | Some p \<Rightarrow> p |\<in>| start \<and> (\<exists>k. ar_get_height (nt_archive t) p = Inr k \<and> want = k + word_of_nat (length hdrs))))"
    using False by (auto simp: check_headers_iff res_simps split: option.splits)
  ultimately show ?thesis by (simp only: if_False)
qed

text \<open>C23. Two nodes. One asks for the headers up to a block that the other one has, after blocks that it knows
itself, with the right height. Where their stored headers agree and none of them is invalidated at the first node,
the other node answers with headers; when the first node handles the answer without an error, it keeps the
peer, tells the connection, and has stored all of the headers.\<close>

theorem honest_headers_accepted:
  assumes "node_ok X server" "node_ok X (nt_node t)" "ar_get_height (nd_archive server) (gh_end r) = Inr k"
    and "gh_height r = Some k" "gh_peer_state_id r = Some i" "gh_end r |\<notin>| gh_start r"
    and "agree (nd_archive server) (nt_archive t)"
    and "\<forall>g. fmlookup (ar_headers (nd_archive server)) g \<noteq> None \<longrightarrow> \<not> invalidated_block (nt_archive t) g"
    and "\<forall>g. g |\<in>| gh_start r \<longrightarrow> fmlookup (ar_headers (nt_archive t)) g \<noteq> None"
  shows "\<exists>hdrs. handle_peer_request X H server (RequestMsg (wire_request (GetHeaders r))) cn = Some (Some (HeadersRsp hdrs), Inr (), cn) \<and>
    (\<forall>t'. handle_response X Q a (HeadersRsp hdrs) (GetHeaders r) t = Some (Inr (), t') \<longrightarrow>
       nt_net t' = snd (push_internal_message (HeadersAvailable i) a (nt_net t)) \<and>
       (\<forall>hdr \<in> set hdrs. fmlookup (ar_headers (nt_archive t')) (header_hash X hdr) \<noteq> None) \<and>
       fmlookup (ar_headers (nt_archive t')) (gh_end r) \<noteq> None)"
proof -
  let ?S = "nd_archive server" and ?C = "nt_archive t"
  let ?L = "sent_headers ?S (gh_start r) (unat k) (gh_end r)"
  have S: "side_ok ?S" "headers_keyed X ?S" "fmlookup (block_hash_to_height ?S) (gh_end r) = Some k"
    and C: "side_ok ?C" using assms(1-3) by (simp_all add: node_ok_def archive_ok_def nt_archive_def)
  have sent: "handle_get_headers ?S (gh_start r) (gh_end r) = Some (Inr (HeadersRsp ?L))"
    and check: "check_headers X ?C (gh_start r) (gh_end r) k ?L = Inr True"
    using honest_headers [OF S C assms(7), of "gh_start r"] assms(6,8,9) by auto
  have "nt_net t' = snd (push_internal_message (HeadersAvailable i) a (nt_net t)) \<and>
       (\<forall>hdr \<in> set ?L. fmlookup (ar_headers (nt_archive t')) (header_hash X hdr) \<noteq> None) \<and>
       fmlookup (ar_headers (nt_archive t')) (gh_end r) \<noteq> None"
    if run: "handle_response X Q a (HeadersRsp ?L) (GetHeaders r) t = Some (Inr (), t')" for t'
  proof -
    obtain A' where A': "store_headers X (ord_hash Q) ?L ?C = Inr A'"
      and t': "t' = tell_peer (HeadersAvailable i) a (t\<lparr>nt_node := (nt_node t)\<lparr>nd_archive := A'\<rparr>\<rparr>)"
      using run assms(4,5) check
      by (auto simp: handle_response_def headers_response_cases of_archive_def map_fault_def split: sum.splits fault.splits)
    have parent: "fmlookup (ar_headers ?C) p \<noteq> None" if "prev_side_hash (hd ?L) = Some p" for p
      using check that assms(9) by (auto simp: check_headers_iff)
    have all: "fmlookup (ar_headers A') (header_hash X hdr) \<noteq> None" if "hdr \<in> set ?L" for hdr
      using store_headers_all [OF _ parent A' that] check by (auto simp: check_headers_iff)
    have "fmlookup (ar_headers A') (gh_end r) \<noteq> None" using all [of "last ?L"] check by (simp add: check_headers_iff)
    with all t' show ?thesis by (simp add: tell_peer_def nt_archive_def)
  qed
  then show ?thesis using sent by (intro exI [of _ ?L]) (auto simp: handle_peer_request_def)
qed

text \<open>Block 2 of the node that has stored it, asked for by the node that knows no block.\<close>

definition ex_request :: GetHeadersRequest where
  "ex_request = \<lparr>gh_start = {||}, gh_end = 2, gh_height = Some 0, gh_peer_state_id = Some 7\<rparr>"

lemmas ex_bare_facts = succeedsD [OF ex_bare_run, THEN conjunct2]
lemmas ex_stored_facts = succeedsD [OF ex_ready_run, THEN conjunct2, unfolded ready_facts_def Let_def]
lemmas ex_bare_ok = node_reach_ok [OF ex_bare_reach ex_order]
lemmas ex_stored_ok = node_reach_ok [OF ex_stored_reach ex_order]

lemma ex_first_prev: "prev_side_hash ex_first = None"
  by (simp add: ex_first_def)

lemma ex_bare_valid: "\<not> invalidated_block (nt_archive (ex_task (node_of ex_bare))) 2"
  using ex_bare_facts by (simp add: ex_task_def nt_archive_def)

lemma ex_answer:
  "\<exists>t'. handle_headers_response ex_next ex_orders ex_addr {||} 2 0 7 [ex_first] (ex_task (node_of ex_bare)) = Some (Inr (), t')"
proof -
  have "check_headers ex_next (nd_archive (node_of ex_bare)) {||} 2 0 [ex_first] = Inr True"
    using ex_bare_facts by (simp add: check_headers_iff ex_first_prev)
  then show ?thesis using ex_bare_facts
    by (auto simp: headers_response_cases ex_task_def nt_archive_def ex_orders_def split: sum.splits)
qed

theorem headers_answer_stored_witness:
  "\<exists>t'. handle_headers_response ex_next ex_orders ex_addr {||} 2 0 7 [ex_first] (ex_task (node_of ex_bare)) = Some (Inr (), t') \<and>
     get_header (nt_archive t') 2 = Inr ex_first \<and> ar_get_height (nt_archive t') 2 = Inr 0"
proof -
  obtain t' where t': "handle_headers_response ex_next ex_orders ex_addr {||} 2 0 7 [ex_first] (ex_task (node_of ex_bare)) = Some (Inr (), t')"
    using ex_answer by blast
  have "node_ok ex_next (nt_node (ex_task (node_of ex_bare)))" using ex_bare_ok by (simp add: ex_task_def)
  moreover have "room (nt_archive (ex_task (node_of ex_bare))) 1" "no_collision ex_next (nt_archive (ex_task (node_of ex_bare))) [ex_first]"
    using ex_bare_facts by (simp_all add: room_def no_collision_def ex_task_def nt_archive_def)
  ultimately show ?thesis
    using headers_answer_stored [of ex_orders ex_next "ex_task (node_of ex_bare)" "[ex_first]", OF _ _ _ _ _ t'] ex_bare_facts ex_order t'
    by (simp add: ex_orders_def ex_bare_valid) (simp add: ex_first_prev ex_bare_valid)
qed

theorem honest_headers_accepted_witness:
  "\<exists>hdrs. handle_peer_request ex_next ex_hasher (node_of ex_stored) (RequestMsg (wire_request (GetHeaders ex_request))) Conn_new =
     Some (Some (HeadersRsp hdrs), Inr (), Conn_new)"
proof -
  have "node_ok ex_next (nt_node (ex_task (node_of ex_bare)))" using ex_bare_ok by (simp add: ex_task_def)
  moreover have "agree (nd_archive (node_of ex_stored)) (nt_archive (ex_task (node_of ex_bare)))"
    using ex_bare_facts by (simp add: agree_def ex_task_def nt_archive_def)
  moreover have "\<forall>g. fmlookup (ar_headers (nd_archive (node_of ex_stored))) g \<noteq> None \<longrightarrow>
      \<not> invalidated_block (nt_archive (ex_task (node_of ex_bare))) g"
    using ex_stored_facts ex_bare_valid by simp
  ultimately show ?thesis
    using honest_headers_accepted [of ex_next "node_of ex_stored" "ex_task (node_of ex_bare)" ex_request 0 7 ex_hasher Conn_new ex_orders ex_addr]
      ex_stored_ok ex_stored_facts
    by (auto simp: ex_request_def ar_get_height_def simp del: fmupd_lookup)
qed

section \<open>The net task\<close>

text \<open>C19. Whatever peers send - blocks, headers, transactions, tips, errors, closed connections - and whatever
the mainchain task reports, an item that the net task handles keeps the archive and the state of the node well formed
and in step, where the heights have room for the headers of an answer, and the tip of the state is among the
sidechain tips when a mainchain block is reported.\<close>

theorem net_task_keeps_node:
  assumes "order_ok (ord_hash Q)" "node_ok X (nt_node t)" "length (answered_headers item) < 2 ^ 32"
    "room (nt_archive t) (length (answered_headers item))" "item = MainchainBlock \<Longrightarrow> tracked (nt_node t)"
    "mailbox_step X Q rpc quic takes item t = Some (r, t')"
  shows "node_ok X (nt_node t')"
  by (rule mailbox_keeps [OF assms])

theorem net_task_keeps_node_witness:
  "\<exists>t'. mailbox_step ex_next ex_orders None (\<lambda>_ _. Connecting) (\<lambda>_. True)
       (PeerInfoItem ex_addr (PeerTold (Response (HeadersRsp [ex_first]) (GetHeaders ex_request)))) (ex_task (node_of ex_bare)) =
     Some (Inr (), t') \<and> node_ok ex_next (nt_node t')"
proof -
  obtain t' where t': "handle_headers_response ex_next ex_orders ex_addr {||} 2 0 7 [ex_first] (ex_task (node_of ex_bare)) = Some (Inr (), t')"
    using ex_answer by blast
  then have run: "mailbox_step ex_next ex_orders None (\<lambda>_ _. Connecting) (\<lambda>_. True)
       (PeerInfoItem ex_addr (PeerTold (Response (HeadersRsp [ex_first]) (GetHeaders ex_request)))) (ex_task (node_of ex_bare)) = Some (Inr (), t')"
    by (simp add: mailbox_step_def handle_info_def handle_response_def guarded_def ex_request_def)
  have "node_ok ex_next (nt_node t')" using ex_bare_facts ex_bare_ok ex_order
    by (intro net_task_keeps_node [OF _ _ _ _ _ run]) (simp_all add: ex_orders_def ex_task_def nt_archive_def room_def)
  with run show ?thesis by blast
qed

text \<open>C34. A mainchain block that commits to a sidechain block is disconnected, and no other sidechain tip is left in the order. The
disconnection takes the sidechain tip out of the order and leaves it in the table of tips. The net task rewinds the
state only while its tip is not in that table, and then finds no best tip: when the tip of the state was a sidechain
tip it handles the event without a change, and the state keeps a block that no current mainchain block commits to.\<close>

theorem orphaned_tip_kept:
  assumes "handle_block_event ord (DisconnectBlock m) (nd_archive n) = Inr A"
    "try_get_tip (nd_state n) = Some h" "db_has (sidechain_tips (ar_side_tips (nd_archive n))) h"
    "best_side_tip (ar_side_tips A) = None"
  shows "handle_mainchain_block_event X ord rpc (n\<lparr>nd_archive := A\<rparr>) = Some (Inr (), n\<lparr>nd_archive := A\<rparr>)"
proof -
  have "tracked n" using assms(2,3) by (simp add: tracked_def try_get_tip_def)
  from rewind_tracked [OF disconnect_event_tracked [OF assms(1) this]] assms(4)
  show ?thesis by (simp add: handle_mainchain_block_event_def)
qed

theorem orphaned_tip_kept_witness:
  "\<exists>A A'. handle_block_event ex_ord (DisconnectBlock 13) (nd_archive (node_of ex_first_node)) = Inr A \<and>
     handle_block_event ex_ord (DisconnectBlock 12) A = Inr A' \<and> tip (nd_state (node_of ex_first_node)) = Some 2 \<and>
     handle_mainchain_block_event ex_next ex_ord None ((node_of ex_first_node)\<lparr>nd_archive := A'\<rparr>) =
       Some (Inr (), (node_of ex_first_node)\<lparr>nd_archive := A'\<rparr>)"
proof -
  obtain A A' where A: "handle_block_event ex_ord (DisconnectBlock 13) (nd_archive (node_of ex_first_node)) = Inr A"
      "tip (nd_state (node_of ex_first_node)) = Some 2" "db_has (sidechain_tips (ar_side_tips A)) 2"
      "handle_block_event ex_ord (DisconnectBlock 12) A = Inr A'" "best_side_tip (ar_side_tips A') = None"
    using succeedsD [OF ex_undone_run] by (auto split: sum.splits)
  with orphaned_tip_kept [of ex_ord 12 "(node_of ex_first_node)\<lparr>nd_archive := A\<rparr>" A' 2 ex_next None]
  show ?thesis by (simp add: try_get_tip_def)
qed

section \<open>Requests\<close>

fun asked_blocks :: "Request list \<Rightarrow> BlockHash list" where
  "asked_blocks [] = []"
| "asked_blocks (GetBlock r # rs) = gb_block_hash r # asked_blocks rs"
| "asked_blocks (_ # rs) = asked_blocks rs"

lemma asked_blocks_mem: "h \<in> set (asked_blocks rs) \<longleftrightarrow> (\<exists>r. GetBlock r \<in> set rs \<and> gb_block_hash r = h)"
  by (induction rs rule: asked_blocks.induct) auto

lemma same_block_hash: "gb_block_hash r = gb_block_hash r' \<Longrightarrow> request_hash H (GetBlock r) = request_hash H (GetBlock r')"
  by (cases r; cases r') (simp add: request_hash_def)

lemma asked_blocks_distinct: "distinct (map (request_hash H) rs) \<Longrightarrow> distinct (asked_blocks rs)"
proof (induction rs rule: asked_blocks.induct)
  case (2 r rs)
  have "gb_block_hash r \<notin> set (asked_blocks rs)"
  proof
    assume "gb_block_hash r \<in> set (asked_blocks rs)"
    then obtain r' where "GetBlock r' \<in> set rs" "gb_block_hash r' = gb_block_hash r" by (auto simp: asked_blocks_mem)
    then show False using "2.prems" same_block_hash [of r' r H] by (auto simp: image_iff)
  qed
  with 2 show ?case by simp
qed auto

text \<open>C24. Over the life of a connection a block is asked for at most once: the requests sent so far name distinct
blocks, and a further request for one of them, whatever tip it is for, is ignored. The hashes of requests are
never forgotten, so a block that the peer did not have, or whose body was discarded, is not asked for again.\<close>

theorem block_asked_once:
  assumes "conn_reach X H ord cn"
  shows "distinct (asked_blocks (rq_requests (cn_queue cn))) \<and>
    (\<forall>h \<in> set (asked_blocks (rq_requests (cn_queue cn))). \<forall>r. gb_block_hash r = h \<longrightarrow>
       send_request H (GetBlock r) (cn_queue cn) = (False, cn_queue cn))"
proof -
  note ok = conn_reach_queue [OF assms, unfolded queue_ok_def]
  have "request_hash H (GetBlock r) |\<in>| rq_hashes (cn_queue cn)" if "gb_block_hash r \<in> set (asked_blocks (rq_requests (cn_queue cn)))" for r
  proof -
    obtain r' where "GetBlock r' \<in> set (rq_requests (cn_queue cn))" "gb_block_hash r' = gb_block_hash r"
      using \<open>gb_block_hash r \<in> _\<close> by (auto simp: asked_blocks_mem)
    then have "request_hash H (GetBlock r) \<in> fset (rq_hashes (cn_queue cn))"
      using ok same_block_hash [of r r' H] by auto
    then show ?thesis .
  qed
  then show ?thesis using ok asked_blocks_distinct by (auto simp: send_request_def)
qed

theorem block_asked_once_witness:
  "\<exists>cn. conn_reach ex_next ex_hasher ex_ord cn \<and> asked_blocks (rq_requests (cn_queue cn)) = [2] \<and>
     send_request ex_hasher (block_request ex_new None 8 2) (cn_queue cn) = (False, cn_queue cn)"
proof -
  let ?cn = "Conn_new\<lparr>cn_queue := snd (send_request ex_hasher (block_request ex_new None 7 2) RequestQueue_new)\<rparr>"
  have "conn_reach ex_next ex_hasher ex_ord ?cn"
    by (rule conn_reach.step [OF conn_reach.new], rule conn_step.internal [of _ "ForwardRequest (block_request ex_new None 7 2)"])
      (simp add: Conn_new_def)
  moreover have "asked_blocks (rq_requests (cn_queue ?cn)) = [2]"
    by (simp add: send_request_def RequestQueue_new_def block_request_def)
  ultimately show ?thesis using block_asked_once [of ex_next ex_hasher ex_ord ?cn]
    by (intro exI [of _ ?cn]) (auto simp: block_request_def)
qed

section \<open>Dialing\<close>

text \<open>Dialing a resolved address ends. When a connection is started, it is to the first of the resolved addresses that
the endpoint accepts: it called every address before it invalid, and the addresses that are kept for
another attempt are this one and the ones after it.\<close>

theorem dial_in_order:
  assumes "dial_loop quic r = Inr (a, r1)"
  shows "\<exists>xs ys. map (\<lambda>ip. \<lparr>sa_ip = ip, sa_port = resolved_port r\<rparr>) (ip_addrs r) = xs @ a # ys \<and>
    (\<forall>b \<in> set xs. quic b (server_name r) = QuicInvalidRemoteAddress) \<and> quic a (server_name r) = Connecting \<and>
    map (\<lambda>ip. \<lparr>sa_ip = ip, sa_port = resolved_port r1\<rparr>) (ip_addrs r1) = a # ys"
  by (rule dial_order [OF assms])

theorem dial_in_order_witness:
  "\<exists>xs ys. [\<lparr>sa_ip = V4 1, sa_port = 4255\<rparr>, \<lparr>sa_ip = V4 2, sa_port = 4255\<rparr>] = xs @ \<lparr>sa_ip = V4 2, sa_port = 4255\<rparr> # ys"
proof -
  have "dial_loop (\<lambda>a _. if sa_ip a = V4 1 then QuicInvalidRemoteAddress else Connecting) (ResolvedDomain ''d'' 4255 (V4 2) [V4 1]) =
      Inr (\<lparr>sa_ip = V4 2, sa_port = 4255\<rparr>, ResolvedDomain ''d'' 4255 (V4 2) [])"
    by (simp add: dial_loop.simps Let_def current_addr_def is_unspecified_def)
  from dial_in_order [OF this] obtain xs ys where
    "map (\<lambda>ip. \<lparr>sa_ip = ip, sa_port = resolved_port (ResolvedDomain ''d'' 4255 (V4 2) [V4 1])\<rparr>)
       (ip_addrs (ResolvedDomain ''d'' 4255 (V4 2) [V4 1])) = xs @ \<lparr>sa_ip = V4 2, sa_port = 4255\<rparr> # ys" by blast
  then show ?thesis by (intro exI [of _ xs] exI [of _ ys]) simp
qed

end
