(* ===== verification/Parent_Float.thy ===== *)
theory Parent_Float
  imports Complex_Main "HOL-Library.Log_Nat" Peg_Data
begin

text \<open>
  The amounts of the parent chain's RPC interface are 64-bit floating point numbers. A finite number is the
  rational it stands for; an operation gives the nearest representable number, ties to even.
\<close>

section \<open>Rounding\<close>

datatype f64 = NaN | Infinite bool | Finite rat

definition floor_log2 :: "rat \<Rightarrow> int" where
  "floor_log2 q =
     (case quotient_of q of (n, d) \<Rightarrow> let k = bitlen n - bitlen d in if power_int 2 k \<le> q then k else k - 1)"

definition round_even :: "rat \<Rightarrow> int" where
  "round_even q =
     (let f = \<lfloor>q\<rfloor>; r = q - of_int f in
      if r < 1 / 2 then f else if r > 1 / 2 then f + 1 else if even f then f else f + 1)"

text \<open>53 bits of precision, and a least exponent.\<close>

definition round_magnitude :: "rat \<Rightarrow> rat" where
  "round_magnitude q =
     (if q = 0 then 0
      else let u = power_int 2 (max (floor_log2 q - 52) (- 1074)) in of_int (round_even (q / u)) * u)"

definition f64_of :: "rat \<Rightarrow> f64" where
  "f64_of q =
     (let m = round_magnitude \<bar>q\<bar> in if m \<ge> 2 ^ 1024 then Infinite (q < 0) else Finite (if q < 0 then - m else m))"

section \<open>Amounts\<close>

text \<open>
  \<open>f64::round\<close> takes a half away from zero, \<^verbatim>\<open>u64::MAX as f64\<close> is 2 to the power of 64, and the cast saturates.
  The product of two finite numbers is not \<open>NaN\<close>.
\<close>

definition btc_rpc_value_to_sats :: "f64 \<Rightarrow> u64 option" where
  "btc_rpc_value_to_sats value =
     (case value of
        Finite x \<Rightarrow>
          if x < 0 then None
          else
            (case f64_of (x * 100000000) of
               Finite y \<Rightarrow>
                 let sats = \<lfloor>y + 1 / 2\<rfloor> in
                 if sats < 0 \<or> sats > 2 ^ 64 then None else Some (word_of_int (min sats (2 ^ 64 - 1)))
             | _ \<Rightarrow> None)
      | _ \<Rightarrow> None)"

section \<open>The error of rounding\<close>

lemma floor_log2_bounds:
  assumes "q > 0"
  shows "power_int 2 (floor_log2 q) \<le> q" "q < power_int 2 (floor_log2 q + 1)"
proof -
  obtain n d where nd: "quotient_of q = (n, d)" by (cases "quotient_of q")
  then have d: "d > 0" and q: "q = of_int n / of_int d" using quotient_of_denom_pos quotient_of_div by auto
  with assms have n: "n > 0" by (simp add: zero_less_divide_iff)
  have pos: "bitlen n \<ge> 1" "bitlen d \<ge> 1" using n d by (auto simp: bitlen_alt_def)
  have up: "of_int x < (power_int 2 (bitlen x) :: rat)" and low: "(power_int 2 (bitlen x - 1) :: rat) \<le> of_int x" if "x > 0" "bitlen x \<ge> 1" for x
  proof -
    have "of_int x < (of_int (2 ^ nat (bitlen x)) :: rat)" "of_int (2 ^ nat (bitlen x - 1)) \<le> (of_int x :: rat)"
      using bitlen_bounds [OF that(1)] by (simp_all only: of_int_less_iff of_int_le_iff)
    then show "of_int x < (power_int 2 (bitlen x) :: rat)" "(power_int 2 (bitlen x - 1) :: rat) \<le> of_int x"
      using that(2) by (simp_all add: power_int_def)
  qed
  let ?k = "bitlen n - bitlen d"
  have "q < power_int 2 (bitlen n) / power_int 2 (bitlen d - 1)"
    unfolding q by (rule frac_less) (use up [OF n pos(1)] low [OF d pos(2)] n d in auto)
  also have "\<dots> = power_int 2 (?k + 1)" by (simp add: power_int_diff [symmetric] algebra_simps)
  finally have hi: "q < power_int 2 (?k + 1)" .
  have "power_int 2 (?k - 1) = power_int (2 :: rat) (bitlen n - 1) / power_int 2 (bitlen d)" by (simp add: power_int_diff [symmetric] algebra_simps)
  also have "\<dots> \<le> q"
    unfolding q by (rule frac_le) (use up [OF d pos(2)] low [OF n pos(1)] n d in auto)
  finally have lo: "power_int 2 (?k - 1) \<le> q" .
  show "power_int 2 (floor_log2 q) \<le> q" "q < power_int 2 (floor_log2 q + 1)"
    using hi lo by (auto simp: floor_log2_def nd Let_def)
qed

lemma round_even_error: "\<bar>of_int (round_even q) - q\<bar> \<le> 1 / 2"
proof -
  have "of_int \<lfloor>q\<rfloor> \<le> q" "q < of_int \<lfloor>q\<rfloor> + 1" using floor_correct [of q] by simp_all
  then show ?thesis unfolding round_even_def Let_def by (simp add: abs_if; linarith)
qed

lemma round_magnitude_error:
  assumes "q \<ge> 1 / 2 ^ 40"
  shows "\<bar>round_magnitude q - q\<bar> \<le> q / 2 ^ 53"
proof -
  have q: "q > 0" using assms by (rule less_le_trans [rotated]) simp
  have "- 40 \<le> floor_log2 q + 1"
  proof (rule ccontr)
    assume "\<not> - 40 \<le> floor_log2 q + 1"
    then have "power_int 2 (floor_log2 q + 1) \<le> (power_int 2 (- 40) :: rat)" by (intro power_int_increasing) simp_all
    also have "\<dots> = 1 / 2 ^ 40" by (simp add: power_int_def power_one_over)
    finally show False using floor_log2_bounds(2) [OF q] assms by linarith
  qed
  then have e: "max (floor_log2 q - 52) (- 1074) = floor_log2 q - 52" by simp
  let ?u = "power_int 2 (floor_log2 q - 52) :: rat"
  have "round_magnitude q - q = (of_int (round_even (q / ?u)) - q / ?u) * ?u"
    using q by (simp add: round_magnitude_def e Let_def left_diff_distrib)
  then have "\<bar>round_magnitude q - q\<bar> = \<bar>of_int (round_even (q / ?u)) - q / ?u\<bar> * ?u" by (simp add: abs_mult)
  also have "\<dots> \<le> 1 / 2 * ?u" by (rule mult_right_mono [OF round_even_error]) simp
  also have "\<dots> = power_int 2 (floor_log2 q) / 2 ^ 53" by (simp add: power_int_diff)
  also have "\<dots> \<le> q / 2 ^ 53" using floor_log2_bounds(1) [OF q] by (simp add: divide_right_mono)
  finally show ?thesis .
qed

lemma f64_of_error:
  assumes "q \<ge> 1 / 2 ^ 40" "q \<le> 2 ^ 64"
  shows "\<exists>v. f64_of q = Finite v \<and> \<bar>v - q\<bar> \<le> q / 2 ^ 53"
proof -
  have q: "q > 0" using assms(1) by (rule less_le_trans [rotated]) simp
  have "round_magnitude q \<le> 2 ^ 65"
    using abs_le_D1 [OF round_magnitude_error [OF assms(1)]] assms(2) by simp
  also have "\<dots> < 2 ^ 1024" by (rule power_strict_increasing) simp_all
  finally show ?thesis using round_magnitude_error [OF assms(1)] q by (simp add: f64_of_def Let_def not_le [symmetric] del: power_strict_increasing_iff)
qed

lemma sats_roundtrip:
  assumes "unat s < 2 ^ 51"
  shows "btc_rpc_value_to_sats (f64_of (of_nat (unat s) / 100000000)) = Some s"
proof (cases "s = 0")
  case True
  moreover have "\<lfloor>1 / 2 :: rat\<rfloor> = 0" by (simp add: floor_eq_iff)
  ultimately show ?thesis by (simp add: btc_rpc_value_to_sats_def f64_of_def round_magnitude_def Let_def)
next
  case False
  let ?s = "of_nat (unat s) :: rat"
  have "1 \<le> unat s" "unat s \<le> 2 ^ 51 - 1" using False assms by (simp_all add: unat_gt_0 Suc_leI)
  then have "of_nat 1 \<le> ?s" "?s \<le> of_nat (2 ^ 51 - 1)" by (simp_all only: of_nat_le_iff)
  then have s1: "1 \<le> ?s" "?s \<le> 2251799813685247" by simp_all
  obtain x where x: "f64_of (?s / 100000000) = Finite x" "\<bar>x - ?s / 100000000\<bar> \<le> ?s / 100000000 / 2 ^ 53"
  proof -
    have "1 / 2 ^ 40 \<le> ?s / 100000000" "?s / 100000000 \<le> 2 ^ 64" using s1 by simp_all
    then show ?thesis using f64_of_error that by blast
  qed
  have near: "\<bar>x * 100000000 - ?s\<bar> \<le> ?s / 2 ^ 53" using x(2) by (simp add: abs_le_iff field_simps)
  note nears = abs_le_D1 [OF near] abs_le_D2 [OF near]
  then have big: "x * 100000000 \<ge> 1 / 2" "x * 100000000 \<le> 2 ^ 52" using s1 by simp_all
  obtain y where y: "f64_of (x * 100000000) = Finite y" "\<bar>y - x * 100000000\<bar> \<le> x * 100000000 / 2 ^ 53"
  proof -
    have "1 / 2 ^ 40 \<le> x * 100000000" "x * 100000000 \<le> 2 ^ 64" using big by simp_all
    then show ?thesis using f64_of_error that by blast
  qed
  have "y - ?s < 1 / 2" "?s - y < 1 / 2" using nears abs_le_D1 [OF y(2)] abs_le_D2 [OF y(2)] s1 by simp_all
  then have "\<lfloor>y + 1 / 2\<rfloor> = int (unat s)" by (simp add: floor_eq_iff)
  moreover have "\<not> x < 0" using big(1) by simp
  moreover have "int (unat s) < 2 ^ 51" using assms by (simp only: of_nat_less_iff [symmetric, where 'a = int] of_nat_power of_nat_numeral)
  ultimately show ?thesis using x(1) y(1) by (simp add: btc_rpc_value_to_sats_def Let_def min_def)
qed

end
