(* ===== verification/Parent_Rpc.thy ===== *)
theory Parent_Rpc
  imports Parent_Float
begin

text \<open>
  The client of a parent chain's node (\<^verbatim>\<open>src/lib/parent_chain_rpc.rs\<close>): its calls, the search for a payment,
  and the file with the configured nodes. What a node answers to a method is a parameter; of a JSON value a record or
  an option has the fields that the client reads.
\<close>

section \<open>Calls\<close>

record RpcConfig =
  url :: string
  rpc_user :: string
  password :: string

record RpcError =
  code :: int
  message :: string

datatype ParentRpcError =
  RpcHttp
| RpcJson
| RpcFailed int string
| InvalidResponse
| TransactionNotFound
| ChainMismatch ParentChainType string
| UnsupportedL1Config

type_synonym 'a rres = "ParentRpcError + 'a"

record 'a RpcResponse =
  rpc_result :: "'a option"
  rpc_error :: "RpcError option"

text \<open>No answer, an answer that is not of the expected form, or a response.\<close>

datatype 'a reply = NoReply | BadReply | Reply "'a RpcResponse"

definition call :: "'a reply \<Rightarrow> 'a rres" where
  "call r =
     (case r of
        NoReply \<Rightarrow> Inl RpcHttp
      | BadReply \<Rightarrow> Inl RpcJson
      | Reply resp \<Rightarrow>
          (case rpc_error resp of
             Some e \<Rightarrow> Inl (RpcFailed (code e) (message e))
           | None \<Rightarrow> ok_or InvalidResponse (rpc_result resp)))"

record ScriptPubKey =
  sp_address :: "string option"
  sp_addresses :: "string list option"

record Vout =
  vo_value :: f64
  script_pub_key :: ScriptPubKey

record Vin =
  vi_txid :: "string option"
  vi_vout :: "u32 option"

text \<open>A transaction as the node reports it; the observation of swaps reads the first fields only.\<close>

record L1Transaction = TransactionInfo +
  vout :: "Vout list"
  vin :: "Vin list"

text \<open>
  The answers of the node at a configuration: a transaction, the \<open>txid\<close> of each unspent output of an address when it
  is a string, and \<open>blocks\<close> and \<open>chain\<close> of the chain's info when they are a number and a string.
\<close>

record l1_nodes =
  getrawtransaction :: "RpcConfig \<Rightarrow> string \<Rightarrow> L1Transaction reply"
  listunspent :: "RpcConfig \<Rightarrow> string \<Rightarrow> string option list reply"
  getblockchaininfo :: "RpcConfig \<Rightarrow> (u64 option \<times> string option) reply"

definition get_transaction :: "l1_nodes \<Rightarrow> RpcConfig \<Rightarrow> string \<Rightarrow> L1Transaction rres" where
  "get_transaction N cfg t = call (getrawtransaction N cfg t)"

definition get_transaction_confirmations :: "l1_nodes \<Rightarrow> RpcConfig \<Rightarrow> string \<Rightarrow> u32 rres" where
  "get_transaction_confirmations N cfg t = and_then (get_transaction N cfg t) (\<lambda>tx. Inr (ti_confirmations tx))"

text \<open>\<open>order\<close> is the iteration order of the hash set.\<close>

definition list_transactions :: "(string fset \<Rightarrow> string list) \<Rightarrow> l1_nodes \<Rightarrow> RpcConfig \<Rightarrow> string \<Rightarrow> string list rres" where
  "list_transactions order N cfg addr =
     and_then (call (listunspent N cfg addr)) (\<lambda>unspent.
     Inr (order (fset_of_list (List.map_filter id unspent))))"

definition get_block_height :: "l1_nodes \<Rightarrow> RpcConfig \<Rightarrow> u32 rres" where
  "get_block_height N cfg =
     and_then (call (getblockchaininfo N cfg)) (\<lambda>(blocks, _). and_then (ok_or InvalidResponse blocks) (\<lambda>k. Inr (ucast k)))"

text \<open>\<open>str::to_lowercase\<close> on the names of chains, which are ASCII.\<close>

definition to_lowercase :: "string \<Rightarrow> string" where
  "to_lowercase = map (\<lambda>c. if 65 \<le> (of_char c :: nat) \<and> of_char c \<le> (90 :: nat) then char_of (of_char c + 32 :: nat) else c)"

definition get_blockchain_chain_name :: "l1_nodes \<Rightarrow> RpcConfig \<Rightarrow> string rres" where
  "get_blockchain_chain_name N cfg =
     and_then (call (getblockchaininfo N cfg)) (\<lambda>(_, chain). and_then (ok_or InvalidResponse chain) (\<lambda>c. Inr (to_lowercase c)))"

section \<open>Payments\<close>

definition matches_address :: "string \<Rightarrow> ScriptPubKey \<Rightarrow> bool" where
  "matches_address addr spk \<longleftrightarrow>
     (case sp_address spk of Some a \<Rightarrow> a = addr | None \<Rightarrow> False) \<or>
     (case sp_addresses spk of Some as \<Rightarrow> addr \<in> set as | None \<Rightarrow> False)"

definition first_address :: "ScriptPubKey \<Rightarrow> string option" where
  "first_address spk =
     (case sp_address spk of
        Some a \<Rightarrow> Some a
      | None \<Rightarrow> (case sp_addresses spk of Some (a # _) \<Rightarrow> Some a | _ \<Rightarrow> None))"

text \<open>The owner of the output that the first input spends.\<close>

definition sender_address :: "l1_nodes \<Rightarrow> RpcConfig \<Rightarrow> L1Transaction \<Rightarrow> string option" where
  "sender_address N cfg tx =
     (case vin tx of
        [] \<Rightarrow> None
      | i # _ \<Rightarrow>
          (case (vi_txid i, vi_vout i) of
             (Some t, Some k) \<Rightarrow>
               (case get_transaction N cfg t of
                  Inl _ \<Rightarrow> None
                | Inr tx' \<Rightarrow> if unat k < length (vout tx') then first_address (script_pub_key (vout tx' ! unat k)) else None)
           | _ \<Rightarrow> None))"

text \<open>The loop over the outputs ends at the first one that matches.\<close>

fun find_output :: "string \<Rightarrow> u64 \<Rightarrow> Vout list \<Rightarrow> bool" where
  "find_output addr amount [] = False"
| "find_output addr amount (o1 # os) =
     (case btc_rpc_value_to_sats (vo_value o1) of
        None \<Rightarrow> find_output addr amount os
      | Some sats \<Rightarrow> if matches_address addr (script_pub_key o1) \<and> sats = amount then True else find_output addr amount os)"

text \<open>Transactions that cannot be fetched are skipped.\<close>

fun find_payments :: "l1_nodes \<Rightarrow> RpcConfig \<Rightarrow> string \<Rightarrow> u64 \<Rightarrow> string list \<Rightarrow> (string \<times> L1Transaction) list" where
  "find_payments N cfg addr amount [] = []"
| "find_payments N cfg addr amount (t # ts) =
     (case get_transaction N cfg t of
        Inl _ \<Rightarrow> find_payments N cfg addr amount ts
      | Inr tx \<Rightarrow>
          if find_output addr amount (vout tx)
          then (case sender_address N cfg tx of Some a \<Rightarrow> a | None \<Rightarrow> ''unknown'', tx) # find_payments N cfg addr amount ts
          else find_payments N cfg addr amount ts)"

definition find_transactions_by_address_and_amount ::
  "(string fset \<Rightarrow> string list) \<Rightarrow> l1_nodes \<Rightarrow> RpcConfig \<Rightarrow> string \<Rightarrow> u64 \<Rightarrow> (string \<times> L1Transaction) list rres" where
  "find_transactions_by_address_and_amount order N cfg addr amount =
     and_then (list_transactions order N cfg addr) (\<lambda>txids.
     and_then (get_block_height N cfg) (\<lambda>_. Inr (find_payments N cfg addr amount txids)))"

section \<open>The configuration file\<close>

definition supported_l1_configs :: "(ParentChainType \<times> RpcConfig) list" where
  "supported_l1_configs =
     [(Signet, \<lparr>url = ''http://localhost:38332'', rpc_user = ''user'', password = ''password''\<rparr>),
      (BCH, \<lparr>url = ''http://173.230.135.236:28332'', rpc_user = ''user'', password = ''password''\<rparr>)]"

definition supported_l1_parent_chain_types :: "ParentChainType list" where
  "supported_l1_parent_chain_types = [Signet, BCH]"

definition detect_chain_type :: "l1_nodes \<Rightarrow> RpcConfig \<Rightarrow> (ParentChainType \<times> string) rres" where
  "detect_chain_type N cfg =
     and_then (get_blockchain_chain_name N cfg) (\<lambda>chain.
     if chain = ''signet'' then Inr (Signet, chain)
     else if chain = ''testnet4'' \<or> chain = ''test4'' then Inr (BCH, chain)
     else Inl (ChainMismatch Signet chain))"

definition is_supported_l1_config :: "ParentChainType \<Rightarrow> RpcConfig \<Rightarrow> bool" where
  "is_supported_l1_config chain cfg \<longleftrightarrow>
     list_ex (\<lambda>(c, rpc). c = chain \<and> url rpc = url cfg \<and> rpc_user rpc = rpc_user cfg \<and> password rpc = password cfg) supported_l1_configs"

text \<open>
  The file is what it decodes to: \<open>None\<close> when it is missing, unreadable or not of the format. Writing it may fail
  in the file system, which is left out.
\<close>

type_synonym l1_file = "(ParentChainType, RpcConfig) fmap option"

text \<open>Entries that are not supported are dropped; a chain to enable gets its predefined entry.\<close>

definition keep_supported :: "(ParentChainType, RpcConfig) fmap \<Rightarrow> (ParentChainType, RpcConfig) fmap" where
  "keep_supported configs =
     fmfilter (\<lambda>c. case fmlookup configs c of Some cfg \<Rightarrow> is_supported_l1_config c cfg | None \<Rightarrow> False) configs"

definition enable_chain :: "ParentChainType \<Rightarrow> (ParentChainType, RpcConfig) fmap \<Rightarrow> (ParentChainType, RpcConfig) fmap" where
  "enable_chain c configs =
     (case find (\<lambda>(d, _). d = c) supported_l1_configs of Some (_, cfg) \<Rightarrow> fmupd c cfg configs | None \<Rightarrow> configs)"

definition write_l1_config_file :: "ParentChainType list \<Rightarrow> l1_file \<Rightarrow> l1_file" where
  "write_l1_config_file enable file =
     Some (fold enable_chain enable (keep_supported (case file of Some m \<Rightarrow> m | None \<Rightarrow> fmempty)))"

fun validate_entries :: "l1_nodes \<Rightarrow> (ParentChainType \<times> RpcConfig) list \<Rightarrow> unit rres" where
  "validate_entries N [] = Inr ()"
| "validate_entries N ((chain, cfg) # rest) =
     (if \<not> is_supported_l1_config chain cfg then Inl UnsupportedL1Config
      else and_then (detect_chain_type N cfg) (\<lambda>(detected, name).
           if detected \<noteq> chain then Inl (ChainMismatch chain name) else validate_entries N rest))"

definition validate_l1_config_file ::
  "(ParentChainType fset \<Rightarrow> ParentChainType list) \<Rightarrow> l1_nodes \<Rightarrow> l1_file \<Rightarrow> unit rres" where
  "validate_l1_config_file order N file =
     (case file of
        None \<Rightarrow> Inr ()
      | Some configs \<Rightarrow> validate_entries N (map (\<lambda>c. (c, the (fmlookup configs c))) (order (fmdom configs))))"

definition load_rpc_config_from_path :: "l1_file \<Rightarrow> ParentChainType \<Rightarrow> RpcConfig option" where
  "load_rpc_config_from_path file chain = Option.bind file (\<lambda>configs. fmlookup configs chain)"

definition get_rpc_config :: "ParentChainType \<Rightarrow> RpcConfig option" where
  "get_rpc_config chain = None"

text \<open>What the observation of swaps is given: the client of the chain's configured node.\<close>

definition l1_client ::
  "(string fset \<Rightarrow> string list) \<Rightarrow> l1_nodes \<Rightarrow> RpcConfig \<Rightarrow> string \<Rightarrow> u64 \<Rightarrow> (string \<times> TransactionInfo) list option" where
  "l1_client order N cfg addr amount =
     (case find_transactions_by_address_and_amount order N cfg addr amount of
        Inl _ \<Rightarrow> None
      | Inr ms \<Rightarrow> Some (map (\<lambda>(a, tx). (a, TransactionInfo.truncate tx)) ms))"

definition l1_rpc :: "(string fset \<Rightarrow> string list) \<Rightarrow> l1_nodes \<Rightarrow> l1_file \<Rightarrow> rpc" where
  "l1_rpc order N file chain = map_option (l1_client order N) (load_rpc_config_from_path file chain)"

end
