(* ===== verification/Parent_Properties.thy ===== *)
theory Parent_Properties
  imports Parent_Rpc Examples "HOL-Library.Char_ord"
begin

text \<open>
  Theorems about the client of the parent chains, and about the observation of swaps with it.
\<close>

section \<open>Payments that are found\<close>

lemma find_output_iff:
  "find_output addr amount os \<longleftrightarrow>
     (\<exists>v \<in> set os. matches_address addr (script_pub_key v) \<and> btc_rpc_value_to_sats (vo_value v) = Some amount)"
  by (induction os) (auto split: option.splits)

lemma find_payments_mem:
  "(a, tx) \<in> set (find_payments N cfg addr amount ts) \<longleftrightarrow>
     (\<exists>t \<in> set ts. get_transaction N cfg t = Inr tx) \<and> find_output addr amount (vout tx) \<and>
     a = (case sender_address N cfg tx of Some b \<Rightarrow> b | None \<Rightarrow> ''unknown'')"
  by (induction ts) (auto split: sum.splits)

lemma map_filter_id: "x \<in> set (List.map_filter id xs) \<longleftrightarrow> Some x \<in> set xs"
  by (induction xs) (auto simp: List.map_filter_simps split: option.splits)

lemma found_iff:
  assumes "\<And>S. set (order S) = fset S" "find_transactions_by_address_and_amount order N cfg addr amount = Inr ms"
  shows "\<exists>unspent. call (listunspent N cfg addr) = Inr unspent \<and>
    (\<forall>a tx. (a, tx) \<in> set ms \<longleftrightarrow> (\<exists>t. Some t \<in> set unspent \<and> get_transaction N cfg t = Inr tx) \<and>
       (\<exists>v \<in> set (vout tx). matches_address addr (script_pub_key v) \<and> btc_rpc_value_to_sats (vo_value v) = Some amount) \<and>
       a = (case sender_address N cfg tx of Some b \<Rightarrow> b | None \<Rightarrow> ''unknown''))"
proof -
  obtain unspent where unspent: "call (listunspent N cfg addr) = Inr unspent"
    "ms = find_payments N cfg addr amount (order (fset_of_list (List.map_filter id unspent)))"
    using assms(2) by (auto simp: find_transactions_by_address_and_amount_def list_transactions_def res_simps)
  have "t \<in> set (order (fset_of_list (List.map_filter id unspent))) \<longleftrightarrow> Some t \<in> set unspent" for t
    by (simp add: assms(1) fset_of_list.rep_eq map_filter_id)
  then show ?thesis using unspent by (simp add: find_payments_mem find_output_iff) blast
qed

lemma truncate_fields [simp]:
  "ti_txid (TransactionInfo.truncate tx) = ti_txid tx" "ti_confirmations (TransactionInfo.truncate tx) = ti_confirmations tx"
  "ti_blockheight (TransactionInfo.truncate tx) = ti_blockheight tx"
  by (simp_all add: TransactionInfo.defs)

section \<open>Amounts\<close>

text \<open>C25. The parent chain's node reports amounts as floating point numbers of coins. For every amount below
2 to the power of 51 units, which is more than 22 million coins, the nearest floating point number is converted back
to exactly that amount: the two roundings, of the number and of its product with 100 million, do not add up to half
a unit.\<close>

theorem rpc_value_roundtrip:
  assumes "unat sats < 2 ^ 51"
  shows "btc_rpc_value_to_sats (f64_of (of_nat (unat sats) / 100000000)) = Some sats"
  by (rule sats_roundtrip [OF assms])

theorem rpc_value_roundtrip_witness: "btc_rpc_value_to_sats (f64_of (29 / 100)) = Some 29000000"
  using rpc_value_roundtrip [of 29000000] by simp

section \<open>The observation of swaps\<close>

text \<open>C13. The observation of a swap with the client of a node, where the hash set of transactions is iterated in
any order. When it changes the swap, the node lists an unspent output of the recipient's address and reports its
transaction, which pays exactly the amount of the swap to that address in one output, is in a block, and has at least one
and at most the greatest admitted number of confirmations; the new state follows from those confirmations, and a swap
without a recorded transaction gets this one.\<close>

theorem observed_payment_real:
  assumes "\<And>S. set (order S) = fset S" "query_and_update_swap X (l1_client order N cfg) sw bh k s = Inr (Some sw')"
  shows "\<exists>unspent t tx. call (listunspent N cfg (l1_recipient_address sw)) = Inr unspent \<and> Some t \<in> set unspent \<and>
    get_transaction N cfg t = Inr tx \<and>
    (\<exists>v \<in> set (vout tx). matches_address (l1_recipient_address sw) (script_pub_key v) \<and>
       btc_rpc_value_to_sats (vo_value v) = Some (l1_amount sw)) \<and>
    ti_blockheight tx \<noteq> None \<and> 0 < ti_confirmations tx \<and> ti_confirmations tx \<le> max_l1_tx_age_blocks (parent_chain sw) \<and>
    sw_state sw' = confirmed_state (ti_confirmations tx) (required_confirmations sw) \<and>
    (is_zero_txid (l1_txid sw) \<longrightarrow> from_hex_rpc (hex_read X) (ti_txid tx) = Inr (l1_txid sw'))"
proof -
  obtain found where found: "l1_client order N cfg (l1_recipient_address sw) (l1_amount sw) = Some found"
    using assms(2) by (auto simp: query_and_update_swap_def res_simps)
  then obtain ms where ms: "find_transactions_by_address_and_amount order N cfg (l1_recipient_address sw) (l1_amount sw) = Inr ms"
    "found = map (\<lambda>(a, tx). (a, TransactionInfo.truncate tx)) ms"
    by (auto simp: l1_client_def split: sum.splits)
  obtain a ti rest where first: "filter (l1_match_ok sw) found = (a, ti) # rest"
    using assms(2) found by (auto simp: query_and_update_swap_def split: list.splits)
  then have "(a, ti) \<in> set (filter (l1_match_ok sw) found)" by simp
  then have ok: "(a, ti) \<in> set found" "l1_match_ok sw (a, ti)" by simp_all
  then obtain tx where tx: "(a, tx) \<in> set ms" "ti = TransactionInfo.truncate tx" using ms(2) by auto
  have "sw_state sw' = confirmed_state (ti_confirmations ti) (required_confirmations sw) \<and>
      (is_zero_txid (l1_txid sw) \<longrightarrow> from_hex_rpc (hex_read X) (ti_txid ti) = Inr (l1_txid sw'))"
    using assms(2) found first
    by (auto simp: query_and_update_swap_def Let_def update_l1_txid_def set_l1_txid_validation_block_def
        split: sum.splits if_splits option.splits)
  then have new: "sw_state sw' = confirmed_state (ti_confirmations tx) (required_confirmations sw)"
      "is_zero_txid (l1_txid sw) \<longrightarrow> from_hex_rpc (hex_read X) (ti_txid tx) = Inr (l1_txid sw')" using tx(2) by simp_all
  have "ti_blockheight tx \<noteq> None" "0 < ti_confirmations tx" "ti_confirmations tx \<le> max_l1_tx_age_blocks (parent_chain sw)"
    using ok(2) tx(2) by (simp_all add: l1_match_ok_def word_gt_0)
  moreover obtain unspent t where "call (listunspent N cfg (l1_recipient_address sw)) = Inr unspent" "Some t \<in> set unspent"
      "get_transaction N cfg t = Inr tx"
      "\<exists>v \<in> set (vout tx). matches_address (l1_recipient_address sw) (script_pub_key v) \<and>
         btc_rpc_value_to_sats (vo_value v) = Some (l1_amount sw)"
    using found_iff [OF assms(1) ms(1)] tx(1) by metis
  ultimately show ?thesis using new by metis
qed

definition ex_node_tx :: L1Transaction where
  "ex_node_tx = \<lparr>ti_txid = replicate 64 (CHR ''1''), ti_confirmations = 1, ti_blockheight = Some 7,
     vout = [\<lparr>vo_value = f64_of (20 / 100000000), script_pub_key = \<lparr>sp_address = Some ''bcrt1'', sp_addresses = None\<rparr>\<rparr>], vin = []\<rparr>"

definition ex_reply :: "'a \<Rightarrow> 'a reply" where
  "ex_reply x = Reply \<lparr>rpc_result = Some x, rpc_error = None\<rparr>"

definition ex_nodes :: l1_nodes where
  "ex_nodes = \<lparr>getrawtransaction = (\<lambda>_ _. ex_reply ex_node_tx), listunspent = (\<lambda>_ _. ex_reply [Some (ti_txid ex_node_tx)]),
     getblockchaininfo = (\<lambda>_. ex_reply (Some 7, Some ''regtest''))\<rparr>"

definition ex_config :: RpcConfig where
  "ex_config = \<lparr>url = [], rpc_user = [], password = []\<rparr>"

lemma call_reply [simp]: "call (ex_reply x) = Inr x"
  by (simp add: call_def ex_reply_def)

lemma ex_found:
  "l1_client sorted_list_of_fset ex_nodes ex_config ''bcrt1'' 20 = Some [(''unknown'', TransactionInfo.truncate ex_node_tx)]"
proof -
  have "btc_rpc_value_to_sats (f64_of (20 / 100000000)) = Some 20" using sats_roundtrip [of 20] by simp
  then have "find_output ''bcrt1'' 20 (vout ex_node_tx)" by (simp add: ex_node_tx_def matches_address_def)
  then show ?thesis
    by (simp add: l1_client_def find_transactions_by_address_and_amount_def list_transactions_def get_block_height_def ex_nodes_def
        get_transaction_def sender_address_def List.map_filter_simps sorted_list_of_fset.rep_eq fset_of_list.rep_eq)
      (simp add: ex_node_tx_def)
qed

lemma ex_first_match:
  "filter (l1_match_ok ex_swap) [(''unknown'', TransactionInfo.truncate ex_node_tx)] = [(''unknown'', TransactionInfo.truncate ex_node_tx)]"
  by (simp add: l1_match_ok_def) (simp add: ex_node_tx_def)

definition ex_recorded :: SwapTxId where
  "ex_recorded = Hash32 (replicate 32 17)"

lemma ex_node_txid: "from_hex_rpc (hex_read ex_ext) (ti_txid ex_node_tx) = Inr ex_recorded"
  by code_simp

lemma ex_swap_l1: "l1_recipient_address ex_swap = ''bcrt1''" "l1_amount ex_swap = 20" "is_zero_txid (l1_txid ex_swap)"
  by (simp_all add: ex_swap_def Swap_new_def)

theorem observed_payment_real_witness:
  "\<exists>sw'. query_and_update_swap ex_ext (l1_client sorted_list_of_fset ex_nodes ex_config) ex_swap 9 1 ex_swap_state = Inr (Some sw') \<and>
     sw_state sw' = ReadyToClaim"
proof -
  have "get_swap_by_l1_txid Regtest ex_recorded ex_swap_state = None"
    by (simp add: get_swap_by_l1_txid_def ex_swap_state_def ex_recorded_def State_new_def)
  then obtain sw' where sw': "query_and_update_swap ex_ext (l1_client sorted_list_of_fset ex_nodes ex_config) ex_swap 9 1 ex_swap_state = Inr (Some sw')"
    using ex_first_match ex_node_txid by (simp add: query_and_update_swap_def ex_found ex_swap_l1)
  obtain tx where "get_transaction ex_nodes ex_config (ti_txid ex_node_tx) = Inr tx"
      "sw_state sw' = confirmed_state (ti_confirmations tx) (required_confirmations ex_swap)"
    using observed_payment_real [OF _ sw'] by (auto simp: sorted_list_of_fset.rep_eq ex_nodes_def get_transaction_def)
  moreover have "ti_confirmations ex_node_tx = 1" by (simp add: ex_node_tx_def)
  moreover have "get_transaction ex_nodes ex_config t = Inr ex_node_tx" for t by (simp add: ex_nodes_def get_transaction_def)
  ultimately show ?thesis using sw' by (simp add: confirmed_state_def)
qed

text \<open>The observation of one swap, and of all: it always returns, and changes no other swap.\<close>

lemma process_swap_total:
  assumes "codec_ok X"
  shows "\<exists>revs' t. process_swap X rpc h bh sw (revs, s) = Inr (revs', t) \<and>
    (\<forall>k. k \<noteq> sw_id sw \<longrightarrow> get_swap k t = get_swap k s)"
proof -
  let ?skip = "process_swap X rpc h bh sw (revs, s) = Inr (revs, s)"
  consider ?skip
    | r t where "process_swap X rpc h bh sw (revs, s) = Inr (revs @ [r], t)" "expire_swap X sw s = Inr (r, t)"
    | client sw' where "query_and_update_swap X client sw bh h s = Inr (Some sw')"
        "process_swap X rpc h bh sw (revs, s) = and_then (save_swap X sw' s) (\<lambda>s1. Inr (revs, s1))"
  proof -
    obtain r t where ex: "expire_swap X sw s = Inr (r, t)"
      using assms by (simp add: expire_swap_def Let_def save_swap_ok)
    let ?expired = "case expires_at_height sw of Some e \<Rightarrow> e \<le> h | None \<Rightarrow> False"
    consider "\<not> is_open_state (sw_state sw)" | "is_open_state (sw_state sw)" ?expired
      | "is_open_state (sw_state sw)" "\<not> ?expired" by blast
    then show thesis
    proof cases
      case 1
      then show thesis by (intro that(1)) (simp add: process_swap_def)
    next
      case 2
      then show thesis using ex by (intro that(2)) (simp_all add: process_swap_def)
    next
      case 3
      show thesis
      proof (cases "\<exists>get_config client sw'. rpc = Some get_config \<and> get_config (parent_chain sw) = Some client \<and>
          query_and_update_swap X client sw bh h s = Inr (Some sw')")
        case True
        then show thesis using 3 that(3) by (auto simp: process_swap_def)
      next
        case False
        then have "process_swap X rpc h bh sw (revs, s) = Inr (revs, s)"
          using 3 by (auto simp: process_swap_def split: option.splits sum.splits)
        then show thesis by (rule that(1))
      qed
    qed
  qed
  then show ?thesis
  proof cases
    case (2 r t)
    have "get_swap k (fold unlock_output_from_swap ops s) = get_swap k s" for ops k
      by (induction ops arbitrary: s) simp_all
    moreover from 2(2) have "save_swap X (sw\<lparr>sw_state := Cancelled\<rparr>)
        (fold unlock_output_from_swap (swap_outputs (sw_id sw) s) s) = Inr t"
      by (auto simp: expire_swap_def Let_def res_simps)
    ultimately show ?thesis using 2(1) get_swap_save [OF assms] by simp
  next
    case (3 client sw')
    obtain t where t: "save_swap X sw' s = Inr t" using assms by (simp add: save_swap_ok)
    have "sw_id sw' = sw_id sw" using query_result [OF 3(1)] by (auto simp: same_terms_def)
    then show ?thesis using 3(2) t get_swap_save [OF assms t] by simp
  qed simp
qed

lemma process_swaps_total:
  assumes X: "codec_ok X"
  shows "distinct (map sw_id sws) \<Longrightarrow>
    \<exists>revs' t. try_fold (process_swap X rpc h bh) sws (revs, s) = Inr (revs', t) \<and>
      (\<forall>k. k \<notin> sw_id ` set sws \<longrightarrow> get_swap k t = get_swap k s) \<and>
      (\<forall>sw \<in> set sws. \<forall>sw'.
         (\<forall>revs s. \<exists>revs' t. process_swap X rpc h bh sw (revs, s) = Inr (revs', t) \<and> get_swap (sw_id sw) t = Some sw') \<longrightarrow>
         get_swap (sw_id sw) t = Some sw')"
proof (induction sws arbitrary: revs s)
  case (Cons sw sws)
  obtain revs1 s1 where s1: "process_swap X rpc h bh sw (revs, s) = Inr (revs1, s1)"
      "\<And>k. k \<noteq> sw_id sw \<Longrightarrow> get_swap k s1 = get_swap k s"
    using process_swap_total [OF X, of rpc h bh sw revs s] by blast
  have "distinct (map sw_id sws)" using Cons.prems by simp
  from Cons.IH [OF this, of revs1 s1] obtain revs' t where
      t: "try_fold (process_swap X rpc h bh) sws (revs1, s1) = Inr (revs', t)"
      "\<And>k. k \<notin> sw_id ` set sws \<Longrightarrow> get_swap k t = get_swap k s1"
      "\<And>x x'. x \<in> set sws \<Longrightarrow>
         (\<forall>revs s. \<exists>revs' t. process_swap X rpc h bh x (revs, s) = Inr (revs', t) \<and> get_swap (sw_id x) t = Some x') \<Longrightarrow>
         get_swap (sw_id x) t = Some x'"
    by blast
  have own: "get_swap (sw_id sw) t = Some sw'"
    if always: "\<forall>revs s. \<exists>revs' t. process_swap X rpc h bh sw (revs, s) = Inr (revs', t) \<and> get_swap (sw_id sw) t = Some sw'" for sw'
  proof -
    obtain revs2 t2 where "process_swap X rpc h bh sw (revs, s) = Inr (revs2, t2)" "get_swap (sw_id sw) t2 = Some sw'"
      using always by blast
    with s1(1) have "get_swap (sw_id sw) s1 = Some sw'" by simp
    moreover have "sw_id sw \<notin> sw_id ` set sws" using Cons.prems by simp
    ultimately show ?thesis using t(2) by simp
  qed
  have "try_fold (process_swap X rpc h bh) (sw # sws) (revs, s) = Inr (revs', t)" using s1(1) t(1) by simp
  then show ?case using t(2,3) s1(2) own by (intro exI [of _ revs'] exI [of _ t]) auto
qed simp

text \<open>A swap whose confirmations one reported payment completes, whichever transaction the swap has recorded.\<close>

definition completed_by :: "u32 \<Rightarrow> TransactionInfo \<Rightarrow> Swap \<Rightarrow> bool" where
  "completed_by h ti sw \<longleftrightarrow>
     (\<exists>c r. sw_state sw = WaitingConfirmations c r \<and> c < ti_confirmations ti) \<and>
     required_confirmations sw \<le> ti_confirmations ti \<and> \<not> is_zero_txid (l1_txid sw) \<and>
     (\<forall>e. expires_at_height sw = Some e \<longrightarrow> h < e)"

lemma completed_process:
  assumes X: "codec_ok X" and r: "get_config (parent_chain sw) = Some client"
    and found: "client (l1_recipient_address sw) (l1_amount sw) = Some [(sender, ti)]"
      "l1_match_ok sw (sender, ti)" "from_hex_rpc (hex_read X) (ti_txid ti) = Inr t"
    and sw: "completed_by h ti sw"
  shows "\<exists>revs' s'. process_swap X (Some get_config) h bh sw (revs, s) = Inr (revs', s') \<and>
    get_swap (sw_id sw) s' = Some (sw\<lparr>sw_state := ReadyToClaim\<rparr>)"
proof -
  have q: "query_and_update_swap X client sw bh h s = Inr (Some (sw\<lparr>sw_state := ReadyToClaim\<rparr>))"
    using found sw by (auto simp: query_and_update_swap_def completed_by_def confirmed_state_def Let_def)
  obtain s' where s': "save_swap X (sw\<lparr>sw_state := ReadyToClaim\<rparr>) s = Inr s'" using X by (simp add: save_swap_ok)
  have "process_swap X (Some get_config) h bh sw (revs, s) = Inr (revs, s')"
    using sw r q s' by (auto simp: process_swap_def completed_by_def not_le split: option.splits)
  with get_swap_save [OF X s'] show ?thesis by simp
qed

text \<open>C33. One payment can complete two swaps. Two stored swaps, both loaded by the observation and neither
expired, ask for the same amount at the same address of the same chain and wait for confirmations of the payments they
have recorded, which are different ones; the node reports a single payment, in a block and not too old, which is the
transaction that the first swap has recorded, with more confirmations than either swap has and at least as many as either needs.
The observation of the block returns, and afterwards both swaps are ready to claim: the confirmations of a recorded payment
are not looked up by its identifier. Whatever other swaps are stored does not matter.\<close>

theorem one_payment_completes_two_swaps:
  assumes "codec_ok X" "store_ok s" "a \<in> set (load_all_swaps s)" "b \<in> set (load_all_swaps s)" "sw_id a \<noteq> sw_id b"
    and same: "parent_chain b = parent_chain a" "l1_recipient_address b = l1_recipient_address a" "l1_amount b = l1_amount a"
    and node: "get_config (parent_chain a) = Some client"
      "client (l1_recipient_address a) (l1_amount a) = Some [(sender, ti)]" "l1_match_ok a (sender, ti)"
    and paid: "from_hex_rpc (hex_read X) (ti_txid ti) = Inr (l1_txid a)" "l1_txid b \<noteq> l1_txid a"
    and waiting: "completed_by h ti a" "completed_by h ti b"
  shows "\<exists>t. process_coinshift_transactions X (Some get_config) h bh s = Inr t \<and>
    get_swap (sw_id a) t = Some (a\<lparr>sw_state := ReadyToClaim\<rparr>) \<and>
    get_swap (sw_id b) t = Some (b\<lparr>sw_state := ReadyToClaim\<rparr>)"
proof -
  have "l1_match_ok b (sender, ti)" using node(3) same(1) by (simp add: l1_match_ok_def)
  then have both: "\<forall>revs s. \<exists>revs' t. process_swap X (Some get_config) h bh sw (revs, s) = Inr (revs', t) \<and>
      get_swap (sw_id sw) t = Some (sw\<lparr>sw_state := ReadyToClaim\<rparr>)" if "sw \<in> {a, b}" for sw
    using that node same paid(1) waiting by (auto intro!: completed_process [OF assms(1)])
  have "distinct (map sw_id (load_all_swaps s))" by (rule load_all_swaps_stored(1) [OF assms(2)])
  from process_swaps_total [OF assms(1) this, of "Some get_config" h bh "[]" s] obtain revs t where
      t: "try_fold (process_swap X (Some get_config) h bh) (load_all_swaps s) ([], s) = Inr (revs, t)"
      and r: "\<And>sw sw'. sw \<in> set (load_all_swaps s) \<Longrightarrow>
        (\<forall>revs s. \<exists>revs' t. process_swap X (Some get_config) h bh sw (revs, s) = Inr (revs', t) \<and> get_swap (sw_id sw) t = Some sw') \<Longrightarrow>
        get_swap (sw_id sw) t = Some sw'"
    by blast
  have "get_swap (sw_id a) t = Some (a\<lparr>sw_state := ReadyToClaim\<rparr>)" "get_swap (sw_id b) t = Some (b\<lparr>sw_state := ReadyToClaim\<rparr>)"
    using r [OF assms(3) both] r [OF assms(4) both] by simp_all
  moreover have "get_swap k (t\<lparr>expired_swaps := e\<rparr>) = get_swap k t" for k e by (simp add: get_swap_def)
  ultimately show ?thesis using t by (simp add: process_coinshift_transactions_def)
qed

text \<open>
  Two swaps with the same address and amount that have recorded different payments and wait, with one confirmation of
  two; and a node that reports the first payment only, with three confirmations.
\<close>

definition ex_waiting :: "SwapId \<Rightarrow> SwapTxId \<Rightarrow> Swap" where
  "ex_waiting i t = ex_swap\<lparr>sw_id := i, l1_txid := t, required_confirmations := 2, sw_state := WaitingConfirmations 1 2\<rparr>"

definition ex_waiting_state :: "hash256 list State" where
  "ex_waiting_state = ex_swap_state\<lparr>swaps := fmupd 77 (Decodes (ex_waiting 77 ex_recorded))
     (fmupd 78 (Decodes (ex_waiting 78 (Hash32 (replicate 32 3)))) fmempty)\<rparr>"

definition ex_later :: TransactionInfo where
  "ex_later = (TransactionInfo.truncate ex_node_tx)\<lparr>ti_confirmations := 3\<rparr>"

definition ex_later_rpc :: rpc where
  "ex_later_rpc = (\<lambda>_. Some (\<lambda>_ _. Some [(''unknown'', ex_later)]))"

lemma ex_waiting_loaded:
  "load_all_swaps ex_waiting_state = [ex_waiting 77 ex_recorded, ex_waiting 78 (Hash32 (replicate 32 3))]"
proof -
  have "db_iter (swaps ex_waiting_state) =
      [(77, Decodes (ex_waiting 77 ex_recorded)), (78, Decodes (ex_waiting 78 (Hash32 (replicate 32 3))))]"
    by (simp add: ex_waiting_state_def db_iter_def sorted_list_of_fmap_def sorted_list_of_fset_finsert
        sorted_list_of_fset.rep_eq)
  then show ?thesis by (simp add: load_all_swaps_def)
qed

lemma ex_waiting_ok: "store_ok ex_waiting_state"
  by (auto simp: store_ok_def ex_waiting_state_def ex_waiting_def get_swap_def split: if_splits)

theorem one_payment_completes_two_swaps_witness:
  "\<exists>t. process_coinshift_transactions ex_ext (Some ex_later_rpc) 40 0 ex_waiting_state = Inr t \<and>
     map_option sw_state (get_swap 77 t) = Some ReadyToClaim \<and> map_option sw_state (get_swap 78 t) = Some ReadyToClaim"
proof -
  let ?a = "ex_waiting 77 ex_recorded" and ?b = "ex_waiting 78 (Hash32 (replicate 32 3))"
  have "\<exists>t. process_coinshift_transactions ex_ext (Some ex_later_rpc) 40 0 ex_waiting_state = Inr t \<and>
      get_swap (sw_id ?a) t = Some (?a\<lparr>sw_state := ReadyToClaim\<rparr>) \<and> get_swap (sw_id ?b) t = Some (?b\<lparr>sw_state := ReadyToClaim\<rparr>)"
  proof (rule one_payment_completes_two_swaps [OF ex_codec ex_waiting_ok, where ti = ex_later and sender = "''unknown''"])
    have ti: "ti_confirmations ex_later = 3" "ti_txid ex_later = ti_txid ex_node_tx" "ti_blockheight ex_later = Some 7"
      by (simp_all add: ex_later_def TransactionInfo.truncate_def ex_node_tx_def)
    show "completed_by 40 ex_later ?a" "completed_by 40 ex_later ?b"
      by (simp_all add: completed_by_def ex_waiting_def ti ex_recorded_def)
    show "from_hex_rpc (hex_read ex_ext) (ti_txid ex_later) = Inr (l1_txid ?a)"
      using ex_node_txid by (simp add: ti ex_waiting_def)
    show "l1_match_ok ?a (''unknown'', ex_later)" by (simp add: l1_match_ok_def ti ex_waiting_def)
  qed (simp_all add: ex_waiting_loaded ex_later_rpc_def, simp_all add: ex_waiting_def ex_recorded_def)
  then show ?thesis by (auto simp: ex_waiting_def)
qed

section \<open>The configuration file\<close>

lemma find_supported: "find (\<lambda>(d, _). d = c) supported_l1_configs = Some (d, cfg) \<Longrightarrow> d = c \<and> is_supported_l1_config c cfg"
  by (auto simp: is_supported_l1_config_def supported_l1_configs_def split: if_splits)

definition all_supported :: "(ParentChainType, RpcConfig) fmap \<Rightarrow> bool" where
  "all_supported m \<longleftrightarrow> (\<forall>c cfg. fmlookup m c = Some cfg \<longrightarrow> is_supported_l1_config c cfg)"

lemma all_supported_keep: "all_supported (keep_supported m)"
  by (auto simp: all_supported_def keep_supported_def split: if_splits option.splits)

lemma all_supported_enable: "all_supported m \<Longrightarrow> all_supported (fold enable_chain cs m)"
proof (induction cs arbitrary: m)
  case (Cons d cs)
  have "all_supported (enable_chain d m)"
    using Cons.prems find_supported [of d] by (auto simp: all_supported_def enable_chain_def split: option.splits if_splits)
  with Cons.IH show ?case by simp
qed simp

lemma enabled_there:
  assumes "c \<in> set supported_l1_parent_chain_types"
  shows "c \<in> set cs \<or> fmlookup m c \<noteq> None \<Longrightarrow> fmlookup (fold enable_chain cs m) c \<noteq> None"
proof (induction cs arbitrary: m)
  case (Cons d cs)
  have "c = d \<or> fmlookup m c \<noteq> None \<Longrightarrow> fmlookup (enable_chain d m) c \<noteq> None"
    using assms by (auto simp: enable_chain_def supported_l1_configs_def supported_l1_parent_chain_types_def split: option.splits)
  with Cons show ?case by auto
qed simp

text \<open>After the configuration file is written, whatever it held before, every entry that is loaded from it is
one of the predefined ones, and each supported chain that was asked for is there.\<close>

theorem config_written_loads:
  "(\<forall>c cfg. load_rpc_config_from_path (write_l1_config_file enable file) c = Some cfg \<longrightarrow> is_supported_l1_config c cfg) \<and>
   (\<forall>c \<in> set enable \<inter> set supported_l1_parent_chain_types.
      \<exists>cfg. load_rpc_config_from_path (write_l1_config_file enable file) c = Some cfg)"
proof -
  have load: "load_rpc_config_from_path (write_l1_config_file enable file) c =
      fmlookup (fold enable_chain enable (keep_supported (case file of Some m \<Rightarrow> m | None \<Rightarrow> fmempty))) c" for c
    by (simp add: load_rpc_config_from_path_def write_l1_config_file_def)
  show ?thesis
    using all_supported_enable [OF all_supported_keep] enabled_there unfolding load all_supported_def by blast
qed

theorem config_written_loads_witness:
  "\<exists>cfg. load_rpc_config_from_path (write_l1_config_file [BCH] None) BCH = Some cfg \<and> is_supported_l1_config BCH cfg"
  using config_written_loads [of "[BCH]" None] by (auto simp: supported_l1_parent_chain_types_def)

end
