(* ===== verification/Spec2Isabelle.thy ===== *)
theory Spec2Isabelle
  imports Data_Properties Swap_Properties Block_Properties Peg_Properties Archive_Properties Node_Properties Wallet_Properties
    Net_Properties Parent_Properties
begin

text \<open>
  \<^bold>\<open>A verification library for Coinshift.\<close>

  Coinshift is a drivechain sidechain with cross-chain swaps. A sidechain block has a header and a
  body of transactions; the state holds unspent outputs, swaps, locks on escrowed outputs and the
  two-way peg with the mainchain. A swap goes from its creation on the sidechain (outputs escrowed
  and locked), over the observation of a payment on a parent chain (which counts confirmations), to
  a claim that spends the escrow, or to its expiry or cancellation. Blocks and the data of the peg
  are connected and, in a reorganization, disconnected again.

  \<^bold>\<open>Theories, and the code they model\<close> (paths are below \<^verbatim>\<open>src/lib\<close>):

  \<^item> \<open>Prelude\<close>: results with panics (\<open>fault\<close>), checked 64-bit amounts, little- and big-endian bytes,
    tables as finite maps that iterate in key order, and two interfaces as locales:
    \<open>keeps_invariant\<close> (a fallible step keeps an invariant, so does a run of steps) and \<open>undoable\<close>
    (a step has an inverse, so a run is undone by the inverses in reverse order).
  \<^item> \<open>Swap_Types\<close>: \<^verbatim>\<open>types/swap.rs\<close>. \<open>Tx_Types\<close>: \<^verbatim>\<open>types/transaction.rs\<close> and the data types of
    \<^verbatim>\<open>types/mod.rs\<close>; it also has the record \<open>ext\<close> of everything that is not code of the repository
    (hash functions, bincode and borsh codecs, ed25519, the utreexo forest, the Merkle tree builder,
    floating point growth). \<open>Block_Body\<close>: the body functions and the accumulator diff of
    \<^verbatim>\<open>types/mod.rs\<close> and the verification functions of \<^verbatim>\<open>authorization.rs\<close>. \<open>Withdrawal\<close>: the
    bundle functions of \<^verbatim>\<open>types/mod.rs\<close> and \<^verbatim>\<open>state/rollback.rs\<close>.
  \<^item> \<open>State_Store\<close>: the tables of \<^verbatim>\<open>state/mod.rs\<close> as the record \<open>State\<close>, its errors and queries.
    \<open>Swap_Store\<close>: the swap tables, locks and reservations of \<^verbatim>\<open>state/mod.rs\<close>, with the locale
    \<open>lock_table\<close> for what lock, unlock and lookup promise.
    \<open>Swap_Validation\<close>: \<^verbatim>\<open>state/swap.rs\<close> and \<^verbatim>\<open>validate_transaction\<close> of \<^verbatim>\<open>state/mod.rs\<close>.
  \<^item> \<open>Block\<close>: \<^verbatim>\<open>state/block.rs\<close>. \<open>Block_Facts\<close> characterizes accepted blocks, \<open>Block_Connect\<close> shows
    that they connect, \<open>Block_Undo\<close> that disconnection undoes connection.
  \<^item> \<open>Peg_Data\<close>: \<^verbatim>\<open>state/two_way_peg_data.rs\<close>. \<open>Swap_Machine\<close> is the abstract state machine of a
    swap that the observation of parent chains refines; \<open>Peg_Facts\<close>, \<open>Peg_Undo\<close> and \<open>Peg_Bundle\<close>
    treat the sequence tables and expiry, the disconnection of events, and bundle collection.
  \<^item> \<open>Mempool\<close>: \<^verbatim>\<open>mempool.rs\<close>. \<open>Side_Tips\<close>: \<^verbatim>\<open>archive/side_tips/mod.rs\<close>. \<open>Archive\<close>,
    \<open>Archive_Chain\<close> and \<open>Archive_Walk\<close>: \<^verbatim>\<open>archive/mod.rs\<close> and \<^verbatim>\<open>archive/iter.rs\<close>, the tables and
    lookups, the operations that change several of them, and the walks. \<open>Archive_Facts\<close> has the locale
    \<open>chain_store\<close>, what a store of blocks promises to the walks; \<open>Archive_Store\<close> interprets it on the
    sidechain and on the mainchain. \<open>Archive_Invalidate\<close>, \<open>Archive_Iter\<close> and \<open>Archive_Compare\<close> treat
    invalidation, batches and common ancestors with the comparison of tips; \<open>Archive_Machine\<close> is the
    archive as a state machine with its invariant.
  \<^item> \<open>Node\<close>: the part of \<^verbatim>\<open>node/net_task.rs\<close> that connects a block to the state, the archive and the
    mempool, disconnects the tip and reorganizes to another tip. \<open>Mainchain_Task\<close>:
    \<^verbatim>\<open>node/mainchain_task.rs\<close>, requests for mainchain ancestors and the synchronization of the sidechain
    tips. \<open>Node_Ops\<close>: \<^verbatim>\<open>node/mod.rs\<close>, the operations over several components (invalidation, submission of
    transactions and blocks, block templates). \<open>Reconstruct\<close>: \<^verbatim>\<open>reconstruct_swaps_from_blockchain\<close> of
    \<^verbatim>\<open>state/mod.rs\<close>. \<open>Node_Position\<close> follows tip and height through every operation of the state, and the record of deposits
    through a disconnection,
    \<open>Node_Facts\<close> treats one connection and one disconnection, \<open>Node_Reorg\<close> a reorganization, \<open>Task_Facts\<close> the
    mainchain task, templates and the reconstruction; \<open>Node_Machine\<close> is the node as a state machine.
  \<^item> \<open>Wallet\<close>: \<^verbatim>\<open>wallet/mod.rs\<close>, \<^verbatim>\<open>wallet/bip32.rs\<close> and the signing functions of \<^verbatim>\<open>authorization.rs\<close>. The
    record \<open>keys\<close> has what comes from other crates (key derivation, signatures, mnemonics) and what the
    standard library leaves open (the order of an unstable sort and of a hash map). An operation gives its
    result and the wallet it leaves, since every write is committed on its own. \<open>Wallet_Facts\<close> treats coin
    selection, \<open>Wallet_Auth\<close> the address book and signatures, \<open>Wallet_Valid\<close> the transactions that are built,
    with the wallet as a state machine.
  \<^item> \<open>Peer\<close>: \<^verbatim>\<open>net/peer\<close>, the messages between two nodes, the queue of requests and the task of one
    connection, with the bodies that are missing (\<^verbatim>\<open>iter_missing_bodies\<close> of \<^verbatim>\<open>archive/mod.rs\<close>). \<open>Net\<close>:
    \<^verbatim>\<open>types/net.rs\<close> and \<^verbatim>\<open>net/mod.rs\<close>, addresses of peers, active and known peers and dialing. \<open>Net_Task\<close>: the rest of
    \<^verbatim>\<open>node/net_task.rs\<close>, one operation for every item of the task's mailbox; an operation gives its result and the
    task it leaves, since what was written or sent before an error stays. \<open>Peer_Facts\<close> treats missing bodies, the judgement on
    a peer's tip, headers sent and received, and the connection as a state machine; \<open>Net_Facts\<close> shows what the net
    task keeps of the node and which headers it stores.
  \<^item> \<open>Parent_Float\<close>: 64-bit floating point numbers with rounding to the nearest, and the conversion of amounts of
    \<^verbatim>\<open>parent_chain_rpc.rs\<close>. \<open>Parent_Rpc\<close>: the client of that file, the search for payments and the file of configured
    nodes; \<open>l1_rpc\<close> is what the observation of swaps in \<open>Peg_Data\<close> is given as its parameter.
  \<^item> \<open>Examples\<close>, \<open>Archive_Examples\<close> and \<open>Node_Examples\<close> have concrete states for the witnesses;
    \<open>Data_Properties\<close>, \<open>Swap_Properties\<close>, \<open>Block_Properties\<close>, \<open>Peg_Properties\<close>, \<open>Archive_Properties\<close>,
    \<open>Node_Properties\<close>, \<open>Wallet_Properties\<close>, \<open>Net_Properties\<close> and \<open>Parent_Properties\<close> state the properties.

  \<^bold>\<open>Conventions.\<close> A function that returns \<^verbatim>\<open>Result\<close> returns a sum, \<open>Inl (Fail e)\<close> for an error and
  \<open>Inl (Panic m)\<close> where the code panics; a write transaction that ends in an error is aborted by
  its caller, so a state is only returned with \<open>Inr\<close>. A table is a finite map, and iteration is in
  the order of the keys' bytes. Machine integers keep their width; amounts are 64-bit words with
  checked operations. Loops over tables and lists are folds. A loop that walks up the headers may
  run forever on tables with a cycle; it is a partial function into \<open>option\<close>, and the properties show
  that it returns on every archive that the operations reach. No definition has a fuel argument.

  \<^bold>\<open>What is shown.\<close> Validation: the rules of creations, acceptances and claims are characterized
  exactly, both block validators accept the same blocks, and an accepted block creates no value.
  Connection: a prevalidated block connects without error or panic unless it has a claim of an open swap
  that names no claimer, and disconnecting restores the state and applies the opposite accumulator
  diff; likewise for the events of the peg and for expired swaps. The observation of swaps takes only steps
  of their state machine and keeps the conditions it needs. Bundles pay each mainchain address what the
  withdrawals they spend ask for there, and respect the weight limit. The swap tables keep their indexes. Archive: the invariant of the chain
  tables is kept by every operation, and on it the fast lookups of ancestors, the binary search for common
  ancestors, the batched iterators and the comparison of tips agree with walks of single steps;
  invalidation removes exactly a block and its descendants. Mempool: deletion and the regeneration
  of proofs remove exactly the dependent transactions. Node: in every node that the operations reach,
  the archive and the state agree on the tip, its height and its accumulator; a reorganization rewinds
  to the common ancestor, applies the blocks above it and commits only chains that are better than the
  old one; the synchronization ends at the requested mainchain block; templates have valid
  transactions that do not conflict. Wallet: coin selection takes the smallest coins and no more than
  needed; the payments, swap creations, acceptances and claims that it builds and signs pass the validation of
  the state; the address book has exactly the derived addresses, and recovery finds every used address within the
  gap limit. Peers: a tip of a peer is reported as ready only when what the peer says of it is right and its bodies are
  stored, and the judgement on it agrees with the comparison of tips; the headers that a node sends are accepted by
  the node that asked for them, and only headers that answer the request are stored; whatever peers send, the net task keeps
  the archive and the state in step. Parent chains: a swap advances only when the node reports a transaction that pays its exact
  amount to its address; amounts below 2 to the power of 51 survive the conversion from floating point. Some theorems state behaviour that
  is probably not intended, such as a claim that spends escrow of a cancelled swap, a tip that cannot
  be disconnected because its parent applied a deposit, a tip that is kept although its mainchain block is gone, a
  block that is asked for only once, or a payment that completes a second swap, which has recorded another one.

  \<^bold>\<open>Write transactions.\<close> \<open>reorg_to_tip\<close> works in several write transactions; \<open>apply_blocks\<close> carries the
  node it works on and the node that was last committed, and an error leaves the latter. The operations of
  \<open>Node_Ops\<close> return what is committed beside their result where an error leaves a partial effect.

  \<^bold>\<open>Not modelled\<close>: the QUIC transport with its channel pool, rate limiter and timeouts, the merging of channels into the
  mailboxes of the tasks, the HTTP client and JSON decoder behind the parent chains' client, the conversions of protobuf messages and
  the applications. Statements that only log, watch channels, progress counters and the
  serialization code are left out everywhere; storage errors of LMDB do not occur in the model.
\<close>

end
